(* ===== verification/Prelude.thy ===== *)
theory Prelude
  imports Main
begin

text \<open>
  What every component of the development shares: the JavaScript primitives the TypeScript
  code uses (truthiness, \<open>??\<close>, \<open>trim\<close>, \<open>startsWith\<close>, \<open>findIndex\<close>, array slicing), with the
  lemmas about them, the type of thrown values, and the named theorem collections.

  Strings are \<open>char list\<close>, one \<open>char\<close> per UTF-16 code unit below 256; nothing in the modelled
  code looks at code units above that range. \<open>null\<close> and \<open>undefined\<close> are both \<open>None\<close> where the
  code does not tell them apart.
\<close>

section \<open>Theorem collections\<close>

named_theorems inv_intros \<open>introduction rules of the components' invariants\<close>
named_theorems op_simps \<open>unfolding of the small operations a component's proofs evaluate\<close>

section \<open>Thrown values\<close>

text \<open>
  A rejected promise or a thrown value: an \<open>Error\<close> with its message, or some other value with
  what \<open>String(err)\<close> makes of it.
\<close>

datatype js_exn = JsError string | JsThrown string

type_synonym 'a js_result = "js_exn + 'a"

primrec exn_message :: "js_exn \<Rightarrow> string" where
  "exn_message (JsError m) = m"
| "exn_message (JsThrown s) = s"

primrec exn_message_or :: "js_exn \<Rightarrow> string \<Rightarrow> string" where
  "exn_message_or (JsError m) _ = m"
| "exn_message_or (JsThrown _) d = d"

text \<open>\<open>await p.catch(() => d)\<close>\<close>

primrec catch_with :: "'a \<Rightarrow> 'a js_result \<Rightarrow> 'a" where
  "catch_with d (Inl _) = d"
| "catch_with _ (Inr a) = a"

section \<open>Truthiness and null coalescing\<close>

abbreviation nullish_or :: "'a option \<Rightarrow> 'a \<Rightarrow> 'a" where
  "nullish_or x d \<equiv> (case x of None \<Rightarrow> d | Some v \<Rightarrow> v)"

abbreviation nullish_orelse :: "'a option \<Rightarrow> 'a option \<Rightarrow> 'a option" where
  "nullish_orelse x y \<equiv> (case x of None \<Rightarrow> y | Some v \<Rightarrow> Some v)"

text \<open>A string is falsy when it is empty; a nullable string also when it is \<open>null\<close>.\<close>

fun truthy :: "string option \<Rightarrow> bool" where
  "truthy None = False"
| "truthy (Some s) = (s \<noteq> [])"

definition str_or :: "string \<Rightarrow> string \<Rightarrow> string" where
  "str_or a b = (if a = [] then b else a)"

definition nonempty_or_undefined :: "string \<Rightarrow> string option" where
  "nonempty_or_undefined s = (if s = [] then None else Some s)"

lemma truthy_Some_conv: "truthy x \<longleftrightarrow> (\<exists>s. x = Some s \<and> s \<noteq> [])"
  by (cases x) auto

section \<open>Strings\<close>

text \<open>The white space and line terminators \<open>String.prototype.trim\<close> removes, below 256.\<close>

definition js_space :: "char \<Rightarrow> bool" where
  "js_space c = (c \<in> {CHR 0x09, CHR 0x0A, CHR 0x0B, CHR 0x0C, CHR 0x0D, CHR 0x20, CHR 0xA0})"

definition js_trim :: "string \<Rightarrow> string" where
  "js_trim s = rev (dropWhile js_space (rev (dropWhile js_space s)))"

fun starts_with :: "string \<Rightarrow> string \<Rightarrow> bool" where
  "starts_with [] _ = True"
| "starts_with (_ # _) [] = False"
| "starts_with (p # ps) (c # cs) = (p = c \<and> starts_with ps cs)"

lemma starts_with_append: "starts_with p s \<longleftrightarrow> (\<exists>t. s = p @ t)"
  by (induction p s rule: starts_with.induct) auto

text \<open>\<open>String.prototype.includes\<close>\<close>

fun includes_text :: "string \<Rightarrow> string \<Rightarrow> bool" where
  "includes_text p [] = (p = [])"
| "includes_text p (c # cs) = (starts_with p (c # cs) \<or> includes_text p cs)"

lemma dropWhile_hd_fails: "xs = [] \<or> \<not> P (hd xs) \<Longrightarrow> dropWhile P xs = xs"
  by (cases xs) auto

lemma js_trim_first: "js_trim s \<noteq> [] \<Longrightarrow> \<not> js_space (hd (js_trim s))"
proof -
  let ?a = "dropWhile js_space s"
  assume ne: "js_trim s \<noteq> []"
  have "\<exists>zs. rev ?a = zs @ dropWhile js_space (rev ?a)"
    by (metis takeWhile_dropWhile_id)
  then obtain zs where "?a = js_trim s @ rev zs"
    by (metis js_trim_def rev_append rev_swap)
  with ne have "hd (js_trim s) = hd ?a" and "?a \<noteq> []"
    by auto
  then show ?thesis by (metis hd_dropWhile)
qed

lemma js_trim_last: "js_trim s \<noteq> [] \<Longrightarrow> \<not> js_space (last (js_trim s))"
  by (metis hd_dropWhile js_trim_def last_rev rev_is_Nil_conv)

lemma js_trim_idle:
  assumes "s = [] \<or> \<not> js_space (hd s) \<and> \<not> js_space (last s)"
  shows "js_trim s = s"
  using assms by (auto simp: js_trim_def dropWhile_hd_fails hd_rev)

lemma js_trim_idem [simp]: "js_trim (js_trim s) = js_trim s"
  using js_trim_first js_trim_last js_trim_idle by blast

section \<open>Arrays\<close>

text \<open>\<open>Array.prototype.findIndex\<close>, \<open>-1\<close> when there is none.\<close>

fun find_index :: "('a \<Rightarrow> bool) \<Rightarrow> 'a list \<Rightarrow> int" where
  "find_index _ [] = -1"
| "find_index P (x # xs) =
     (if P x then 0 else let i = find_index P xs in if i < 0 then -1 else i + 1)"

lemma find_index_ge: "-1 \<le> find_index P xs"
  by (induction xs) (auto simp: Let_def)

lemma find_index_neg_iff: "find_index P xs < 0 \<longleftrightarrow> (\<forall>x \<in> set xs. \<not> P x)"
  by (induction xs) (auto simp: Let_def)

lemma find_index_minus1_iff: "find_index P xs = -1 \<longleftrightarrow> (\<forall>x \<in> set xs. \<not> P x)"
  using find_index_ge [of P xs] find_index_neg_iff [of P xs] by linarith

lemma find_index_bound: "find_index P xs < int (length xs) \<or> xs = []"
  by (induction xs) (auto simp: Let_def)

lemma find_index_nth:
  assumes "0 \<le> find_index P xs"
  shows "nat (find_index P xs) < length xs \<and> P (xs ! nat (find_index P xs))
     \<and> (\<forall>j < nat (find_index P xs). \<not> P (xs ! j))"
  using assms
proof (induction xs)
  case Nil
  then show ?case by simp
next
  case (Cons x xs)
  show ?case
  proof (cases "P x")
    case True
    then show ?thesis by simp
  next
    case False
    with Cons.prems have ge: "0 \<le> find_index P xs"
      by (auto simp: Let_def split: if_splits)
    then have e: "nat (find_index P (x # xs)) = Suc (nat (find_index P xs))"
      using False by (auto simp: Let_def nat_add_distrib)
    show ?thesis
      using Cons.IH [OF ge] False unfolding e by (auto simp: less_Suc_eq_0_disj)
  qed
qed

text \<open>
  \<open>xs.slice(a, b)\<close>, \<open>xs.slice(a)\<close> and \<open>xs.splice\<close> for the index arguments the code passes,
  negative ones counting from the end as in JavaScript.
\<close>

definition clamp_index :: "nat \<Rightarrow> int \<Rightarrow> nat" where
  "clamp_index n i = (if i < 0 then nat (int n + i) else min n (nat i))"

definition js_slice :: "int \<Rightarrow> int \<Rightarrow> 'a list \<Rightarrow> 'a list" where
  "js_slice a b xs =
     (let n = length xs; i = clamp_index n a; j = clamp_index n b in take (j - i) (drop i xs))"

definition js_slice_from :: "int \<Rightarrow> 'a list \<Rightarrow> 'a list" where
  "js_slice_from a xs = drop (clamp_index (length xs) a) xs"

lemma js_slice_prefix [simp]: "0 \<le> b \<Longrightarrow> js_slice 0 b xs = take (nat b) xs"
  by (simp add: js_slice_def clamp_index_def Let_def min_def)

lemma js_slice_from_nonneg [simp]: "0 \<le> a \<Longrightarrow> js_slice_from a xs = drop (nat a) xs"
  by (simp add: js_slice_from_def clamp_index_def min_def)

lemma js_slice_nonneg: "0 \<le> a \<Longrightarrow> a \<le> b \<Longrightarrow>
    js_slice a b xs = take (nat b - nat a) (drop (nat a) xs)"
  by (auto simp: js_slice_def clamp_index_def Let_def min_def)

lemma set_js_slice: "set (js_slice a b xs) \<subseteq> set xs"
  by (auto simp: js_slice_def Let_def dest: in_set_takeD in_set_dropD)

lemma length_js_slice_le: "length (js_slice a b xs) \<le> length xs"
  by (simp add: js_slice_def Let_def)

lemma find_SomeD: "List.find P xs = Some x \<Longrightarrow> x \<in> set xs \<and> P x"
  by (induction xs) (auto split: if_splits)

lemma find_None_iff_all: "List.find P xs = None \<longleftrightarrow> (\<forall>x \<in> set xs. \<not> P x)"
  by (induction xs) auto

lemma map_of_rev_distinct: "distinct (map fst xs) \<Longrightarrow> map_of (rev xs) = map_of xs"
  using map_of_inject_set [of "rev xs" xs] by (simp add: rev_map [symmetric])

lemma option_eqI: "(\<And>v. x = Some v \<longleftrightarrow> y = Some v) \<Longrightarrow> x = y"
  by (cases x; cases y) auto

section \<open>Numbers as text\<close>

fun nat_text :: "nat \<Rightarrow> string" where
  "nat_text n = (if n < 10 then [char_of (48 + n)] else nat_text (n div 10) @ [char_of (48 + n mod 10)])"

declare nat_text.simps [simp del]

end
