(* ===== verification/PeerAddr.thy ===== *)
theory PeerAddr
  imports Prelude
begin

text \<open>
  \<open>lib/haruspex/ts/src/share/peer-addr.ts\<close>: classification and normalisation of the strings that
  address a peer, either a p2p node (a 64-hex node id or a json endpoint blob) or an http base url.

  \<open>JSON.parse\<close> and the \<open>URL\<close> constructor are the platform's: the record \<open>platform\<close> carries
  them, the first answering the parsed value or \<open>None\<close> when it throws, the second whether
  \<open>new URL(s)\<close> succeeds. Every theorem holds for whatever they answer.
\<close>

section \<open>The platform\<close>

datatype json =
    JNull
  | JBool bool
  | JNum string \<comment> \<open>its literal\<close>
  | JStr string
  | JArr "json list"
  | JObj "(string \<times> json) list" \<comment> \<open>members in source order\<close>

record platform =
  json_parse :: "string \<Rightarrow> json option"
  url_valid :: "string \<Rightarrow> bool"

text \<open>\<open>typeof parsed?.k === "string"\<close> with the field's value; a repeated member's last value wins.\<close>

definition json_string_field :: "string \<Rightarrow> json \<Rightarrow> string option" where
  "json_string_field k v =
     (case v of
        JObj ms \<Rightarrow> (case map_of (rev ms) k of Some (JStr s) \<Rightarrow> Some s | _ \<Rightarrow> None)
      | _ \<Rightarrow> None)"

section \<open>Node ids\<close>

definition hex_digit :: "char \<Rightarrow> bool" where
  "hex_digit c = (c \<in> set ''0123456789abcdefABCDEF'')"

definition NODE_ID_RE :: "string \<Rightarrow> bool" where
  "NODE_ID_RE s = (length s = 64 \<and> list_all hex_digit s)"

definition isValidNodeId :: "string \<Rightarrow> bool" where
  "isValidNodeId v = NODE_ID_RE (js_trim v)"

definition extractNodeId :: "platform \<Rightarrow> string \<Rightarrow> string" where
  "extractNodeId env peer_addr =
     (let trimmed = js_trim peer_addr in
      if NODE_ID_RE trimmed then trimmed
      else case json_parse env trimmed of
        None \<Rightarrow> peer_addr
      | Some parsed \<Rightarrow>
          (case json_string_field ''node_id'' parsed of
             Some n \<Rightarrow> n
           | None \<Rightarrow>
               (case json_string_field ''id'' parsed of
                  Some n \<Rightarrow> n
                | None \<Rightarrow> peer_addr)))"

definition extractNodeIdStrict :: "platform \<Rightarrow> string \<Rightarrow> string option" where
  "extractNodeIdStrict env peer_addr =
     (let nid = extractNodeId env peer_addr in if NODE_ID_RE nid then Some nid else None)"

section \<open>Targets\<close>

datatype peer_target = P2p string | Http string

datatype url_scheme = SchemeHttp | SchemeHttps

primrec scheme_text :: "url_scheme \<Rightarrow> string" where
  "scheme_text SchemeHttp = ''http''"
| "scheme_text SchemeHttps = ''https''"

definition has_http_scheme :: "string \<Rightarrow> bool" where
  "has_http_scheme s = (starts_with ''http://'' s \<or> starts_with ''https://'' s)"

text \<open>\<open>url.replace(/\/+$/, "")\<close>\<close>

definition strip_slashes :: "string \<Rightarrow> string" where
  "strip_slashes s = rev (dropWhile (\<lambda>c. c = CHR ''/'') (rev s))"

definition is_endpoint_json :: "platform \<Rightarrow> string \<Rightarrow> bool" where
  "is_endpoint_json env s =
     (starts_with ''{'' s \<and>
      (case json_parse env s of
         None \<Rightarrow> False
       | Some parsed \<Rightarrow>
           json_string_field ''id'' parsed \<noteq> None \<or> json_string_field ''node_id'' parsed \<noteq> None))"

definition parsePeerAddress :: "platform \<Rightarrow> url_scheme \<Rightarrow> string \<Rightarrow> peer_target option" where
  "parsePeerAddress env defaultScheme input =
     (let trimmed = js_trim input in
      if trimmed = [] then None
      else if NODE_ID_RE trimmed then Some (P2p trimmed)
      else if is_endpoint_json env trimmed then Some (P2p trimmed)
      else
        let url = (if has_http_scheme trimmed then trimmed
                   else scheme_text defaultScheme @ ''://'' @ trimmed)
        in Some (Http (strip_slashes url)))"

section \<open>Facts\<close>

lemma strip_slashes_idle: "s = [] \<or> last s \<noteq> CHR ''/'' \<Longrightarrow> strip_slashes s = s"
  by (auto simp: strip_slashes_def dropWhile_hd_fails hd_rev)

lemma strip_slashes_last: "strip_slashes s \<noteq> [] \<Longrightarrow> last (strip_slashes s) \<noteq> CHR ''/''"
  by (metis (mono_tags, lifting) hd_dropWhile last_rev rev_is_Nil_conv strip_slashes_def)

lemma strip_slashes_idem [simp]: "strip_slashes (strip_slashes s) = strip_slashes s"
  using strip_slashes_idle strip_slashes_last by blast

lemma parse_None_iff: "parsePeerAddress env sch input = None \<longleftrightarrow> js_trim input = []"
  by (auto simp: parsePeerAddress_def Let_def)

lemma parse_P2p_iff: "parsePeerAddress env sch input = Some (P2p a) \<longleftrightarrow>
    a = js_trim input \<and> a \<noteq> [] \<and> (NODE_ID_RE a \<or> is_endpoint_json env a)"
  by (auto simp: parsePeerAddress_def Let_def)

lemma parse_HttpD: "parsePeerAddress env sch input = Some (Http u) \<Longrightarrow>
    \<exists>v. u = strip_slashes v \<and> has_http_scheme v"
  by (cases sch)
     (fastforce simp: parsePeerAddress_def Let_def has_http_scheme_def split: if_splits)+

lemma NODE_ID_RE_no_slash: "NODE_ID_RE s \<Longrightarrow> CHR ''/'' \<notin> set s"
  by (auto simp: NODE_ID_RE_def list_all_iff hex_digit_def)

lemma has_http_scheme_not_node_id: "has_http_scheme s \<Longrightarrow> \<not> NODE_ID_RE s"
  by (auto simp: has_http_scheme_def starts_with_append dest: NODE_ID_RE_no_slash)

lemma has_http_scheme_not_json: "has_http_scheme s \<Longrightarrow> \<not> is_endpoint_json env s"
  by (auto simp: has_http_scheme_def starts_with_append is_endpoint_json_def)

end
