(* ===== verification/AddPeerTypes.thy ===== *)
theory AddPeerTypes
  imports PeerAddr
begin

text \<open>
  The data of the add-peer flow, \<open>lib/haruspex/ts/src/flows/add-peer/types.ts\<close>: the persisted
  pending record, what a peer reports about itself, the public states, the events (ui events and
  outcomes of asynchronous effects) and the effect descriptors the machine emits.
  An optional field and a nullable field are both an \<open>option\<close>.
\<close>

section \<open>Records\<close>

datatype pending_stage = Testing | Connected | Failed | KnockPending | KnockAccepted | KnockRejected

record pending_remote =
  pr_id :: string
  pr_peer_addr :: string
  pr_transport :: string
  pr_stage :: pending_stage
  pr_server_name :: "string option"
  pr_server_description :: "string option"
  pr_server_version :: "string option"
  pr_server_image_data :: "string option"
  pr_server_image_type :: "string option"
  pr_knock_username :: "string option"
  pr_knock_message :: "string option"
  pr_error_message :: "string option"

text \<open>
  \<open>Partial<Omit<PendingRemote, "id" | "peer_addr">>\<close>: a field is \<open>None\<close> when the patch leaves it
  out.
\<close>

record pending_patch =
  pp_transport :: "string option"
  pp_stage :: "pending_stage option"
  pp_server_name :: "string option option"
  pp_server_description :: "string option option"
  pp_server_version :: "string option option"
  pp_server_image_data :: "string option option"
  pp_server_image_type :: "string option option"
  pp_knock_username :: "string option option"
  pp_knock_message :: "string option option"
  pp_error_message :: "string option option"

definition no_patch :: pending_patch where
  "no_patch = \<lparr>pp_transport = None, pp_stage = None, pp_server_name = None,
     pp_server_description = None, pp_server_version = None, pp_server_image_data = None,
     pp_server_image_type = None, pp_knock_username = None, pp_knock_message = None,
     pp_error_message = None\<rparr>"

text \<open>\<open>{ ...record, ...patch }\<close>\<close>

definition apply_patch :: "pending_patch \<Rightarrow> 'a pending_remote_scheme \<Rightarrow> 'a pending_remote_scheme" where
  "apply_patch p r =
     r\<lparr>pr_transport := nullish_or (pp_transport p) (pr_transport r),
       pr_stage := nullish_or (pp_stage p) (pr_stage r),
       pr_server_name := nullish_or (pp_server_name p) (pr_server_name r),
       pr_server_description := nullish_or (pp_server_description p) (pr_server_description r),
       pr_server_version := nullish_or (pp_server_version p) (pr_server_version r),
       pr_server_image_data := nullish_or (pp_server_image_data p) (pr_server_image_data r),
       pr_server_image_type := nullish_or (pp_server_image_type p) (pr_server_image_type r),
       pr_knock_username := nullish_or (pp_knock_username p) (pr_knock_username r),
       pr_knock_message := nullish_or (pp_knock_message p) (pr_knock_message r),
       pr_error_message := nullish_or (pp_error_message p) (pr_error_message r)\<rparr>"

record peer_server_info =
  si_name :: string
  si_description :: "string option"
  si_version :: string
  si_image_url :: "string option"
  si_image_blob_id :: "string option"
  si_requires_auth :: bool
  si_knocking_enabled :: "bool option"
  si_passkey_p2p_enabled :: "bool option"
  si_player_device :: "bool option"

abbreviation knocking_enabled :: "peer_server_info \<Rightarrow> bool" where
  "knocking_enabled i \<equiv> si_knocking_enabled i = Some True"

abbreviation player_device :: "peer_server_info \<Rightarrow> bool" where
  "player_device i \<equiv> si_player_device i = Some True"

record saved_remote =
  sr_remote_id :: string
  sr_name :: string
  sr_base_url :: "string option"
  sr_peer_addr :: "string option"

section \<open>States\<close>

datatype sub_step = Input | KnockForm

datatype add_peer_state =
    UrlState sub_step "string option" "pending_remote list" "peer_server_info option" "string option"
      \<comment> \<open>substep, error, pending remotes, server info, peer address\<close>
  | TestingState "string option" "string option" string \<comment> \<open>progress, peer address, url\<close>
  | AuthState "string option" "peer_server_info option" "string option" string
      \<comment> \<open>error, server info, peer address, url\<close>
  | KnockSentState
  | CompleteState "saved_remote option" bool \<comment> \<open>remote, already existed\<close>

section \<open>Events\<close>

datatype connection_outcome =
    AlreadyAuthed peer_server_info
  | NeedsKnock peer_server_info "string option"
  | NeedsAuth peer_server_info
  | ProbeFailed string

text \<open>\<open>outcome.serverInfo\<close> of the three outcomes that carry one.\<close>

fun outcome_info :: "connection_outcome \<Rightarrow> peer_server_info option" where
  "outcome_info (AlreadyAuthed i) = Some i"
| "outcome_info (NeedsKnock i _) = Some i"
| "outcome_info (NeedsAuth i) = Some i"
| "outcome_info (ProbeFailed _) = None"

datatype knock_status_outcome =
    AcceptedAuthed "peer_server_info option"
  | AcceptedNeedsAuth "peer_server_info option"
  | Denied
  | StillPending
  | Unreachable

datatype auth_mode = Login | Register

datatype add_peer_event =
    ModalOpen "string option"
  | ModalClose
  | InputChange string
  | QrScan string
  | SubmitUrl string bool \<comment> \<open>input, intent is "player"\<close>
  | SubmitKnock string string \<comment> \<open>username, message\<close>
  | CancelKnock
  | UseInviteCode
  | RequestAccess
  | PasskeySignin
  | SubmitAuth auth_mode string "string option" \<comment> \<open>mode, username, invite code\<close>
  | PasskeyAuth auth_mode "string option" "string option" \<comment> \<open>mode, username, invite code\<close>
  | Back
  | RetryPending pending_remote
  | DeletePendingEv pending_remote
  | PendingLoaded "pending_remote list"
  | DuplicateResult "saved_remote option"
  | ConnectionResult connection_outcome
  | KnockSentResult bool "string option"
  | KnockStatusResult knock_status_outcome
  | AuthResult bool "string option"
  | RemoteCreated bool "saved_remote option" "string option" \<comment> \<open>ok, remote, error\<close>
  | CompletePeerAddr string
  | TimerFired string

section \<open>Effects\<close>

text \<open>
  \<open>ctx.target!\<close> and \<open>ctx.remote!\<close> assert without a check at run time, so \<open>CHECK_CONNECTION\<close> and
  \<open>CALL_ON_SUCCESS\<close> carry an \<open>option\<close>; that it is never \<open>None\<close> is a theorem about the machine.
\<close>

datatype add_peer_effect =
    LoadPendingRemotes
  | CheckDuplicate peer_target
  | UpsertPending string pending_patch
  | DeletePending string
  | DeletePendingByAddr string
  | CheckConnection "peer_target option"
  | SendKnock string string string \<comment> \<open>peer address, username, message\<close>
  | CheckKnockStatus pending_remote
  | AuthHttp string auth_mode string "string option" \<comment> \<open>url, mode, username, invite code\<close>
  | AuthRedeemInvite string string string \<comment> \<open>peer address, username, invite code\<close>
  | AuthPasskeyRegister string "string option" string \<comment> \<open>peer address, username, invite code\<close>
  | AuthPasskeyLogin peer_target "string option"
  | CreateRemote "string option" string \<comment> \<open>peer address, url\<close>
  | CancelInFlight
  | ScheduleTimer string nat
  | ClearQueryParam
  | CallOnSuccess "saved_remote option"
  | CallOnClose

lemma apply_patch_id [simp]: "pr_id (apply_patch p r) = pr_id r"
  and apply_patch_addr [simp]: "pr_peer_addr (apply_patch p r) = pr_peer_addr r"
  by (simp_all add: apply_patch_def)

lemma apply_patch_stage [simp]: "pr_stage (apply_patch p r) = nullish_or (pp_stage p) (pr_stage r)"
  by (simp add: apply_patch_def)

lemma apply_no_patch [simp]: "apply_patch no_patch r = r"
  by (simp add: apply_patch_def no_patch_def)

end
