(* ===== verification/AddPeerMachine.thy ===== *)
theory AddPeerMachine
  imports AddPeerTypes
begin

text \<open>
  The add-peer flow machine, \<open>lib/haruspex/ts/src/flows/add-peer/machine.ts\<close>: the context, one
  handler per event in the order of the source's \<open>switch\<close>, \<open>transition\<close>, the projection to the
  public state, the contexts reachable from the initial one by any sequence of events, and the
  invariant of those contexts.
\<close>

section \<open>Context\<close>

datatype step = StUrl | StTesting | StAuth | StKnockSent | StComplete

record add_peer_context =
  cx_step :: step
  cx_subStep :: sub_step
  cx_input :: string
  cx_url :: string
  cx_peerAddr :: "string option"
  cx_target :: "peer_target option"
  cx_error :: "string option"
  cx_progress :: "string option"
  cx_serverInfo :: "peer_server_info option"
  cx_pendingRemotes :: "pending_remote list"
  cx_knockDraft :: "(string \<times> string) option"
  cx_retryPending :: "pending_remote option"
  cx_remote :: "saved_remote option"
  cx_existingRemote :: "saved_remote option"
  cx_playerIntent :: bool

definition COMPLETE_DISMISS_MS :: nat where "COMPLETE_DISMISS_MS = 1500"

definition DISMISS_TIMER_ID :: string where "DISMISS_TIMER_ID = ''dismiss''"

definition initialContext :: add_peer_context where
  "initialContext =
     \<lparr>cx_step = StUrl, cx_subStep = Input, cx_input = '''', cx_url = '''', cx_peerAddr = None,
      cx_target = None, cx_error = None, cx_progress = None, cx_serverInfo = None,
      cx_pendingRemotes = [], cx_knockDraft = None, cx_retryPending = None, cx_remote = None,
      cx_existingRemote = None, cx_playerIntent = False\<rparr>"

definition projectState :: "add_peer_context \<Rightarrow> add_peer_state" where
  "projectState ctx =
     (case cx_step ctx of
        StUrl \<Rightarrow> UrlState (cx_subStep ctx) (cx_error ctx) (cx_pendingRemotes ctx)
                   (cx_serverInfo ctx) (cx_peerAddr ctx)
      | StTesting \<Rightarrow> TestingState (cx_progress ctx) (cx_peerAddr ctx) (cx_url ctx)
      | StAuth \<Rightarrow> AuthState (cx_error ctx) (cx_serverInfo ctx) (cx_peerAddr ctx) (cx_url ctx)
      | StKnockSent \<Rightarrow> KnockSentState
      | StComplete \<Rightarrow> CompleteState (cx_remote ctx) (cx_existingRemote ctx \<noteq> None))"

type_synonym transition_result = "add_peer_context \<times> add_peer_effect list"

definition noop :: "add_peer_context \<Rightarrow> transition_result" where
  "noop ctx = (ctx, [])"

definition addrKey :: "add_peer_context \<Rightarrow> string" where
  "addrKey ctx = nullish_or (cx_peerAddr ctx) (cx_url ctx)"

definition toUrlInput :: "add_peer_context \<Rightarrow> string option \<Rightarrow> add_peer_context" where
  "toUrlInput ctx err =
     ctx\<lparr>cx_step := StUrl, cx_subStep := Input, cx_error := err, cx_progress := None\<rparr>"

definition serverInfoPatch :: "peer_server_info option \<Rightarrow> pending_patch" where
  "serverInfoPatch info =
     (case info of
        None \<Rightarrow> no_patch
      | Some i \<Rightarrow> no_patch\<lparr>pp_server_name := Some (Some (si_name i)),
                           pp_server_description := Some (si_description i),
                           pp_server_version := Some (Some (si_version i))\<rparr>)"

definition connected_patch :: "peer_server_info \<Rightarrow> pending_patch" where
  "connected_patch i = (serverInfoPatch (Some i))\<lparr>pp_stage := Some Connected\<rparr>"

fun target_peerAddr :: "peer_target \<Rightarrow> string option" where
  "target_peerAddr (P2p a) = Some a"
| "target_peerAddr (Http _) = None"

fun target_url :: "peer_target \<Rightarrow> string" where
  "target_url (P2p _) = ''''"
| "target_url (Http u) = u"

section \<open>Handlers\<close>

definition on_modal_open :: "string option \<Rightarrow> transition_result" where
  "on_modal_open initialInput =
     (initialContext\<lparr>cx_input := nullish_or initialInput ''''\<rparr>, [LoadPendingRemotes])"

definition on_submit_url :: "platform \<Rightarrow> add_peer_context \<Rightarrow> string \<Rightarrow> bool \<Rightarrow> transition_result" where
  "on_submit_url env ctx input player_intent =
     (if cx_step ctx \<noteq> StUrl then noop ctx
      else case parsePeerAddress env SchemeHttps input of
        None \<Rightarrow> noop (ctx\<lparr>cx_error := Some ''please enter a server url or peer id''\<rparr>)
      | Some target \<Rightarrow>
          (if (case target of Http u \<Rightarrow> \<not> url_valid env u | P2p _ \<Rightarrow> False)
           then noop (ctx\<lparr>cx_error :=
                  Some ''please enter a valid url (e.g. https://music.example.com)''\<rparr>)
           else
             (ctx\<lparr>cx_step := StTesting, cx_input := input, cx_target := Some target,
                  cx_peerAddr := target_peerAddr target, cx_url := target_url target,
                  cx_error := None, cx_progress := None, cx_serverInfo := None,
                  cx_retryPending := None, cx_existingRemote := None,
                  cx_playerIntent := player_intent\<rparr>,
              [CheckDuplicate target])))"

definition duplicate_error :: "saved_remote \<Rightarrow> string" where
  "duplicate_error r = ''this server is already added as '' @ [CHR 0x22] @ sr_name r
     @ [CHR 0x22] @ ''. each server can only be added once.''"

definition on_duplicate_result :: "add_peer_context \<Rightarrow> saved_remote option \<Rightarrow> transition_result" where
  "on_duplicate_result ctx duplicate =
     (if cx_step ctx \<noteq> StTesting then noop ctx
      else case (duplicate, cx_target ctx) of
        (Some d, Some (Http _)) \<Rightarrow> noop (toUrlInput ctx (Some (duplicate_error d)))
      | _ \<Rightarrow>
          (ctx\<lparr>cx_existingRemote := duplicate\<rparr>,
           [UpsertPending (addrKey ctx)
              (no_patch\<lparr>pp_stage := Some Testing, pp_error_message := Some None\<rparr>),
            ClearQueryParam,
            CheckConnection (cx_target ctx)]))"

definition player_to_knock_form :: "add_peer_context \<Rightarrow> connection_outcome \<Rightarrow> peer_server_info \<Rightarrow> bool" where
  "player_to_knock_form ctx outcome i =
     (knocking_enabled i
      \<and> (case outcome of AlreadyAuthed _ \<Rightarrow> False | _ \<Rightarrow> True)
      \<and> \<not> cx_playerIntent ctx
      \<and> cx_existingRemote ctx = None
      \<and> cx_peerAddr ctx \<noteq> None)"

definition on_player_device ::
    "add_peer_context \<Rightarrow> connection_outcome \<Rightarrow> peer_server_info \<Rightarrow> transition_result" where
  "on_player_device ctx outcome i =
     (let toKnockForm = player_to_knock_form ctx outcome i in
      (ctx\<lparr>cx_step := (if toKnockForm then StUrl else StAuth),
           cx_subStep := (if toKnockForm then KnockForm else cx_subStep ctx),
           cx_serverInfo := Some i,
           cx_error := (case outcome of
                          NeedsKnock _ e \<Rightarrow> if toKnockForm then e else None
                        | _ \<Rightarrow> None),
           cx_progress := None\<rparr>,
       [UpsertPending (addrKey ctx) (connected_patch i)]))"

definition on_already_saved :: "add_peer_context \<Rightarrow> transition_result" where
  "on_already_saved ctx =
     (ctx\<lparr>cx_step := StComplete, cx_remote := cx_existingRemote ctx, cx_error := None,
          cx_progress := None\<rparr>,
      [DeletePendingByAddr (addrKey ctx), ScheduleTimer DISMISS_TIMER_ID COMPLETE_DISMISS_MS])"

definition on_outcome_kind :: "add_peer_context \<Rightarrow> connection_outcome \<Rightarrow> transition_result" where
  "on_outcome_kind ctx outcome =
     (case outcome of
        AlreadyAuthed i \<Rightarrow>
          (ctx\<lparr>cx_serverInfo := Some i, cx_progress := Some ''creating remote...''\<rparr>,
           [CreateRemote (cx_peerAddr ctx) (cx_url ctx)])
      | NeedsKnock i e \<Rightarrow>
          (ctx\<lparr>cx_step := StUrl, cx_subStep := KnockForm, cx_serverInfo := Some i,
               cx_error := e, cx_progress := None\<rparr>,
           [UpsertPending (addrKey ctx) (connected_patch i)])
      | NeedsAuth i \<Rightarrow>
          (ctx\<lparr>cx_step := StAuth, cx_serverInfo := Some i, cx_error := None,
               cx_progress := None\<rparr>,
           [UpsertPending (addrKey ctx) (connected_patch i)])
      | ProbeFailed e \<Rightarrow>
          (toUrlInput ctx (Some e),
           [UpsertPending (addrKey ctx)
              (no_patch\<lparr>pp_stage := Some Failed, pp_error_message := Some (Some e)\<rparr>)]))"

definition on_connection_result :: "add_peer_context \<Rightarrow> connection_outcome \<Rightarrow> transition_result" where
  "on_connection_result ctx outcome =
     (if cx_step ctx \<noteq> StTesting then noop ctx
      else case outcome_info outcome of
        None \<Rightarrow> on_outcome_kind ctx outcome
      | Some i \<Rightarrow>
          (if player_device i then on_player_device ctx outcome i
           else if cx_existingRemote ctx \<noteq> None then on_already_saved ctx
           else on_outcome_kind ctx outcome))"

definition on_submit_knock :: "add_peer_context \<Rightarrow> string \<Rightarrow> string \<Rightarrow> transition_result" where
  "on_submit_knock ctx username message =
     (if cx_step ctx \<noteq> StUrl \<or> cx_subStep ctx \<noteq> KnockForm then noop ctx
      else if \<not> truthy (cx_peerAddr ctx)
      then noop (ctx\<lparr>cx_error := Some ''no peer address available''\<rparr>)
      else
        (ctx\<lparr>cx_knockDraft := Some (username, message), cx_error := None\<rparr>,
         [SendKnock (the (cx_peerAddr ctx)) username message]))"

definition on_knock_sent_result :: "add_peer_context \<Rightarrow> bool \<Rightarrow> string option \<Rightarrow> transition_result" where
  "on_knock_sent_result ctx ok err =
     (if cx_step ctx \<noteq> StUrl \<or> cx_subStep ctx \<noteq> KnockForm then noop ctx
      else if \<not> ok
      then noop (ctx\<lparr>cx_error := Some (nullish_or err ''failed to send access request'')\<rparr>)
      else
        (ctx\<lparr>cx_step := StKnockSent, cx_knockDraft := None\<rparr>,
         [UpsertPending (addrKey ctx)
            ((serverInfoPatch (cx_serverInfo ctx))
              \<lparr>pp_stage := Some KnockPending,
               pp_knock_username := Some (map_option fst (cx_knockDraft ctx)),
               pp_knock_message := Some (map_option snd (cx_knockDraft ctx))\<rparr>)]))"

definition on_cancel_knock :: "add_peer_context \<Rightarrow> transition_result" where
  "on_cancel_knock ctx =
     (if cx_step ctx \<noteq> StUrl \<or> cx_subStep ctx \<noteq> KnockForm then noop ctx
      else noop (toUrlInput ctx None))"

definition on_use_invite_code :: "add_peer_context \<Rightarrow> transition_result" where
  "on_use_invite_code ctx =
     (if cx_step ctx \<noteq> StUrl \<or> cx_subStep ctx \<noteq> KnockForm then noop ctx
      else noop (ctx\<lparr>cx_step := StAuth, cx_error := None\<rparr>))"

definition on_request_access :: "add_peer_context \<Rightarrow> transition_result" where
  "on_request_access ctx =
     (if cx_step ctx \<noteq> StAuth \<or> \<not> truthy (cx_peerAddr ctx)
        \<or> \<not> (case cx_serverInfo ctx of None \<Rightarrow> False | Some i \<Rightarrow> knocking_enabled i)
      then noop ctx
      else noop (ctx\<lparr>cx_step := StUrl, cx_subStep := KnockForm, cx_error := None,
                     cx_progress := None\<rparr>))"

definition on_submit_auth ::
    "add_peer_context \<Rightarrow> auth_mode \<Rightarrow> string \<Rightarrow> string option \<Rightarrow> transition_result" where
  "on_submit_auth ctx mode username inviteCode =
     (if cx_step ctx \<noteq> StAuth then noop ctx
      else if truthy (cx_peerAddr ctx) then
        (if mode = Login
         then noop (ctx\<lparr>cx_error := Some
           ''login not yet supported for p2p remotes - please register with an invite code''\<rparr>)
         else if \<not> truthy inviteCode
         then noop (ctx\<lparr>cx_error := Some ''invite code required for p2p registration''\<rparr>)
         else (ctx\<lparr>cx_error := None\<rparr>,
               [AuthRedeemInvite (the (cx_peerAddr ctx)) username (the inviteCode)]))
      else (ctx\<lparr>cx_error := None\<rparr>, [AuthHttp (cx_url ctx) mode username inviteCode]))"

definition trimmed_or_undefined :: "string option \<Rightarrow> string option" where
  "trimmed_or_undefined u =
     (case u of None \<Rightarrow> None | Some s \<Rightarrow> nonempty_or_undefined (js_trim s))"

definition on_passkey_auth ::
    "add_peer_context \<Rightarrow> auth_mode \<Rightarrow> string option \<Rightarrow> string option \<Rightarrow> transition_result" where
  "on_passkey_auth ctx mode username inviteCode =
     (if cx_step ctx \<noteq> StAuth then noop ctx
      else if mode = Register then
        (if \<not> truthy (cx_peerAddr ctx)
         then noop (ctx\<lparr>cx_error := Some ''no peer address available''\<rparr>)
         else case trimmed_or_undefined inviteCode of
           None \<Rightarrow> noop (ctx\<lparr>cx_error :=
             Some ''invite code is required to register a new passkey''\<rparr>)
         | Some code \<Rightarrow>
             (ctx\<lparr>cx_error := None\<rparr>,
              [AuthPasskeyRegister (the (cx_peerAddr ctx)) (trimmed_or_undefined username) code]))
      else
        (ctx\<lparr>cx_error := None\<rparr>,
         [AuthPasskeyLogin (nullish_or (cx_target ctx) (Http (cx_url ctx)))
            (trimmed_or_undefined username)]))"

definition on_auth_result :: "add_peer_context \<Rightarrow> bool \<Rightarrow> string option \<Rightarrow> transition_result" where
  "on_auth_result ctx ok err =
     (if cx_step ctx \<noteq> StAuth then noop ctx
      else if \<not> ok
      then noop (ctx\<lparr>cx_error := Some (nullish_or err ''authentication failed'')\<rparr>)
      else (ctx\<lparr>cx_error := None\<rparr>, [CreateRemote (cx_peerAddr ctx) (cx_url ctx)]))"

definition on_remote_created ::
    "add_peer_context \<Rightarrow> bool \<Rightarrow> saved_remote option \<Rightarrow> string option \<Rightarrow> transition_result" where
  "on_remote_created ctx ok remote err =
     (if \<not> ok \<or> remote = None
      then noop (toUrlInput ctx (Some (nullish_or err ''failed to save remote'')))
      else
        (ctx\<lparr>cx_step := StComplete, cx_remote := remote, cx_error := None, cx_progress := None\<rparr>,
         [DeletePendingByAddr (addrKey ctx), ScheduleTimer DISMISS_TIMER_ID COMPLETE_DISMISS_MS]))"

definition on_complete_peer_addr :: "add_peer_context \<Rightarrow> string \<Rightarrow> transition_result" where
  "on_complete_peer_addr ctx a =
     (if cx_step ctx = StComplete then noop ctx
      else if cx_peerAddr ctx \<noteq> Some a \<and> \<not> list_ex (\<lambda>p. pr_peer_addr p = a) (cx_pendingRemotes ctx)
      then noop ctx
      else
        (ctx\<lparr>cx_step := StTesting, cx_peerAddr := Some a, cx_url := '''',
             cx_target := Some (P2p a), cx_progress := Some ''completing setup...'',
             cx_error := None\<rparr>,
         [CreateRemote (Some a) '''']))"

definition pending_target :: "platform \<Rightarrow> string \<Rightarrow> peer_target" where
  "pending_target env a = nullish_or (parsePeerAddress env SchemeHttps a) (P2p a)"

definition on_retry_pending :: "platform \<Rightarrow> add_peer_context \<Rightarrow> pending_remote \<Rightarrow> transition_result" where
  "on_retry_pending env ctx pending =
     (if cx_step ctx \<noteq> StUrl then noop ctx
      else if pr_stage pending \<notin> {KnockPending, KnockAccepted, KnockRejected}
      then on_submit_url env (ctx\<lparr>cx_subStep := Input\<rparr>) (pr_peer_addr pending) False
      else
        let target = pending_target env (pr_peer_addr pending) in
        (ctx\<lparr>cx_step := StTesting, cx_input := pr_peer_addr pending,
             cx_peerAddr := target_peerAddr target, cx_url := target_url target,
             cx_target := Some target, cx_retryPending := Some pending, cx_error := None,
             cx_progress := Some ''checking access request status...''\<rparr>,
         [CheckKnockStatus pending]))"

definition on_knock_status :: "add_peer_context \<Rightarrow> knock_status_outcome \<Rightarrow> transition_result" where
  "on_knock_status ctx outcome =
     (if cx_step ctx \<noteq> StTesting then noop ctx
      else
        let pending = cx_retryPending ctx;
            drop_pending = (case pending of None \<Rightarrow> [] | Some p \<Rightarrow> [DeletePending (pr_id p)])
        in case outcome of
          AcceptedAuthed i \<Rightarrow>
            (ctx\<lparr>cx_serverInfo := nullish_orelse i (cx_serverInfo ctx), cx_retryPending := None,
                 cx_progress := Some ''creating remote...''\<rparr>,
             drop_pending @ [CreateRemote (cx_peerAddr ctx) (cx_url ctx)])
        | AcceptedNeedsAuth i \<Rightarrow>
            (ctx\<lparr>cx_step := StAuth, cx_serverInfo := nullish_orelse i (cx_serverInfo ctx),
                 cx_retryPending := None, cx_error := None, cx_progress := None\<rparr>,
             drop_pending)
        | Denied \<Rightarrow>
            ((toUrlInput ctx (Some ''your access request was rejected by the server admin''))
               \<lparr>cx_retryPending := None\<rparr>,
             (case pending of
                None \<Rightarrow> []
              | Some p \<Rightarrow> [UpsertPending (pr_peer_addr p) (no_patch\<lparr>pp_stage := Some KnockRejected\<rparr>)]))
        | StillPending \<Rightarrow>
            noop ((toUrlInput ctx (Some
              ''access request is still pending - the server admin has not yet responded''))
              \<lparr>cx_retryPending := None\<rparr>)
        | Unreachable \<Rightarrow>
            noop ((toUrlInput ctx (Some
              ''still waiting for access approval - server may be offline''))
              \<lparr>cx_retryPending := None\<rparr>))"

definition on_back :: "add_peer_context \<Rightarrow> transition_result" where
  "on_back ctx =
     (if cx_step ctx = StAuth \<or> cx_step ctx = StKnockSent then noop (toUrlInput ctx None)
      else if cx_step ctx = StUrl \<and> cx_subStep ctx = KnockForm then noop (toUrlInput ctx None)
      else if cx_step ctx = StTesting then (toUrlInput ctx None, [CancelInFlight])
      else noop ctx)"

definition on_timer_fired :: "add_peer_context \<Rightarrow> string \<Rightarrow> transition_result" where
  "on_timer_fired ctx tid =
     (if tid \<noteq> DISMISS_TIMER_ID \<or> cx_step ctx \<noteq> StComplete then noop ctx
      else (initialContext, [CallOnClose, CallOnSuccess (cx_remote ctx)]))"

section \<open>The transition function\<close>

definition transition :: "platform \<Rightarrow> add_peer_context \<Rightarrow> add_peer_event \<Rightarrow> transition_result" where
  "transition env ctx event =
     (case event of
        ModalOpen i \<Rightarrow> on_modal_open i
      | ModalClose \<Rightarrow> (initialContext, [CancelInFlight, CallOnClose])
      | InputChange s \<Rightarrow> noop (ctx\<lparr>cx_input := s, cx_error := None\<rparr>)
      | QrScan s \<Rightarrow> noop (ctx\<lparr>cx_input := s, cx_error := None\<rparr>)
      | PendingLoaded rs \<Rightarrow> noop (ctx\<lparr>cx_pendingRemotes := rs\<rparr>)
      | SubmitUrl s player \<Rightarrow> on_submit_url env ctx s player
      | DuplicateResult d \<Rightarrow> on_duplicate_result ctx d
      | ConnectionResult oc \<Rightarrow> on_connection_result ctx oc
      | SubmitKnock u m \<Rightarrow> on_submit_knock ctx u m
      | KnockSentResult ok e \<Rightarrow> on_knock_sent_result ctx ok e
      | CancelKnock \<Rightarrow> on_cancel_knock ctx
      | UseInviteCode \<Rightarrow> on_use_invite_code ctx
      | PasskeySignin \<Rightarrow> on_use_invite_code ctx
      | RequestAccess \<Rightarrow> on_request_access ctx
      | SubmitAuth m u c \<Rightarrow> on_submit_auth ctx m u c
      | PasskeyAuth m u c \<Rightarrow> on_passkey_auth ctx m u c
      | AuthResult ok e \<Rightarrow> on_auth_result ctx ok e
      | RemoteCreated ok r e \<Rightarrow> on_remote_created ctx ok r e
      | CompletePeerAddr a \<Rightarrow> on_complete_peer_addr ctx a
      | RetryPending p \<Rightarrow> on_retry_pending env ctx p
      | KnockStatusResult oc \<Rightarrow> on_knock_status ctx oc
      | DeletePendingEv p \<Rightarrow> (ctx, [DeletePending (pr_id p), LoadPendingRemotes])
      | Back \<Rightarrow> on_back ctx
      | TimerFired t \<Rightarrow> on_timer_fired ctx t)"

lemmas handler_defs =
  on_modal_open_def on_submit_url_def on_duplicate_result_def on_player_device_def
  on_already_saved_def on_outcome_kind_def on_connection_result_def on_submit_knock_def
  on_knock_sent_result_def on_cancel_knock_def on_use_invite_code_def on_request_access_def
  on_submit_auth_def on_passkey_auth_def on_auth_result_def on_remote_created_def
  on_complete_peer_addr_def on_retry_pending_def on_knock_status_def on_back_def
  on_timer_fired_def noop_def toUrlInput_def

end
