(* ===== verification/AddPeerProps.thy ===== *)
theory AddPeerProps
  imports AddPeerMachine
begin

text \<open>
  What holds of the add-peer machine: the invariant of every context reachable by any sequence of
  events, with the facts that rest on it, and the rules its source states as load-bearing
  (persist before probing, a failed probe is recorded, who may create a remote, completion by a
  pushed notification), each over one \<open>transition\<close>.
\<close>

section \<open>Reachable contexts and their invariant\<close>

inductive ap_reachable :: "platform \<Rightarrow> add_peer_context \<Rightarrow> bool" for env where
  ap_start: "ap_reachable env initialContext"
| ap_event: "ap_reachable env c \<Longrightarrow> ap_reachable env (fst (transition env c e))"

fun run_events :: "platform \<Rightarrow> add_peer_context \<Rightarrow> add_peer_event list \<Rightarrow> add_peer_context" where
  "run_events env c [] = c"
| "run_events env c (e # es) = run_events env (fst (transition env c e)) es"

lemma run_events_reachable: "ap_reachable env c \<Longrightarrow> ap_reachable env (run_events env c es)"
  by (induction es arbitrary: c) (auto intro: ap_event)

text \<open>The address fields say what the classified target says.\<close>

fun staged_peerAddr :: "peer_target option \<Rightarrow> string option" where
  "staged_peerAddr None = None"
| "staged_peerAddr (Some t) = target_peerAddr t"

fun staged_url :: "peer_target option \<Rightarrow> string" where
  "staged_url None = ''''"
| "staged_url (Some t) = target_url t"

definition target_matches :: "add_peer_context \<Rightarrow> bool" where
  "target_matches c =
     (cx_peerAddr c = staged_peerAddr (cx_target c) \<and> cx_url c = staged_url (cx_target c))"

text \<open>The steps that work on an attempt.\<close>

definition in_attempt :: "add_peer_context \<Rightarrow> bool" where
  "in_attempt c = (cx_step c \<in> {StTesting, StAuth, StKnockSent}
     \<or> cx_step c = StUrl \<and> cx_subStep c = KnockForm)"

definition ap_inv :: "add_peer_context \<Rightarrow> bool" where
  "ap_inv c = (target_matches c
     \<and> (in_attempt c \<longrightarrow> cx_target c \<noteq> None)
     \<and> (cx_step c = StComplete \<longrightarrow> cx_remote c \<noteq> None))"

lemma ap_inv_initial: "ap_inv initialContext"
  by (simp add: ap_inv_def initialContext_def target_matches_def in_attempt_def)

lemma ap_inv_initial_input: "ap_inv (initialContext\<lparr>cx_input := s\<rparr>)"
  by (simp add: ap_inv_def initialContext_def target_matches_def in_attempt_def)

lemmas ap_inv_defs = ap_inv_def target_matches_def in_attempt_def

lemma ap_inv_toUrlInput: "ap_inv c \<Longrightarrow> ap_inv (toUrlInput c err)"
  by (simp add: ap_inv_defs toUrlInput_def)

lemma ap_inv_submit_url: "ap_inv c \<Longrightarrow> ap_inv (fst (on_submit_url env c s p))"
  by (simp add: on_submit_url_def noop_def ap_inv_defs split: option.splits peer_target.splits)

lemma ap_inv_duplicate: "ap_inv c \<Longrightarrow> ap_inv (fst (on_duplicate_result c d))"
  by (auto simp: on_duplicate_result_def noop_def toUrlInput_def ap_inv_defs
        split: option.splits peer_target.splits)

lemma ap_inv_connection: "ap_inv c \<Longrightarrow> ap_inv (fst (on_connection_result c oc))"
  by (auto simp: on_connection_result_def on_player_device_def on_already_saved_def
        on_outcome_kind_def noop_def toUrlInput_def Let_def ap_inv_defs
        split: option.splits connection_outcome.splits)

lemma ap_inv_knock_status: "ap_inv c \<Longrightarrow> ap_inv (fst (on_knock_status c oc))"
  by (auto simp: on_knock_status_def noop_def toUrlInput_def Let_def ap_inv_defs
        split: option.splits knock_status_outcome.splits)

lemma ap_inv_retry:
  assumes "ap_inv c"
  shows "ap_inv (fst (on_retry_pending env c p))"
proof -
  have "ap_inv (c\<lparr>cx_subStep := Input\<rparr>)"
    using assms by (auto simp: ap_inv_defs)
  then show ?thesis
    using assms ap_inv_submit_url
    by (simp add: on_retry_pending_def noop_def Let_def) (simp add: ap_inv_defs)
qed

lemma ap_inv_auth_steps:
  assumes "ap_inv c"
  shows "ap_inv (fst (on_submit_auth c m u i))" "ap_inv (fst (on_passkey_auth c m u' i))"
    "ap_inv (fst (on_auth_result c ok e))" "ap_inv (fst (on_request_access c))"
    "ap_inv (fst (on_use_invite_code c))"
  using assms
  by (auto simp: on_submit_auth_def on_passkey_auth_def on_auth_result_def on_request_access_def
        on_use_invite_code_def noop_def ap_inv_defs split: option.splits)

lemma ap_inv_knock_steps:
  assumes "ap_inv c"
  shows "ap_inv (fst (on_submit_knock c u m))" "ap_inv (fst (on_knock_sent_result c ok e))"
    "ap_inv (fst (on_cancel_knock c))" "ap_inv (fst (on_back c))"
  using assms
  by (auto simp: on_submit_knock_def on_knock_sent_result_def on_cancel_knock_def on_back_def
        noop_def toUrlInput_def ap_inv_defs)

lemma ap_inv_finish_steps:
  assumes "ap_inv c"
  shows "ap_inv (fst (on_remote_created c ok r e))" "ap_inv (fst (on_complete_peer_addr c a))"
    "ap_inv (fst (on_timer_fired c t))"
  using assms ap_inv_initial
  by (auto simp: on_remote_created_def on_complete_peer_addr_def on_timer_fired_def
        noop_def toUrlInput_def ap_inv_defs)

lemmas ap_inv_handlers = ap_inv_submit_url ap_inv_duplicate ap_inv_connection ap_inv_knock_status
  ap_inv_retry ap_inv_auth_steps ap_inv_knock_steps ap_inv_finish_steps

lemma ap_inv_transition:
  assumes "ap_inv c"
  shows "ap_inv (fst (transition env c e))"
proof -
  have "ap_inv (c\<lparr>cx_input := s, cx_error := None\<rparr>)" "ap_inv (c\<lparr>cx_pendingRemotes := rs\<rparr>)"
    for s rs
    using assms by (simp_all add: ap_inv_defs)
  then show ?thesis
    using assms ap_inv_initial ap_inv_initial_input
    by (simp add: transition_def on_modal_open_def noop_def ap_inv_handlers
          split: add_peer_event.split)
qed

lemma ap_reachable_inv: "ap_reachable env c \<Longrightarrow> ap_inv c"
  by (induction rule: ap_reachable.induct) (simp_all add: ap_inv_initial ap_inv_transition)

lemma ap_inv_run: "ap_inv c \<Longrightarrow> ap_inv (run_events env c es)"
  by (induction es arbitrary: c) (auto intro: ap_inv_transition)

lemma addrKey_target:
  "ap_inv c \<Longrightarrow> cx_target c = Some t \<Longrightarrow>
     addrKey c = (case t of P2p a \<Rightarrow> a | Http u \<Rightarrow> u)"
  by (auto simp: ap_inv_defs addrKey_def split: peer_target.splits)

text \<open>Which handler can emit which of the effects the theorems below are about.\<close>

lemmas effect_splits = option.splits knock_status_outcome.splits connection_outcome.splits
  peer_target.splits

lemma transition_probe_iff: "CheckConnection t \<in> set (snd (transition env c e)) \<longleftrightarrow>
    (\<exists>d. e = DuplicateResult d \<and> CheckConnection t \<in> set (snd (on_duplicate_result c d)))"
  by (cases e) (auto simp add: transition_def handler_defs Let_def split: effect_splits)

lemma transition_success_iff: "CallOnSuccess r \<in> set (snd (transition env c e)) \<longleftrightarrow>
    e = TimerFired DISMISS_TIMER_ID \<and> cx_step c = StComplete \<and> r = cx_remote c"
  by (cases e)
     (auto simp add: transition_def handler_defs Let_def
split: effect_splits)

section \<open>Creating a remote\<close>

lemma create_connection: "CreateRemote a u \<in> set (snd (on_connection_result c oc)) \<longleftrightarrow>
    cx_step c = StTesting \<and> a = cx_peerAddr c \<and> u = cx_url c \<and> cx_existingRemote c = None \<and>
    (\<exists>i. oc = AlreadyAuthed i \<and> \<not> player_device i)"
  by (cases oc) (auto simp: on_connection_result_def on_player_device_def on_already_saved_def
        on_outcome_kind_def noop_def Let_def)

lemma create_knock_status: "CreateRemote a u \<in> set (snd (on_knock_status c oc)) \<longleftrightarrow>
    cx_step c = StTesting \<and> a = cx_peerAddr c \<and> u = cx_url c \<and> (\<exists>i. oc = AcceptedAuthed i)"
  by (cases oc) (auto simp: on_knock_status_def noop_def Let_def split: option.splits)

lemma create_auth_result: "CreateRemote a u \<in> set (snd (on_auth_result c ok m)) \<longleftrightarrow>
    cx_step c = StAuth \<and> a = cx_peerAddr c \<and> u = cx_url c \<and> ok"
  by (auto simp: on_auth_result_def noop_def)

lemma create_complete: "CreateRemote a u \<in> set (snd (on_complete_peer_addr c p)) \<longleftrightarrow>
    cx_step c \<noteq> StComplete \<and> u = '''' \<and> a = Some p \<and>
    (cx_peerAddr c = Some p \<or> (\<exists>r \<in> set (cx_pendingRemotes c). pr_peer_addr r = p))"
  by (auto simp: on_complete_peer_addr_def noop_def list_ex_iff)

lemma create_submit_url: "CreateRemote a u \<notin> set (snd (on_submit_url env c s p))"
  by (simp add: on_submit_url_def noop_def split: option.split)

lemma create_duplicate: "CreateRemote a u \<notin> set (snd (on_duplicate_result c d))"
  by (simp add: on_duplicate_result_def noop_def split: option.split peer_target.split)

lemma create_submit_knock: "CreateRemote a u \<notin> set (snd (on_submit_knock c un m))"
  by (simp add: on_submit_knock_def noop_def)

lemma create_knock_sent: "CreateRemote a u \<notin> set (snd (on_knock_sent_result c ok err))"
  by (simp add: on_knock_sent_result_def noop_def)

lemma create_submit_auth: "CreateRemote a u \<notin> set (snd (on_submit_auth c mo un ic))"
  by (simp add: on_submit_auth_def noop_def)

lemma create_passkey: "CreateRemote a u \<notin> set (snd (on_passkey_auth c mo un' ic))"
  by (simp add: on_passkey_auth_def noop_def split: option.split)

lemma create_created: "CreateRemote a u \<notin> set (snd (on_remote_created c ok rm err))"
  by (simp add: on_remote_created_def noop_def)

lemma create_retry: "CreateRemote a u \<notin> set (snd (on_retry_pending env c pr))"
  by (simp add: on_retry_pending_def Let_def create_submit_url noop_def)

lemma create_back: "CreateRemote a u \<notin> set (snd (on_back c))"
  by (simp add: on_back_def noop_def)

lemma create_timer: "CreateRemote a u \<notin> set (snd (on_timer_fired c t))"
  by (simp add: on_timer_fired_def noop_def)

lemmas create_handlers = create_connection create_knock_status create_auth_result create_complete
  create_submit_url create_duplicate create_submit_knock create_knock_sent create_submit_auth create_passkey create_created create_retry create_back create_timer

text \<open>
  The remote an event is entitled to create: after a probe that found the caller signed in to a
  peer that is no player device and not saved yet, after an accepted knock found signed in, after
  a successful authentication, and after a pushed acceptance of a staged or pending peer.
\<close>

definition create_grant ::
    "add_peer_context \<Rightarrow> add_peer_event \<Rightarrow> (string option \<times> string) option" where
  "create_grant c e =
     (case e of
        ConnectionResult (AlreadyAuthed i) \<Rightarrow>
          (if cx_step c = StTesting \<and> \<not> player_device i \<and> cx_existingRemote c = None
           then Some (cx_peerAddr c, cx_url c) else None)
      | KnockStatusResult (AcceptedAuthed i) \<Rightarrow>
          (if cx_step c = StTesting then Some (cx_peerAddr c, cx_url c) else None)
      | AuthResult True m \<Rightarrow>
          (if cx_step c = StAuth then Some (cx_peerAddr c, cx_url c) else None)
      | CompletePeerAddr p \<Rightarrow>
          (if cx_step c \<noteq> StComplete \<and> (cx_peerAddr c = Some p \<or>
                p \<in> pr_peer_addr ` set (cx_pendingRemotes c))
           then Some (Some p, '''') else None)
      | _ \<Rightarrow> None)"

lemma transition_create_iff:
  "CreateRemote a u \<in> set (snd (transition env c e)) \<longleftrightarrow> create_grant c e = Some (a, u)"
proof (cases e)
  case (ConnectionResult oc)
  then show ?thesis
    by (cases oc) (auto simp: transition_def create_grant_def create_connection)
next
  case (KnockStatusResult oc)
  then show ?thesis
    by (cases oc) (auto simp: transition_def create_grant_def create_knock_status)
next
  case (AuthResult ok m)
  then show ?thesis
    by (cases ok) (auto simp: transition_def create_grant_def create_auth_result)
next
  case (CompletePeerAddr p)
  then show ?thesis
    by (auto simp: transition_def create_grant_def create_complete image_iff)
qed (simp_all add: transition_def create_grant_def create_handlers noop_def on_modal_open_def
       on_cancel_knock_def on_use_invite_code_def on_request_access_def)

section \<open>Concrete inputs for the witnesses\<close>

definition platform0 :: platform where
  "platform0 = \<lparr>json_parse = (\<lambda>_. None), url_valid = (\<lambda>_. True)\<rparr>"

lemma platform0 [simp]: "json_parse platform0 s = None" "url_valid platform0 s"
  by (simp_all add: platform0_def)

definition node_a :: string where "node_a = replicate 64 (CHR ''a'')"

definition node_b :: string where "node_b = replicate 64 (CHR ''b'')"

definition info0 :: peer_server_info where
  "info0 = \<lparr>si_name = ''srv'', si_description = None, si_version = ''1'', si_image_url = None,
     si_image_blob_id = None, si_requires_auth = True, si_knocking_enabled = Some True,
     si_passkey_p2p_enabled = None, si_player_device = None\<rparr>"

definition remote_a :: saved_remote where
  "remote_a = \<lparr>sr_remote_id = ''ra'', sr_name = ''a'', sr_base_url = None, sr_peer_addr = Some node_a\<rparr>"

definition remote_b :: saved_remote where
  "remote_b = \<lparr>sr_remote_id = ''rb'', sr_name = ''b'', sr_base_url = None, sr_peer_addr = Some node_b\<rparr>"

lemma hex_digit_not_space: "hex_digit c \<Longrightarrow> \<not> js_space c"
  by (auto simp: hex_digit_def js_space_def)

lemma node_id_trim: "NODE_ID_RE s \<Longrightarrow> js_trim s = s"
proof (rule js_trim_idle)
  assume "NODE_ID_RE s"
  then have "s \<noteq> []" "\<forall>x \<in> set s. hex_digit x"
    by (auto simp: NODE_ID_RE_def list_all_iff)
  then have "hex_digit (hd s)" "hex_digit (last s)"
    by auto
  then show "s = [] \<or> \<not> js_space (hd s) \<and> \<not> js_space (last s)"
    by (simp add: hex_digit_not_space)
qed

lemma parse_node_id: "NODE_ID_RE s \<Longrightarrow> parsePeerAddress env sch s = Some (P2p s)"
  by (auto simp: parse_P2p_iff node_id_trim NODE_ID_RE_def)

lemma node_ids [simp]: "NODE_ID_RE node_a" "NODE_ID_RE node_b" "node_a \<noteq> node_b" "node_a \<noteq> []"
  by (auto simp: NODE_ID_RE_def node_a_def node_b_def hex_digit_def list_all_iff numeral_eq_Suc)

text \<open>A submitted p2p address, once it is past the duplicate check.\<close>

definition submitted_a :: add_peer_context where
  "submitted_a = run_events platform0 initialContext [SubmitUrl node_a False, DuplicateResult None]"

lemma reachable_submitted_a: "ap_reachable platform0 submitted_a"
  unfolding submitted_a_def by (intro run_events_reachable ap_start)

lemma submitted_a_eq: "submitted_a = initialContext
    \<lparr>cx_step := StTesting, cx_input := node_a, cx_target := Some (P2p node_a),
     cx_peerAddr := Some node_a\<rparr>"
  by (simp add: submitted_a_def transition_def on_submit_url_def on_duplicate_result_def
        parse_node_id initialContext_def)

section \<open>Properties\<close>

text \<open>
  C1: In every context the machine can reach by any sequence of events, the assertions
  \<open>ctx.remote!\<close> and \<open>ctx.target!\<close> are sound: the completed state always has a remote, and no
  transition emits a connection check without a target or a success callback without a remote.
\<close>

theorem ap_null_assertions_hold:
  assumes "ap_reachable env c"
  shows "projectState c \<noteq> CompleteState None b
    \<and> CheckConnection None \<notin> set (snd (transition env c e))
    \<and> CallOnSuccess None \<notin> set (snd (transition env c e))"
proof -
  have inv: "ap_inv c" by (rule ap_reachable_inv [OF assms])
  have "projectState c \<noteq> CompleteState None b"
    using inv by (auto simp: projectState_def ap_inv_def split: step.splits)
  moreover have "CheckConnection None \<notin> set (snd (transition env c e))"
    using inv by (auto simp: transition_probe_iff on_duplicate_result_def noop_def ap_inv_defs
      split: effect_splits)
  moreover have "CallOnSuccess None \<notin> set (snd (transition env c e))"
    using inv by (auto simp: transition_success_iff ap_inv_def)
  ultimately show ?thesis by blast
qed

theorem ap_null_assertions_hold_witness:
  "ap_reachable platform0 submitted_a \<and>
   CheckConnection None \<notin> set (snd (transition platform0 submitted_a (DuplicateResult None)))"
  using reachable_submitted_a ap_null_assertions_hold [OF reachable_submitted_a] by blast

text \<open>
  C2: Whatever the order of events, the staged p2p address and http url are those of the classified
  target of the attempt (a p2p target has no url, an http target no peer address), and every step
  that works on an attempt has a target.
\<close>

theorem ap_target_consistent:
  assumes "ap_reachable env c"
  shows "cx_peerAddr c = staged_peerAddr (cx_target c) \<and> cx_url c = staged_url (cx_target c)
    \<and> (in_attempt c \<longrightarrow> cx_target c \<noteq> None)"
  using ap_reachable_inv [OF assms] by (simp add: ap_inv_def target_matches_def)

theorem ap_target_consistent_witness:
  "in_attempt submitted_a \<and> cx_peerAddr submitted_a = staged_peerAddr (cx_target submitted_a)"
  using ap_target_consistent [OF reachable_submitted_a]
  by (simp add: in_attempt_def submitted_a_eq)

text \<open>
  C3: The attempt is persisted before the probe: a transition that emits a connection check emits
  exactly the upsert of a pending record with stage "testing" under the target's own address, the
  clearing of the query parameter, and then the check, of that same target.
\<close>

theorem ap_persist_before_probe:
  assumes "ap_reachable env c" and "CheckConnection t \<in> set (snd (transition env c e))"
  shows "\<exists>tg. cx_target c = Some tg \<and> t = Some tg \<and>
    snd (transition env c e) =
      [UpsertPending (case tg of P2p a \<Rightarrow> a | Http u \<Rightarrow> u)
         (no_patch\<lparr>pp_stage := Some Testing, pp_error_message := Some None\<rparr>),
       ClearQueryParam, CheckConnection (Some tg)]"
proof -
  have inv: "ap_inv c" by (rule ap_reachable_inv [OF assms(1)])
  from assms(2) obtain d where e: "e = DuplicateResult d"
    and t: "CheckConnection t \<in> set (snd (on_duplicate_result c d))"
    by (auto simp: transition_probe_iff)
  from t have "cx_step c = StTesting"
    by (auto simp: on_duplicate_result_def noop_def split: if_splits)
  with inv obtain tg where tg: "cx_target c = Some tg"
    by (auto simp: ap_inv_defs)
  show ?thesis
    using t addrKey_target [OF inv tg] tg
    by (auto simp: e transition_def on_duplicate_result_def noop_def
        split: option.splits peer_target.splits if_splits)
qed

theorem ap_persist_before_probe_witness:
  "snd (transition platform0 submitted_a (DuplicateResult None)) =
      [UpsertPending node_a
         (no_patch\<lparr>pp_stage := Some Testing, pp_error_message := Some None\<rparr>),
       ClearQueryParam, CheckConnection (Some (P2p node_a))]"
proof -
  have "CheckConnection (Some (P2p node_a))
      \<in> set (snd (transition platform0 submitted_a (DuplicateResult None)))"
    by (simp add: submitted_a_eq transition_def on_duplicate_result_def)
  from ap_persist_before_probe [OF reachable_submitted_a this] show ?thesis
    by (auto simp: submitted_a_eq)
qed

text \<open>
  A remote is created exactly when an event entitles the flow to it, and then for the address
  of that event: no other event, in any state, emits a creation.
\<close>

theorem ap_create_remote_exact:
  "CreateRemote a u \<in> set (snd (transition env c e)) \<longleftrightarrow> create_grant c e = Some (a, u)"
  by (rule transition_create_iff)

text \<open>
  A peer that reports itself a player device is never turned into a remote by a probe, whatever
  the outcome and whether or not it is saved already: the probe only records the peer as connected
  and leaves the flow at the auth step or at the knock form, the knock form exactly for a fresh
  p2p attempt at a knockable peer that was not submitted as a player pairing.
\<close>

theorem ap_player_device_not_created:
  assumes "cx_step c = StTesting" and "outcome_info oc = Some i" and "player_device i"
  shows "snd (transition env c (ConnectionResult oc)) =
      [UpsertPending (addrKey c) (connected_patch i)]
    \<and> (let c' = fst (transition env c (ConnectionResult oc)) in
        if knocking_enabled i \<and> (\<forall>j. oc \<noteq> AlreadyAuthed j) \<and> \<not> cx_playerIntent c
           \<and> cx_existingRemote c = None \<and> cx_peerAddr c \<noteq> None
        then cx_step c' = StUrl \<and> cx_subStep c' = KnockForm
        else cx_step c' = StAuth)"
  using assms
  by (cases oc) (auto simp: transition_def on_connection_result_def on_player_device_def
        player_to_knock_form_def Let_def)

theorem ap_player_device_not_created_witness:
  "snd (transition platform0 submitted_a
      (ConnectionResult (AlreadyAuthed (info0\<lparr>si_player_device := Some True\<rparr>)))) =
      [UpsertPending node_a (connected_patch (info0\<lparr>si_player_device := Some True\<rparr>))]"
  using ap_player_device_not_created [of submitted_a
      "AlreadyAuthed (info0\<lparr>si_player_device := Some True\<rparr>)" "info0\<lparr>si_player_device := Some True\<rparr>"
      platform0]
  by (simp add: submitted_a_eq addrKey_def)

text \<open>
  A pushed acceptance completes the flow from every state but the completed one: for the staged
  peer or a known pending record it asks for the remote, the created remote completes the flow
  under that address, deletes its pending record and arms the dismiss timer, and the timer closes
  the flow and reports the remote.
\<close>

theorem ap_pushed_completion:
  assumes "cx_step c \<noteq> StComplete"
    and "cx_peerAddr c = Some a \<or> (\<exists>p \<in> set (cx_pendingRemotes c). pr_peer_addr p = a)"
  shows "\<exists>c1 c2.
      transition env c (CompletePeerAddr a) = (c1, [CreateRemote (Some a) ''''])
    \<and> transition env c1 (RemoteCreated True (Some r) None) =
        (c2, [DeletePendingByAddr a, ScheduleTimer DISMISS_TIMER_ID 1500])
    \<and> projectState c2 = CompleteState (Some r) (cx_existingRemote c \<noteq> None)
    \<and> transition env c2 (TimerFired DISMISS_TIMER_ID) =
        (initialContext, [CallOnClose, CallOnSuccess (Some r)])"
proof -
  have "cx_peerAddr c = Some a \<or> list_ex (\<lambda>p. pr_peer_addr p = a) (cx_pendingRemotes c)"
    using assms(2) by (auto simp: list_ex_iff)
  then show ?thesis
    using assms(1)
    by (auto simp: transition_def on_complete_peer_addr_def on_remote_created_def
          on_timer_fired_def projectState_def addrKey_def COMPLETE_DISMISS_MS_def)
qed

theorem ap_pushed_completion_witness:
  "\<exists>c1 c2. transition platform0 submitted_a (CompletePeerAddr node_a) =
        (c1, [CreateRemote (Some node_a) ''''])
    \<and> transition platform0 c1 (RemoteCreated True (Some remote_a) None) =
        (c2, [DeletePendingByAddr node_a, ScheduleTimer DISMISS_TIMER_ID 1500])"
  using ap_pushed_completion [of submitted_a node_a platform0 remote_a]
  by (auto simp: submitted_a_eq)

text \<open>
  Leaving a running test by "back" returns to the address input and cancels the probe, and an
  outcome of the abandoned attempt that arrives afterwards (duplicate check, connection probe,
  knock status) changes nothing and emits nothing.
\<close>

theorem ap_back_discards_outcomes:
  assumes "cx_step c = StTesting"
  shows "transition env c Back = (toUrlInput c None, [CancelInFlight])
    \<and> transition env (toUrlInput c None) (ConnectionResult oc) = (toUrlInput c None, [])
    \<and> transition env (toUrlInput c None) (KnockStatusResult ko) = (toUrlInput c None, [])
    \<and> transition env (toUrlInput c None) (DuplicateResult d) = (toUrlInput c None, [])"
  using assms
  by (simp add: transition_def on_back_def on_connection_result_def on_knock_status_def
        on_duplicate_result_def toUrlInput_def noop_def)

theorem ap_back_discards_outcomes_witness:
  "cx_step submitted_a = StTesting
    \<and> transition platform0 submitted_a Back = (toUrlInput submitted_a None, [CancelInFlight])"
  using ap_back_discards_outcomes [of submitted_a platform0] by (simp add: submitted_a_eq)

text \<open>
  The flag \<open>alreadyExisted\<close> can be wrong: an attempt at one saved p2p peer that fails, followed
  by the pushed acceptance of another, pending peer, completes with the newly created remote of the
  second peer reported as having existed already, because the completion does not clear the remote
  the first attempt's duplicate check found.
\<close>

theorem ap_stale_already_existed:
  assumes "NODE_ID_RE a" and "pr_peer_addr p = b"
  shows "projectState (run_events env initialContext
      [SubmitUrl a False, DuplicateResult (Some ra), ConnectionResult (ProbeFailed err),
       PendingLoaded [p], CompletePeerAddr b, RemoteCreated True (Some rb) None])
    = CompleteState (Some rb) True"
  using assms
  by (simp add: transition_def on_submit_url_def on_duplicate_result_def on_connection_result_def
        on_outcome_kind_def on_complete_peer_addr_def on_remote_created_def toUrlInput_def noop_def
        projectState_def parse_node_id initialContext_def)

definition pending_b :: pending_remote where
  "pending_b = \<lparr>pr_id = ''p1'', pr_peer_addr = node_b, pr_transport = ''wasm'',
     pr_stage = KnockPending, pr_server_name = None, pr_server_description = None,
     pr_server_version = None, pr_server_image_data = None, pr_server_image_type = None,
     pr_knock_username = Some ''u'', pr_knock_message = None, pr_error_message = None\<rparr>"

theorem ap_stale_already_existed_witness:
  "projectState (run_events platform0 initialContext
      [SubmitUrl node_a False, DuplicateResult (Some remote_a), ConnectionResult (ProbeFailed ''off''),
       PendingLoaded [pending_b], CompletePeerAddr node_b, RemoteCreated True (Some remote_b) None])
    = CompleteState (Some remote_b) True"
  by (rule ap_stale_already_existed) (simp_all add: pending_b_def)

text \<open>
  An http peer that enables knocking leads to a knock form that cannot be sent: the probe's
  outcome opens the form, and every submission of it is refused for want of a peer address, without
  an effect.
\<close>

theorem ap_http_knock_form_dead_end:
  assumes "ap_reachable env c" and "cx_step c = StTesting" and "cx_target c = Some (Http u)"
    and "\<not> player_device i" and "cx_existingRemote c = None"
  shows "let c' = fst (transition env c (ConnectionResult (NeedsKnock i e))) in
      cx_step c' = StUrl \<and> cx_subStep c' = KnockForm
    \<and> transition env c' (SubmitKnock un m) =
        (c'\<lparr>cx_error := Some ''no peer address available''\<rparr>, [])"
  using assms ap_reachable_inv [OF assms(1)]
  by (simp add: transition_def on_connection_result_def on_outcome_kind_def on_submit_knock_def
        noop_def ap_inv_def target_matches_def)

theorem ap_http_knock_form_dead_end_witness:
  "\<exists>c. ap_reachable platform0 c \<and> cx_step c = StTesting \<and>
     snd (transition platform0 (fst (transition platform0 c (ConnectionResult (NeedsKnock info0 None))))
       (SubmitKnock ''u'' ''m'')) = []"
proof -
  let ?c = "run_events platform0 initialContext [SubmitUrl ''a.b'' False, DuplicateResult None]"
  have "\<not> NODE_ID_RE ''a.b''" by (simp add: NODE_ID_RE_def)
  then have p: "parsePeerAddress platform0 SchemeHttps ''a.b'' = Some (Http ''https://a.b'')"
    by (simp add: parsePeerAddress_def is_endpoint_json_def has_http_scheme_def strip_slashes_def
        js_trim_def js_space_def)
  have r: "ap_reachable platform0 ?c" by (rule run_events_reachable [OF ap_start])
  have f: "cx_step ?c = StTesting" "cx_target ?c = Some (Http ''https://a.b'')"
    "cx_existingRemote ?c = None" "\<not> player_device info0"
    by (simp_all add: transition_def on_submit_url_def on_duplicate_result_def p initialContext_def
          info0_def)
  from ap_http_knock_form_dead_end [OF r f(1,2,4,3), of None "''u''" "''m''"] r f(1)
  show ?thesis by (auto simp: Let_def)
qed

text \<open>
  A remote whose creation finishes after the flow was closed loses its address: the late
  outcome completes the closed flow and asks for the pending record of the empty address to be
  deleted, so the record persisted for the attempt stays behind.
\<close>

theorem ap_close_during_create_leaks_pending:
  "snd (transition env (fst (transition env c ModalClose)) (RemoteCreated True (Some r) None)) =
      [DeletePendingByAddr '''', ScheduleTimer DISMISS_TIMER_ID COMPLETE_DISMISS_MS]
   \<and> projectState (fst (transition env (fst (transition env c ModalClose))
        (RemoteCreated True (Some r) None))) = CompleteState (Some r) False"
  by (simp add: transition_def on_remote_created_def addrKey_def initialContext_def projectState_def)

text \<open>
  A saved peer that is no player device completes the flow on every probe that does not fail,
  also when the probe found that the caller is not signed in there: the flow then ends with the
  saved remote and no knock and no authentication.
\<close>

theorem ap_saved_peer_completes_unauthenticated:
  assumes "cx_step c = StTesting" and "cx_existingRemote c = Some r" and "\<not> player_device i"
    and "oc = NeedsKnock i err \<or> oc = NeedsAuth i"
  shows "projectState (fst (transition env c (ConnectionResult oc))) = CompleteState (Some r) True
    \<and> snd (transition env c (ConnectionResult oc)) =
        [DeletePendingByAddr (addrKey c), ScheduleTimer DISMISS_TIMER_ID COMPLETE_DISMISS_MS]"
  using assms
  by (auto simp: transition_def on_connection_result_def on_already_saved_def projectState_def
        addrKey_def)

theorem ap_saved_peer_completes_unauthenticated_witness:
  "projectState (fst (transition platform0 (submitted_a\<lparr>cx_existingRemote := Some remote_a\<rparr>)
      (ConnectionResult (NeedsAuth info0)))) = CompleteState (Some remote_a) True"
  using ap_saved_peer_completes_unauthenticated [of "submitted_a\<lparr>cx_existingRemote := Some remote_a\<rparr>"
      remote_a info0 "NeedsAuth info0" None platform0]
  by (simp add: submitted_a_eq info0_def)

end
