(* ===== verification/AddPeerRunner.thy ===== *)
theory AddPeerRunner
  imports AddPeerProps
begin

text \<open>
  The bundled effect runner, \<open>lib/haruspex/ts/src/flows/add-peer/runner.ts\<close>: it executes the
  machine's effects against injected dependencies and feeds the outcomes back as events.

  A dependency is a function on the world \<open>'w\<close> that answers a value or rejects. \<open>runEffect\<close> awaits
  one effect after the other and the effects an outcome produces before the rest, so a call of
  \<open>feed\<close> in progress is a list of work still to do: effects to run, and probes whose answer is
  awaited. Any number of such calls can be in progress; the step relation \<open>flow_step\<close> lets any of them
  move, a new event arrive, a timer fire or the flow be disposed at any moment. Within one effect
  the awaits of a dependency's calls are one step, except that a probe starts and answers in two,
  since the generation counter exists to tell the runs between them apart.
\<close>

section \<open>Dependencies\<close>

datatype wire_status = WireAccepted | WireRejected | WirePending

text \<open>\<open>null\<close> targets can only come from an unsound assertion of the machine, which
  \<open>ap_null_assertions_hold\<close> excludes.\<close>

record 'w deps =
  dp_getAllRemotes :: "'w \<Rightarrow> saved_remote list js_result \<times> 'w"
  dp_getAllPendingRemotes :: "'w \<Rightarrow> pending_remote list js_result \<times> 'w"
  dp_getPendingRemoteByPeerAddr :: "string \<Rightarrow> 'w \<Rightarrow> pending_remote option js_result \<times> 'w"
  dp_createPendingRemote :: "pending_remote \<Rightarrow> 'w \<Rightarrow> pending_remote js_result \<times> 'w"
  dp_updatePendingRemote :: "string \<Rightarrow> pending_patch \<Rightarrow> 'w \<Rightarrow> unit js_result \<times> 'w"
  dp_deletePendingRemote :: "string \<Rightarrow> 'w \<Rightarrow> unit js_result \<times> 'w"
  dp_deletePendingRemoteByPeerAddr :: "string \<Rightarrow> 'w \<Rightarrow> unit js_result \<times> 'w"
  dp_createRemote :: "string option \<Rightarrow> string option \<Rightarrow> 'w \<Rightarrow> saved_remote js_result \<times> 'w"
    \<comment> \<open>base url, peer address\<close>
  dp_getServerInfo :: "peer_target option \<Rightarrow> 'w \<Rightarrow> peer_server_info option js_result \<times> 'w"
  dp_whoami :: "peer_target option \<Rightarrow> 'w \<Rightarrow> bool js_result \<times> 'w"
  dp_sendKnock :: "string \<Rightarrow> string \<Rightarrow> string \<Rightarrow> 'w \<Rightarrow> unit js_result \<times> 'w"
  dp_checkKnockStatus :: "string \<Rightarrow> 'w \<Rightarrow> wire_status option js_result \<times> 'w"
  dp_authenticateHttp ::
    "string \<Rightarrow> auth_mode \<Rightarrow> string \<Rightarrow> string option \<Rightarrow> 'w \<Rightarrow> unit js_result \<times> 'w"
  dp_redeemInvite :: "string \<Rightarrow> string \<Rightarrow> string \<Rightarrow> 'w \<Rightarrow> unit js_result \<times> 'w"
  dp_registerWithPasskey :: "string \<Rightarrow> string option \<Rightarrow> string \<Rightarrow> 'w \<Rightarrow> unit js_result \<times> 'w"
  dp_loginWithPasskey :: "peer_target \<Rightarrow> string option \<Rightarrow> 'w \<Rightarrow> unit js_result \<times> 'w"
  dp_transportFor :: "peer_target \<Rightarrow> string"
  dp_clearQueryParam :: "('w \<Rightarrow> 'w) option"
  dp_onSuccess :: "(saved_remote option \<Rightarrow> 'w \<Rightarrow> 'w) option"
  dp_onClose :: "('w \<Rightarrow> 'w) option"

section \<open>Errors\<close>

fun contains :: "string \<Rightarrow> string \<Rightarrow> bool" where
  "contains p [] = (p = [])"
| "contains p (c # cs) = (starts_with p (c # cs) \<or> contains p cs)"

definition ascii_lower :: "char \<Rightarrow> char" where
  "ascii_lower c = (let n = of_char c :: nat in
     if 65 \<le> n \<and> n \<le> 90 then char_of (n + 32) else c)"

definition contains_ci :: "string \<Rightarrow> string \<Rightarrow> bool" where
  "contains_ci p s = contains p (map ascii_lower s)"

definition describeConnectError :: "js_exn \<Rightarrow> string" where
  "describeConnectError err =
     (let msg = exn_message err in
      if contains_ci ''timeout'' msg
      then ''connection timed out - peer may be offline or unreachable''
      else if contains_ci ''not found'' msg \<or> contains_ci ''notfound'' msg
      then ''peer not found - check the address and try again''
      else ''connection failed: '' @ msg)"

definition isAuthRejection :: "js_exn \<Rightarrow> bool" where
  "isAuthRejection err =
     (let msg = exn_message err in
      contains ''401'' msg \<or> contains ''403'' msg \<or> contains ''Unauthorized'' msg
      \<or> contains ''Forbidden'' msg)"

section \<open>Probes\<close>

definition probeConnection ::
    "'w deps \<Rightarrow> peer_target option \<Rightarrow> 'w \<Rightarrow> connection_outcome \<times> 'w" where
  "probeConnection deps target w =
     (case dp_getServerInfo deps target w of
        (Inl err, w1) \<Rightarrow>
          (let failed = ProbeFailed (describeConnectError err) in
           if \<not> isAuthRejection err then (failed, w1)
           else case dp_getServerInfo deps target w1 of
             (Inl _, w2) \<Rightarrow> (failed, w2)
           | (Inr None, w2) \<Rightarrow> (failed, w2)
           | (Inr (Some helloInfo), w2) \<Rightarrow>
               if knocking_enabled helloInfo
               then (NeedsKnock helloInfo
                      (Some ''access denied - you can request access from the server admin''), w2)
               else if player_device helloInfo then (NeedsAuth helloInfo, w2)
               else (failed, w2))
      | (Inr None, w1) \<Rightarrow>
          (ProbeFailed ''connection succeeded but the peer did not return valid server info'', w1)
      | (Inr (Some info), w1) \<Rightarrow>
          (case dp_whoami deps target w1 of (res, w2) \<Rightarrow>
             if catch_with False res then (AlreadyAuthed info, w2)
             else if knocking_enabled info then (NeedsKnock info None, w2)
             else (NeedsAuth info, w2)))"

definition probe_signed_in ::
    "'w deps \<Rightarrow> peer_target \<Rightarrow> peer_server_info option \<Rightarrow> 'w \<Rightarrow> knock_status_outcome \<times> 'w" where
  "probe_signed_in deps target info w =
     (case dp_whoami deps (Some target) w of (res, w1) \<Rightarrow>
        (if catch_with False res then AcceptedAuthed info else AcceptedNeedsAuth info, w1))"

definition probeKnockStatus ::
    "platform \<Rightarrow> 'w deps \<Rightarrow> pending_remote \<Rightarrow> 'w \<Rightarrow> knock_status_outcome \<times> 'w" where
  "probeKnockStatus env deps pending w =
     (let target = pending_target env (pr_peer_addr pending) in
      case dp_checkKnockStatus deps (pr_peer_addr pending) w of
        (Inl _, w1) \<Rightarrow> (Unreachable, w1)
      | (Inr (Some WireRejected), w1) \<Rightarrow> (Denied, w1)
      | (Inr (Some WirePending), w1) \<Rightarrow> (StillPending, w1)
      | (Inr (Some WireAccepted), w1) \<Rightarrow>
          (case dp_getServerInfo deps (Some target) w1 of (res, w2) \<Rightarrow>
             probe_signed_in deps target (catch_with None res) w2)
      | (Inr None, w1) \<Rightarrow>
          (case dp_getServerInfo deps (Some target) w1 of (res, w2) \<Rightarrow>
             (case catch_with None res of
                None \<Rightarrow> (Unreachable, w2)
              | Some info \<Rightarrow> probe_signed_in deps target (Some info) w2)))"

section \<open>The pending record of an attempt\<close>

text \<open>The record \<open>createPendingRemote\<close> is given, its id left to the store.\<close>

definition new_pending :: "platform \<Rightarrow> 'w deps \<Rightarrow> string \<Rightarrow> pending_patch \<Rightarrow> pending_remote" where
  "new_pending env deps a patch =
     apply_patch patch
       \<lparr>pr_id = '''', pr_peer_addr = a, pr_transport = dp_transportFor deps (pending_target env a),
        pr_stage = Testing, pr_server_name = None, pr_server_description = None,
        pr_server_version = None, pr_server_image_data = None, pr_server_image_type = None,
        pr_knock_username = None, pr_knock_message = None, pr_error_message = None\<rparr>"

text \<open>
  \<open>upsertPending\<close> up to its \<open>feed\<close>: the records to report to the machine, or the rejection its
  caller swallows.
\<close>

definition upsertPending ::
    "platform \<Rightarrow> 'w deps \<Rightarrow> string \<Rightarrow> pending_patch \<Rightarrow> 'w \<Rightarrow> pending_remote list js_result \<times> 'w" where
  "upsertPending env deps a patch w =
     (case dp_getPendingRemoteByPeerAddr deps a w of
        (Inl err, w1) \<Rightarrow> (Inl err, w1)
      | (Inr existing, w1) \<Rightarrow>
          (case (case existing of
                   Some r \<Rightarrow> dp_updatePendingRemote deps (pr_id r) patch w1
                 | None \<Rightarrow>
                     (case dp_createPendingRemote deps (new_pending env deps a patch) w1 of
                        (Inl err, w2) \<Rightarrow> (Inl err, w2)
                      | (Inr _, w2) \<Rightarrow> (Inr (), w2)))
           of
             (Inl err, w2) \<Rightarrow> (Inl err, w2)
           | (Inr _, w2) \<Rightarrow> dp_getAllPendingRemotes deps w2))"

section \<open>The flow\<close>

datatype work =
    Run add_peer_effect
  | AwaitConnection nat "peer_target option" \<comment> \<open>generation, target\<close>
  | AwaitKnock nat pending_remote \<comment> \<open>generation, pending record\<close>

record 'w flow =
  fl_ctx :: add_peer_context
  fl_disposed :: bool
  fl_generation :: nat
  fl_timers :: "string list" \<comment> \<open>ids with an armed timer\<close>
  fl_world :: 'w

definition createAddPeerFlow :: "'w \<Rightarrow> 'w flow" where
  "createAddPeerFlow w =
     \<lparr>fl_ctx = initialContext, fl_disposed = False, fl_generation = 0, fl_timers = [],
      fl_world = w\<rparr>"

definition send :: "platform \<Rightarrow> add_peer_event \<Rightarrow> 'w flow \<Rightarrow> 'w flow \<times> add_peer_effect list" where
  "send env event fl =
     (if fl_disposed fl then (fl, [])
      else case transition env (fl_ctx fl) event of (c, es) \<Rightarrow> (fl\<lparr>fl_ctx := c\<rparr>, es))"

definition feed :: "platform \<Rightarrow> add_peer_event \<Rightarrow> 'w flow \<Rightarrow> 'w flow \<times> work list" where
  "feed env event fl = (case send env event fl of (fl1, es) \<Rightarrow> (fl1, map Run es))"

definition scheduleTimer :: "string \<Rightarrow> 'w flow \<Rightarrow> 'w flow" where
  "scheduleTimer t fl = fl\<lparr>fl_timers := filter (\<lambda>x. x \<noteq> t) (fl_timers fl) @ [t]\<rparr>"

definition fire_timer :: "platform \<Rightarrow> string \<Rightarrow> 'w flow \<Rightarrow> 'w flow \<times> work list" where
  "fire_timer env t fl =
     feed env (TimerFired t) (fl\<lparr>fl_timers := filter (\<lambda>x. x \<noteq> t) (fl_timers fl)\<rparr>)"

definition dispose :: "'w flow \<Rightarrow> 'w flow" where
  "dispose fl =
     fl\<lparr>fl_disposed := True, fl_generation := Suc (fl_generation fl), fl_timers := []\<rparr>"

definition feed_records ::
    "platform \<Rightarrow> pending_remote list js_result \<times> 'w \<Rightarrow> 'w flow \<Rightarrow> 'w flow \<times> work list" where
  "feed_records env res fl =
     (case res of (r, w) \<Rightarrow> feed env (PendingLoaded (catch_with [] r)) (fl\<lparr>fl_world := w\<rparr>))"

definition feed_auth ::
    "platform \<Rightarrow> string \<Rightarrow> unit js_result \<times> 'w \<Rightarrow> 'w flow \<Rightarrow> 'w flow \<times> work list" where
  "feed_auth env dflt res fl =
     (case res of
        (Inl err, w) \<Rightarrow> feed env (AuthResult False (Some (exn_message_or err dflt))) (fl\<lparr>fl_world := w\<rparr>)
      | (Inr _, w) \<Rightarrow> feed env (AuthResult True None) (fl\<lparr>fl_world := w\<rparr>))"

definition run_check_duplicate ::
    "platform \<Rightarrow> 'w deps \<Rightarrow> peer_target \<Rightarrow> 'w flow \<Rightarrow> 'w flow \<times> work list" where
  "run_check_duplicate env deps target fl =
     (case dp_getAllRemotes deps (fl_world fl) of (res, w) \<Rightarrow>
        let remotes = catch_with [] res;
            duplicate = (case target of
                Http u \<Rightarrow> List.find (\<lambda>r. sr_base_url r = Some u) remotes
              | P2p a \<Rightarrow> List.find (\<lambda>r. sr_peer_addr r = Some a) remotes)
        in feed env (DuplicateResult duplicate) (fl\<lparr>fl_world := w\<rparr>))"

definition run_create_remote ::
    "platform \<Rightarrow> 'w deps \<Rightarrow> string option \<Rightarrow> string \<Rightarrow> 'w flow \<Rightarrow> 'w flow \<times> work list" where
  "run_create_remote env deps a u fl =
     (case dp_createRemote deps (nonempty_or_undefined u)
             (case a of None \<Rightarrow> None | Some s \<Rightarrow> nonempty_or_undefined s) (fl_world fl) of
        (Inl err, w) \<Rightarrow>
          feed env (RemoteCreated False None (Some (exn_message_or err ''failed to save remote'')))
            (fl\<lparr>fl_world := w\<rparr>)
      | (Inr remote, w) \<Rightarrow> feed env (RemoteCreated True (Some remote) None) (fl\<lparr>fl_world := w\<rparr>))"

definition run_send_knock ::
    "platform \<Rightarrow> 'w deps \<Rightarrow> string \<Rightarrow> string \<Rightarrow> string \<Rightarrow> 'w flow \<Rightarrow> 'w flow \<times> work list" where
  "run_send_knock env deps a u m fl =
     (case dp_sendKnock deps a u m (fl_world fl) of
        (Inl err, w) \<Rightarrow>
          feed env (KnockSentResult False (Some (exn_message_or err ''failed to send access request'')))
            (fl\<lparr>fl_world := w\<rparr>)
      | (Inr _, w) \<Rightarrow> feed env (KnockSentResult True None) (fl\<lparr>fl_world := w\<rparr>))"

text \<open>\<open>runEffect\<close>: the flow after the effect and the work to do before the effects that follow.\<close>

definition runEffect ::
    "platform \<Rightarrow> 'w deps \<Rightarrow> add_peer_effect \<Rightarrow> 'w flow \<Rightarrow> 'w flow \<times> work list" where
  "runEffect env deps effect fl =
     (let w = fl_world fl in
      if fl_disposed fl then (fl, [])
      else case effect of
        LoadPendingRemotes \<Rightarrow> feed_records env (dp_getAllPendingRemotes deps w) fl
      | CheckDuplicate target \<Rightarrow> run_check_duplicate env deps target fl
      | UpsertPending a patch \<Rightarrow>
          (case upsertPending env deps a patch w of
             (Inl _, w1) \<Rightarrow> (fl\<lparr>fl_world := w1\<rparr>, [])
           | (Inr records, w1) \<Rightarrow> feed env (PendingLoaded records) (fl\<lparr>fl_world := w1\<rparr>))
      | DeletePending k \<Rightarrow> (fl\<lparr>fl_world := snd (dp_deletePendingRemote deps k w)\<rparr>, [])
      | DeletePendingByAddr a \<Rightarrow>
          feed_records env
            (dp_getAllPendingRemotes deps (snd (dp_deletePendingRemoteByPeerAddr deps a w))) fl
      | CheckConnection target \<Rightarrow>
          (let g = Suc (fl_generation fl)
           in (fl\<lparr>fl_generation := g\<rparr>, [AwaitConnection g target]))
      | CheckKnockStatus pending \<Rightarrow>
          (let g = Suc (fl_generation fl)
           in (fl\<lparr>fl_generation := g\<rparr>, [AwaitKnock g pending]))
      | SendKnock a u m \<Rightarrow> run_send_knock env deps a u m fl
      | AuthHttp u mode n ic \<Rightarrow>
          feed_auth env ''authentication failed'' (dp_authenticateHttp deps u mode n ic w) fl
      | AuthRedeemInvite a n ic \<Rightarrow>
          feed_auth env ''invite code redemption failed'' (dp_redeemInvite deps a n ic w) fl
      | AuthPasskeyRegister a n ic \<Rightarrow>
          feed_auth env ''passkey registration failed'' (dp_registerWithPasskey deps a n ic w) fl
      | AuthPasskeyLogin target n \<Rightarrow>
          feed_auth env ''passkey login failed'' (dp_loginWithPasskey deps target n w) fl
      | CreateRemote a u \<Rightarrow> run_create_remote env deps a u fl
      | CancelInFlight \<Rightarrow> (fl\<lparr>fl_generation := Suc (fl_generation fl)\<rparr>, [])
      | ScheduleTimer t _ \<Rightarrow> (scheduleTimer t fl, [])
      | ClearQueryParam \<Rightarrow> (fl\<lparr>fl_world := nullish_or (dp_clearQueryParam deps) id w\<rparr>, [])
      | CallOnSuccess r \<Rightarrow> (fl\<lparr>fl_world := nullish_or (dp_onSuccess deps) (\<lambda>_. id) r w\<rparr>, [])
      | CallOnClose \<Rightarrow> (fl\<lparr>fl_world := nullish_or (dp_onClose deps) id w\<rparr>, []))"

text \<open>A probe answers: its outcome is discarded when the run was cancelled or superseded.\<close>

fun perform :: "platform \<Rightarrow> 'w deps \<Rightarrow> work \<Rightarrow> 'w flow \<Rightarrow> 'w flow \<times> work list" where
  "perform env deps (Run effect) fl = runEffect env deps effect fl"
| "perform env deps (AwaitConnection g target) fl =
     (case probeConnection deps target (fl_world fl) of (outcome, w) \<Rightarrow>
        let fl1 = fl\<lparr>fl_world := w\<rparr> in
        if fl_disposed fl1 \<or> g \<noteq> fl_generation fl1 then (fl1, [])
        else feed env (ConnectionResult outcome) fl1)"
| "perform env deps (AwaitKnock g pending) fl =
     (case probeKnockStatus env deps pending (fl_world fl) of (outcome, w) \<Rightarrow>
        let fl1 = fl\<lparr>fl_world := w\<rparr> in
        if fl_disposed fl1 \<or> g \<noteq> fl_generation fl1 then (fl1, [])
        else feed env (KnockStatusResult outcome) fl1)"

section \<open>Interleaved runs\<close>

text \<open>The flow with every \<open>feed\<close> call in progress, as its work still to do.\<close>

type_synonym 'w system = "'w flow \<times> work list list"

inductive work_step :: "platform \<Rightarrow> 'w deps \<Rightarrow> 'w system \<Rightarrow> 'w system \<Rightarrow> bool" for env deps where
  works: "perform env deps wk fl = (fl', ws) \<Longrightarrow>
     work_step env deps (fl, ts @ (wk # rest) # ts') (fl', ts @ (ws @ rest) # ts')"

inductive flow_step :: "platform \<Rightarrow> 'w deps \<Rightarrow> 'w system \<Rightarrow> 'w system \<Rightarrow> bool" for env deps where
  dispatches: "feed env e fl = (fl', ws) \<Longrightarrow> flow_step env deps (fl, ts) (fl', ts @ [ws])"
| fires: "t \<in> set (fl_timers fl) \<Longrightarrow> fire_timer env t fl = (fl', ws) \<Longrightarrow>
     flow_step env deps (fl, ts) (fl', ts @ [ws])"
| proceeds: "work_step env deps s s' \<Longrightarrow> flow_step env deps s s'"
| disposes: "flow_step env deps (fl, ts) (dispose fl, ts)"

inductive flow_reachable :: "platform \<Rightarrow> 'w deps \<Rightarrow> 'w system \<Rightarrow> bool" for env deps where
  created: "flow_reachable env deps (createAddPeerFlow w, [])"
| stepped: "flow_reachable env deps s \<Longrightarrow> flow_step env deps s s' \<Longrightarrow> flow_reachable env deps s'"

inductive_cases work_stepE: "work_step env deps (fl, ts) s'"

text \<open>One \<open>dispatch\<close> run to its end with nothing else in between; \<open>None\<close> when the fuel runs out.\<close>

fun drain :: "nat \<Rightarrow> platform \<Rightarrow> 'w deps \<Rightarrow> work list \<Rightarrow> 'w flow \<Rightarrow> 'w flow option" where
  "drain _ env deps [] fl = Some fl"
| "drain 0 env deps (_ # _) fl = None"
| "drain (Suc n) env deps (wk # ws) fl =
     (case perform env deps wk fl of (fl', new) \<Rightarrow> drain n env deps (new @ ws) fl')"

definition dispatch :: "platform \<Rightarrow> 'w deps \<Rightarrow> add_peer_event \<Rightarrow> 'w flow \<Rightarrow> 'w flow option" where
  "dispatch env deps e fl = (case feed env e fl of (fl', ws) \<Rightarrow> drain 8 env deps ws fl')"

lemmas runner_defs = feed_records_def feed_auth_def run_check_duplicate_def run_create_remote_def
  run_send_knock_def

end
