(* ===== verification/ObjectStore.thy ===== *)
theory ObjectStore
  imports Prelude "HOL-Library.List_Lexorder" "HOL-Library.Char_ord"
begin

text \<open>
  The IndexedDB object stores the code persists to (pending remotes, knocks, queue history): a
  store with an in-line key path, \<open>put\<close>, \<open>get\<close>, \<open>delete\<close>, and \<open>getAll\<close>, which answers in
  ascending key order. The model keeps the rows in that order. The locale \<open>keyed_store\<close> is what the
  components rely on; it is interpreted on the model for every key path.
\<close>

section \<open>The interface\<close>

locale keyed_store =
  fixes get :: "'k \<Rightarrow> 's \<Rightarrow> 'v option"
    and put :: "'v \<Rightarrow> 's \<Rightarrow> 's"
    and del :: "'k \<Rightarrow> 's \<Rightarrow> 's"
    and rows :: "'s \<Rightarrow> 'v list"
    and key :: "'v \<Rightarrow> 'k"
    and ok :: "'s \<Rightarrow> bool"
  assumes get_put: "ok s \<Longrightarrow> get k (put v s) = (if k = key v then Some v else get k s)"
    and get_del: "ok s \<Longrightarrow> get k (del k' s) = (if k = k' then None else get k s)"
    and get_iff_row: "ok s \<Longrightarrow> get k s = Some v \<longleftrightarrow> v \<in> set (rows s) \<and> key v = k"
    and distinct_keys: "ok s \<Longrightarrow> distinct (map key (rows s))"
    and ok_put: "ok s \<Longrightarrow> ok (put v s)"
    and ok_del: "ok s \<Longrightarrow> ok (del k s)"
begin

lemmas store_laws = get_put get_del ok_put ok_del

lemma row_put: "ok s \<Longrightarrow>
    r \<in> set (rows (put v s)) \<longleftrightarrow> r = v \<or> r \<in> set (rows s) \<and> key r \<noteq> key v"
  using get_iff_row [of "put v s" "key r" r] get_iff_row [of s "key r" r]
  by (auto simp: store_laws split: if_splits)

lemma row_del: "ok s \<Longrightarrow> r \<in> set (rows (del k s)) \<longleftrightarrow> r \<in> set (rows s) \<and> key r \<noteq> k"
  using get_iff_row [of "del k s" "key r" r] get_iff_row [of s "key r" r]
  by (auto simp: store_laws split: if_splits)

lemma row_unique: "ok s \<Longrightarrow> r \<in> set (rows s) \<Longrightarrow> r' \<in> set (rows s) \<Longrightarrow> key r = key r' \<Longrightarrow> r = r'"
  by (metis get_iff_row option.inject)

lemma get_None_iff: "ok s \<Longrightarrow> get k s = None \<longleftrightarrow> (\<forall>r \<in> set (rows s). key r \<noteq> k)"
  by (metis get_iff_row not_Some_eq)

lemma distinct_rows: "ok s \<Longrightarrow> distinct (rows s)"
  using distinct_keys distinct_map by blast

lemma length_put_new:
  assumes "ok s" "get (key v) s = None"
  shows "length (rows (put v s)) = Suc (length (rows s))"
proof -
  have "set (rows (put v s)) = insert v (set (rows s))"
    using assms by (auto simp: row_put get_None_iff)
  moreover have "v \<notin> set (rows s)"
    using assms by (auto simp: get_None_iff)
  ultimately show ?thesis
    using assms(1) by (metis List.finite_set card_insert_disjoint distinct_card distinct_rows ok_put)
qed

lemma length_put_old:
  assumes "ok s" "get (key v) s = Some r"
  shows "length (rows (put v s)) = length (rows s)"
proof -
  have r: "r \<in> set (rows s)" "key r = key v"
    using assms by (auto simp: get_iff_row)
  have e: "set (rows (put v s)) = insert v (set (rows s) - {r})"
    using assms r row_unique [OF assms(1)] by (auto simp: row_put)
  have "v \<notin> set (rows s) - {r}"
    using r row_unique [OF assms(1)] by auto
  then have "card (set (rows (put v s))) = Suc (card (set (rows s) - {r}))"
    by (simp add: e)
  also have "\<dots> = card (set (rows s))"
    using r by (metis List.finite_set card.remove)
  finally show ?thesis
    using assms(1) by (metis distinct_card distinct_rows ok_put)
qed

end

section \<open>The model\<close>

fun idb_put :: "('v \<Rightarrow> 'k::linorder) \<Rightarrow> 'v \<Rightarrow> 'v list \<Rightarrow> 'v list" where
  "idb_put kf r [] = [r]"
| "idb_put kf r (x # xs) =
     (if kf r < kf x then r # x # xs
      else if kf r = kf x then r # xs
      else x # idb_put kf r xs)"

definition idb_get :: "('v \<Rightarrow> 'k) \<Rightarrow> 'k \<Rightarrow> 'v list \<Rightarrow> 'v option" where
  "idb_get kf k rs = List.find (\<lambda>r. kf r = k) rs"

definition idb_delete :: "('v \<Rightarrow> 'k) \<Rightarrow> 'k \<Rightarrow> 'v list \<Rightarrow> 'v list" where
  "idb_delete kf k rs = filter (\<lambda>r. kf r \<noteq> k) rs"

definition idb_ok :: "('v \<Rightarrow> 'k::linorder) \<Rightarrow> 'v list \<Rightarrow> bool" where
  "idb_ok kf rs = sorted_wrt (<) (map kf rs)"

text \<open>
  An index query answers the rows with the given index value in primary key order;
  \<open>index.get\<close> answers the first of them.
\<close>

definition idb_index_all :: "('v \<Rightarrow> 'i) \<Rightarrow> 'i \<Rightarrow> 'v list \<Rightarrow> 'v list" where
  "idb_index_all f i rs = filter (\<lambda>r. f r = i) rs"

definition idb_index_get :: "('v \<Rightarrow> 'i) \<Rightarrow> 'i \<Rightarrow> 'v list \<Rightarrow> 'v option" where
  "idb_index_get f i rs = List.find (\<lambda>r. f r = i) rs"

lemma set_idb_put: "idb_ok kf rs \<Longrightarrow>
    set (idb_put kf r rs) = insert r {x \<in> set rs. kf x \<noteq> kf r}"
  by (induction kf r rs rule: idb_put.induct) (auto simp: idb_ok_def)

lemma idb_ok_put: "idb_ok kf rs \<Longrightarrow> idb_ok kf (idb_put kf r rs)"
proof (induction kf r rs rule: idb_put.induct)
  case (1 kf r)
  then show ?case by (simp add: idb_ok_def)
next
  case (2 kf r x xs)
  then have "idb_ok kf xs" by (simp add: idb_ok_def)
  with 2 show ?case
    by (auto simp: idb_ok_def set_idb_put [unfolded idb_ok_def])
qed

lemma idb_get_Some_iff:
  assumes "idb_ok kf rs"
  shows "idb_get kf k rs = Some v \<longleftrightarrow> v \<in> set rs \<and> kf v = k"
  using assms by (induction rs) (auto simp: idb_ok_def idb_get_def)

lemma idb_get_put:
  assumes "idb_ok kf rs"
  shows "idb_get kf k (idb_put kf v rs) = (if k = kf v then Some v else idb_get kf k rs)"
proof -
  have "idb_get kf k (idb_put kf v rs) = Some w \<longleftrightarrow>
      (if k = kf v then Some v else idb_get kf k rs) = Some w" for w
    using assms
    by (auto simp: idb_get_Some_iff idb_ok_put set_idb_put)
  then show ?thesis by (metis not_None_eq)
qed

interpretation idb: keyed_store "idb_get kf" "idb_put kf" "idb_delete kf" "\<lambda>rs. rs" kf "idb_ok kf"
  for kf :: "'v \<Rightarrow> 'k::linorder"
proof unfold_locales
  fix s :: "'v list" and k k' :: 'k and v :: 'v
  assume ok: "idb_ok kf s"
  show "idb_get kf k (idb_put kf v s) = (if k = kf v then Some v else idb_get kf k s)"
    by (rule idb_get_put [OF ok])
  show "idb_get kf k (idb_delete kf k' s) = (if k = k' then None else idb_get kf k s)"
    by (induction s) (auto simp: idb_get_def idb_delete_def)
  show "idb_get kf k s = Some v \<longleftrightarrow> v \<in> set s \<and> kf v = k"
    by (rule idb_get_Some_iff [OF ok])
  show "distinct (map kf s)"
    using ok by (simp add: idb_ok_def strict_sorted_iff)
  show "idb_ok kf (idb_put kf v s)"
    by (rule idb_ok_put [OF ok])
  show "idb_ok kf (idb_delete kf k s)"
    using ok by (auto simp: idb_ok_def idb_delete_def sorted_wrt_map intro: sorted_wrt_filter)
qed

lemma idb_ok_Nil [simp]: "idb_ok kf []"
  by (simp add: idb_ok_def)

lemma idb_index_get_hd: "idb_index_get f i rs =
    (case idb_index_all f i rs of [] \<Rightarrow> None | r # _ \<Rightarrow> Some r)"
  by (induction rs) (auto simp: idb_index_get_def idb_index_all_def)

text \<open>The instance used for the stores keyed by a string \<open>id\<close>; code equations for evaluation.\<close>

lemmas idb_defs = idb_get_def idb_delete_def idb_index_all_def idb_index_get_def

end
