(* ===== verification/PendingStore.thy ===== *)
theory PendingStore
  imports ObjectStore AddPeerTypes
begin

text \<open>
  The pending-remote store of the web build, the IndexedDB branch of the functions
  \<open>createPendingRemote\<close> \<dots> \<open>deletePendingRemoteByPeerAddr\<close> of
  \<open>client/spume/src/app/services/storage/db.ts\<close> (the desktop build calls the Rust backend instead,
  which is not modelled). A stored row is the flow's record with two time stamps; the state is the
  object store, the identifiers \<open>generateUUID\<close> still has to answer, and the clock. The writes log
  nothing, and the promises of an open database do not reject.
\<close>

record stored_pending = pending_remote +
  sp_created_at :: int
  sp_updated_at :: int

record pending_db =
  pd_rows :: "stored_pending list"
  pd_uuids :: "nat \<Rightarrow> string"
  pd_drawn :: nat
  pd_clock :: int

definition generateUUID :: "pending_db \<Rightarrow> string \<times> pending_db" where
  "generateUUID db = (pd_uuids db (pd_drawn db), db\<lparr>pd_drawn := Suc (pd_drawn db)\<rparr>)"

text \<open>\<open>Omit<PendingRemote, "id">\<close> is a record whose \<open>pr_id\<close> is not read.\<close>

definition createPendingRemote :: "pending_remote \<Rightarrow> pending_db \<Rightarrow> stored_pending \<times> pending_db" where
  "createPendingRemote pending db =
     (let (uuid, db1) = generateUUID db;
          newPending = pending_remote.extend (pending\<lparr>pr_id := uuid\<rparr>)
            (stored_pending.fields (pd_clock db) (pd_clock db))
      in (newPending, db1\<lparr>pd_rows := idb_put pr_id newPending (pd_rows db1)\<rparr>))"

definition getAllPendingRemotes :: "pending_db \<Rightarrow> stored_pending list" where
  "getAllPendingRemotes db = pd_rows db"

definition getPendingRemoteByPeerAddr :: "string \<Rightarrow> pending_db \<Rightarrow> stored_pending option" where
  "getPendingRemoteByPeerAddr a db = idb_index_get pr_peer_addr a (pd_rows db)"

definition getPendingRemoteById :: "string \<Rightarrow> pending_db \<Rightarrow> stored_pending option" where
  "getPendingRemoteById k db = idb_get pr_id k (pd_rows db)"

definition updatePendingRemote ::
    "string \<Rightarrow> pending_patch \<Rightarrow> pending_db \<Rightarrow> stored_pending option \<times> pending_db" where
  "updatePendingRemote k updates db =
     (case idb_get pr_id k (pd_rows db) of
        None \<Rightarrow> (None, db)
      | Some pending \<Rightarrow>
          let updated = (apply_patch updates pending)\<lparr>sp_updated_at := pd_clock db\<rparr>
          in (Some updated, db\<lparr>pd_rows := idb_put pr_id updated (pd_rows db)\<rparr>))"

definition deletePendingRemote :: "string \<Rightarrow> pending_db \<Rightarrow> pending_db" where
  "deletePendingRemote k db = db\<lparr>pd_rows := idb_delete pr_id k (pd_rows db)\<rparr>"

definition deletePendingRemoteByPeerAddr :: "string \<Rightarrow> pending_db \<Rightarrow> pending_db" where
  "deletePendingRemoteByPeerAddr a db =
     (case getPendingRemoteByPeerAddr a db of
        None \<Rightarrow> db
      | Some pending \<Rightarrow> db\<lparr>pd_rows := idb_delete pr_id (pr_id pending) (pd_rows db)\<rparr>)"

section \<open>The store's invariant\<close>

text \<open>
  Rows have distinct keys in key order, the identifiers still to be drawn are pairwise different and
  none of them is in use.
\<close>

definition pd_ok :: "pending_db \<Rightarrow> bool" where
  "pd_ok db = (idb_ok pr_id (pd_rows db)
     \<and> inj_on (pd_uuids db) {pd_drawn db..}
     \<and> (\<forall>r \<in> set (pd_rows db). \<forall>n \<ge> pd_drawn db. pr_id r \<noteq> pd_uuids db n))"

text \<open>One pending record per address, which the runner's upsert keeps.\<close>

definition pd_addr_unique :: "pending_db \<Rightarrow> bool" where
  "pd_addr_unique db = (\<forall>r \<in> set (pd_rows db). \<forall>r' \<in> set (pd_rows db).
     pr_peer_addr r = pr_peer_addr r' \<longrightarrow> r = r')"

lemmas store_ops = createPendingRemote_def getAllPendingRemotes_def getPendingRemoteByPeerAddr_def
  getPendingRemoteById_def updatePendingRemote_def deletePendingRemote_def
  deletePendingRemoteByPeerAddr_def generateUUID_def

lemma pd_ok_rows: "pd_ok db \<Longrightarrow> idb_ok pr_id (pd_rows db)"
  by (simp add: pd_ok_def)

lemma by_addr_Some_iff:
  assumes "pd_addr_unique db"
  shows "getPendingRemoteByPeerAddr a db = Some r \<longleftrightarrow> r \<in> set (pd_rows db) \<and> pr_peer_addr r = a"
proof
  assume "getPendingRemoteByPeerAddr a db = Some r"
  then show "r \<in> set (pd_rows db) \<and> pr_peer_addr r = a"
    by (auto simp: getPendingRemoteByPeerAddr_def idb_index_get_def dest: find_SomeD)
next
  assume r: "r \<in> set (pd_rows db) \<and> pr_peer_addr r = a"
  then obtain r' where r': "getPendingRemoteByPeerAddr a db = Some r'"
    by (cases "getPendingRemoteByPeerAddr a db")
       (auto simp: getPendingRemoteByPeerAddr_def idb_index_get_def find_None_iff_all)
  then have "r' \<in> set (pd_rows db) \<and> pr_peer_addr r' = a"
    by (auto simp: getPendingRemoteByPeerAddr_def idb_index_get_def dest: find_SomeD)
  with r r' assms show "getPendingRemoteByPeerAddr a db = Some r"
    by (metis pd_addr_unique_def)
qed

lemma by_addr_None_iff: "getPendingRemoteByPeerAddr a db = None \<longleftrightarrow>
    (\<forall>r \<in> set (pd_rows db). pr_peer_addr r \<noteq> a)"
  by (simp add: getPendingRemoteByPeerAddr_def idb_index_get_def find_None_iff_all)

lemma create_rows:
  assumes "pd_ok db"
  shows "set (pd_rows (snd (createPendingRemote p db))) =
      insert (fst (createPendingRemote p db)) (set (pd_rows db))"
  using assms
  by (auto simp: store_ops Let_def idb.row_put pd_ok_def pending_remote.defs)

lemma create_ok:
  assumes "pd_ok db"
  shows "pd_ok (snd (createPendingRemote p db))"
proof -
  have "inj_on (pd_uuids db) {Suc (pd_drawn db)..}"
    using assms by (auto simp: pd_ok_def inj_on_def)
  moreover have "pd_uuids db (pd_drawn db) \<noteq> pd_uuids db n" if "Suc (pd_drawn db) \<le> n" for n
    using assms that inj_onD [of "pd_uuids db" "{pd_drawn db..}" "pd_drawn db" n]
    by (auto simp: pd_ok_def)
  ultimately show ?thesis
    using assms create_rows [OF assms, of p]
    by (auto simp: pd_ok_def store_ops Let_def idb.ok_put pending_remote.defs)
qed

lemma delete_ok: "pd_ok db \<Longrightarrow> pd_ok (deletePendingRemote k db)"
  by (auto simp: pd_ok_def deletePendingRemote_def idb.ok_del idb.row_del)

lemma deleteByAddr_eq: "deletePendingRemoteByPeerAddr a db =
    (case getPendingRemoteByPeerAddr a db of None \<Rightarrow> db | Some r \<Rightarrow> deletePendingRemote (pr_id r) db)"
  by (simp add: deletePendingRemoteByPeerAddr_def deletePendingRemote_def split: option.split)

lemma deleteByAddr_ok: "pd_ok db \<Longrightarrow> pd_ok (deletePendingRemoteByPeerAddr a db)"
  by (simp add: deleteByAddr_eq delete_ok split: option.split)

lemma update_ok: "pd_ok db \<Longrightarrow> pd_ok (snd (updatePendingRemote k p db))"
  by (auto simp: pd_ok_def updatePendingRemote_def Let_def idb.ok_put idb.row_put idb.get_iff_row
      split: option.split)

lemma update_rows:
  assumes "pd_ok db" "r \<in> set (pd_rows db)"
  shows "set (pd_rows (snd (updatePendingRemote (pr_id r) p db))) =
      insert ((apply_patch p r)\<lparr>sp_updated_at := pd_clock db\<rparr>) (set (pd_rows db) - {r})"
proof -
  have "idb_get pr_id (pr_id r) (pd_rows db) = Some r"
    using assms by (simp add: idb.get_iff_row pd_ok_rows)
  then show ?thesis
    using assms idb.row_unique [OF pd_ok_rows [OF assms(1)]]
    by (auto simp: updatePendingRemote_def Let_def idb.row_put pd_ok_rows)
qed

lemma deleteByAddr_rows:
  assumes "pd_ok db" "pd_addr_unique db"
  shows "set (pd_rows (deletePendingRemoteByPeerAddr a db)) =
      {r \<in> set (pd_rows db). pr_peer_addr r \<noteq> a}"
proof (cases "getPendingRemoteByPeerAddr a db")
  case None
  then have "\<forall>r \<in> set (pd_rows db). pr_peer_addr r \<noteq> a"
    by (simp add: by_addr_None_iff)
  with None show ?thesis by (auto simp: deleteByAddr_eq)
next
  case (Some r)
  then have r: "r \<in> set (pd_rows db)" "pr_peer_addr r = a"
    using assms by (auto simp: by_addr_Some_iff)
  have "pr_id x \<noteq> pr_id r \<longleftrightarrow> pr_peer_addr x \<noteq> a" if "x \<in> set (pd_rows db)" for x
    using that r assms idb.row_unique [OF pd_ok_rows [OF assms(1)]]
    by (metis pd_addr_unique_def)
  then show ?thesis
    using assms Some by (auto simp: deleteByAddr_eq deletePendingRemote_def idb.row_del pd_ok_rows)
qed

end
