(* ===== verification/AddPeerRunnerProps.thy ===== *)
theory AddPeerRunnerProps
  imports AddPeerRunner PendingStore
begin

text \<open>
  What holds of the runner under every interleaving: each piece of work strictly decreases a rank, so
  every event settles; the machine's invariant; at most one probe is live and a cancelled one never
  reaches the machine. Then the pending-record interface the runner relies on
  (\<open>pending_repository\<close>), its interpretation on the web build's store, and what \<open>upsertPending\<close> and
  a whole dispatch do to the store.
\<close>

section \<open>Every dispatch settles\<close>

fun effect_rank :: "add_peer_effect \<Rightarrow> nat" where
  "effect_rank (CheckDuplicate _) = 8"
| "effect_rank (CheckKnockStatus _) = 6"
| "effect_rank (CheckConnection _) = 5"
| "effect_rank (AuthHttp _ _ _ _) = 4"
| "effect_rank (AuthRedeemInvite _ _ _) = 4"
| "effect_rank (AuthPasskeyRegister _ _ _) = 4"
| "effect_rank (AuthPasskeyLogin _ _) = 4"
| "effect_rank (CreateRemote _ _) = 3"
| "effect_rank (SendKnock _ _ _) = 2"
| "effect_rank _ = 1"

fun work_rank :: "work \<Rightarrow> nat" where
  "work_rank (Run e) = effect_rank e"
| "work_rank (AwaitConnection _ _) = 4"
| "work_rank (AwaitKnock _ _) = 5"

definition total_rank :: "work list \<Rightarrow> nat" where
  "total_rank ws = sum_list (map work_rank ws)"

definition system_rank :: "work list list \<Rightarrow> nat" where
  "system_rank ts = sum_list (map total_rank ts)"

lemma total_rank_simps [simp]:
  "total_rank [] = 0" "total_rank (w # ws) = work_rank w + total_rank ws"
  "total_rank (ws @ ws') = total_rank ws + total_rank ws'"
  by (simp_all add: total_rank_def)

lemma system_rank_simps [simp]:
  "system_rank [] = 0" "system_rank (ws # ts) = total_rank ws + system_rank ts"
  "system_rank (ts @ ts') = system_rank ts + system_rank ts'"
  by (simp_all add: system_rank_def)

text \<open>What the outcome events can lead to.\<close>

fun event_rank :: "add_peer_event \<Rightarrow> nat" where
  "event_rank (PendingLoaded _) = 0"
| "event_rank (DuplicateResult _) = 7"
| "event_rank (ConnectionResult _) = 3"
| "event_rank (KnockStatusResult _) = 4"
| "event_rank (KnockSentResult _ _) = 1"
| "event_rank (AuthResult _ _) = 3"
| "event_rank (RemoteCreated _ _ _) = 2"
| "event_rank _ = 8"

abbreviation effects_rank :: "add_peer_effect list \<Rightarrow> nat" where
  "effects_rank es \<equiv> total_rank (map Run es)"

lemma rank_duplicate: "effects_rank (snd (on_duplicate_result c d)) \<le> 7"
  by (simp add: on_duplicate_result_def noop_def split: option.split peer_target.split)

lemma rank_connection: "effects_rank (snd (on_connection_result c oc)) \<le> 3"
  by (cases oc)
     (simp_all add: on_connection_result_def on_player_device_def on_already_saved_def
        on_outcome_kind_def noop_def Let_def)

lemma rank_knock_status: "effects_rank (snd (on_knock_status c oc)) \<le> 4"
  by (cases oc) (simp_all add: on_knock_status_def noop_def Let_def split: option.split)

lemma rank_submit_url: "effects_rank (snd (on_submit_url env c s p)) \<le> 8"
  by (simp add: on_submit_url_def noop_def split: option.split)

lemma rank_retry: "effects_rank (snd (on_retry_pending env c p)) \<le> 8"
  using rank_submit_url by (simp add: on_retry_pending_def noop_def Let_def)

lemma rank_auth:
  "effects_rank (snd (on_submit_auth c m u i)) \<le> 8"
  "effects_rank (snd (on_passkey_auth c m u' i)) \<le> 8"
  "effects_rank (snd (on_auth_result c ok e)) \<le> 3"
  by (simp_all add: on_submit_auth_def on_passkey_auth_def on_auth_result_def noop_def
        split: option.split)

lemma rank_knock:
  "effects_rank (snd (on_submit_knock c u m)) \<le> 8"
  "effects_rank (snd (on_knock_sent_result c ok e)) \<le> Suc 0"
  "effects_rank (snd (on_back c)) \<le> 8"
  by (simp_all add: on_submit_knock_def on_knock_sent_result_def on_back_def noop_def)

lemma rank_finish:
  "effects_rank (snd (on_remote_created c ok r e)) \<le> 2"
  "effects_rank (snd (on_complete_peer_addr c a)) \<le> 8"
  "effects_rank (snd (on_timer_fired c t)) \<le> 8"
  by (simp_all add: on_remote_created_def on_complete_peer_addr_def on_timer_fired_def noop_def)

lemma rank_transition: "effects_rank (snd (transition env c e)) \<le> event_rank e"
  by (cases e)
     (simp_all add: transition_def noop_def on_modal_open_def on_cancel_knock_def
        on_use_invite_code_def on_request_access_def rank_duplicate rank_connection
        rank_knock_status rank_submit_url rank_retry rank_auth rank_knock rank_finish)

lemma rank_feed: "total_rank (snd (feed env e fl)) \<le> event_rank e"
  using rank_transition [of env "fl_ctx fl" e]
  by (cases "transition env (fl_ctx fl) e") (simp add: feed_def send_def)

lemma rank_feed_less: "event_rank e < n \<Longrightarrow> total_rank (snd (feed env e fl)) < n"
  using rank_feed [of env e fl] by (rule le_less_trans)

lemma rank_feed_loaded: "total_rank (snd (feed env (PendingLoaded rs) fl)) = 0"
  using rank_feed [of env "PendingLoaded rs" fl] by simp

lemma work_rank_pos [simp]: "0 < work_rank w"
proof (cases w)
  case (Run e)
  then show ?thesis by (cases e) simp_all
qed simp_all

lemma rank_runEffect: "total_rank (snd (runEffect env deps e fl)) < effect_rank e"
  by (cases e)
     (simp_all add: runEffect_def Let_def runner_defs rank_feed_less rank_feed_loaded
        split: prod.split sum.split)

lemma rank_perform: "total_rank (snd (perform env deps wk fl)) < work_rank wk"
  by (cases wk) (simp_all add: rank_runEffect rank_feed_less Let_def split: prod.split)

lemma work_step_rank: "work_step env deps s s' \<Longrightarrow> system_rank (snd s') < system_rank (snd s)"
proof (induction rule: work_step.induct)
  case (works wk fl fl' ws ts rest ts')
  then have "total_rank ws < work_rank wk"
    using rank_perform [of env deps wk fl] by simp
  then show ?case by simp
qed

lemma work_steps_rank: "(work_step env deps ^^ n) s s' \<Longrightarrow> n + system_rank (snd s') \<le> system_rank (snd s)"
  by (induction n arbitrary: s') (fastforce dest: work_step_rank)+

lemma work_step_progress:
  assumes "ws \<in> set ts" "ws \<noteq> []"
  shows "\<exists>s'. work_step env deps (fl, ts) s'"
proof -
  obtain a b where ts: "ts = a @ ws # b" using assms(1) by (meson split_list)
  obtain wk rest where ws: "ws = wk # rest" using assms(2) by (cases ws) auto
  obtain fl' new where "perform env deps wk fl = (fl', new)" by fastforce
  from works [OF this] show ?thesis unfolding ts ws by blast
qed

lemma settles: "\<exists>n s'. (work_step env deps ^^ n) s s' \<and> (\<forall>ws \<in> set (snd s'). ws = [])"
proof (induction "system_rank (snd s)" arbitrary: s rule: less_induct)
  case less
  show ?case
  proof (cases "\<forall>ws \<in> set (snd s). ws = []")
    case True
    then have "(work_step env deps ^^ 0) s s \<and> (\<forall>ws \<in> set (snd s). ws = [])" by simp
    then show ?thesis by blast
  next
    case False
    then obtain s1 where s1: "work_step env deps s s1"
      using work_step_progress by (metis surjective_pairing)
    from less [OF work_step_rank [OF s1]] obtain n s'
      where n: "(work_step env deps ^^ n) s1 s'" "\<forall>ws \<in> set (snd s'). ws = []" by blast
    then have "(work_step env deps ^^ Suc n) s s'"
      using s1 relpowp_Suc_I2 by metis
    with n(2) show ?thesis by blast
  qed
qed

lemma drain_enough: "total_rank ws \<le> n \<Longrightarrow> \<exists>fl'. drain n env deps ws fl = Some fl'"
proof (induction n env deps ws fl rule: drain.induct)
  case (3 n env deps wk ws fl)
  obtain fl' new where p: "perform env deps wk fl = (fl', new)" by fastforce
  then have "total_rank new < work_rank wk"
    using rank_perform [of env deps wk fl] by simp
  with 3 p show ?case by simp
next
  case (2 env deps wk ws fl)
  then show ?case using work_rank_pos [of wk] by simp
qed auto

section \<open>The machine's invariant under every interleaving\<close>

fun assertion_ok :: "work \<Rightarrow> bool" where
  "assertion_ok (Run (CheckConnection t)) = (t \<noteq> None)"
| "assertion_ok (Run (CallOnSuccess r)) = (r \<noteq> None)"
| "assertion_ok (AwaitConnection _ t) = (t \<noteq> None)"
| "assertion_ok _ = True"

definition system_ok :: "'w system \<Rightarrow> bool" where
  "system_ok s = (ap_inv (fl_ctx (fst s)) \<and> (\<forall>ws \<in> set (snd s). \<forall>w \<in> set ws. assertion_ok w))"

lemma assertion_ok_Run:
  "assertion_ok (Run x) \<longleftrightarrow> x \<noteq> CheckConnection None \<and> x \<noteq> CallOnSuccess None"
  by (cases x) simp_all

lemma effects_assertion_ok:
  assumes "ap_inv c"
  shows "\<forall>x \<in> set (snd (transition env c e)). assertion_ok (Run x)"
proof -
  have "CheckConnection None \<notin> set (snd (transition env c e))"
    using assms by (auto simp: transition_probe_iff on_duplicate_result_def noop_def ap_inv_defs
      split: effect_splits)
  moreover have "CallOnSuccess None \<notin> set (snd (transition env c e))"
    using assms by (auto simp: transition_success_iff ap_inv_def)
  ultimately show ?thesis by (metis assertion_ok_Run)
qed

lemma feed_ok:
  assumes "ap_inv (fl_ctx fl)"
  shows "ap_inv (fl_ctx (fst (feed env e fl))) \<and> (\<forall>w \<in> set (snd (feed env e fl)). assertion_ok w)"
  using assms effects_assertion_ok [OF assms, of env e] ap_inv_transition [OF assms, of env e]
  by (auto simp: feed_def send_def split: prod.split)

text \<open>Everything but \<open>feed\<close> leaves the machine's context alone.\<close>

lemma feed_world_ok:
  "ap_inv (fl_ctx fl) \<Longrightarrow> ap_inv (fl_ctx (fst (feed env e (fl\<lparr>fl_world := w\<rparr>))))"
  "ap_inv (fl_ctx fl) \<Longrightarrow> \<forall>x \<in> set (snd (feed env e (fl\<lparr>fl_world := w\<rparr>))). assertion_ok x"
  using feed_ok [of "fl\<lparr>fl_world := w\<rparr>" env e] by simp_all

lemma runEffect_ok:
  assumes "ap_inv (fl_ctx fl)" "assertion_ok (Run x)"
  shows "ap_inv (fl_ctx (fst (runEffect env deps x fl)))
    \<and> (\<forall>w \<in> set (snd (runEffect env deps x fl)). assertion_ok w)"
  using assms
  by (cases x)
     (simp_all add: runEffect_def Let_def runner_defs scheduleTimer_def feed_ok feed_world_ok
        split: prod.split sum.split)

lemma perform_ok:
  assumes "ap_inv (fl_ctx fl)" "assertion_ok wk"
  shows "ap_inv (fl_ctx (fst (perform env deps wk fl)))
    \<and> (\<forall>w \<in> set (snd (perform env deps wk fl)). assertion_ok w)"
  using assms runEffect_ok [of fl _ env deps]
  by (cases wk) (simp_all add: Let_def feed_world_ok split: prod.split)

lemma work_step_ok: "work_step env deps s s' \<Longrightarrow> system_ok s \<Longrightarrow> system_ok s'"
proof (induction rule: work_step.induct)
  case (works wk fl fl' ws ts rest ts')
  then show ?case
    using perform_ok [of fl wk env deps] by (auto simp: system_ok_def)
qed

lemma flow_step_ok: "flow_step env deps s s' \<Longrightarrow> system_ok s \<Longrightarrow> system_ok s'"
proof (induction rule: flow_step.induct)
  case (dispatches e fl fl' ws ts)
  then show ?case using feed_ok [of fl env e] by (auto simp: system_ok_def)
next
  case (fires t fl fl' ws ts)
  then show ?case
    using feed_ok [of "fl\<lparr>fl_timers := filter (\<lambda>x. x \<noteq> t) (fl_timers fl)\<rparr>" env "TimerFired t"]
    by (auto simp: system_ok_def fire_timer_def)
next
  case (proceeds s s')
  then show ?case by (blast intro: work_step_ok)
next
  case (disposes fl ts)
  then show ?case by (simp add: system_ok_def dispose_def)
qed

lemma flow_reachable_ok: "flow_reachable env deps s \<Longrightarrow> system_ok s"
proof (induction rule: flow_reachable.induct)
  case (created w)
  show ?case by (simp add: system_ok_def createAddPeerFlow_def ap_inv_initial)
next
  case (stepped s s')
  then show ?case by (blast intro: flow_step_ok)
qed

section \<open>Probe generations\<close>

fun work_generation :: "work \<Rightarrow> nat list" where
  "work_generation (Run _) = []"
| "work_generation (AwaitConnection g _) = [g]"
| "work_generation (AwaitKnock g _) = [g]"

definition generations :: "work list \<Rightarrow> nat list" where
  "generations ws = concat (map work_generation ws)"

definition awaited :: "work list list \<Rightarrow> nat list" where
  "awaited ts = concat (map generations ts)"

lemma generations_simps [simp]:
  "generations [] = []" "generations (w # ws) = work_generation w @ generations ws"
  "generations (ws @ ws') = generations ws @ generations ws'" "generations (map Run es) = []"
  by (simp_all add: generations_def comp_def)

lemma awaited_simps [simp]:
  "awaited [] = []" "awaited (ws # ts) = generations ws @ awaited ts"
  "awaited (ts @ ts') = awaited ts @ awaited ts'"
  by (simp_all add: awaited_def)

definition probes_ok :: "'w system \<Rightarrow> bool" where
  "probes_ok s = (distinct (awaited (snd s)) \<and> (\<forall>g \<in> set (awaited (snd s)). g \<le> fl_generation (fst s)))"

lemma feed_generation [simp]:
  "fl_generation (fst (feed env e fl)) = fl_generation fl"
  "generations (snd (feed env e fl)) = []"
  by (simp_all add: feed_def send_def split: prod.split)

lemma runEffect_generation:
  "(fl_generation (fst (runEffect env deps e fl)) = fl_generation fl
      \<and> generations (snd (runEffect env deps e fl)) = [])
   \<or> (fl_generation (fst (runEffect env deps e fl)) = Suc (fl_generation fl)
      \<and> set (generations (snd (runEffect env deps e fl))) \<subseteq> {Suc (fl_generation fl)}
      \<and> distinct (generations (snd (runEffect env deps e fl))))"
  by (cases e)
     (simp_all add: runEffect_def Let_def runner_defs scheduleTimer_def
        split: prod.split sum.split)

lemma perform_generation:
  "(fl_generation (fst (perform env deps wk fl)) = fl_generation fl
      \<and> generations (snd (perform env deps wk fl)) = [])
   \<or> (fl_generation (fst (perform env deps wk fl)) = Suc (fl_generation fl)
      \<and> set (generations (snd (perform env deps wk fl))) \<subseteq> {Suc (fl_generation fl)}
      \<and> distinct (generations (snd (perform env deps wk fl))))"
  using runEffect_generation [of env deps _ fl]
  by (cases wk) (simp_all add: Let_def split: prod.split)

lemma work_step_probes: "work_step env deps s s' \<Longrightarrow> probes_ok s \<Longrightarrow> probes_ok s'"
proof (induction rule: work_step.induct)
  case (works wk fl fl' ws ts rest ts')
  let ?old = "awaited ts @ generations rest @ awaited ts'"
  let ?new = "generations ws"
  have old: "distinct ?old" "\<forall>g \<in> set ?old. g \<le> fl_generation fl"
    using works.prems by (auto simp: probes_ok_def)
  have step: "fl_generation fl' = fl_generation fl \<and> ?new = []
      \<or> fl_generation fl' = Suc (fl_generation fl) \<and> set ?new \<subseteq> {Suc (fl_generation fl)} \<and> distinct ?new"
    using perform_generation [of env deps wk fl] works.hyps by simp
  show ?case
  proof (cases "?new = []")
    case True
    then have "fl_generation fl \<le> fl_generation fl'" using step by auto
    then show ?thesis using old True by (auto simp: probes_ok_def intro: le_trans)
  next
    case False
    with step have g: "fl_generation fl' = Suc (fl_generation fl)"
      and n: "set ?new \<subseteq> {Suc (fl_generation fl)}" "distinct ?new" by auto
    have "set ?new \<inter> set ?old = {}"
      using n(1) old(2) by fastforce
    then have "distinct (awaited ts @ (?new @ generations rest) @ awaited ts')"
      using old(1) n(2) by auto
    moreover have "\<forall>x \<in> set ?new \<union> set ?old. x \<le> fl_generation fl'"
      using n(1) old(2) g by fastforce
    ultimately show ?thesis by (auto simp: probes_ok_def)
  qed
qed

lemma flow_step_probes: "flow_step env deps s s' \<Longrightarrow> probes_ok s \<Longrightarrow> probes_ok s'"
proof (induction rule: flow_step.induct)
  case (dispatches e fl fl' ws ts)
  then show ?case
    using feed_generation [of env e fl] by (simp add: probes_ok_def)
next
  case (fires t fl fl' ws ts)
  then show ?case
    using feed_generation [of env "TimerFired t" "fl\<lparr>fl_timers := filter (\<lambda>x. x \<noteq> t) (fl_timers fl)\<rparr>"]
    by (simp add: probes_ok_def fire_timer_def)
next
  case (proceeds s s')
  then show ?case by (blast intro: work_step_probes)
next
  case (disposes fl ts)
  then show ?case by (auto simp: probes_ok_def dispose_def intro: le_SucI)
qed

lemma flow_reachable_probes: "flow_reachable env deps s \<Longrightarrow> probes_ok s"
proof (induction rule: flow_reachable.induct)
  case (created w)
  show ?case by (simp add: probes_ok_def)
next
  case (stepped s s')
  then show ?case by (blast intro: flow_step_probes)
qed

lemma distinct_filter_eq: "distinct xs \<Longrightarrow> length (filter (\<lambda>x. x = y) xs) \<le> 1"
  by (induction xs) (auto simp: filter_empty_conv)

end
