(* ===== verification/AddPeerRepository.thy ===== *)
theory AddPeerRepository
  imports AddPeerRunnerProps
begin

text \<open>
  The pending-record interface the runner relies on, as the locale \<open>pending_repository\<close>, with what
  \<open>upsertPending\<close> and the address deletion do under it, and its interpretation on the bindings of the
  web build: \<open>addPeerFlowDeps\<close> of \<open>client/spume/src/app/services/remotes/addPeerFlowAdapter.ts\<close> over
  the store of \<open>PendingStore\<close>.
\<close>

section \<open>The interface\<close>

lemma apply_patch_error:
  "pr_error_message (apply_patch p r) = nullish_or (pp_error_message p) (pr_error_message r)"
  by (simp add: apply_patch_def)

locale pending_repository =
  fixes deps :: "'w deps"
    and records :: "'w \<Rightarrow> pending_remote list"
    and ok :: "'w \<Rightarrow> bool"
  assumes get_record: "ok w \<Longrightarrow> dp_getPendingRemoteByPeerAddr deps a w =
      (Inr (List.find (\<lambda>r. pr_peer_addr r = a) (records w)), w)"
    and all_records: "ok w \<Longrightarrow> dp_getAllPendingRemotes deps w = (Inr (records w), w)"
    and create_record: "ok w \<Longrightarrow> \<forall>r \<in> set (records w). pr_peer_addr r \<noteq> pr_peer_addr p \<Longrightarrow>
      \<exists>k w'. dp_createPendingRemote deps p w = (Inr (p\<lparr>pr_id := k\<rparr>), w') \<and> ok w'
        \<and> set (records w') = insert (p\<lparr>pr_id := k\<rparr>) (set (records w))"
    and update_record: "ok w \<Longrightarrow> r \<in> set (records w) \<Longrightarrow>
      \<exists>w'. dp_updatePendingRemote deps (pr_id r) patch w = (Inr (), w') \<and> ok w'
        \<and> set (records w') = insert (apply_patch patch r) (set (records w) - {r})"
    and delete_record: "ok w \<Longrightarrow>
      \<exists>w'. dp_deletePendingRemoteByPeerAddr deps a w = (Inr (), w') \<and> ok w'
        \<and> set (records w') = {r \<in> set (records w). pr_peer_addr r \<noteq> a}"
    and addr_unique: "ok w \<Longrightarrow> r \<in> set (records w) \<Longrightarrow> r' \<in> set (records w) \<Longrightarrow>
      pr_peer_addr r = pr_peer_addr r' \<Longrightarrow> r = r'"
begin

text \<open>
  After an upsert the store holds, under the address, one record with the patch applied, to the
  record that was there or to a fresh one, and every other address is untouched.
\<close>

lemma upsert:
  assumes "ok w"
  shows "\<exists>w' r. upsertPending env deps a patch w = (Inr (records w'), w') \<and> ok w'
    \<and> {x \<in> set (records w'). pr_peer_addr x = a} = {r}
    \<and> {x \<in> set (records w'). pr_peer_addr x \<noteq> a} = {x \<in> set (records w). pr_peer_addr x \<noteq> a}
    \<and> (case List.find (\<lambda>r. pr_peer_addr r = a) (records w) of
         Some old \<Rightarrow> r = apply_patch patch old
       | None \<Rightarrow> \<exists>k. r = (new_pending env deps a patch)\<lparr>pr_id := k\<rparr>)"
proof (cases "List.find (\<lambda>r. pr_peer_addr r = a) (records w)")
  case None
  then have others: "\<forall>r \<in> set (records w). pr_peer_addr r \<noteq> a"
    by (simp add: find_None_iff_all)
  have addr: "pr_peer_addr ((new_pending env deps a patch)\<lparr>pr_id := k\<rparr>) = a" for k
    by (simp add: new_pending_def)
  have fresh: "\<forall>r \<in> set (records w). pr_peer_addr r \<noteq> pr_peer_addr (new_pending env deps a patch)"
    using others by (simp add: new_pending_def)
  obtain k w' where c: "dp_createPendingRemote deps (new_pending env deps a patch) w =
        (Inr ((new_pending env deps a patch)\<lparr>pr_id := k\<rparr>), w')" "ok w'"
      "set (records w') = insert ((new_pending env deps a patch)\<lparr>pr_id := k\<rparr>) (set (records w))"
    using create_record [OF assms fresh] by blast
  have "upsertPending env deps a patch w = (Inr (records w'), w')"
    using None c by (simp add: upsertPending_def get_record [OF assms] all_records)
  moreover have "{x \<in> set (records w'). pr_peer_addr x = a} = {(new_pending env deps a patch)\<lparr>pr_id := k\<rparr>}"
    using others addr [of k] by (auto simp: c(3))
  moreover have "{x \<in> set (records w'). pr_peer_addr x \<noteq> a} = {x \<in> set (records w). pr_peer_addr x \<noteq> a}"
    using addr [of k] by (auto simp: c(3))
  ultimately show ?thesis
    using c(2) unfolding None option.case by blast
next
  case (Some old)
  then have old: "old \<in> set (records w)" "pr_peer_addr old = a"
    by (auto dest: find_SomeD)
  obtain w' where u: "dp_updatePendingRemote deps (pr_id old) patch w = (Inr (), w')" "ok w'"
      "set (records w') = insert (apply_patch patch old) (set (records w) - {old})"
    using update_record [OF assms old(1), of patch] by blast
  have "upsertPending env deps a patch w = (Inr (records w'), w')"
    using Some u by (simp add: upsertPending_def get_record [OF assms] all_records)
  moreover have only: "x = old" if "x \<in> set (records w)" "pr_peer_addr x = a" for x
    using addr_unique [OF assms that(1) old(1)] that old by simp
  moreover have "{x \<in> set (records w'). pr_peer_addr x = a} = {apply_patch patch old}"
    unfolding u(3) using only old(2) by auto
  moreover have "{x \<in> set (records w'). pr_peer_addr x \<noteq> a} = {x \<in> set (records w). pr_peer_addr x \<noteq> a}"
    unfolding u(3) using old(2) by auto
  ultimately show ?thesis
    using u(2) unfolding Some option.case by blast
qed

lemma run_upsert:
  assumes "ok (fl_world fl)" "\<not> fl_disposed fl"
  shows "\<exists>w' r. runEffect env deps (UpsertPending a patch) fl =
      (fl\<lparr>fl_world := w', fl_ctx := (fl_ctx fl)\<lparr>cx_pendingRemotes := records w'\<rparr>\<rparr>, []) \<and> ok w'
    \<and> r \<in> set (records w') \<and> pr_peer_addr r = a
    \<and> {x \<in> set (records w'). pr_peer_addr x = a} = {r}
    \<and> (\<forall>s. pp_stage patch = Some s \<longrightarrow> pr_stage r = s)
    \<and> (\<forall>e. pp_error_message patch = Some e \<longrightarrow> pr_error_message r = e)"
proof -
  obtain w' r where u: "upsertPending env deps a patch (fl_world fl) = (Inr (records w'), w')" "ok w'"
      "{x \<in> set (records w'). pr_peer_addr x = a} = {r}"
      "case List.find (\<lambda>r. pr_peer_addr r = a) (records (fl_world fl)) of
         Some old \<Rightarrow> r = apply_patch patch old
       | None \<Rightarrow> \<exists>k. r = (new_pending env deps a patch)\<lparr>pr_id := k\<rparr>"
    using upsert [OF assms(1), of env a patch] by blast
  have r: "r \<in> set (records w')" "pr_peer_addr r = a"
    using u(3) by auto
  have "(\<forall>s. pp_stage patch = Some s \<longrightarrow> pr_stage r = s)
      \<and> (\<forall>e. pp_error_message patch = Some e \<longrightarrow> pr_error_message r = e)"
    using u(4) by (auto simp: apply_patch_stage apply_patch_error new_pending_def split: option.splits)
  then show ?thesis
    using u r assms(2)
    by (intro exI [of _ w'] exI [of _ r])
       (simp add: runEffect_def feed_def send_def transition_def noop_def)
qed

end

section \<open>The web build's bindings\<close>

type_synonym 'n web_world = "pending_db \<times> 'n"

definition stored_records :: "pending_db \<Rightarrow> pending_remote list" where
  "stored_records db = map pending_remote.truncate (pd_rows db)"

text \<open>
  The storage bindings of the adapter over the store; \<open>base\<close> gives the network ones, which call the
  generated api client.
\<close>

definition transportFor :: "bool \<Rightarrow> peer_target \<Rightarrow> string" where
  "transportFor charnelAvailable target =
     (case target of P2p _ \<Rightarrow> if charnelAvailable then ''app'' else ''wasm'' | Http _ \<Rightarrow> ''http'')"

definition addPeerFlowDeps :: "bool \<Rightarrow> 'n web_world deps \<Rightarrow> 'n web_world deps" where
  "addPeerFlowDeps charnelAvailable base = base
     \<lparr>dp_getAllPendingRemotes := (\<lambda>(db, n). (Inr (map pending_remote.truncate (getAllPendingRemotes db)), (db, n))),
      dp_getPendingRemoteByPeerAddr :=
        (\<lambda>a (db, n). (Inr (map_option pending_remote.truncate (getPendingRemoteByPeerAddr a db)), (db, n))),
      dp_createPendingRemote :=
        (\<lambda>p (db, n). case createPendingRemote p db of (r, db') \<Rightarrow> (Inr (pending_remote.truncate r), (db', n))),
      dp_updatePendingRemote :=
        (\<lambda>k patch (db, n). (Inr (), (snd (updatePendingRemote k patch db), n))),
      dp_deletePendingRemote := (\<lambda>k (db, n). (Inr (), (deletePendingRemote k db, n))),
      dp_deletePendingRemoteByPeerAddr :=
        (\<lambda>a (db, n). (Inr (), (deletePendingRemoteByPeerAddr a db, n))),
      dp_transportFor := transportFor charnelAvailable\<rparr>"

lemma truncate_fields [simp]:
  "pr_id (pending_remote.truncate r) = pr_id r"
  "pr_peer_addr (pending_remote.truncate r) = pr_peer_addr r"
  "pending_remote.truncate (r\<lparr>sp_updated_at := t\<rparr>) = pending_remote.truncate r"
  by (simp_all add: pending_remote.defs)

lemma truncate_patch [simp]:
  "pending_remote.truncate (apply_patch p r) = apply_patch p (pending_remote.truncate r)"
  by (cases p)
     (simp add: pending_remote.defs apply_patch_def split: option.split)

lemma find_map_comp: "List.find P (map f xs) = map_option f (List.find (\<lambda>x. P (f x)) xs)"
  by (induction xs) auto

definition web_ok :: "'n web_world \<Rightarrow> bool" where
  "web_ok w = (pd_ok (fst w) \<and> pd_addr_unique (fst w))"

abbreviation web_records :: "'n web_world \<Rightarrow> pending_remote list" where
  "web_records w \<equiv> stored_records (fst w)"

lemma stored_addr_unique:
  assumes "pd_addr_unique db" "r \<in> set (stored_records db)" "r' \<in> set (stored_records db)"
    "pr_peer_addr r = pr_peer_addr r'"
  shows "r = r'"
proof -
  obtain s s' where s: "s \<in> set (pd_rows db)" "r = pending_remote.truncate s"
      "s' \<in> set (pd_rows db)" "r' = pending_remote.truncate s'"
    using assms(2,3) by (auto simp: stored_records_def)
  then have "s = s'" using assms(1,4) unfolding pd_addr_unique_def by simp
  then show ?thesis using s by simp
qed

lemma web_create:
  fixes w :: "'n web_world"
  assumes "web_ok w" "\<forall>r \<in> set (web_records w). pr_peer_addr r \<noteq> pr_peer_addr p"
  shows "\<exists>k w'. dp_createPendingRemote (addPeerFlowDeps ch base) p w = (Inr (p\<lparr>pr_id := k\<rparr>), w')
    \<and> web_ok w' \<and> set (web_records w') = insert (p\<lparr>pr_id := k\<rparr>) (set (web_records w))"
proof -
  obtain db n where w: "w = (db, n)" by fastforce
  obtain r db' where c: "createPendingRemote p db = (r, db')" by fastforce
  have ok: "pd_ok db" "pd_addr_unique db" using assms(1) by (simp_all add: web_ok_def w)
  have t: "pending_remote.truncate r = p\<lparr>pr_id := pd_uuids db (pd_drawn db)\<rparr>"
    using c by (auto simp: createPendingRemote_def generateUUID_def Let_def pending_remote.defs)
  have rows: "set (pd_rows db') = insert r (set (pd_rows db))"
    using create_rows [OF ok(1), of p] by (simp add: c)
  have addr: "pr_peer_addr r = pr_peer_addr p"
    using arg_cong [OF t, of pr_peer_addr] by simp
  have "pd_addr_unique db'"
    using ok(2) assms(2) by (auto simp: pd_addr_unique_def rows addr w stored_records_def)
  moreover have "pd_ok db'" using create_ok [OF ok(1), of p] by (simp add: c)
  ultimately show ?thesis
    using rows by (auto simp: w addPeerFlowDeps_def c t web_ok_def stored_records_def)
qed

lemma web_update:
  fixes w :: "'n web_world"
  assumes "web_ok w" "r \<in> set (web_records w)"
  shows "\<exists>w'. dp_updatePendingRemote (addPeerFlowDeps ch base) (pr_id r) patch w = (Inr (), w')
    \<and> web_ok w' \<and> set (web_records w') = insert (apply_patch patch r) (set (web_records w) - {r})"
proof -
  obtain db n where w: "w = (db, n)" by fastforce
  have ok: "pd_ok db" "pd_addr_unique db" using assms(1) by (simp_all add: web_ok_def w)
  obtain s where s: "s \<in> set (pd_rows db)" "r = pending_remote.truncate s"
    using assms(2) by (auto simp: w stored_records_def)
  let ?s' = "(apply_patch patch s)\<lparr>sp_updated_at := pd_clock db\<rparr>"
  let ?db' = "snd (updatePendingRemote (pr_id s) patch db)"
  have rows: "set (pd_rows ?db') = insert ?s' (set (pd_rows db) - {s})"
    by (rule update_rows [OF ok(1) s(1)])
  have inj: "x = y" if "x \<in> set (pd_rows db)" "y \<in> set (pd_rows db)"
      "pending_remote.truncate x = pending_remote.truncate y" for x y
    using idb.row_unique [OF pd_ok_rows [OF ok(1)] that(1,2)] arg_cong [OF that(3), of pr_id] by simp
  have "pd_addr_unique ?db'"
    using ok(2) s(1) by (auto simp: pd_addr_unique_def rows)
  moreover have "pd_ok ?db'" by (rule update_ok [OF ok(1)])
  moreover have "set (stored_records ?db') =
      insert (apply_patch patch r) (set (stored_records db) - {r})"
    using s inj by (auto simp: stored_records_def rows)
  ultimately show ?thesis
    by (auto simp: w s(2) addPeerFlowDeps_def web_ok_def)
qed

lemma web_delete:
  fixes w :: "'n web_world"
  assumes "web_ok w"
  shows "\<exists>w'. dp_deletePendingRemoteByPeerAddr (addPeerFlowDeps ch base) a w = (Inr (), w')
    \<and> web_ok w' \<and> set (web_records w') = {r \<in> set (web_records w). pr_peer_addr r \<noteq> a}"
proof -
  obtain db n where w: "w = (db, n)" by fastforce
  have ok: "pd_ok db" "pd_addr_unique db" using assms by (simp_all add: web_ok_def w)
  show ?thesis
    using deleteByAddr_rows [OF ok, of a] deleteByAddr_ok [OF ok(1), of a] ok(2)
    by (auto simp: w addPeerFlowDeps_def web_ok_def stored_records_def pd_addr_unique_def)
qed

interpretation web: pending_repository "addPeerFlowDeps ch base" web_records web_ok
  for ch :: bool and base :: "'n web_world deps"
proof unfold_locales
  fix w :: "'n web_world" and a :: string and p :: pending_remote and r r' :: pending_remote
    and patch :: pending_patch
  assume ok: "web_ok w"
  show "dp_getPendingRemoteByPeerAddr (addPeerFlowDeps ch base) a w =
      (Inr (List.find (\<lambda>r. pr_peer_addr r = a) (web_records w)), w)"
    by (cases w) (simp add: addPeerFlowDeps_def stored_records_def getPendingRemoteByPeerAddr_def
      idb_index_get_def find_map_comp)
  show "dp_getAllPendingRemotes (addPeerFlowDeps ch base) w = (Inr (web_records w), w)"
    by (cases w) (simp add: addPeerFlowDeps_def stored_records_def getAllPendingRemotes_def)
  show "\<exists>k w'. dp_createPendingRemote (addPeerFlowDeps ch base) p w = (Inr (p\<lparr>pr_id := k\<rparr>), w')
      \<and> web_ok w' \<and> set (web_records w') = insert (p\<lparr>pr_id := k\<rparr>) (set (web_records w))"
    if "\<forall>r \<in> set (web_records w). pr_peer_addr r \<noteq> pr_peer_addr p"
    by (rule web_create [OF ok that])
  show "\<exists>w'. dp_updatePendingRemote (addPeerFlowDeps ch base) (pr_id r) patch w = (Inr (), w')
      \<and> web_ok w' \<and> set (web_records w') = insert (apply_patch patch r) (set (web_records w) - {r})"
    if "r \<in> set (web_records w)"
    by (rule web_update [OF ok that])
  show "\<exists>w'. dp_deletePendingRemoteByPeerAddr (addPeerFlowDeps ch base) a w = (Inr (), w')
      \<and> web_ok w' \<and> set (web_records w') = {r \<in> set (web_records w). pr_peer_addr r \<noteq> a}"
    by (rule web_delete [OF ok])
  show "r = r'" if "r \<in> set (web_records w)" "r' \<in> set (web_records w)"
      "pr_peer_addr r = pr_peer_addr r'"
    using stored_addr_unique [of "fst w"] ok that by (simp add: web_ok_def)
qed

end
