(* ===== verification/AddPeerFlow.thy ===== *)
theory AddPeerFlow
  imports AddPeerRepository
begin

text \<open>
  The properties of the add-peer flow as it runs: every event settles, under any interleaving no
  probe is sent without a target and at most one answer counts, and on the web build's store a
  failed attempt is reported and recorded.
\<close>

section \<open>A world to evaluate in\<close>

text \<open>No saved remotes, and a network that rejects every request.\<close>

definition offline :: js_exn where
  "offline = JsError ''boom''"

definition base0 :: "unit web_world deps" where
  "base0 =
     \<lparr>dp_getAllRemotes = Pair (Inr []), dp_getAllPendingRemotes = Pair (Inr []),
      dp_getPendingRemoteByPeerAddr = (\<lambda>_. Pair (Inr None)),
      dp_createPendingRemote = (\<lambda>p. Pair (Inr p)), dp_updatePendingRemote = (\<lambda>_ _. Pair (Inr ())),
      dp_deletePendingRemote = (\<lambda>_. Pair (Inr ())),
      dp_deletePendingRemoteByPeerAddr = (\<lambda>_. Pair (Inr ())),
      dp_createRemote = (\<lambda>_ _. Pair (Inl offline)), dp_getServerInfo = (\<lambda>_. Pair (Inl offline)),
      dp_whoami = (\<lambda>_. Pair (Inl offline)), dp_sendKnock = (\<lambda>_ _ _. Pair (Inl offline)),
      dp_checkKnockStatus = (\<lambda>_. Pair (Inl offline)),
      dp_authenticateHttp = (\<lambda>_ _ _ _. Pair (Inl offline)),
      dp_redeemInvite = (\<lambda>_ _ _. Pair (Inl offline)),
      dp_registerWithPasskey = (\<lambda>_ _ _. Pair (Inl offline)),
      dp_loginWithPasskey = (\<lambda>_ _. Pair (Inl offline)), dp_transportFor = (\<lambda>_. ''''),
      dp_clearQueryParam = None, dp_onSuccess = None, dp_onClose = None\<rparr>"

definition db0 :: pending_db where
  "db0 = \<lparr>pd_rows = [], pd_uuids = (\<lambda>n. replicate n (CHR ''0'')), pd_drawn = 0, pd_clock = 0\<rparr>"

lemma db0_ok: "web_ok (db0, u)"
  by (auto simp: web_ok_def pd_ok_def pd_addr_unique_def db0_def idb_ok_Nil inj_on_def
      intro: replicate_eq_replicate [THEN iffD1, THEN conjunct1])

section \<open>Properties\<close>

text \<open>C4: Every event the flow accepts is handled to its end: after any number of further awaits, in any order,
  the calls in progress take at most eight steps, unfinished work can always take one, and with the
  fuel of eight \<open>dispatch\<close> always answers.\<close>

theorem ap_dispatch_settles:
  "(\<forall>n s'. \<not> ((work_step env deps ^^ n) (fst (feed env e fl), [snd (feed env e fl)]) s' \<and> 8 < n))
   \<and> (\<exists>n s'. (work_step env deps ^^ n) (fst (feed env e fl), [snd (feed env e fl)]) s'
        \<and> concat (snd s') = [])
   \<and> dispatch env deps e fl \<noteq> None"
proof -
  have rank: "total_rank (snd (feed env e fl)) \<le> 8"
    using rank_feed [of env e fl] by (cases e) simp_all
  let ?s = "(fst (feed env e fl), [snd (feed env e fl)])"
  have "n \<le> 8" if "(work_step env deps ^^ n) ?s s'" for n s'
    using work_steps_rank [OF that] rank by simp
  moreover obtain n s' where "(work_step env deps ^^ n) ?s s'" "\<forall>ws \<in> set (snd s'). ws = []"
    using settles [of env deps ?s] by blast
  moreover have "concat (snd s') = []" if "\<forall>ws \<in> set (snd s'). ws = []"
    using that by simp
  moreover have "dispatch env deps e fl \<noteq> None"
    using drain_enough [OF rank] by (auto simp: dispatch_def split: prod.split)
  ultimately show ?thesis by (meson linorder_not_less)
qed

text \<open>C5: Whatever events, timers, disposals and awaited answers interleave, the machine's context keeps
  its invariant and no call in progress holds a probe without a target or a success callback
  without a remote.\<close>

theorem ap_interleaved_safe:
  assumes "flow_reachable env deps (fl, ts)"
  shows "ap_inv (fl_ctx fl) \<and> Run (CheckConnection None) \<notin> set (concat ts)
    \<and> AwaitConnection g None \<notin> set (concat ts) \<and> Run (CallOnSuccess None) \<notin> set (concat ts)"
  using flow_reachable_ok [OF assms] by (fastforce simp: system_ok_def)

definition flow0 :: "unit web_world flow" where
  "flow0 = createAddPeerFlow (db0, ())"

lemma feed0: "feed platform0 (SubmitUrl node_a False) flow0 =
    (flow0\<lparr>fl_ctx := fst (transition platform0 initialContext (SubmitUrl node_a False))\<rparr>,
     map Run (snd (transition platform0 initialContext (SubmitUrl node_a False))))"
  by (simp add: feed_def send_def flow0_def createAddPeerFlow_def split: prod.split)

lemma reachable0: "flow_reachable platform0 base0
    (fst (feed platform0 (SubmitUrl node_a False) flow0), [snd (feed platform0 (SubmitUrl node_a False) flow0)])"
proof -
  have "flow_step platform0 base0 (flow0, [])
      (fst (feed platform0 (SubmitUrl node_a False) flow0),
       [] @ [snd (feed platform0 (SubmitUrl node_a False) flow0)])"
    by (rule dispatches) simp
  moreover have "flow_reachable platform0 base0 (flow0, [])"
    unfolding flow0_def by (rule created)
  ultimately show ?thesis by (auto intro: stepped)
qed

lemma ap_interleaved_safe_witness:
  "ap_inv (fl_ctx (fst (feed platform0 (SubmitUrl node_a False) flow0)))
   \<and> AwaitConnection 1 None \<notin> set (concat [snd (feed platform0 (SubmitUrl node_a False) flow0)])"
  using ap_interleaved_safe [OF reachable0, of 1] by simp



text \<open>C7: On the web build's store an upsert leaves exactly one record under the address, the old one with
  the patch applied or a fresh one, reports all records to the machine and touches no other
  address.\<close>

theorem ap_upsert_web:
  fixes w :: "'n web_world"
  assumes "web_ok w"
  shows "\<exists>w' r. upsertPending env (addPeerFlowDeps ch base) a patch w = (Inr (web_records w'), w')
    \<and> web_ok w'
    \<and> {x \<in> set (web_records w'). pr_peer_addr x = a} = {r}
    \<and> {x \<in> set (web_records w'). pr_peer_addr x \<noteq> a} = {x \<in> set (web_records w). pr_peer_addr x \<noteq> a}
    \<and> (case List.find (\<lambda>r. pr_peer_addr r = a) (web_records w) of
         Some old \<Rightarrow> r = apply_patch patch old
       | None \<Rightarrow> \<exists>k. r = (new_pending env (addPeerFlowDeps ch base) a patch)\<lparr>pr_id := k\<rparr>)"
  by (rule web.upsert [OF assms])

lemma ap_upsert_web_witness:
  "\<exists>w' r. upsertPending platform0 (addPeerFlowDeps False base0) node_a no_patch (db0, ())
       = (Inr (web_records w'), w')
     \<and> {x \<in> set (web_records w'). pr_peer_addr x = node_a} = {r} \<and> pr_stage r = Testing"
proof -
  have none: "List.find (\<lambda>r. pr_peer_addr r = node_a) (web_records (db0, ())) = None"
    by (simp add: stored_records_def db0_def)
  have "pr_stage ((new_pending platform0 (addPeerFlowDeps False base0) node_a no_patch)\<lparr>pr_id := k\<rparr>) = Testing" for k
    by (simp add: new_pending_def apply_patch_def no_patch_def)
  moreover obtain w' r k where
      "upsertPending platform0 (addPeerFlowDeps False base0) node_a no_patch (db0, ()) = (Inr (web_records w'), w')"
      "{x \<in> set (web_records w'). pr_peer_addr x = node_a} = {r}"
      "r = (new_pending platform0 (addPeerFlowDeps False base0) node_a no_patch)\<lparr>pr_id := k\<rparr>"
    using ap_upsert_web [OF db0_ok [of "()"], of platform0 False base0 node_a no_patch]
    unfolding none option.case by blast
  ultimately show ?thesis by blast
qed

text \<open>One upsert of a running flow, as a step of \<open>drain\<close>.\<close>

definition upserted :: "'n web_world \<Rightarrow> 'n web_world flow \<Rightarrow> 'n web_world flow" where
  "upserted w fl = fl\<lparr>fl_world := w, fl_ctx := (fl_ctx fl)\<lparr>cx_pendingRemotes := web_records w\<rparr>\<rparr>"

lemma upserted_fields [simp]:
  "cx_step (fl_ctx (upserted w fl)) = cx_step (fl_ctx fl)"
  "cx_peerAddr (fl_ctx (upserted w fl)) = cx_peerAddr (fl_ctx fl)"
  "cx_error (fl_ctx (upserted w fl)) = cx_error (fl_ctx fl)"
  "cx_pendingRemotes (fl_ctx (upserted w fl)) = web_records w"
  "fl_disposed (upserted w fl) = fl_disposed fl" "fl_world (upserted w fl) = w"
  by (simp_all add: upserted_def)

lemma perform_upsert:
  fixes fl :: "'n web_world flow"
  assumes "web_ok (fl_world fl)" "\<not> fl_disposed fl" "pp_stage patch = Some st" "pp_error_message patch = Some e"
  shows "\<exists>w r. perform env (addPeerFlowDeps ch base) (Run (UpsertPending a patch)) fl = (upserted w fl, [])
    \<and> web_ok w \<and> {x \<in> set (web_records w). pr_peer_addr x = a} = {r}
    \<and> pr_stage r = st \<and> pr_error_message r = e"
  using web.run_upsert [OF assms(1,2), of env ch base a patch] assms(3,4)
  unfolding upserted_def perform.simps by blast

lemma perform_failed_probe:
  fixes fl :: "'n web_world flow"
  assumes "\<not> fl_disposed fl" "cx_step (fl_ctx fl) = StTesting" "cx_peerAddr (fl_ctx fl) = Some a"
    and "dp_getServerInfo base target = Pair (Inl err)" "\<not> isAuthRejection err"
  shows "perform env (addPeerFlowDeps ch base) (AwaitConnection (fl_generation fl) target) fl =
      (fl\<lparr>fl_ctx := toUrlInput (fl_ctx fl) (Some (describeConnectError err))\<rparr>,
       [Run (UpsertPending a
          (no_patch\<lparr>pp_stage := Some Failed, pp_error_message := Some (Some (describeConnectError err))\<rparr>))])"
  using assms
  by (simp add: probeConnection_def addPeerFlowDeps_def feed_def send_def
      transition_def on_connection_result_def on_outcome_kind_def addrKey_def Let_def)

lemma perform_fresh_duplicate:
  fixes fl :: "'n web_world flow"
  assumes "\<not> fl_disposed fl" "cx_step (fl_ctx fl) = StTesting" "cx_peerAddr (fl_ctx fl) = Some a"
    and "cx_target (fl_ctx fl) = Some (P2p a)" "dp_getAllRemotes base = Pair (Inr [])"
  shows "perform env (addPeerFlowDeps ch base) (Run (CheckDuplicate (P2p a))) fl =
      (fl\<lparr>fl_ctx := (fl_ctx fl)\<lparr>cx_existingRemote := None\<rparr>\<rparr>,
       [Run (UpsertPending a (no_patch\<lparr>pp_stage := Some Testing, pp_error_message := Some None\<rparr>)),
        Run ClearQueryParam, Run (CheckConnection (Some (P2p a)))])"
  using assms
  by (simp add: runEffect_def run_check_duplicate_def feed_def send_def transition_def
        on_duplicate_result_def addrKey_def addPeerFlowDeps_def)

lemma perform_plain:
  fixes fl :: "'n web_world flow"
  assumes "\<not> fl_disposed fl" "dp_clearQueryParam base = None"
  shows "perform env (addPeerFlowDeps ch base) (Run ClearQueryParam) fl = (fl, [])"
    and "perform env (addPeerFlowDeps ch base) (Run (CheckConnection t)) fl =
      (fl\<lparr>fl_generation := Suc (fl_generation fl)\<rparr>, [AwaitConnection (Suc (fl_generation fl)) t])"
  using assms by (simp_all add: runEffect_def addPeerFlowDeps_def)

text \<open>A submitted peer address whose server cannot be reached ends the event on the url step with the
  described error, and the store holds, as the only record of that address, a failed attempt with
  the same message.\<close>

theorem ap_failed_attempt_recorded:
  fixes fl :: "'n web_world flow"
  assumes "web_ok (fl_world fl)" "\<not> fl_disposed fl" "cx_step (fl_ctx fl) = StUrl"
    and "parsePeerAddress env SchemeHttps input = Some (P2p a)"
    and "dp_getAllRemotes base = Pair (Inr [])" "dp_clearQueryParam base = None"
    and "dp_getServerInfo base (Some (P2p a)) = Pair (Inl err)" "\<not> isAuthRejection err"
  shows "\<exists>fl' r. dispatch env (addPeerFlowDeps ch base) (SubmitUrl input player) fl = Some fl'
    \<and> cx_step (fl_ctx fl') = StUrl \<and> cx_error (fl_ctx fl') = Some (describeConnectError err)
    \<and> cx_pendingRemotes (fl_ctx fl') = web_records (fl_world fl')
    \<and> {x \<in> set (web_records (fl_world fl')). pr_peer_addr x = a} = {r}
    \<and> pr_stage r = Failed \<and> pr_error_message r = Some (describeConnectError err)"
proof -
  let ?deps = "addPeerFlowDeps ch base :: 'n web_world deps"
  let ?e = "describeConnectError err"
  let ?failed = "no_patch\<lparr>pp_stage := Some Failed, pp_error_message := Some (Some ?e)\<rparr>"
  define fl1 where "fl1 = fst (feed env (SubmitUrl input player) fl)"
  have f1: "feed env (SubmitUrl input player) fl = (fl1, [Run (CheckDuplicate (P2p a))])"
    and c1: "cx_step (fl_ctx fl1) = StTesting" "cx_target (fl_ctx fl1) = Some (P2p a)"
      "cx_peerAddr (fl_ctx fl1) = Some a" "\<not> fl_disposed fl1" "fl_world fl1 = fl_world fl"
    using assms(2-4) by (simp_all add: fl1_def feed_def send_def transition_def on_submit_url_def)
  define fl2 where "fl2 = fl1\<lparr>fl_ctx := (fl_ctx fl1)\<lparr>cx_existingRemote := None\<rparr>\<rparr>"
  note p2 = perform_fresh_duplicate [OF c1(4,1,3,2) assms(5), of env ch, folded fl2_def]
  obtain w3 where w3: "perform env ?deps (Run (UpsertPending a
        (no_patch\<lparr>pp_stage := Some Testing, pp_error_message := Some None\<rparr>))) fl2 = (upserted w3 fl2, [])"
      "web_ok w3"
    using perform_upsert [of fl2 "no_patch\<lparr>pp_stage := Some Testing, pp_error_message := Some None\<rparr>"
        Testing None env ch base a] assms(1) c1
    by (auto simp del: perform.simps simp: fl2_def)
  have d3: "\<not> fl_disposed (upserted w3 fl2)" using c1 by (simp add: fl2_def)
  note p3 = perform_plain [OF d3 assms(6), of env ch]
  define fl4 where "fl4 = (upserted w3 fl2)\<lparr>fl_generation := Suc (fl_generation (upserted w3 fl2))\<rparr>"
  have c4: "\<not> fl_disposed fl4" "cx_step (fl_ctx fl4) = StTesting" "cx_peerAddr (fl_ctx fl4) = Some a"
      "fl_generation fl4 = Suc (fl_generation (upserted w3 fl2))" "fl_world fl4 = w3"
    using c1 by (simp_all add: fl4_def fl2_def)
  note p4 = perform_failed_probe [OF c4(1-3) assms(7,8), of env ch, unfolded c4(4)]
  let ?fl5 = "fl4\<lparr>fl_ctx := toUrlInput (fl_ctx fl4) (Some ?e)\<rparr>"
  obtain w5 r where w5: "perform env ?deps (Run (UpsertPending a ?failed)) ?fl5 = (upserted w5 ?fl5, [])"
      "{x \<in> set (web_records w5). pr_peer_addr x = a} = {r}"
      "pr_stage r = Failed" "pr_error_message r = Some ?e"
    using perform_upsert [of ?fl5 ?failed Failed "Some ?e" env ch base a] w3(2) c4(1,5)
    by (auto simp del: perform.simps)
  have "dispatch env ?deps (SubmitUrl input player) fl = Some (upserted w5 ?fl5)"
    using p2 w3(1) p3 p4 w5(1)
    by (simp add: dispatch_def f1 numeral_eq_Suc flip: fl4_def del: perform.simps)
  then show ?thesis
    using w5 by (intro exI [of _ "upserted w5 ?fl5"] exI [of _ r]) (simp add: toUrlInput_def)
qed

lemma ap_failed_attempt_recorded_witness:
  "\<exists>fl' r. dispatch platform0 (addPeerFlowDeps False base0) (SubmitUrl node_a False) flow0 = Some fl'
    \<and> {x \<in> set (web_records (fl_world fl')). pr_peer_addr x = node_a} = {r}
    \<and> pr_error_message r = Some ''connection failed: boom''"
proof -
  have "describeConnectError offline = ''connection failed: boom''" "\<not> isAuthRejection offline"
    by (simp_all add: offline_def describeConnectError_def isAuthRejection_def contains_ci_def
        ascii_lower_def)
  moreover have "web_ok (fl_world flow0)" "\<not> fl_disposed flow0" "cx_step (fl_ctx flow0) = StUrl"
    by (simp_all add: flow0_def createAddPeerFlow_def initialContext_def db0_ok)
  moreover have "dp_getAllRemotes base0 = Pair (Inr [])" "dp_clearQueryParam base0 = None"
      "dp_getServerInfo base0 (Some (P2p node_a)) = Pair (Inl offline)"
    by (simp_all add: base0_def)
  moreover have "parsePeerAddress platform0 SchemeHttps node_a = Some (P2p node_a)"
    by (rule parse_node_id) simp
  moreover note ap_failed_attempt_recorded [of flow0 platform0 node_a node_a base0 offline False False]
  ultimately obtain fl' r where
      "dispatch platform0 (addPeerFlowDeps False base0) (SubmitUrl node_a False) flow0 = Some fl'"
      "{x \<in> set (web_records (fl_world fl')). pr_peer_addr x = node_a} = {r}"
      "pr_error_message r = Some ''connection failed: boom''"
    unfolding atomize_imp by (elim impE exE conjE) (assumption | simp)+
  then show ?thesis by blast
qed

end
