(* ===== verification/MediaItem.thy ===== *)
theory MediaItem
  imports Prelude Complex_Main
begin

text \<open>
  Songs, videos and the mixed queue item, \<open>client/spume/src/app/services/storage/mediaItem.ts\<close>, with
  \<open>songIdentityKey\<close> of \<open>music/services/storage/types.ts\<close>, the index of available items the queue
  plays from, and the diff of two queues, \<open>app/services/media/queueDeparture.ts\<close>. The records hold
  the fields the modelled code reads. Durations and progress are JavaScript numbers that are only
  added and compared; they are reals here.
\<close>

section \<open>Data\<close>

record image =
  im_blob_type :: string
  im_blob_id :: "string option"
  im_remote_blob_id :: "string option"
  im_remote_server_id :: "string option"

record song =
  sg_id :: string
  sg_sha256 :: string
  sg_blake3 :: "string option"
  sg_media_blob_id :: "string option"
  sg_title :: string
  sg_artist_id :: string
  sg_artist_name :: string
  sg_album_id :: string
  sg_album_title :: string
  sg_duration_seconds :: real
  sg_images :: "image list"
  sg_album_images :: "image list"
  sg_artist_images :: "image list"
  sg_is_offline :: "bool option"
  sg_skip_feed_events :: bool
  sg_source_type :: string
  sg_remote_server_id :: "string option"
  sg_queue_entry_id :: "string option"
  sg_queue_max_progress :: "real option"

record video =
  vd_id :: string
  vd_title :: string
  vd_duration_seconds :: "real option"
  vd_media_blob_id :: "string option"
  vd_blake3 :: "string option"
  vd_images :: "image list"
  vd_poster_blob_id :: "string option"
  vd_is_offline :: "bool option"
  vd_source_type :: string
  vd_remote_server_id :: "string option"
  vd_queue_entry_id :: "string option"
  vd_queue_max_progress :: "real option"

datatype media_item = SongItem song | VideoItem video

section \<open>Operations\<close>

definition songIdentityKey :: "song \<Rightarrow> string" where
  "songIdentityKey s = str_or (sg_sha256 s) (sg_id s)"

fun mediaItemKey :: "media_item \<Rightarrow> string" where
  "mediaItemKey (SongItem s) = songIdentityKey s"
| "mediaItemKey (VideoItem v) = vd_id v"

fun isSongItem :: "media_item \<Rightarrow> bool" where
  "isSongItem (SongItem _) = True"
| "isSongItem (VideoItem _) = False"

fun isVideoItem :: "media_item \<Rightarrow> bool" where
  "isVideoItem (SongItem _) = False"
| "isVideoItem (VideoItem _) = True"

fun songsOnly :: "media_item list \<Rightarrow> song list" where
  "songsOnly [] = []"
| "songsOnly (SongItem s # xs) = s # songsOnly xs"
| "songsOnly (VideoItem _ # xs) = songsOnly xs"

fun videosOnly :: "media_item list \<Rightarrow> video list" where
  "videosOnly [] = []"
| "videosOnly (SongItem _ # xs) = videosOnly xs"
| "videosOnly (VideoItem v # xs) = v # videosOnly xs"

fun isMediaItemOffline :: "media_item \<Rightarrow> bool" where
  "isMediaItemOffline (SongItem s) = (sg_is_offline s = Some True)"
| "isMediaItemOffline (VideoItem v) = (vd_is_offline v = Some True)"

fun mediaItemTitle :: "media_item \<Rightarrow> string" where
  "mediaItemTitle (SongItem s) = sg_title s"
| "mediaItemTitle (VideoItem v) = vd_title v"

fun mediaItemSubtitle :: "media_item \<Rightarrow> string option" where
  "mediaItemSubtitle (SongItem s) = Some (sg_artist_name s)"
| "mediaItemSubtitle (VideoItem _) = None"

fun mediaItemDurationSeconds :: "media_item \<Rightarrow> real option" where
  "mediaItemDurationSeconds (SongItem s) = Some (sg_duration_seconds s)"
| "mediaItemDurationSeconds (VideoItem v) = vd_duration_seconds v"

fun mediaItemQueueEntryId :: "media_item \<Rightarrow> string option" where
  "mediaItemQueueEntryId (SongItem s) = sg_queue_entry_id s"
| "mediaItemQueueEntryId (VideoItem v) = vd_queue_entry_id v"

fun mediaItemMaxProgress :: "media_item \<Rightarrow> real option" where
  "mediaItemMaxProgress (SongItem s) = sg_queue_max_progress s"
| "mediaItemMaxProgress (VideoItem v) = vd_queue_max_progress v"

fun with_max_progress :: "media_item \<Rightarrow> real \<Rightarrow> media_item" where
  "with_max_progress (SongItem s) p = SongItem (s\<lparr>sg_queue_max_progress := Some p\<rparr>)"
| "with_max_progress (VideoItem v) p = VideoItem (v\<lparr>vd_queue_max_progress := Some p\<rparr>)"

fun mediaItemBlake3 :: "media_item \<Rightarrow> string option" where
  "mediaItemBlake3 (SongItem s) = Some (nullish_or (sg_blake3 s) (sg_sha256 s))"
| "mediaItemBlake3 (VideoItem v) = vd_blake3 v"

fun withQueueEntryId :: "media_item \<Rightarrow> string \<Rightarrow> media_item" where
  "withQueueEntryId (SongItem s) k =
     (if truthy (sg_queue_entry_id s) then SongItem s else SongItem (s\<lparr>sg_queue_entry_id := Some k\<rparr>))"
| "withQueueEntryId (VideoItem v) k =
     (if truthy (vd_queue_entry_id v) then VideoItem v else VideoItem (v\<lparr>vd_queue_entry_id := Some k\<rparr>))"

text \<open>The loops of \<open>findAvailableMediaIndex\<close>, upwards and downwards; \<open>-1\<close> when there is none.\<close>

function available_up :: "media_item list \<Rightarrow> int \<Rightarrow> int" where
  "available_up items i =
     (if i < 0 \<or> int (length items) \<le> i then -1
      else if \<not> isMediaItemOffline (items ! nat i) then i
      else available_up items (i + 1))"
  by pat_completeness auto
termination by (relation "measure (\<lambda>(items, i). nat (int (length items) - i))") auto

function available_down :: "media_item list \<Rightarrow> int \<Rightarrow> int" where
  "available_down items i =
     (if i < 0 \<or> int (length items) \<le> i then -1
      else if \<not> isMediaItemOffline (items ! nat i) then i
      else available_down items (i - 1))"
  by pat_completeness auto
termination by (relation "measure (\<lambda>(items, i). nat (i + 1))") auto

declare available_up.simps [simp del] available_down.simps [simp del]

definition findAvailableMediaIndex :: "media_item list \<Rightarrow> int \<Rightarrow> int" where
  "findAvailableMediaIndex items startIndex = available_up items startIndex"

definition findAvailableMediaIndexBack :: "media_item list \<Rightarrow> int \<Rightarrow> int" where
  "findAvailableMediaIndexBack items startIndex = available_down items startIndex"

definition findMediaItemIndex :: "media_item list \<Rightarrow> string option \<Rightarrow> int" where
  "findMediaItemIndex items key =
     (if \<not> truthy key then -1 else find_index (\<lambda>i. mediaItemKey i = the key) items)"

definition songStartIndexAfter :: "media_item list \<Rightarrow> string option \<Rightarrow> nat" where
  "songStartIndexAfter items key =
     (let idx = findMediaItemIndex items key in
      if idx < 0 then length (songsOnly items)
      else length (songsOnly (js_slice 0 (idx + 1) items)))"

definition videoStartIndexAfter :: "media_item list \<Rightarrow> string option \<Rightarrow> nat" where
  "videoStartIndexAfter items key =
     (let idx = findMediaItemIndex items key in
      if idx < 0 then length (videosOnly items)
      else length (videosOnly (js_slice 0 (idx + 1) items)))"

text \<open>A queue input is a legacy song or an item.\<close>

fun to_media_item :: "song + media_item \<Rightarrow> media_item" where
  "to_media_item (Inl s) = SongItem s"
| "to_media_item (Inr i) = i"

definition toMediaItems :: "(song + media_item) list \<Rightarrow> media_item list" where
  "toMediaItems = map to_media_item"

section \<open>Departures\<close>

fun departures :: "string set \<Rightarrow> string set \<Rightarrow> media_item list \<Rightarrow> media_item list" where
  "departures surviving seen [] = []"
| "departures surviving seen (item # rest) =
     (let key = mediaItemKey item in
      if key \<in> surviving \<or> key \<in> seen then departures surviving seen rest
      else item # departures surviving (insert key seen) rest)"

definition diffQueueDepartures :: "media_item list \<Rightarrow> media_item list \<Rightarrow> media_item list" where
  "diffQueueDepartures prev next_queue =
     (if prev = [] then [] else departures (set (map mediaItemKey next_queue)) {} prev)"

section \<open>Facts\<close>

lemma songsOnly_append [simp]: "songsOnly (xs @ ys) = songsOnly xs @ songsOnly ys"
  by (induction xs rule: songsOnly.induct) simp_all

lemma songsOnly_SongItems [simp]: "songsOnly (map SongItem ss) = ss"
  by (induction ss) simp_all

lemma length_songsOnly_le: "length (songsOnly xs) \<le> length xs"
  by (induction xs rule: songsOnly.induct) simp_all

lemma withQueueEntryId_key [simp]: "mediaItemKey (withQueueEntryId i k) = mediaItemKey i"
  by (cases i) (simp_all add: songIdentityKey_def)

lemma withQueueEntryId_offline [simp]: "isMediaItemOffline (withQueueEntryId i k) = isMediaItemOffline i"
  by (cases i) simp_all

lemma withQueueEntryId_id: "truthy (mediaItemQueueEntryId i) \<Longrightarrow> withQueueEntryId i k = i"
  by (cases i) simp_all

lemma withQueueEntryId_assigned:
  "k \<noteq> [] \<Longrightarrow> truthy (mediaItemQueueEntryId (withQueueEntryId i k))"
  by (cases i) simp_all

lemma with_max_progress_simps [simp]:
  "mediaItemKey (with_max_progress i p) = mediaItemKey i"
  "mediaItemQueueEntryId (with_max_progress i p) = mediaItemQueueEntryId i"
  "mediaItemMaxProgress (with_max_progress i p) = Some p"
  by (cases i; simp add: songIdentityKey_def)+

lemma available_up_spec:
  assumes "0 \<le> i" "available_up items i = j" "j \<noteq> -1"
  shows "i \<le> j \<and> j < int (length items) \<and> \<not> isMediaItemOffline (items ! nat j)
    \<and> (\<forall>k. i \<le> k \<and> k < j \<longrightarrow> isMediaItemOffline (items ! nat k))"
  using assms
proof (induction items i rule: available_up.induct)
  case (1 items i)
  show ?case
  proof (cases "i < int (length items) \<and> isMediaItemOffline (items ! nat i)")
    case True
    with 1 have ih: "i + 1 \<le> j \<and> j < int (length items) \<and> \<not> isMediaItemOffline (items ! nat j)
        \<and> (\<forall>k. i + 1 \<le> k \<and> k < j \<longrightarrow> isMediaItemOffline (items ! nat k))"
      by (simp add: available_up.simps [of items i])
    have "isMediaItemOffline (items ! nat k)" if "i \<le> k" "k < j" for k
      using that ih True by (cases "k = i") auto
    with ih show ?thesis by auto
  next
    case False
    with 1 show ?thesis by (auto simp: available_up.simps [of items i] split: if_splits)
  qed
qed

lemma available_up_neg: "available_up items i = -1 \<or> 0 \<le> available_up items i"
  by (induction items i rule: available_up.induct) (simp add: available_up.simps)

lemma available_up_none:
  "0 \<le> i \<Longrightarrow> available_up items i = -1 \<longleftrightarrow>
     (\<forall>k. i \<le> k \<and> k < int (length items) \<longrightarrow> isMediaItemOffline (items ! nat k))"
proof (induction items i rule: available_up.induct)
  case (1 items i)
  show ?case
  proof (cases "i < int (length items) \<and> isMediaItemOffline (items ! nat i)")
    case True
    have split: "i \<le> k \<longleftrightarrow> k = i \<or> i + 1 \<le> k" for k :: int by auto
    show ?thesis
      using 1 True unfolding split by (auto simp: available_up.simps [of items i])
  next
    case False
    with 1 show ?thesis by (auto simp: available_up.simps [of items i])
  qed
qed

lemma findAvailable_spec:
  assumes "0 \<le> i" "0 \<le> findAvailableMediaIndex items i"
  shows "i \<le> findAvailableMediaIndex items i \<and> findAvailableMediaIndex items i < int (length items)
    \<and> \<not> isMediaItemOffline (items ! nat (findAvailableMediaIndex items i))"
  using available_up_spec [OF assms(1) refl, of items] assms(2)
  by (simp add: findAvailableMediaIndex_def)

lemma findAvailable_neg_iff:
  "0 \<le> i \<Longrightarrow> findAvailableMediaIndex items i < 0 \<longleftrightarrow>
     (\<forall>k. i \<le> k \<and> k < int (length items) \<longrightarrow> isMediaItemOffline (items ! nat k))"
  using available_up_none [of i items] available_up_neg [of items i]
  by (auto simp: findAvailableMediaIndex_def)

text \<open>The diff reports, once each and in queue order, the keys that are gone.\<close>

lemma departures_keys:
  "mediaItemKey ` set (departures surv seen prev) = mediaItemKey ` set prev - surv - seen"
  by (induction surv seen prev rule: departures.induct) (auto simp: Let_def)

lemma departures_distinct: "distinct (map mediaItemKey (departures surv seen prev))"
proof (induction surv seen prev rule: departures.induct)
  case (2 surv seen item rest)
  then show ?case
    using departures_keys [of surv "insert (mediaItemKey item) seen" rest] by (auto simp: Let_def)
qed simp

lemma departures_subset: "set (departures surv seen prev) \<subseteq> set prev"
  by (induction surv seen prev rule: departures.induct) (auto simp: Let_def)

lemma diff_keys: "mediaItemKey ` set (diffQueueDepartures prev q) = mediaItemKey ` set prev - mediaItemKey ` set q"
  by (auto simp: diffQueueDepartures_def departures_keys)

lemma diff_distinct: "distinct (map mediaItemKey (diffQueueDepartures prev q))"
  by (simp add: diffQueueDepartures_def departures_distinct)

lemma diff_subset: "set (diffQueueDepartures prev q) \<subseteq> set prev"
  by (auto simp: diffQueueDepartures_def dest: subsetD [OF departures_subset])

lemma diff_keys_only:
  "map mediaItemKey q = map mediaItemKey q' \<Longrightarrow> diffQueueDepartures prev q = diffQueueDepartures prev q'"
  by (simp add: diffQueueDepartures_def)

lemma diff_empty_iff: "diffQueueDepartures prev q = [] \<longleftrightarrow> mediaItemKey ` set prev \<subseteq> mediaItemKey ` set q"
  using diff_keys [of prev q] by (metis Diff_eq_empty_iff image_is_empty set_empty)

end
