(* ===== verification/QueueWorld.thy ===== *)
theory QueueWorld
  imports MediaItem
begin

text \<open>
  The state the queue services of \<open>client/spume/src/music/services/queue\<close> share: the app-state signal
  and its stored copy (\<open>app/services/storage/db.ts\<close>), the progress map, the pending up-next marker,
  the history store and its signal, the listen tracker, and the calls made to the services that are
  not modelled (player, remote mirror, server session, caches, radio), as a log in the order they
  are made. Operations run one at a time here, each to its end.
\<close>

section \<open>History entries\<close>

record source_context =
  sc_type :: string
  sc_label :: string
  sc_entity_id :: "string option"
  sc_image :: "image option"

record resume_progress =
  rp_listened_seconds :: real
  rp_songs_completed :: nat
  rp_current_song_index :: int
  rp_current_song_position :: real

record radio_station_ref =
  rr_peer_addr :: string
  rr_station_id :: "string option"
  rr_station_name :: string

record history_entry =
  he_id :: string
  he_type :: string
  he_label :: string
  he_entity_id :: "string option"
  he_remote_name :: "string option"
  he_song_count :: nat
  he_songs :: "song list"
  he_queued_at :: int
  he_image :: "image option"
  he_total_seconds :: real
  he_progress :: resume_progress
  he_server_session_id :: "string option"
  he_server_remote_id :: "string option"
  he_radio_station_ref :: "radio_station_ref option"

section \<open>Calls\<close>

datatype service_call =
    CancelMediaLoads "string list"
  | CancelPendingAutoDownloads "media_item list"
  | CancelP2PDownload string string \<comment> \<open>key, remote\<close>
  | EvictCachedBlob string string \<comment> \<open>remote, key\<close>
  | EvictP2PBlob string string \<comment> \<open>key, remote\<close>
  | ClearInProgressTracking
  | StopPlayer
  | PlayMediaItem media_item
  | PlaySong song
  | SeekLater real
  | SetVisualPosition real real
  | MirrorReplaceQueue "song list"
  | MirrorAppendToQueue "song list"
  | MirrorRemoveFromQueue int int
  | MirrorReorderQueue int int int
  | MirrorClearQueue
  | StopVideoTracking
  | StopServerSession string
  | CreateServerSession "media_item list" source_context "string option"
  | UpdateServerSessionItems "media_item list" "string option"
  | ReconnectServerSession history_entry
  | AdvanceServerProgress "song option"
  | SyncPlaylistToLocal "song list" source_context
  | TriggerPreCache "media_item list" string
  | LeaveRadio
  | ClearCurrentRadioStation
  | ToastError string

section \<open>State\<close>

record app_state =
  as_queue :: "media_item list"
  as_current_item_key :: "string option"
  as_queue_open :: bool
  as_active_remote_id :: "string option"
  as_last_updated :: int

record queue_world =
  qw_app :: "app_state option" \<comment> \<open>the signal, \<open>null\<close> until loaded\<close>
  qw_stored :: "app_state option" \<comment> \<open>the record in IndexedDB\<close>
  qw_clock :: int
  qw_uuids :: "nat \<Rightarrow> string"
  qw_drawn :: nat
  qw_limit :: nat
  qw_progress :: "string \<rightharpoonup> real"
  qw_pending_up_next :: "string option"
  qw_playback_ended :: bool
  qw_history :: "history_entry list" \<comment> \<open>the store\<close>
  qw_history_signal :: "history_entry list"
  qw_active_entry :: "string option"
  qw_listened :: real
  qw_song_index :: int
  qw_song_position :: real
  qw_completed :: "int set"
  qw_flush_timer :: bool
  qw_pending_reconnect :: "history_entry option"
  qw_playing :: bool
  qw_server_session :: "string option"
  qw_calls :: "service_call list"

text \<open>The modules as they are when the page has loaded, over a given store.\<close>

definition initial_world :: "(nat \<Rightarrow> string) \<Rightarrow> history_entry list \<Rightarrow> queue_world" where
  "initial_world uuids history =
     \<lparr>qw_app = None, qw_stored = None, qw_clock = 0, qw_uuids = uuids, qw_drawn = 0, qw_limit = 150,
      qw_progress = Map.empty, qw_pending_up_next = None, qw_playback_ended = False,
      qw_history = history, qw_history_signal = [], qw_active_entry = None, qw_listened = 0,
      qw_song_index = 0, qw_song_position = 0, qw_completed = {}, qw_flush_timer = False,
      qw_pending_reconnect = None, qw_playing = False, qw_server_session = None, qw_calls = []\<rparr>"

definition log_call :: "service_call \<Rightarrow> queue_world \<Rightarrow> queue_world" where
  "log_call c w = w\<lparr>qw_calls := qw_calls w @ [c]\<rparr>"

definition log_calls :: "service_call list \<Rightarrow> queue_world \<Rightarrow> queue_world" where
  "log_calls cs w = w\<lparr>qw_calls := qw_calls w @ cs\<rparr>"

text \<open>\<open>generateUUID\<close> and \<open>crypto.randomUUID\<close> draw the next identifier.\<close>

definition draw_uuid :: "queue_world \<Rightarrow> string \<times> queue_world" where
  "draw_uuid w = (qw_uuids w (qw_drawn w), w\<lparr>qw_drawn := Suc (qw_drawn w)\<rparr>)"

section \<open>App state\<close>

definition default_app_state :: "queue_world \<Rightarrow> app_state" where
  "default_app_state w =
     \<lparr>as_queue = [], as_current_item_key = None, as_queue_open = False, as_active_remote_id = None,
      as_last_updated = qw_clock w\<rparr>"

definition loadAppState :: "queue_world \<Rightarrow> app_state \<times> queue_world" where
  "loadAppState w =
     (case qw_stored w of
        None \<Rightarrow>
          (let st = default_app_state w in (st, w\<lparr>qw_stored := Some st, qw_app := Some st\<rparr>))
      | Some st \<Rightarrow> (st, w\<lparr>qw_app := Some st\<rparr>))"

text \<open>\<open>appState() || (await loadAppState())\<close>\<close>

definition current_app_state :: "queue_world \<Rightarrow> app_state \<times> queue_world" where
  "current_app_state w = (case qw_app w of Some st \<Rightarrow> (st, w) | None \<Rightarrow> loadAppState w)"

definition updateAppState :: "(app_state \<Rightarrow> app_state) \<Rightarrow> queue_world \<Rightarrow> queue_world" where
  "updateAppState updates w =
     (case current_app_state w of (current, w1) \<Rightarrow>
        let updated = (updates current)\<lparr>as_last_updated := qw_clock w\<rparr>
        in w1\<lparr>qw_app := Some updated, qw_stored := Some updated\<rparr>)"

definition setCurrentSong :: "string option \<Rightarrow> queue_world \<Rightarrow> queue_world" where
  "setCurrentSong k = updateAppState (\<lambda>st. st\<lparr>as_current_item_key := k\<rparr>)"

text \<open>\<open>appState()?.queue ?? []\<close> and \<open>appState()?.current_item_key\<close>\<close>

definition queue_of :: "queue_world \<Rightarrow> media_item list" where
  "queue_of w = (case qw_app w of None \<Rightarrow> [] | Some st \<Rightarrow> as_queue st)"

definition current_key :: "queue_world \<Rightarrow> string option" where
  "current_key w = (case qw_app w of None \<Rightarrow> None | Some st \<Rightarrow> as_current_item_key st)"

lemma log_call_simps [simp]:
  "qw_app (log_call c w) = qw_app w" "qw_stored (log_call c w) = qw_stored w"
  "qw_active_entry (log_call c w) = qw_active_entry w" "qw_limit (log_call c w) = qw_limit w"
  "qw_history (log_call c w) = qw_history w" "qw_calls (log_call c w) = qw_calls w @ [c]"
  "qw_progress (log_call c w) = qw_progress w" "qw_server_session (log_call c w) = qw_server_session w"
  "qw_pending_up_next (log_call c w) = qw_pending_up_next w" "qw_drawn (log_call c w) = qw_drawn w"
  "qw_uuids (log_call c w) = qw_uuids w" "qw_playback_ended (log_call c w) = qw_playback_ended w"
  "qw_clock (log_call c w) = qw_clock w" "qw_completed (log_call c w) = qw_completed w"
  "queue_of (log_call c w) = queue_of w" "current_key (log_call c w) = current_key w"
  by (simp_all add: log_call_def queue_of_def current_key_def)

lemma log_calls_simps [simp]:
  "qw_app (log_calls c w) = qw_app w" "qw_stored (log_calls c w) = qw_stored w"
  "qw_active_entry (log_calls c w) = qw_active_entry w" "qw_limit (log_calls c w) = qw_limit w"
  "qw_history (log_calls c w) = qw_history w" "qw_calls (log_calls c w) = qw_calls w @ c"
  "qw_progress (log_calls c w) = qw_progress w" "qw_server_session (log_calls c w) = qw_server_session w"
  "qw_pending_up_next (log_calls c w) = qw_pending_up_next w" "qw_drawn (log_calls c w) = qw_drawn w"
  "qw_uuids (log_calls c w) = qw_uuids w" "qw_playback_ended (log_calls c w) = qw_playback_ended w"
  "qw_clock (log_calls c w) = qw_clock w" "qw_completed (log_calls c w) = qw_completed w"
  "queue_of (log_calls c w) = queue_of w" "current_key (log_calls c w) = current_key w"
  by (simp_all add: log_calls_def queue_of_def current_key_def)

end
