(* ===== verification/PurgeMedia.thy ===== *)
theory PurgeMedia
  imports QueueWorld
begin

text \<open>
  The purge of media that left the queue, \<open>music/services/queue/purgeDepartedMedia.ts\<close>: which cached
  bytes and which shared images of the departed items are evicted.
\<close>

definition truthy_keys :: "string option list \<Rightarrow> string list" where
  "truthy_keys ks = map the (filter truthy ks)"

fun cacheKeysFor :: "media_item \<Rightarrow> (string \<times> string list) option" where
  "cacheKeysFor (SongItem s) =
     (if sg_source_type s \<noteq> ''remote'' \<or> \<not> truthy (sg_remote_server_id s) then None
      else let ks = truthy_keys [sg_media_blob_id s, Some (sg_sha256 s)]
           in if ks = [] then None else Some (the (sg_remote_server_id s), ks))"
| "cacheKeysFor (VideoItem v) =
     (if vd_source_type v \<noteq> ''remote'' \<or> \<not> truthy (vd_remote_server_id v)
        \<or> \<not> truthy (vd_media_blob_id v)
      then None
      else Some (the (vd_remote_server_id v), [the (vd_media_blob_id v)]))"

type_synonym image_ref = "string \<times> string" \<comment> \<open>remote, blob\<close>

fun imageRefsFor :: "media_item \<Rightarrow> image_ref list" where
  "imageRefsFor (SongItem s) =
     map (\<lambda>i. (the (im_remote_server_id i), the (im_remote_blob_id i)))
       (filter (\<lambda>i. truthy (im_remote_blob_id i) \<and> truthy (im_remote_server_id i))
         (sg_images s @ sg_album_images s @ sg_artist_images s))"
| "imageRefsFor (VideoItem v) =
     (if \<not> truthy (vd_remote_server_id v) then []
      else map (\<lambda>b. (the (vd_remote_server_id v), b))
             (truthy_keys (map im_blob_id (vd_images v)) @ truthy_keys [vd_poster_blob_id v]))"

definition ref_key :: "image_ref \<Rightarrow> string" where
  "ref_key r = fst r @ ''/'' @ snd r"

definition stillReferenced :: "media_item list \<Rightarrow> string set" where
  "stillReferenced remaining = ref_key ` set (concat (map imageRefsFor remaining))"

definition purge_media_calls :: "media_item \<Rightarrow> service_call list" where
  "purge_media_calls item =
     (case cacheKeysFor item of
        None \<Rightarrow> []
      | Some (r, ks) \<Rightarrow>
          concat (map (\<lambda>k. [CancelP2PDownload k r, EvictCachedBlob r k, EvictP2PBlob k r]) ks))"

text \<open>The images to purge: the references of the departed items that are neither still referenced nor
  purged already, in order.\<close>

fun purgeable_refs :: "string set \<Rightarrow> string set \<Rightarrow> image_ref list \<Rightarrow> image_ref list" where
  "purgeable_refs still purged [] = []"
| "purgeable_refs still purged (r # rs) =
     (if ref_key r \<in> still \<or> ref_key r \<in> purged then purgeable_refs still purged rs
      else r # purgeable_refs still (insert (ref_key r) purged) rs)"

definition purge_image_calls :: "image_ref \<Rightarrow> service_call list" where
  "purge_image_calls r = [EvictCachedBlob (fst r) (snd r), EvictP2PBlob (snd r) (fst r)]"

definition purgeDepartedMedia :: "media_item list \<Rightarrow> media_item list \<Rightarrow> queue_world \<Rightarrow> queue_world" where
  "purgeDepartedMedia items remaining =
     log_calls
       ([CancelMediaLoads (map mediaItemKey items), CancelPendingAutoDownloads items]
        @ concat (map purge_media_calls items)
        @ concat (map purge_image_calls
            (purgeable_refs (stillReferenced remaining) {} (concat (map imageRefsFor items)))))"

section \<open>Facts\<close>

lemma purgeable_keys:
  "ref_key ` set (purgeable_refs still purged rs) = ref_key ` set rs - still - purged"
  by (induction still purged rs rule: purgeable_refs.induct) auto

lemma purgeable_distinct: "distinct (map ref_key (purgeable_refs still purged rs))"
proof (induction still purged rs rule: purgeable_refs.induct)
  case (2 still purged r rs)
  then show ?case using purgeable_keys [of still "insert (ref_key r) purged" rs] by auto
qed simp

lemma purgeable_subset: "set (purgeable_refs still purged rs) \<subseteq> set rs"
  by (induction still purged rs rule: purgeable_refs.induct) auto

text \<open>The image references a purge evicts, from its calls.\<close>

definition evicted_images :: "media_item list \<Rightarrow> media_item list \<Rightarrow> image_ref list" where
  "evicted_images items remaining =
     purgeable_refs (stillReferenced remaining) {} (concat (map imageRefsFor items))"

lemma evicted_image_spared:
  "i \<in> set remaining \<Longrightarrow> r \<in> set (imageRefsFor i) \<Longrightarrow> r \<notin> set (evicted_images items remaining)"
  using purgeable_keys [of "stillReferenced remaining" "{}" "concat (map imageRefsFor items)"]
  by (fastforce simp: evicted_images_def stillReferenced_def)

lemma purge_simps [simp]:
  "qw_app (purgeDepartedMedia i r w) = qw_app w" "qw_stored (purgeDepartedMedia i r w) = qw_stored w"
  "qw_active_entry (purgeDepartedMedia i r w) = qw_active_entry w" "qw_limit (purgeDepartedMedia i r w) = qw_limit w"
  "qw_history (purgeDepartedMedia i r w) = qw_history w" "qw_progress (purgeDepartedMedia i r w) = qw_progress w"
  "qw_server_session (purgeDepartedMedia i r w) = qw_server_session w"
  "qw_pending_up_next (purgeDepartedMedia i r w) = qw_pending_up_next w"
  "qw_drawn (purgeDepartedMedia i r w) = qw_drawn w" "qw_uuids (purgeDepartedMedia i r w) = qw_uuids w"
  "qw_playback_ended (purgeDepartedMedia i r w) = qw_playback_ended w" "qw_clock (purgeDepartedMedia i r w) = qw_clock w"
  "queue_of (purgeDepartedMedia i r w) = queue_of w" "current_key (purgeDepartedMedia i r w) = current_key w"
  by (simp_all add: purgeDepartedMedia_def)

end
