(* ===== verification/QueueState.thy ===== *)
theory QueueState
  imports PurgeMedia
begin

text \<open>
  Queue writes and the small queue modules: \<open>setQueue\<close> of \<open>app/services/storage/db.ts\<close> with the
  departure handlers that are registered (\<open>purgeDepartedMedia.ts\<close>, then \<open>queue.ts\<close>),
  \<open>queueState.ts\<close>, \<open>queueLimit.ts\<close> and \<open>queueProgress.ts\<close>.
\<close>

section \<open>setQueue\<close>

text \<open>The handler \<open>queue.ts\<close> registers: playback stops when the playing item has departed.\<close>

definition stop_departed :: "media_item list \<Rightarrow> queue_world \<Rightarrow> queue_world" where
  "stop_departed departed w =
     (let current = current_key w in
      if truthy current \<and> list_ex (\<lambda>i. mediaItemKey i = the current) departed
      then (setCurrentSong None (log_call StopPlayer w))\<lparr>qw_pending_up_next := None\<rparr>
      else w)"

definition notifyQueueDepartures :: "media_item list \<Rightarrow> media_item list \<Rightarrow> queue_world \<Rightarrow> queue_world" where
  "notifyQueueDepartures prev next_queue w =
     (let departed = diffQueueDepartures prev next_queue in
      if departed = [] then w
      else stop_departed departed (purgeDepartedMedia departed next_queue w))"

text \<open>One identifier is drawn per item, used or not.\<close>

fun assign_entry_ids :: "(nat \<Rightarrow> string) \<Rightarrow> nat \<Rightarrow> media_item list \<Rightarrow> media_item list" where
  "assign_entry_ids uuids n [] = []"
| "assign_entry_ids uuids n (i # is) =
     withQueueEntryId i (uuids n) # assign_entry_ids uuids (Suc n) is"

definition setQueue :: "media_item list \<Rightarrow> queue_world \<Rightarrow> queue_world" where
  "setQueue items w =
     (let previous = queue_of w;
          withIds = assign_entry_ids (qw_uuids w) (qw_drawn w) items;
          w1 = w\<lparr>qw_drawn := qw_drawn w + length items\<rparr>;
          w2 = updateAppState (\<lambda>st. st\<lparr>as_queue := withIds\<rparr>) w1
      in notifyQueueDepartures previous withIds (log_call ClearInProgressTracking w2))"

section \<open>queueState.ts\<close>

definition markPlaybackEnded :: "queue_world \<Rightarrow> queue_world" where
  "markPlaybackEnded w = w\<lparr>qw_playback_ended := True\<rparr>"

definition resetPlaybackEnded :: "queue_world \<Rightarrow> queue_world" where
  "resetPlaybackEnded w = w\<lparr>qw_playback_ended := False\<rparr>"

definition hasPlaybackEnded :: "queue_world \<Rightarrow> bool" where
  "hasPlaybackEnded w = qw_playback_ended w"

definition current_index :: "string option \<Rightarrow> media_item list \<Rightarrow> int" where
  "current_index key queue =
     (if truthy key then find_index (\<lambda>i. mediaItemKey i = the key) queue else -1)"

definition canGoNext :: "queue_world \<Rightarrow> bool" where
  "canGoNext w =
     (let queue = queue_of w; currentIdx = current_index (current_key w) queue in
      if queue = [] then False
      else 0 \<le> currentIdx \<and> 0 \<le> findAvailableMediaIndex queue (currentIdx + 1))"

definition canGoPrevious :: "queue_world \<Rightarrow> bool" where
  "canGoPrevious w =
     (let queue = queue_of w; currentIdx = current_index (current_key w) queue in
      if queue = [] then False
      else 0 < currentIdx \<and> 0 \<le> findAvailableMediaIndexBack queue (currentIdx - 1))"

section \<open>queueLimit.ts\<close>

definition DEFAULT_QUEUE_SIZE_LIMIT :: nat where "DEFAULT_QUEUE_SIZE_LIMIT = 150"

definition getQueueSizeLimit :: "queue_world \<Rightarrow> nat" where
  "getQueueSizeLimit w = qw_limit w"

text \<open>
  \<open>config\<close> is the limit the host answers: \<open>None\<close> outside the desktop build, when the command fails or
  when it is not a finite number.
\<close>

definition initQueueSizeLimit :: "real option \<Rightarrow> queue_world \<Rightarrow> queue_world" where
  "initQueueSizeLimit config w =
     w\<lparr>qw_limit := (case config of
         Some r \<Rightarrow> if 0 < r then nat \<lfloor>r\<rfloor> else DEFAULT_QUEUE_SIZE_LIMIT
       | None \<Rightarrow> DEFAULT_QUEUE_SIZE_LIMIT)\<rparr>"

datatype queue_full_choice = CancelAdd | RemoveFromStart | ClearAll

definition calculateRemoveCount :: "nat \<Rightarrow> nat \<Rightarrow> queue_world \<Rightarrow> nat" where
  "calculateRemoveCount currentQueueSize songsToAddCount w =
     (let total = currentQueueSize + songsToAddCount in
      if total \<le> qw_limit w then 0 else total - qw_limit w)"

section \<open>queueProgress.ts\<close>

definition getQueueItemProgress :: "string \<Rightarrow> queue_world \<Rightarrow> real" where
  "getQueueItemProgress k w = nullish_or (qw_progress w k) 0"

definition updateQueueItemProgress :: "string \<Rightarrow> real \<Rightarrow> queue_world \<Rightarrow> queue_world" where
  "updateQueueItemProgress k p w =
     (if nullish_or (qw_progress w k) 0 < p then w\<lparr>qw_progress := (qw_progress w)(k \<mapsto> p)\<rparr> else w)"

definition clearQueueItemProgress :: "string \<Rightarrow> queue_world \<Rightarrow> queue_world" where
  "clearQueueItemProgress k w =
     (if qw_progress w k \<noteq> None then w\<lparr>qw_progress := (qw_progress w)(k := None)\<rparr> else w)"

definition clearAllQueueProgress :: "queue_world \<Rightarrow> queue_world" where
  "clearAllQueueProgress w = w\<lparr>qw_progress := Map.empty\<rparr>"

definition item_progress :: "(string \<rightharpoonup> real) \<Rightarrow> media_item \<Rightarrow> media_item" where
  "item_progress m i =
     (case (if truthy (mediaItemQueueEntryId i) then m (the (mediaItemQueueEntryId i)) else None) of
        None \<Rightarrow> i
      | Some p \<Rightarrow> if Some p = mediaItemMaxProgress i then i else with_max_progress i p)"

definition progress_changes :: "(string \<rightharpoonup> real) \<Rightarrow> media_item \<Rightarrow> bool" where
  "progress_changes m i =
     (case (if truthy (mediaItemQueueEntryId i) then m (the (mediaItemQueueEntryId i)) else None) of
        None \<Rightarrow> False
      | Some p \<Rightarrow> Some p \<noteq> mediaItemMaxProgress i)"

definition saveProgressToIDB :: "queue_world \<Rightarrow> queue_world" where
  "saveProgressToIDB w =
     (case qw_app w of
        None \<Rightarrow> w
      | Some st \<Rightarrow>
          if \<not> list_ex (progress_changes (qw_progress w)) (as_queue st) then w
          else setQueue (map (item_progress (qw_progress w)) (as_queue st)) w)"

fun collect_progress :: "media_item list \<Rightarrow> (string \<rightharpoonup> real) \<Rightarrow> (string \<rightharpoonup> real)" where
  "collect_progress [] m = m"
| "collect_progress (i # is) m =
     collect_progress is
       (if truthy (mediaItemQueueEntryId i) \<and> mediaItemMaxProgress i \<noteq> None
        then m(the (mediaItemQueueEntryId i) := mediaItemMaxProgress i) else m)"

definition loadProgressFromStorage :: "queue_world \<Rightarrow> queue_world" where
  "loadProgressFromStorage w =
     (case qw_app w of
        None \<Rightarrow> w
      | Some st \<Rightarrow>
          let m = collect_progress (as_queue st) Map.empty
          in if dom m = {} then w else w\<lparr>qw_progress := m\<rparr>)"

section \<open>Facts\<close>

definition updated_state :: "(app_state \<Rightarrow> app_state) \<Rightarrow> queue_world \<Rightarrow> app_state" where
  "updated_state f w = (f (fst (current_app_state w)))\<lparr>as_last_updated := qw_clock w\<rparr>"

lemma updateAppState_eq:
  "updateAppState f w = w\<lparr>qw_app := Some (updated_state f w), qw_stored := Some (updated_state f w)\<rparr>"
  by (simp add: updateAppState_def updated_state_def current_app_state_def loadAppState_def Let_def
      split: option.split)

lemma current_app_state_queue:
  "qw_app w \<noteq> None \<Longrightarrow> as_queue (fst (current_app_state w)) = queue_of w"
  by (auto simp: current_app_state_def queue_of_def)

lemma updateAppState_frame [simp]:
  "qw_active_entry (updateAppState f w) = qw_active_entry w" "qw_limit (updateAppState f w) = qw_limit w"
  "qw_history (updateAppState f w) = qw_history w" "qw_progress (updateAppState f w) = qw_progress w"
  "qw_server_session (updateAppState f w) = qw_server_session w"
  "qw_pending_up_next (updateAppState f w) = qw_pending_up_next w"
  "qw_drawn (updateAppState f w) = qw_drawn w" "qw_uuids (updateAppState f w) = qw_uuids w"
  "qw_playback_ended (updateAppState f w) = qw_playback_ended w" "qw_clock (updateAppState f w) = qw_clock w"
  "qw_calls (updateAppState f w) = qw_calls w" "qw_completed (updateAppState f w) = qw_completed w"
  "qw_app (updateAppState f w) = Some (updated_state f w)"
  "qw_stored (updateAppState f w) = Some (updated_state f w)"
  "queue_of (updateAppState f w) = as_queue (f (fst (current_app_state w)))"
  "current_key (updateAppState f w) = as_current_item_key (f (fst (current_app_state w)))"
  by (simp_all add: updateAppState_eq queue_of_def current_key_def updated_state_def)

lemma setCurrentSong_frame [simp]:
  "qw_active_entry (setCurrentSong k w) = qw_active_entry w" "qw_limit (setCurrentSong k w) = qw_limit w"
  "qw_history (setCurrentSong k w) = qw_history w" "qw_progress (setCurrentSong k w) = qw_progress w"
  "qw_server_session (setCurrentSong k w) = qw_server_session w"
  "qw_pending_up_next (setCurrentSong k w) = qw_pending_up_next w"
  "qw_drawn (setCurrentSong k w) = qw_drawn w" "qw_uuids (setCurrentSong k w) = qw_uuids w"
  "qw_playback_ended (setCurrentSong k w) = qw_playback_ended w" "qw_clock (setCurrentSong k w) = qw_clock w"
  "qw_calls (setCurrentSong k w) = qw_calls w" "qw_completed (setCurrentSong k w) = qw_completed w"
  "qw_stored (setCurrentSong k w) = qw_app (setCurrentSong k w)"
  "current_key (setCurrentSong k w) = k"
  by (simp_all add: setCurrentSong_def)

lemma queue_of_setCurrentSong [simp]: "qw_app w \<noteq> None \<Longrightarrow> queue_of (setCurrentSong k w) = queue_of w"
  by (simp add: setCurrentSong_def current_app_state_queue)

lemma assign_entry_ids_keys [simp]: "map mediaItemKey (assign_entry_ids u n is) = map mediaItemKey is"
  by (induction u n "is" rule: assign_entry_ids.induct) simp_all

lemma assign_entry_ids_key_set [simp]: "mediaItemKey ` set (assign_entry_ids u n is) = mediaItemKey ` set is"
  using assign_entry_ids_keys [of u n "is"] by (metis list.set_map)

lemma assign_entry_ids_length [simp]: "length (assign_entry_ids u n is) = length is"
  by (induction u n "is" rule: assign_entry_ids.induct) simp_all

lemma assign_entry_ids_idle:
  "\<forall>i \<in> set is. truthy (mediaItemQueueEntryId i) \<Longrightarrow> assign_entry_ids u n is = is"
  by (induction u n "is" rule: assign_entry_ids.induct) (simp_all add: withQueueEntryId_id)

lemma assign_entry_ids_truthy:
  "\<forall>m. u m \<noteq> [] \<Longrightarrow> \<forall>i \<in> set (assign_entry_ids u n is). truthy (mediaItemQueueEntryId i)"
  by (induction u n "is" rule: assign_entry_ids.induct) (simp_all add: withQueueEntryId_assigned)

lemma diff_assign [simp]: "diffQueueDepartures prev (assign_entry_ids u n is) = diffQueueDepartures prev is"
  by (rule diff_keys_only) simp

text \<open>What the playing item's key is after the handlers ran.\<close>

definition surviving_key :: "string option \<Rightarrow> media_item list \<Rightarrow> media_item list \<Rightarrow> string option" where
  "surviving_key key prev q =
     (if truthy key \<and> the key \<in> mediaItemKey ` set prev - mediaItemKey ` set q then None else key)"

lemma departed_ex: "list_ex (\<lambda>i. mediaItemKey i = k) (diffQueueDepartures prev q)
    \<longleftrightarrow> k \<in> mediaItemKey ` set prev - mediaItemKey ` set q"
  unfolding diff_keys [symmetric] by (auto simp: list_ex_iff)

lemma stop_departed_frame [simp]:
  "qw_active_entry (stop_departed d w) = qw_active_entry w" "qw_limit (stop_departed d w) = qw_limit w"
  "qw_history (stop_departed d w) = qw_history w" "qw_progress (stop_departed d w) = qw_progress w"
  "qw_server_session (stop_departed d w) = qw_server_session w"
  "qw_drawn (stop_departed d w) = qw_drawn w" "qw_uuids (stop_departed d w) = qw_uuids w"
  "qw_playback_ended (stop_departed d w) = qw_playback_ended w" "qw_clock (stop_departed d w) = qw_clock w"
  by (simp_all add: stop_departed_def Let_def)

lemma queue_of_pending [simp]:
  "queue_of (w\<lparr>qw_pending_up_next := p\<rparr>) = queue_of w" "current_key (w\<lparr>qw_pending_up_next := p\<rparr>) = current_key w"
  "queue_of (w\<lparr>qw_drawn := n\<rparr>) = queue_of w" "current_key (w\<lparr>qw_drawn := n\<rparr>) = current_key w"
  by (simp_all add: queue_of_def current_key_def)

lemma queue_of_stop_departed [simp]: "qw_app w \<noteq> None \<Longrightarrow> queue_of (stop_departed d w) = queue_of w"
  by (simp add: stop_departed_def Let_def)

lemma stop_departed_app [simp]: "qw_app (stop_departed d w) = None \<longleftrightarrow> qw_app w = None"
  by (cases "qw_app w") (simp_all add: stop_departed_def Let_def setCurrentSong_def current_key_def)

lemma stop_departed_stored: "qw_stored w = qw_app w \<Longrightarrow> qw_stored (stop_departed d w) = qw_app (stop_departed d w)"
  by (simp add: stop_departed_def Let_def setCurrentSong_def)

lemma notify_frame [simp]:
  "qw_active_entry (notifyQueueDepartures p q w) = qw_active_entry w"
  "qw_limit (notifyQueueDepartures p q w) = qw_limit w"
  "qw_history (notifyQueueDepartures p q w) = qw_history w"
  "qw_progress (notifyQueueDepartures p q w) = qw_progress w"
  "qw_server_session (notifyQueueDepartures p q w) = qw_server_session w"
  "qw_drawn (notifyQueueDepartures p q w) = qw_drawn w" "qw_uuids (notifyQueueDepartures p q w) = qw_uuids w"
  "qw_playback_ended (notifyQueueDepartures p q w) = qw_playback_ended w"
  "qw_clock (notifyQueueDepartures p q w) = qw_clock w"
  by (simp_all add: notifyQueueDepartures_def Let_def)

lemma notify_queue:
  "qw_app w \<noteq> None \<Longrightarrow> queue_of (notifyQueueDepartures p q w) = queue_of w"
  "qw_app w \<noteq> None \<Longrightarrow> qw_app (notifyQueueDepartures p q w) \<noteq> None"
  "qw_stored w = qw_app w \<Longrightarrow>
     qw_stored (notifyQueueDepartures p q w) = qw_app (notifyQueueDepartures p q w)"
  by (simp_all add: notifyQueueDepartures_def Let_def stop_departed_stored del: not_None_eq)

lemma notify_current:
  "qw_app w \<noteq> None \<Longrightarrow> current_key (notifyQueueDepartures p q w) = surviving_key (current_key w) p q"
  using diff_keys [of p q]
  by (auto simp: notifyQueueDepartures_def Let_def stop_departed_def departed_ex surviving_key_def)

lemma setQueue_frame [simp]:
  "qw_active_entry (setQueue is w) = qw_active_entry w" "qw_limit (setQueue is w) = qw_limit w"
  "qw_history (setQueue is w) = qw_history w" "qw_progress (setQueue is w) = qw_progress w"
  "qw_server_session (setQueue is w) = qw_server_session w"
  "qw_drawn (setQueue is w) = qw_drawn w + length is" "qw_uuids (setQueue is w) = qw_uuids w"
  "qw_playback_ended (setQueue is w) = qw_playback_ended w" "qw_clock (setQueue is w) = qw_clock w"
  by (simp_all add: setQueue_def Let_def)

lemma queue_of_setQueue [simp]:
  "queue_of (setQueue is w) = assign_entry_ids (qw_uuids w) (qw_drawn w) is"
  by (simp add: setQueue_def Let_def notify_queue)

lemma setQueue_app [simp]: "qw_app (setQueue is w) \<noteq> None"
  by (simp add: setQueue_def Let_def notify_queue)

lemma setQueue_stored: "qw_stored (setQueue is w) = qw_app (setQueue is w)"
  by (simp add: setQueue_def Let_def notify_queue(3))

lemma current_app_state_key: "qw_app w \<noteq> None \<Longrightarrow> as_current_item_key (fst (current_app_state w)) = current_key w"
  by (auto simp: current_app_state_def current_key_def)

lemma surviving_key_assign [simp]: "surviving_key k p (assign_entry_ids u n is) = surviving_key k p is"
  by (simp add: surviving_key_def)

lemma current_app_state_drawn [simp]:
  "fst (current_app_state (w\<lparr>qw_drawn := n\<rparr>)) = fst (current_app_state w)"
  by (simp add: current_app_state_def loadAppState_def default_app_state_def Let_def split: option.split)

lemma current_key_setQueue:
  assumes "qw_app w \<noteq> None"
  shows "current_key (setQueue is w) = surviving_key (current_key w) (queue_of w) is"
proof -
  let ?q = "assign_entry_ids (qw_uuids w) (qw_drawn w) is"
  let ?w2 = "log_call ClearInProgressTracking (updateAppState (\<lambda>st. st\<lparr>as_queue := ?q\<rparr>)
      (w\<lparr>qw_drawn := qw_drawn w + length is\<rparr>))"
  have "current_key ?w2 = current_key w"
    using assms by (simp add: current_app_state_key del: not_None_eq)
  then show ?thesis
    using notify_current [of ?w2 "queue_of w" ?q] by (simp add: setQueue_def Let_def)
qed

end

