(* ===== verification/QueueHistory.thy ===== *)
theory QueueHistory
  imports QueueWorld ObjectStore "HOL-Library.Sublist"
begin

text \<open>
  Queue history, \<open>music/services/queue/queueHistory.ts\<close>: the store of entries with its cap and its
  signal, the labels of \<open>smartLabel.ts\<close>, and the image of an entry, \<open>pickBestEntryImage\<close> of
  \<open>utils/images.ts\<close>. An open database does not reject. Strings are sequences of characters below 256;
  the dash and the ellipsis of the labels are their Windows-1252 codes.
\<close>

section \<open>Labels\<close>

definition MAX_LABEL_LENGTH :: nat where "MAX_LABEL_LENGTH = 100"

definition truncate_label :: "string \<Rightarrow> nat \<Rightarrow> string" where
  "truncate_label s n = (if length s \<le> n then s else take (n - 1) s @ [CHR 0x85])"

text \<open>The artist names, first seen first, one per artist id.\<close>

fun artist_names :: "string set \<Rightarrow> song list \<Rightarrow> string list" where
  "artist_names seen [] = []"
| "artist_names seen (s # ss) =
     (if sg_artist_id s \<noteq> [] \<and> sg_artist_id s \<notin> seen
      then sg_artist_name s # artist_names (insert (sg_artist_id s) seen) ss
      else artist_names seen ss)"

definition distinct_ids :: "(song \<Rightarrow> string) \<Rightarrow> song list \<Rightarrow> nat" where
  "distinct_ids f ss = length (remdups (filter (\<lambda>k. k \<noteq> []) (map f ss)))"

definition combined_label :: "song list \<Rightarrow> string" where
  "combined_label ss =
     (let names = artist_names {} ss in
      if length names = 2 then
        truncate_label (names ! 0 @ '' & '' @ names ! 1) MAX_LABEL_LENGTH
      else if 3 \<le> length names then
        (let others = length names - 2 in
         truncate_label
           (names ! 0 @ '', '' @ names ! 1 @ '' & '' @ nat_text others @ '' ''
            @ (if others = 1 then ''other'' else ''others''))
           MAX_LABEL_LENGTH)
      else nat_text (length ss) @ '' songs'')"

definition computeSmartLabel :: "song list \<Rightarrow> string" where
  "computeSmartLabel ss =
     (case ss of
        [] \<Rightarrow> ''''
      | [s] \<Rightarrow> truncate_label (sg_title s @ '' '' @ [CHR 0x96] @ '' '' @ sg_artist_name s) MAX_LABEL_LENGTH
      | s # _ \<Rightarrow>
          if distinct_ids sg_album_id ss = 1 \<and> sg_album_title s \<noteq> []
          then truncate_label (sg_album_title s) MAX_LABEL_LENGTH
          else if distinct_ids sg_artist_id ss = 1 \<and> sg_artist_name s \<noteq> []
          then truncate_label (sg_artist_name s) MAX_LABEL_LENGTH
          else combined_label ss)"

definition computeSmartMediaLabel :: "media_item list \<Rightarrow> string" where
  "computeSmartMediaLabel items =
     (let hasSong = list_ex isSongItem items; hasVideo = list_ex isVideoItem items in
      if hasSong \<and> \<not> hasVideo then computeSmartLabel (songsOnly items)
      else if hasVideo \<and> \<not> hasSong then
        (let videos = videosOnly items in
         if length videos = 1 then truncate_label (vd_title (videos ! 0)) MAX_LABEL_LENGTH
         else nat_text (length videos) @ '' videos'')
      else nat_text (length items) @ '' items'')"

section \<open>Images\<close>

definition nonWaveform :: "image list \<Rightarrow> image list" where
  "nonWaveform imgs = filter (\<lambda>i. im_blob_type i \<noteq> ''waveform'') imgs"

fun first_image :: "image list \<Rightarrow> image option" where
  "first_image [] = None"
| "first_image (i # _) = Some i"

fun scan_images :: "(image list \<Rightarrow> image list) \<Rightarrow> song list \<Rightarrow> image option" where
  "scan_images f [] = None"
| "scan_images f (s # ss) =
     (case first_image (f (sg_images s)) of
        Some i \<Rightarrow> Some i
      | None \<Rightarrow>
          (case first_image (f (sg_album_images s)) of
             Some i \<Rightarrow> Some i
           | None \<Rightarrow> scan_images f ss))"

definition pickBestEntryImage :: "song list \<Rightarrow> image option \<Rightarrow> image option" where
  "pickBestEntryImage ss sourceImage =
     (case sourceImage of
        Some i \<Rightarrow>
          if im_blob_type i \<noteq> ''waveform'' then Some i
          else nullish_orelse (scan_images nonWaveform ss) (Some i)
      | None \<Rightarrow> nullish_orelse (scan_images nonWaveform ss) (scan_images id ss))"

section \<open>The store\<close>

definition MAX_HISTORY_ENTRIES :: nat where "MAX_HISTORY_ENTRIES = 1000"

definition no_progress :: resume_progress where
  "no_progress =
     \<lparr>rp_listened_seconds = 0, rp_songs_completed = 0, rp_current_song_index = 0,
      rp_current_song_position = 0\<rparr>"

definition total_seconds :: "song list \<Rightarrow> real" where
  "total_seconds ss = sum_list (map sg_duration_seconds ss)"

text \<open>Newest first; equal times keep the order of the store.\<close>

definition newest_first :: "history_entry list \<Rightarrow> history_entry list" where
  "newest_first = sort_key (\<lambda>e. - he_queued_at e)"

definition loadQueueHistory :: "queue_world \<Rightarrow> queue_world" where
  "loadQueueHistory w = w\<lparr>qw_history_signal := newest_first (qw_history w)\<rparr>"

text \<open>The oldest entries beyond the cap.\<close>

definition over_cap :: "history_entry list \<Rightarrow> history_entry list" where
  "over_cap es =
     (if MAX_HISTORY_ENTRIES < length es
      then take (length es - MAX_HISTORY_ENTRIES) (sort_key he_queued_at es) else [])"

definition delete_entries :: "history_entry list \<Rightarrow> history_entry list \<Rightarrow> history_entry list" where
  "delete_entries old es = fold (\<lambda>e. idb_delete he_id (he_id e)) old es"

definition new_entry ::
    "string option \<Rightarrow> string \<Rightarrow> song list \<Rightarrow> source_context \<Rightarrow> resume_progress option \<Rightarrow> int \<Rightarrow> history_entry" where
  "new_entry remote_name k ss source resume now =
     \<lparr>he_id = k, he_type = sc_type source, he_label = sc_label source,
      he_entity_id = sc_entity_id source,
      he_remote_name = (if truthy remote_name then remote_name else None),
      he_song_count = length ss, he_songs = ss, he_queued_at = now,
      he_image = pickBestEntryImage ss (sc_image source),
      he_total_seconds = total_seconds ss,
      he_progress = nullish_or resume no_progress,
      he_server_session_id = None, he_server_remote_id = None, he_radio_station_ref = None\<rparr>"

definition put_capped :: "history_entry \<Rightarrow> history_entry list \<Rightarrow> history_entry list" where
  "put_capped e es = (let es1 = idb_put he_id e es in delete_entries (over_cap es1) es1)"

definition addHistoryEntry ::
    "string option \<Rightarrow> song list \<Rightarrow> source_context \<Rightarrow> resume_progress option \<Rightarrow> queue_world
     \<Rightarrow> string option \<times> queue_world" where
  "addHistoryEntry remote_name ss source resume w =
     (if ss = [] then (None, w)
      else case draw_uuid w of (k, w1) \<Rightarrow>
        let entry = new_entry remote_name k ss source resume (qw_clock w)
        in (Some k, loadQueueHistory (w1\<lparr>qw_history := put_capped entry (qw_history w1)\<rparr>)))"

definition removeHistoryEntry :: "string \<Rightarrow> queue_world \<Rightarrow> queue_world" where
  "removeHistoryEntry k w = loadQueueHistory (w\<lparr>qw_history := idb_delete he_id k (qw_history w)\<rparr>)"

text \<open>The update functions read the stored entry, write it changed and change the signal in place.\<close>

definition patch_entry :: "string \<Rightarrow> (history_entry \<Rightarrow> history_entry) \<Rightarrow> queue_world \<Rightarrow> queue_world" where
  "patch_entry k f w =
     (case idb_get he_id k (qw_history w) of
        None \<Rightarrow> w
      | Some entry \<Rightarrow>
          w\<lparr>qw_history := idb_put he_id (f entry) (qw_history w),
            qw_history_signal := map (\<lambda>e. if he_id e = k then f e else e) (qw_history_signal w)\<rparr>)"

definition updateHistoryProgress :: "string \<Rightarrow> resume_progress \<Rightarrow> queue_world \<Rightarrow> queue_world" where
  "updateHistoryProgress k updates = patch_entry k (\<lambda>e. e\<lparr>he_progress := updates\<rparr>)"

definition entry_with_songs :: "song list \<Rightarrow> history_entry \<Rightarrow> history_entry" where
  "entry_with_songs ss e =
     e\<lparr>he_songs := ss, he_song_count := length ss,
       he_label := (if truthy (he_entity_id e) then he_label e else computeSmartLabel ss),
       he_total_seconds := total_seconds ss\<rparr>"

text \<open>The signal gets the label computed from the stored entry.\<close>

definition updateHistoryEntrySongs :: "string \<Rightarrow> song list \<Rightarrow> queue_world \<Rightarrow> queue_world" where
  "updateHistoryEntrySongs k ss w =
     (case idb_get he_id k (qw_history w) of
        None \<Rightarrow> w
      | Some entry \<Rightarrow>
          let updated = entry_with_songs ss entry in
          w\<lparr>qw_history := idb_put he_id updated (qw_history w),
            qw_history_signal :=
              map (\<lambda>e. if he_id e = k
                       then e\<lparr>he_songs := he_songs updated, he_song_count := he_song_count updated,
                              he_label := he_label updated, he_total_seconds := he_total_seconds updated\<rparr>
                       else e) (qw_history_signal w)\<rparr>)"

definition updateHistoryServerSession :: "string \<Rightarrow> string \<Rightarrow> string \<Rightarrow> queue_world \<Rightarrow> queue_world" where
  "updateHistoryServerSession k session remote =
     patch_entry k (\<lambda>e. e\<lparr>he_server_session_id := Some session, he_server_remote_id := Some remote\<rparr>)"

definition clearHistoryServerSession :: "string \<Rightarrow> queue_world \<Rightarrow> queue_world" where
  "clearHistoryServerSession k =
     patch_entry k (\<lambda>e. e\<lparr>he_server_session_id := None, he_server_remote_id := None\<rparr>)"

definition clearQueueHistory :: "queue_world \<Rightarrow> queue_world" where
  "clearQueueHistory w = w\<lparr>qw_history := [], qw_history_signal := []\<rparr>"

definition same_station :: "radio_station_ref \<Rightarrow> history_entry \<Rightarrow> bool" where
  "same_station ref e =
     (he_type e = ''radio_station''
      \<and> map_option rr_peer_addr (he_radio_station_ref e) = Some (rr_peer_addr ref)
      \<and> Option.bind (he_radio_station_ref e) rr_station_id = rr_station_id ref)"

definition radio_entry :: "string \<Rightarrow> radio_station_ref \<Rightarrow> int \<Rightarrow> history_entry" where
  "radio_entry k ref now =
     \<lparr>he_id = k, he_type = ''radio_station'', he_label = rr_station_name ref, he_entity_id = None,
      he_remote_name = None, he_song_count = 0, he_songs = [], he_queued_at = now, he_image = None,
      he_total_seconds = 0, he_progress = no_progress, he_server_session_id = None,
      he_server_remote_id = None, he_radio_station_ref = Some ref\<rparr>"

definition addRadioStationHistoryEntry :: "radio_station_ref \<Rightarrow> queue_world \<Rightarrow> string option \<times> queue_world" where
  "addRadioStationHistoryEntry ref w =
     (case List.find (same_station ref) (qw_history w) of
        Some e \<Rightarrow> (Some (he_id e), w)
      | None \<Rightarrow>
          (case draw_uuid w of (k, w1) \<Rightarrow>
             (Some k,
              loadQueueHistory
                (w1\<lparr>qw_history := idb_put he_id (radio_entry k ref (qw_clock w)) (qw_history w1)\<rparr>))))"

end
