(* ===== verification/ListenProgress.thy ===== *)
theory ListenProgress
  imports QueueState QueueHistory
begin

text \<open>
  Listen tracking, \<open>music/services/queue/listenProgress.ts\<close>. \<open>flushProgress\<close> is started without being
  awaited: what it reads before its first await is \<open>flush_begin\<close>, what it does after it, when the
  caller has run on, is \<open>flush_end\<close>.
\<close>

definition getCurrentProgress :: "queue_world \<Rightarrow> resume_progress" where
  "getCurrentProgress w =
     \<lparr>rp_listened_seconds = qw_listened w, rp_songs_completed = card (qw_completed w),
      rp_current_song_index = qw_song_index w, rp_current_song_position = qw_song_position w\<rparr>"

definition flush_begin :: "bool \<Rightarrow> queue_world \<Rightarrow> string option \<times> queue_world" where
  "flush_begin force w =
     (if \<not> truthy (qw_active_entry w) \<or> \<not> force \<and> \<not> qw_playing w then (None, w)
      else (qw_active_entry w,
            updateHistoryProgress (the (qw_active_entry w)) (getCurrentProgress w) w))"

definition flush_end :: "string option \<Rightarrow> bool \<Rightarrow> queue_world \<Rightarrow> queue_world" where
  "flush_end entry skipQueueSave w =
     (if entry \<noteq> None \<and> \<not> skipQueueSave \<and> qw_active_entry w = entry then saveProgressToIDB w else w)"

definition flushProgress :: "bool \<Rightarrow> bool \<Rightarrow> queue_world \<Rightarrow> queue_world" where
  "flushProgress force skipQueueSave w =
     (case flush_begin force w of (entry, w1) \<Rightarrow> flush_end entry skipQueueSave w1)"

definition set_tracker :: "string option \<Rightarrow> resume_progress \<Rightarrow> bool \<Rightarrow> queue_world \<Rightarrow> queue_world" where
  "set_tracker entry p timer w =
     w\<lparr>qw_active_entry := entry, qw_listened := rp_listened_seconds p,
       qw_song_index := rp_current_song_index p, qw_song_position := rp_current_song_position p,
       qw_completed := int ` {0..<rp_songs_completed p}, qw_flush_timer := timer\<rparr>"

definition startTracking :: "string \<Rightarrow> queue_world \<Rightarrow> queue_world" where
  "startTracking k w =
     (case flush_begin True w of (entry, w1) \<Rightarrow>
        flush_end entry False (set_tracker (Some k) no_progress True w1))"

definition resumeTracking :: "string \<Rightarrow> resume_progress \<Rightarrow> queue_world \<Rightarrow> queue_world" where
  "resumeTracking k p w =
     (case flush_begin True w of (entry, w1) \<Rightarrow>
        flush_end entry False (set_tracker (Some k) p True w1))"

definition stopTracking :: "bool \<Rightarrow> queue_world \<Rightarrow> queue_world" where
  "stopTracking skipQueueSave w =
     (case flush_begin True w of (entry, w1) \<Rightarrow>
        flush_end entry skipQueueSave (set_tracker None no_progress False w1))"

definition recordTimeProgress :: "real \<Rightarrow> int \<Rightarrow> real \<Rightarrow> queue_world \<Rightarrow> queue_world" where
  "recordTimeProgress delta songIndex songPosition w =
     (if \<not> truthy (qw_active_entry w) then w
      else w\<lparr>qw_listened := qw_listened w + delta, qw_song_index := songIndex,
             qw_song_position := songPosition\<rparr>)"

definition markSongCompleted :: "int \<Rightarrow> song option \<Rightarrow> queue_world \<Rightarrow> queue_world" where
  "markSongCompleted songIndex currentSong w =
     (if \<not> truthy (qw_active_entry w) then w
      else
        (flushProgress False False
           (log_call (AdvanceServerProgress currentSong)
              (w\<lparr>qw_completed := insert songIndex (qw_completed w)\<rparr>)))
        \<lparr>qw_flush_timer := True\<rparr>)"

definition consumePendingServerReconnect :: "string \<Rightarrow> queue_world \<Rightarrow> queue_world" where
  "consumePendingServerReconnect k w =
     (case qw_pending_reconnect w of
        None \<Rightarrow> w
      | Some pending \<Rightarrow>
          if he_id pending \<noteq> k then w
          else log_call (ReconnectServerSession pending) (w\<lparr>qw_pending_reconnect := None\<rparr>))"

text \<open>The newest history entry with the songs of the queue.\<close>

definition matching_entry :: "song list \<Rightarrow> history_entry list \<Rightarrow> history_entry option" where
  "matching_entry queueSongs history =
     List.find (\<lambda>h. map songIdentityKey (he_songs h) = map songIdentityKey queueSongs) history"

definition show_position :: "app_state \<Rightarrow> history_entry \<Rightarrow> queue_world \<Rightarrow> queue_world" where
  "show_position st entry w =
     (case List.find (\<lambda>s. Some (songIdentityKey s) = as_current_item_key st) (songsOnly (as_queue st)) of
        None \<Rightarrow> w
      | Some s \<Rightarrow>
          if 0 < rp_current_song_position (he_progress entry)
          then log_call (SetVisualPosition (rp_current_song_position (he_progress entry))
                 (sg_duration_seconds s)) w
          else w)"

definition reconnectProgressTracking :: "queue_world \<Rightarrow> queue_world" where
  "reconnectProgressTracking w =
     (if truthy (qw_active_entry w) then w
      else case qw_app w of
        None \<Rightarrow> w
      | Some st \<Rightarrow>
          if as_queue st = [] \<or> \<not> truthy (as_current_item_key st) then w
          else case matching_entry (songsOnly (as_queue st)) (qw_history_signal w) of
            None \<Rightarrow> w
          | Some entry \<Rightarrow>
              (let w1 = resumeTracking (he_id entry) (he_progress entry) (show_position st entry w)
               in if truthy (he_server_session_id entry) \<and> truthy (he_server_remote_id entry)
                  then w1\<lparr>qw_pending_reconnect := Some entry\<rparr> else w1))"

section \<open>Facts\<close>

lemma updateHistoryProgress_frame [simp]:
  "qw_app (updateHistoryProgress k p w) = qw_app w" "qw_stored (updateHistoryProgress k p w) = qw_stored w"
  "qw_limit (updateHistoryProgress k p w) = qw_limit w" "qw_active_entry (updateHistoryProgress k p w) = qw_active_entry w"
  "qw_progress (updateHistoryProgress k p w) = qw_progress w" "qw_uuids (updateHistoryProgress k p w) = qw_uuids w"
  "qw_drawn (updateHistoryProgress k p w) = qw_drawn w" "qw_calls (updateHistoryProgress k p w) = qw_calls w"
  "qw_server_session (updateHistoryProgress k p w) = qw_server_session w"
  "qw_playback_ended (updateHistoryProgress k p w) = qw_playback_ended w"
  "qw_pending_up_next (updateHistoryProgress k p w) = qw_pending_up_next w"
  by (simp_all add: updateHistoryProgress_def patch_entry_def split: option.split)

lemma flush_begin_frame [simp]:
  "qw_app (snd (flush_begin f w)) = qw_app w" "qw_stored (snd (flush_begin f w)) = qw_stored w"
  "qw_limit (snd (flush_begin f w)) = qw_limit w" "qw_active_entry (snd (flush_begin f w)) = qw_active_entry w"
  "qw_progress (snd (flush_begin f w)) = qw_progress w" "qw_uuids (snd (flush_begin f w)) = qw_uuids w"
  "qw_drawn (snd (flush_begin f w)) = qw_drawn w" "qw_calls (snd (flush_begin f w)) = qw_calls w"
  "qw_server_session (snd (flush_begin f w)) = qw_server_session w"
  "qw_playback_ended (snd (flush_begin f w)) = qw_playback_ended w"
  "qw_pending_up_next (snd (flush_begin f w)) = qw_pending_up_next w"
  by (simp_all add: flush_begin_def)

lemma flush_begin_entry: "fst (flush_begin f w) = None \<or> fst (flush_begin f w) = qw_active_entry w"
  by (simp add: flush_begin_def)

lemma set_tracker_frame [simp]:
  "qw_app (set_tracker e p t w) = qw_app w" "qw_stored (set_tracker e p t w) = qw_stored w"
  "qw_limit (set_tracker e p t w) = qw_limit w" "qw_active_entry (set_tracker e p t w) = e"
  "qw_progress (set_tracker e p t w) = qw_progress w" "qw_uuids (set_tracker e p t w) = qw_uuids w"
  "qw_drawn (set_tracker e p t w) = qw_drawn w" "qw_calls (set_tracker e p t w) = qw_calls w"
  "qw_server_session (set_tracker e p t w) = qw_server_session w"
  "qw_playback_ended (set_tracker e p t w) = qw_playback_ended w"
  "qw_pending_up_next (set_tracker e p t w) = qw_pending_up_next w"
  by (simp_all add: set_tracker_def)

text \<open>Stopping never writes the queue: by the time its flush could, nothing is tracked any more.\<close>

lemma stopTracking_eq:
  "stopTracking skip w = set_tracker None no_progress False (snd (flush_begin True w))"
  using flush_begin_entry [of True w] by (auto simp: stopTracking_def flush_end_def split: prod.split)

lemma stopTracking_frame [simp]:
  "qw_app (stopTracking s w) = qw_app w" "qw_stored (stopTracking s w) = qw_stored w"
  "qw_limit (stopTracking s w) = qw_limit w" "qw_active_entry (stopTracking s w) = None"
  "qw_progress (stopTracking s w) = qw_progress w" "qw_uuids (stopTracking s w) = qw_uuids w"
  "qw_drawn (stopTracking s w) = qw_drawn w" "qw_calls (stopTracking s w) = qw_calls w"
  "qw_playback_ended (stopTracking s w) = qw_playback_ended w"
  "qw_pending_up_next (stopTracking s w) = qw_pending_up_next w"
  "queue_of (stopTracking s w) = queue_of w" "current_key (stopTracking s w) = current_key w"
  by (simp_all add: stopTracking_eq queue_of_def current_key_def)

lemma startTracking_eq:
  "qw_active_entry w \<noteq> Some k \<Longrightarrow>
     startTracking k w = set_tracker (Some k) no_progress True (snd (flush_begin True w))"
  using flush_begin_entry [of True w] by (auto simp: startTracking_def flush_end_def split: prod.split)

end
