(* ===== verification/QueueOps.thy ===== *)
theory QueueOps
  imports ListenProgress
begin

text \<open>
  The queue operations of \<open>music/services/queue/queue.ts\<close> and \<open>clearQueueState.ts\<close>. What the user
  answers to the two dialogs and what other services report is the environment \<open>queue_env\<close>; the
  player, the mirror and the server session are calls in the log. The unwrapping of proxies copies
  values and changes none.
\<close>

datatype replace_choice = ReplaceQueue | AppendToQueue | CancelReplace

record queue_env =
  qe_full_choice :: queue_full_choice
  qe_replace_choice :: replace_choice
  qe_remote_active :: bool
  qe_remote_queue :: "song list"
  qe_session_matches :: "source_context \<Rightarrow> bool"
  qe_remote_name :: "string option"

record play_options =
  po_startIndex :: "int option"
  po_source :: "source_context option"
  po_skipServerSession :: bool
  po_resumeProgress :: "resume_progress option"

datatype add_position = AtEnd | AsNext

record add_options =
  ao_startPlaying :: bool
  ao_position :: add_position
  ao_source :: "source_context option"

definition REPLACE_SOURCE_TYPES :: "string list" where
  "REPLACE_SOURCE_TYPES = [''album'', ''artist'', ''genre'', ''playlist'', ''shuffle'']"

section \<open>Preparing the items\<close>

text \<open>\<open>unwrapMediaItems\<close>: the songs and the videos, unwrapped apart, are dealt out again in the order of the
  items.\<close>

fun deal_items :: "media_item list \<Rightarrow> song list \<Rightarrow> video list \<Rightarrow> media_item list" where
  "deal_items (SongItem _ # is) (s # ss) vs = SongItem s # deal_items is ss vs"
| "deal_items (VideoItem _ # is) ss (v # vs) = VideoItem v # deal_items is ss vs"
| "deal_items _ _ _ = []"

definition unwrapMediaItems :: "media_item list \<Rightarrow> media_item list" where
  "unwrapMediaItems items = deal_items items (songsOnly items) (videosOnly items)"

definition prepareMediaItems :: "(song + media_item) list \<Rightarrow> media_item list" where
  "prepareMediaItems items = unwrapMediaItems (toMediaItems items)"

fun skip_feed_item :: "media_item \<Rightarrow> media_item" where
  "skip_feed_item (SongItem s) = SongItem (s\<lparr>sg_skip_feed_events := True\<rparr>)"
| "skip_feed_item (VideoItem v) = VideoItem v"

definition mark_playlist :: "source_context option \<Rightarrow> media_item list \<Rightarrow> media_item list" where
  "mark_playlist source items =
     (case source of
        Some s \<Rightarrow> if sc_type s = ''playlist'' then map skip_feed_item items else items
      | None \<Rightarrow> items)"

text \<open>The part of the items that fits the limit and the start index in it.\<close>

definition play_window :: "nat \<Rightarrow> media_item list \<Rightarrow> int \<Rightarrow> media_item list \<times> int" where
  "play_window limit items startIndex =
     (if length items \<le> limit then (items, startIndex)
      else if startIndex < int limit then (js_slice 0 (int limit) items, startIndex)
      else
        let start = startIndex - int (limit div 2);
            adjustedStart = max 0 (min start (int (length items) - int limit))
        in (js_slice adjustedStart (adjustedStart + int limit) items, startIndex - adjustedStart))"

definition add_window :: "nat \<Rightarrow> media_item list \<Rightarrow> int \<Rightarrow> media_item list" where
  "add_window limit items availableIndex =
     (if length items \<le> limit then items
      else let start = (if availableIndex < int limit then 0 else availableIndex)
           in js_slice start (start + int limit) items)"

section \<open>Shared steps\<close>

definition playMediaItem :: "media_item \<Rightarrow> queue_world \<Rightarrow> queue_world" where
  "playMediaItem item = log_call (PlayMediaItem item)"

definition sync_playlist :: "song list \<Rightarrow> source_context option \<Rightarrow> queue_world \<Rightarrow> queue_world" where
  "sync_playlist ss source w =
     (case source of None \<Rightarrow> w | Some s \<Rightarrow> log_call (SyncPlaylistToLocal ss s) w)"

text \<open>A new history entry, tracked from its resume progress or from the start.\<close>

definition add_and_track ::
    "queue_env \<Rightarrow> song list \<Rightarrow> source_context \<Rightarrow> resume_progress option \<Rightarrow> queue_world
     \<Rightarrow> string option \<times> queue_world" where
  "add_and_track env ss source resume w =
     (case addHistoryEntry (qe_remote_name env) ss source resume w of (entry, w1) \<Rightarrow>
        (entry,
         if \<not> truthy entry then w1
         else case resume of
           Some p \<Rightarrow> resumeTracking (the entry) p w1
         | None \<Rightarrow> startTracking (the entry) w1))"

text \<open>Play the queue's start item; then history, tracking and the server session, for a source.\<close>

definition begin_listening ::
    "queue_env \<Rightarrow> media_item list \<Rightarrow> song list \<Rightarrow> source_context option \<Rightarrow> resume_progress option
     \<Rightarrow> (string option \<Rightarrow> queue_world \<Rightarrow> queue_world) \<Rightarrow> queue_world \<Rightarrow> queue_world" where
  "begin_listening env items ss source resume session w =
     (case source of
        None \<Rightarrow> w
      | Some s \<Rightarrow> (case add_and_track env ss s resume w of (entry, w1) \<Rightarrow> session entry w1))"

definition create_session ::
    "bool \<Rightarrow> media_item list \<Rightarrow> source_context option \<Rightarrow> string option \<Rightarrow> queue_world \<Rightarrow> queue_world" where
  "create_session skip items source entry w =
     (case source of
        None \<Rightarrow> w
      | Some s \<Rightarrow> if skip then w else log_call (CreateServerSession items s entry) w)"

text \<open>\<open>items\<close> after the playing item.\<close>

definition insert_after_current :: "media_item list \<Rightarrow> media_item list \<Rightarrow> string option \<Rightarrow> media_item list" where
  "insert_after_current items currentQueue currentId =
     (if \<not> truthy currentId then items @ currentQueue
      else let currentIdx = find_index (\<lambda>i. mediaItemKey i = the currentId) currentQueue in
        if currentIdx = -1 then currentQueue @ items
        else js_slice 0 (currentIdx + 1) currentQueue @ items @ js_slice_from (currentIdx + 1) currentQueue)"

definition removable_count :: "media_item list \<Rightarrow> string option \<Rightarrow> nat" where
  "removable_count currentQueue currentId =
     (let currentIdx = current_index currentId currentQueue
      in if 0 < currentIdx then nat currentIdx else length currentQueue)"

section \<open>playQueue and addToQueue\<close>

definition playQueueInternal ::
    "queue_env \<Rightarrow> media_item list \<Rightarrow> media_item list \<Rightarrow> string option \<Rightarrow> int \<Rightarrow> play_options
     \<Rightarrow> queue_world \<Rightarrow> queue_world" where
  "playQueueInternal env items currentQueue currentId startIndex opts w =
     (let newQueue = insert_after_current items currentQueue currentId;
          w1 = playMediaItem (items ! nat startIndex) (setQueue newQueue w);
          newQueueSongs = songsOnly newQueue
      in case po_source opts of
        None \<Rightarrow> w1
      | Some s \<Rightarrow>
          if truthy (qw_active_entry w1) then
            (let existing = the (qw_active_entry w1);
                 w2 = updateHistoryEntrySongs existing newQueueSongs w1
             in if truthy (qw_server_session w2)
                then log_call (UpdateServerSessionItems newQueue None) w2
                else create_session (po_skipServerSession opts) newQueue (Some s) (Some existing) w2)
          else
            begin_listening env newQueue newQueueSongs (Some s) (po_resumeProgress opts)
              (create_session (po_skipServerSession opts) newQueue (Some s)) w1)"

definition will_auto_play :: "bool \<Rightarrow> string option \<Rightarrow> queue_world \<Rightarrow> bool" where
  "will_auto_play startPlaying currentId w = (startPlaying \<or> \<not> truthy currentId \<or> hasPlaybackEnded w)"

definition addToQueueInternal ::
    "queue_env \<Rightarrow> media_item list \<Rightarrow> media_item list \<Rightarrow> string option \<Rightarrow> bool \<Rightarrow> add_position
     \<Rightarrow> source_context option \<Rightarrow> queue_world \<Rightarrow> queue_world" where
  "addToQueueInternal env items currentQueue currentId startPlaying position source w =
     (let newQueue = (case position of
            AsNext \<Rightarrow> if currentQueue = [] then items @ currentQueue
                     else insert_after_current items currentQueue currentId
          | AtEnd \<Rightarrow> currentQueue @ items);
          w1 = setQueue newQueue (log_call (MirrorAppendToQueue (songsOnly items)) w);
          auto = will_auto_play startPlaying currentId w1;
          w2 = (if auto then playMediaItem (items ! nat (findAvailableMediaIndex items 0)) w1 else w1);
          newQueueSongs = songsOnly newQueue;
          currentKey = nullish_or currentId (mediaItemKey (items ! 0));
          w3 = (if (auto \<or> position = AsNext) \<and> currentKey \<noteq> []
                then log_call (TriggerPreCache newQueue currentKey) w2 else w2)
      in case source of
        None \<Rightarrow> w3
      | Some s \<Rightarrow>
          if truthy (qw_active_entry w3) then
            (let existing = the (qw_active_entry w3);
                 w4 = updateHistoryEntrySongs existing newQueueSongs w3
             in if truthy (qw_server_session w4)
                then log_call (UpdateServerSessionItems newQueue None) w4
                else log_call (CreateServerSession newQueue s (Some existing)) w4)
          else
            begin_listening env newQueue newQueueSongs (Some s) None
              (create_session False newQueue (Some s)) w3)"

text \<open>Both fallbacks of \<open>addToQueue\<close> that replace the queue.\<close>

definition add_replacing ::
    "queue_env \<Rightarrow> media_item list \<Rightarrow> string option \<Rightarrow> add_options \<Rightarrow> queue_world \<Rightarrow> queue_world" where
  "add_replacing env items currentId opts w =
     (let w1 = setQueue items w;
          w2 = (if will_auto_play (ao_startPlaying opts) currentId w1
                then playMediaItem (items ! nat (findAvailableMediaIndex items 0)) w1 else w1)
      in begin_listening env items (songsOnly items) (ao_source opts) None
           (create_session False items (ao_source opts)) w2)"

definition addToQueue :: "queue_env \<Rightarrow> (song + media_item) list \<Rightarrow> add_options \<Rightarrow> queue_world \<Rightarrow> queue_world" where
  "addToQueue env songs opts w =
     (if songs = [] then w
      else
        let unwrapped = prepareMediaItems songs;
            availableIndex = findAvailableMediaIndex unwrapped 0;
            limit = getQueueSizeLimit w
        in if availableIndex < 0
        then log_call (ToastError ''all selected media is on offline storage'') w
        else
          let finalItems = mark_playlist (ao_source opts) (add_window limit unwrapped availableIndex);
              currentQueue = queue_of w;
              currentId = current_key w;
              w1 = sync_playlist (songsOnly finalItems) (ao_source opts) w;
              add = (\<lambda>q. addToQueueInternal env finalItems q currentId (ao_startPlaying opts)
                       (ao_position opts) (ao_source opts) w1)
          in if length currentQueue + length finalItems \<le> limit then add currentQueue
          else case qe_full_choice env of
            CancelAdd \<Rightarrow> w1
          | ClearAll \<Rightarrow> add_replacing env finalItems currentId opts w1
          | RemoveFromStart \<Rightarrow>
              (let removeCount = length currentQueue + length finalItems - limit
               in if removable_count currentQueue currentId < removeCount
                  then add_replacing env finalItems currentId opts w1
                  else add (drop removeCount currentQueue)))"

text \<open>The two fallbacks of \<open>playQueue\<close> that replace a full queue.\<close>

definition play_replacing_full ::
    "queue_env \<Rightarrow> media_item list \<Rightarrow> int \<Rightarrow> play_options \<Rightarrow> queue_world \<Rightarrow> queue_world" where
  "play_replacing_full env items startIndex opts w =
     begin_listening env items (songsOnly items) (po_source opts) None
       (create_session (po_skipServerSession opts) items (po_source opts))
       (playMediaItem (items ! nat startIndex) (setQueue items w))"

definition play_into_empty ::
    "queue_env \<Rightarrow> media_item list \<Rightarrow> int \<Rightarrow> play_options \<Rightarrow> queue_world \<Rightarrow> queue_world" where
  "play_into_empty env items startIndex opts w =
     begin_listening env items (songsOnly items) (po_source opts) (po_resumeProgress opts)
       (create_session (po_skipServerSession opts) items (po_source opts))
       (playMediaItem (items ! nat startIndex)
          (setQueue items (log_call (MirrorReplaceQueue (songsOnly items)) w)))"

definition play_replacing ::
    "queue_env \<Rightarrow> media_item list \<Rightarrow> int \<Rightarrow> play_options \<Rightarrow> source_context \<Rightarrow> queue_world \<Rightarrow> queue_world" where
  "play_replacing env items startIndex opts source w =
     (let reuse = qe_session_matches env source;
          w1 = stopTracking True w;
          w2 = (if reuse then w1 else log_call (StopServerSession ''abandoned'') w1);
          w3 = (clearAllQueueProgress w2)\<lparr>qw_pending_up_next := None\<rparr>;
          w4 = setQueue items (log_call (MirrorReplaceQueue (songsOnly items)) w3)
      in begin_listening env items (songsOnly items) (Some source) (po_resumeProgress opts)
           (\<lambda>entry w. if po_skipServerSession opts then w
              else if reuse then log_call (UpdateServerSessionItems items entry) w
              else log_call (CreateServerSession items source entry) w)
           (playMediaItem (items ! nat startIndex) w4))"

text \<open>Resuming at another song than the saved one starts it from its beginning.\<close>

definition adjust_resume :: "bool \<Rightarrow> media_item list \<Rightarrow> int \<Rightarrow> play_options \<Rightarrow> play_options" where
  "adjust_resume skippedOfflineStart finalItems startIndex opts =
     (case po_resumeProgress opts of
        Some p \<Rightarrow>
          if skippedOfflineStart
          then opts\<lparr>po_resumeProgress := Some (p\<lparr>
                 rp_current_song_index := int (length (songsOnly (js_slice 0 startIndex finalItems))),
                 rp_current_song_position := 0\<rparr>)\<rparr>
          else opts
      | None \<Rightarrow> opts)"

text \<open>\<open>playQueue\<close> once the items and the start are settled.\<close>

definition play_items ::
    "queue_env \<Rightarrow> media_item list \<Rightarrow> int \<Rightarrow> play_options \<Rightarrow> queue_world \<Rightarrow> queue_world" where
  "play_items env finalItems startIndex opts w =
     (let currentQueue = queue_of w;
          currentId = current_key w;
          w1 = sync_playlist (songsOnly finalItems) (po_source opts) w;
          limit = getQueueSizeLimit w
      in if currentQueue = [] then play_into_empty env finalItems startIndex opts w1
      else case (case po_source opts of
                   Some s \<Rightarrow> if sc_type s \<in> set REPLACE_SOURCE_TYPES then Some s else None
                 | None \<Rightarrow> None) of
        Some source \<Rightarrow>
          if qe_remote_active env \<and> qe_remote_queue env \<noteq> [] \<and> qe_replace_choice env = CancelReplace
          then w1
          else if qe_remote_active env \<and> qe_remote_queue env \<noteq> [] \<and> qe_replace_choice env = AppendToQueue
          then addToQueue env (map Inr finalItems)
                 \<lparr>ao_startPlaying = False, ao_position = AtEnd, ao_source = po_source opts\<rparr> w1
          else play_replacing env finalItems startIndex opts source w1
      | None \<Rightarrow>
          if length currentQueue + length finalItems \<le> limit
          then playQueueInternal env finalItems currentQueue currentId startIndex opts w1
          else case qe_full_choice env of
            CancelAdd \<Rightarrow> w1
          | ClearAll \<Rightarrow> play_replacing_full env finalItems startIndex opts w1
          | RemoveFromStart \<Rightarrow>
              (let removeCount = length currentQueue + length finalItems - limit
               in if removable_count currentQueue currentId < removeCount
                  then play_replacing_full env finalItems startIndex opts w1
                  else playQueueInternal env finalItems (drop removeCount currentQueue) currentId
                         startIndex opts w1))"

definition playQueue :: "queue_env \<Rightarrow> (song + media_item) list \<Rightarrow> play_options \<Rightarrow> queue_world \<Rightarrow> queue_world" where
  "playQueue env songs opts w =
     (if songs = [] then w
      else
        let unwrapped = prepareMediaItems songs;
            requested = nullish_or (po_startIndex opts) 0;
            startIndex = findAvailableMediaIndex unwrapped requested
        in if startIndex < 0
        then log_call (ToastError ''no available media at or after this position'') w
        else case play_window (getQueueSizeLimit w) unwrapped startIndex of (window, start) \<Rightarrow>
          let finalItems = mark_playlist (po_source opts) window
          in play_items env finalItems start
               (adjust_resume (startIndex \<noteq> requested) finalItems start opts) w)"

end
