(* ===== verification/QueueEdit.thy ===== *)
theory QueueEdit
  imports QueueOps
begin

text \<open>
  The editing operations of \<open>music/services/queue/queue.ts\<close>: removing, clearing above and below,
  reordering, clearing (with \<open>clearQueueState.ts\<close> and the handler radio uses), and resuming a history
  entry.
\<close>

definition clear_items_progress :: "media_item list \<Rightarrow> queue_world \<Rightarrow> queue_world" where
  "clear_items_progress items =
     fold (\<lambda>i w. if truthy (mediaItemQueueEntryId i)
                 then clearQueueItemProgress (the (mediaItemQueueEntryId i)) w else w) items"

text \<open>The songs of the active history entry and the session's items follow the queue.\<close>

definition sync_queue :: "media_item list \<Rightarrow> queue_world \<Rightarrow> queue_world" where
  "sync_queue newQueue w =
     log_call (UpdateServerSessionItems newQueue None)
       (if truthy (qw_active_entry w)
        then updateHistoryEntrySongs (the (qw_active_entry w)) (songsOnly newQueue) w else w)"

definition sync_or_stop :: "media_item list \<Rightarrow> queue_world \<Rightarrow> queue_world" where
  "sync_or_stop newQueue w =
     (if newQueue \<noteq> [] then sync_queue newQueue w
      else log_call (StopServerSession ''abandoned'') (stopTracking False w))"

definition playing_index :: "app_state \<Rightarrow> int" where
  "playing_index st = find_index (\<lambda>i. Some (mediaItemKey i) = as_current_item_key st) (as_queue st)"

text \<open>\<open>xs[i]\<close>, \<open>undefined\<close> out of range, and \<open>xs\<close> without position \<open>i\<close>.\<close>

definition js_at :: "'a list \<Rightarrow> int \<Rightarrow> 'a option" where
  "js_at xs i = (if 0 \<le> i \<and> i < int (length xs) then Some (xs ! nat i) else None)"

definition without_index :: "int \<Rightarrow> 'a list \<Rightarrow> 'a list" where
  "without_index i xs =
     (if 0 \<le> i \<and> i < int (length xs) then take (nat i) xs @ drop (Suc (nat i)) xs else xs)"

definition removeFromQueue :: "int \<Rightarrow> queue_world \<Rightarrow> queue_world" where
  "removeFromQueue index w =
     (case qw_app w of
        None \<Rightarrow> w
      | Some st \<Rightarrow>
          let w1 = log_call (MirrorRemoveFromQueue index (playing_index st)) w;
              removedItem = js_at (as_queue st) index;
              newQueue = without_index index (as_queue st);
              w2 = setQueue newQueue w1;
              entryId = Option.bind removedItem mediaItemQueueEntryId;
              w3 = (if truthy entryId then clearQueueItemProgress (the entryId) w2 else w2);
              removedKey = map_option mediaItemKey removedItem;
              w4 = (if truthy removedKey \<and> removedKey = as_current_item_key st
                    then setCurrentSong None (log_call StopPlayer w3) else w3);
              w5 = (if truthy removedKey \<and> removedKey = qw_pending_up_next w4
                    then w4\<lparr>qw_pending_up_next := None\<rparr> else w4)
          in sync_or_stop newQueue w5)"

definition clearSongsAbove :: "int \<Rightarrow> queue_world \<Rightarrow> queue_world" where
  "clearSongsAbove index w =
     (case qw_app w of
        None \<Rightarrow> w
      | Some st \<Rightarrow>
          if index \<le> 0 then w
          else
            let removedItems = js_slice 0 index (as_queue st);
                newQueue = js_slice_from index (as_queue st)
            in sync_or_stop newQueue (clear_items_progress removedItems (setQueue newQueue w)))"

definition clearSongsBelow :: "int \<Rightarrow> queue_world \<Rightarrow> queue_world" where
  "clearSongsBelow index w =
     (case qw_app w of
        None \<Rightarrow> w
      | Some st \<Rightarrow>
          if int (length (as_queue st)) - 1 \<le> index then w
          else
            let removedItems = js_slice_from (index + 1) (as_queue st);
                newQueue = js_slice 0 (index + 1) (as_queue st);
                w1 = setQueue newQueue w;
                pending = qw_pending_up_next w1;
                w2 = (if truthy pending \<and> list_ex (\<lambda>i. Some (mediaItemKey i) = pending) removedItems
                      then w1\<lparr>qw_pending_up_next := None\<rparr> else w1);
                w3 = clear_items_progress removedItems w2
            in if newQueue \<noteq> [] then sync_queue newQueue w3 else w3)"

text \<open>\<open>xs.splice(from, 1)\<close> and \<open>xs.splice(to, 0, x)\<close>.\<close>

definition splice_out :: "int \<Rightarrow> 'a list \<Rightarrow> 'a option \<times> 'a list" where
  "splice_out i xs =
     (let k = clamp_index (length xs) i in
      (if k < length xs then Some (xs ! k) else None, take k xs @ drop (Suc k) xs))"

definition splice_in :: "int \<Rightarrow> 'a \<Rightarrow> 'a list \<Rightarrow> 'a list" where
  "splice_in i x xs = (let k = clamp_index (length xs) i in take k xs @ x # drop k xs)"

text \<open>From an index past the end \<open>undefined\<close> is moved, on which \<open>setQueue\<close> throws.\<close>

definition reorderQueue :: "int \<Rightarrow> int \<Rightarrow> queue_world \<Rightarrow> unit js_result \<times> queue_world" where
  "reorderQueue fromIndex toIndex w =
     (case qw_app w of
        None \<Rightarrow> (Inr (), w)
      | Some st \<Rightarrow>
          let w1 = log_call (MirrorReorderQueue fromIndex toIndex (playing_index st)) w
          in case splice_out fromIndex (as_queue st) of
            (None, _) \<Rightarrow> (Inl (JsError ''undefined item''), w1)
          | (Some movedItem, rest) \<Rightarrow>
              let newQueue = splice_in toIndex movedItem rest
              in (Inr (), sync_queue newQueue (setQueue newQueue w1)))"

definition clearQueueState :: "string \<Rightarrow> queue_world \<Rightarrow> queue_world" where
  "clearQueueState reason w =
     (let w1 = log_call StopVideoTracking (stopTracking True w);
          w2 = (clearAllQueueProgress w1)\<lparr>qw_pending_up_next := None\<rparr>;
          w3 = log_call (StopServerSession reason) w2
      in setQueue [] (setCurrentSong None w3))"

text \<open>The handler registered for radio takeover: the same steps, the session abandoned.\<close>

definition stop_music :: "queue_world \<Rightarrow> queue_world" where
  "stop_music w = clearQueueState ''abandoned'' w"

definition clearQueue :: "string \<Rightarrow> queue_world \<Rightarrow> queue_world" where
  "clearQueue reason w =
     (let w1 = log_call StopPlayer w;
          w2 = (if reason = ''abandoned'' then log_call MirrorClearQueue w1 else w1);
          w3 = log_call ClearCurrentRadioStation (log_call LeaveRadio w2)
      in clearQueueState reason w3)"

definition resumeHistoryEntry :: "history_entry \<Rightarrow> queue_world \<Rightarrow> queue_world" where
  "resumeHistoryEntry entry w =
     (if he_songs entry = [] then w
      else
        let p = he_progress entry;
            requested = min (rp_current_song_index p) (int (length (he_songs entry)) - 1);
            items = map SongItem (he_songs entry);
            resumeIndex = findAvailableMediaIndex items requested
        in if resumeIndex < 0
        then log_call (ToastError ''no available media at or after the saved position'') w
        else
          let resumePosition = (if resumeIndex = requested then rp_current_song_position p else 0);
              w1 = log_call (PlaySong (he_songs entry ! nat resumeIndex)) (setQueue items w);
              w2 = (if 0 < resumePosition then log_call (SeekLater resumePosition) w1 else w1);
              w3 = resumeTracking (he_id entry)
                     (p\<lparr>rp_current_song_index := resumeIndex, rp_current_song_position := resumePosition\<rparr>) w2
          in if truthy (he_server_session_id entry) \<and> truthy (he_server_remote_id entry)
             then log_call (ReconnectServerSession entry) w3 else w3)"

end
