(* ===== verification/QueueHistoryProps.thy ===== *)
theory QueueHistoryProps
  imports QueueHistory
begin

text \<open>
  Queue history: the invariant that the signal is the store, newest first, and that every operation
  keeps it; the cap; and its exception.
\<close>

section \<open>Sorting and the store\<close>

lemma insort_key_map:
  "(\<And>x. k (g x) = k x) \<Longrightarrow> insort_key k (g x) (map g xs) = map g (insort_key k x xs)"
  by (induction xs) auto

lemma sort_key_map: "(\<And>x. k (g x) = k x) \<Longrightarrow> sort_key k (map g xs) = map g (sort_key k xs)"
proof (induction xs)
  case (Cons x xs)
  then show ?case using insort_key_map [of k g x "sort_key k xs"] by simp
qed simp

lemma idb_put_replace:
  assumes "idb_ok kf rs" "e \<in> set rs" "kf e' = kf e"
  shows "idb_put kf e' rs = map (\<lambda>x. if kf x = kf e then e' else x) rs"
  using assms
proof (induction rs)
  case (Cons x xs)
  have later: "kf xa \<noteq> kf x" if "xa \<in> set xs" for xa
    using Cons.prems(1) that by (auto simp: idb_ok_def)
  have ok: "idb_ok kf xs" using Cons.prems(1) by (simp add: idb_ok_def)
  show ?case
  proof (cases "e = x")
    case True
    then show ?thesis using later Cons.prems(3) by (auto intro!: map_idI [symmetric])
  next
    case False
    then have "e \<in> set xs" "kf x < kf e" using Cons.prems by (auto simp: idb_ok_def)
    then show ?thesis using Cons.IH [OF ok] Cons.prems(3) by auto
  qed
qed simp

lemma fold_delete: "fold (\<lambda>e. idb_delete kf (kf e)) old es = filter (\<lambda>e. kf e \<notin> kf ` set old) es"
  by (induction old arbitrary: es) (auto simp: idb_delete_def conj_commute)

lemma delete_entries_eq: "delete_entries old es = filter (\<lambda>e. he_id e \<notin> he_id ` set old) es"
  by (simp add: delete_entries_def fold_delete)

lemma idb_ok_filter: "idb_ok kf es \<Longrightarrow> idb_ok kf (filter P es)"
  by (auto simp: idb_ok_def sorted_wrt_map intro: sorted_wrt_filter)

section \<open>The invariant\<close>

definition history_ok :: "queue_world \<Rightarrow> bool" where
  "history_ok w = (idb_ok he_id (qw_history w) \<and> qw_history_signal w = newest_first (qw_history w))"

lemma ok_load: "idb_ok he_id (qw_history w) \<Longrightarrow> history_ok (loadQueueHistory w)"
  by (simp add: history_ok_def loadQueueHistory_def)

lemma ok_put_capped: "idb_ok he_id es \<Longrightarrow> idb_ok he_id (put_capped e es)"
  by (simp add: put_capped_def Let_def delete_entries_eq idb_ok_filter idb.ok_put)

lemma ok_add: "history_ok w \<Longrightarrow> history_ok (snd (addHistoryEntry n ss source resume w))"
  by (auto simp: addHistoryEntry_def draw_uuid_def Let_def history_ok_def intro!: ok_load [unfolded history_ok_def] ok_put_capped)

lemma ok_remove: "history_ok w \<Longrightarrow> history_ok (removeHistoryEntry k w)"
  by (auto simp: removeHistoryEntry_def history_ok_def intro!: ok_load [unfolded history_ok_def] idb.ok_del)

lemma ok_radio: "history_ok w \<Longrightarrow> history_ok (snd (addRadioStationHistoryEntry ref w))"
  by (auto simp: addRadioStationHistoryEntry_def draw_uuid_def history_ok_def split: option.split
      intro!: ok_load [unfolded history_ok_def] idb.ok_put)

lemma newest_first_patch:
  assumes "idb_ok he_id es" "e \<in> set es" "he_id e = k" "he_id e' = k" "he_queued_at e' = he_queued_at e"
    and "\<forall>x \<in> set es. he_id x = k \<longrightarrow> g x = e'"
  shows "newest_first (idb_put he_id e' es) = map (\<lambda>x. if he_id x = k then g x else x) (newest_first es)"
proof -
  let ?h = "\<lambda>x. if he_id x = k then e' else x"
  have only: "x = e" if "x \<in> set es" "he_id x = k" for x
    using that assms(1-3) idb.row_unique by metis
  define h where "h = (\<lambda>x. if x = e then e' else x)"
  have key: "he_queued_at (h x) = he_queued_at x" for x
    using assms(5) by (simp add: h_def)
  have "idb_put he_id e' es = map ?h es"
    using idb_put_replace [OF assms(1,2), of e'] assms(3,4) by simp
  also have "\<dots> = map h es"
  proof (rule map_cong [OF refl])
    fix x assume "x \<in> set es"
    then show "?h x = h x" using only [of x] assms(3) by (cases "x = e") (auto simp: h_def)
  qed
  finally have "newest_first (idb_put he_id e' es) = map h (newest_first es)"
    by (simp add: newest_first_def sort_key_map key)
  also have "\<dots> = map (\<lambda>x. if he_id x = k then g x else x) (newest_first es)"
  proof (rule map_cong [OF refl])
    fix x assume "x \<in> set (newest_first es)"
    then have "x \<in> set es" by (simp add: newest_first_def)
    then show "h x = (if he_id x = k then g x else x)"
      using only [of x] assms(3) bspec [OF assms(6,2)] by (cases "x = e") (auto simp: h_def)
  qed
  finally show ?thesis .
qed

lemma ok_patch:
  assumes "history_ok w" "\<And>e. he_id (f e) = he_id e" "\<And>e. he_queued_at (f e) = he_queued_at e"
  shows "history_ok (patch_entry k f w)"
proof (cases "idb_get he_id k (qw_history w)")
  case None
  then show ?thesis using assms(1) by (simp add: patch_entry_def)
next
  case (Some e)
  have ok: "idb_ok he_id (qw_history w)" using assms(1) by (simp add: history_ok_def)
  have e: "e \<in> set (qw_history w)" "he_id e = k" using Some by (simp_all add: idb_get_Some_iff [OF ok])
  have "x = e" if "x \<in> set (qw_history w)" "he_id x = k" for x
    using that e idb.row_unique [OF ok] by metis
  then have "newest_first (idb_put he_id (f e) (qw_history w))
      = map (\<lambda>x. if he_id x = k then f x else x) (newest_first (qw_history w))"
    using newest_first_patch [OF ok e, of "f e" f] assms(2,3) e(2) by auto
  then show ?thesis
    using Some assms(1) by (simp add: patch_entry_def history_ok_def idb.ok_put)
qed

lemma ok_songs: "history_ok w \<Longrightarrow> history_ok (updateHistoryEntrySongs k ss w)"
proof (cases "idb_get he_id k (qw_history w)")
  case None
  then show "history_ok w \<Longrightarrow> ?thesis" by (simp add: updateHistoryEntrySongs_def)
next
  case (Some e)
  assume w: "history_ok w"
  have ok: "idb_ok he_id (qw_history w)" using w by (simp add: history_ok_def)
  have e: "e \<in> set (qw_history w)" "he_id e = k" using Some by (simp_all add: idb_get_Some_iff [OF ok])
  let ?e' = "entry_with_songs ss e"
  let ?g = "\<lambda>x. x\<lparr>he_songs := he_songs ?e', he_song_count := he_song_count ?e',
      he_label := he_label ?e', he_total_seconds := he_total_seconds ?e'\<rparr>"
  have "x = e" if "x \<in> set (qw_history w)" "he_id x = k" for x
    using that e idb.row_unique [OF ok] by metis
  then have "newest_first (idb_put he_id ?e' (qw_history w))
      = map (\<lambda>x. if he_id x = k then ?g x else x) (newest_first (qw_history w))"
    using e(2) by (intro newest_first_patch [OF ok e]) (auto simp: entry_with_songs_def)
  then show ?thesis
    using Some w by (simp add: updateHistoryEntrySongs_def Let_def history_ok_def idb.ok_put)
qed

section \<open>The cap\<close>

lemma over_cap_set: "set (over_cap es) \<subseteq> set es"
  by (auto simp: over_cap_def dest: in_set_takeD)

lemma over_cap_kept:
  assumes "idb_ok he_id es"
  shows "set (delete_entries (over_cap es) es) = set es - set (over_cap es)"
proof -
  have "he_id x \<in> he_id ` set (over_cap es) \<longleftrightarrow> x \<in> set (over_cap es)" if "x \<in> set es" for x
    using that over_cap_set idb.row_unique [OF assms] by (auto simp: image_iff)
  then show ?thesis by (auto simp: delete_entries_eq)
qed

lemma over_cap_length:
  assumes "idb_ok he_id es"
  shows "length (delete_entries (over_cap es) es) = min (length es) MAX_HISTORY_ENTRIES"
proof -
  have d: "distinct es" by (rule idb.distinct_rows [OF assms])
  have oc: "distinct (over_cap es)" using d by (simp add: over_cap_def)
  have "distinct (delete_entries (over_cap es) es)"
    by (rule idb.distinct_rows [of he_id]) (simp add: delete_entries_eq idb_ok_filter assms)
  then have "length (delete_entries (over_cap es) es) = card (set es - set (over_cap es))"
    using over_cap_kept [OF assms] by (metis distinct_card)
  also have "\<dots> = length es - length (over_cap es)"
    using over_cap_set d oc by (simp add: card_Diff_subset distinct_card)
  finally show ?thesis by (auto simp: over_cap_def)
qed

lemma sorted_take_drop:
  assumes "sorted (map k xs)" "a \<in> set (take n xs)" "b \<in> set (drop n xs)"
  shows "k a \<le> k b"
proof -
  have "sorted (map k (take n xs @ drop n xs))" using assms(1) by simp
  then show ?thesis using assms(2,3) by (fastforce simp: sorted_append simp del: append_take_drop_id)
qed

lemma over_cap_oldest:
  assumes "idb_ok he_id es" "old \<in> set (over_cap es)" "new \<in> set es - set (over_cap es)"
  shows "he_queued_at old \<le> he_queued_at new"
proof -
  let ?n = "length es - MAX_HISTORY_ENTRIES"
  have oc: "over_cap es = take ?n (sort_key he_queued_at es)"
    using assms(2) by (auto simp: over_cap_def split: if_splits)
  have "new \<in> set (sort_key he_queued_at es)" using assms(3) by simp
  then have "new \<in> set (take ?n (sort_key he_queued_at es)) \<union> set (drop ?n (sort_key he_queued_at es))"
    by (metis append_take_drop_id set_append)
  then show ?thesis
    using assms(2,3) sorted_take_drop [of he_queued_at "sort_key he_queued_at es" old ?n new] by (auto simp: oc)
qed

section \<open>Properties\<close>

text \<open>The history signal is the stored entries, newest first, after every operation of the history
  service: adding (with the cap), removing, updating progress, songs or server session, clearing and
  bookmarking a station.\<close>

theorem qh_signal_mirrors_store:
  assumes "history_ok w"
  shows "history_ok (loadQueueHistory w)
    \<and> history_ok (snd (addHistoryEntry n ss source resume w))
    \<and> history_ok (removeHistoryEntry k w)
    \<and> history_ok (updateHistoryProgress k up w)
    \<and> history_ok (updateHistoryEntrySongs k ss w)
    \<and> history_ok (updateHistoryServerSession k a b w)
    \<and> history_ok (clearHistoryServerSession k w)
    \<and> history_ok (clearQueueHistory w)
    \<and> history_ok (snd (addRadioStationHistoryEntry ref w))"
proof -
  have "history_ok (loadQueueHistory w)"
    by (rule ok_load) (use assms in \<open>simp add: history_ok_def\<close>)
  moreover have "history_ok (clearQueueHistory w)"
    by (simp add: clearQueueHistory_def history_ok_def newest_first_def)
  ultimately show ?thesis
    using assms
    by (simp add: ok_add ok_remove ok_songs ok_radio ok_patch updateHistoryProgress_def
      updateHistoryServerSession_def clearHistoryServerSession_def)
qed

definition as :: "nat \<Rightarrow> string" where "as n = replicate n (CHR ''a'')"

lemma as_less: "m < n \<Longrightarrow> as m < as n"
proof (induction m arbitrary: n)
  case 0
  then show ?case by (cases n) (simp_all add: as_def)
next
  case (Suc m)
  then show ?case by (cases n) (simp_all add: as_def)
qed

definition station0 :: radio_station_ref where
  "station0 = \<lparr>rr_peer_addr = ''p'', rr_station_id = None, rr_station_name = ''fm''\<rparr>"

definition source0 :: source_context where
  "source0 = \<lparr>sc_type = ''album'', sc_label = ''l'', sc_entity_id = Some ''e'', sc_image = None\<rparr>"

text \<open>A full store of \<open>n\<close> entries, with longer identifiers still to be drawn.\<close>

definition full_store :: "nat \<Rightarrow> history_entry list" where
  "full_store n = map (\<lambda>i. new_entry None (as i) [] source0 None (int i)) [0..<n]"

definition full_world :: "nat \<Rightarrow> queue_world" where
  "full_world n = loadQueueHistory (initial_world (\<lambda>i. as (n + i)) (full_store n))"

lemma new_entry_fields [simp]:
  "he_id (new_entry r k ss s p t) = k" "he_queued_at (new_entry r k ss s p t) = t"
  "he_type (new_entry r k ss s p t) = sc_type s"
  by (simp_all add: new_entry_def)

lemma full_store_ok: "idb_ok he_id (full_store n)"
  by (auto simp: idb_ok_def full_store_def sorted_wrt_map as_less sorted_wrt_iff_nth_less)

lemma full_world_ok: "history_ok (full_world n)"
  unfolding full_world_def by (rule ok_load) (simp add: initial_world_def full_store_ok)

lemma qh_signal_mirrors_store_witness:
  "history_ok (snd (addHistoryEntry None [] source0 None (full_world 2)))
   \<and> history_ok (snd (addRadioStationHistoryEntry station0 (full_world 2)))"
  using qh_signal_mirrors_store [OF full_world_ok [of 2]] by simp

text \<open>Adding an entry keeps the store at the cap: exactly the entries beyond a thousand are dropped, and
  every dropped entry is at most as new as every kept one.\<close>

theorem qh_cap:
  assumes "history_ok w" "ss \<noteq> []"
  shows "\<exists>k e. addHistoryEntry n ss source resume w = (Some k, snd (addHistoryEntry n ss source resume w))
    \<and> he_id e = k \<and> he_songs e = ss
    \<and> (let before = insert e {x \<in> set (qw_history w). he_id x \<noteq> k};
           after = qw_history (snd (addHistoryEntry n ss source resume w))
       in set after \<subseteq> before \<and> distinct after \<and> length after = min (card before) 1000
        \<and> (\<forall>old \<in> before - set after. \<forall>new \<in> set after. he_queued_at old \<le> he_queued_at new))"
proof -
  let ?k = "qw_uuids w (qw_drawn w)"
  let ?e = "new_entry n ?k ss source resume (qw_clock w)"
  let ?es = "idb_put he_id ?e (qw_history w)"
  let ?after = "qw_history (snd (addHistoryEntry n ss source resume w))"
  have ok: "idb_ok he_id (qw_history w)" "idb_ok he_id ?es"
    using assms(1) by (simp_all add: history_ok_def idb.ok_put)
  have res: "addHistoryEntry n ss source resume w = (Some ?k, snd (addHistoryEntry n ss source resume w))"
    using assms(2) by (simp add: addHistoryEntry_def draw_uuid_def Let_def)
  have after: "?after = delete_entries (over_cap ?es) ?es"
    using assms(2)
    by (simp add: addHistoryEntry_def draw_uuid_def Let_def loadQueueHistory_def put_capped_def)
  have before: "set ?es = insert ?e {x \<in> set (qw_history w). he_id x \<noteq> ?k}"
    by (simp add: set_idb_put [OF ok(1)])
  have card: "card (set ?es) = length ?es"
    by (rule distinct_card [OF idb.distinct_rows [OF ok(2)]])
  have kept: "set ?after = set ?es - set (over_cap ?es)" by (simp add: after over_cap_kept [OF ok(2)])
  have "set ?after \<subseteq> set ?es \<and> distinct ?after \<and> length ?after = min (card (set ?es)) 1000
      \<and> (\<forall>old \<in> set ?es - set ?after. \<forall>new \<in> set ?after. he_queued_at old \<le> he_queued_at new)"
  proof (intro conjI ballI)
    show "distinct ?after"
      by (rule idb.distinct_rows [of he_id]) (simp add: after delete_entries_eq idb_ok_filter ok)
    show "length ?after = min (card (set ?es)) 1000"
      by (simp add: after over_cap_length [OF ok(2)] card MAX_HISTORY_ENTRIES_def)
  qed (use kept over_cap_oldest [OF ok(2)] in auto)
  then show ?thesis
    using res unfolding before Let_def
    by (intro exI [of _ ?k] exI [of _ ?e]) (simp add: new_entry_def)
qed

definition song0 :: song where
  "song0 = \<lparr>sg_id = ''1'', sg_sha256 = ''s'', sg_blake3 = None, sg_media_blob_id = None, sg_title = ''t'',
     sg_artist_id = ''a'', sg_artist_name = ''A'', sg_album_id = ''b'', sg_album_title = ''B'',
     sg_duration_seconds = 100, sg_images = [], sg_album_images = [], sg_artist_images = [],
     sg_is_offline = None, sg_skip_feed_events = False, sg_source_type = ''local'',
     sg_remote_server_id = None, sg_queue_entry_id = None, sg_queue_max_progress = None\<rparr>"

lemma qh_cap_witness: "\<exists>k. fst (addHistoryEntry None [song0] source0 None (full_world 1000)) = Some k"
  using qh_cap [OF full_world_ok, of "[song0]" None source0 None 1000] by (metis fst_conv list.distinct(1))

text \<open>The cap does not hold for station bookmarks: adding one to a full store leaves a thousand and one
  entries.\<close>

theorem qh_radio_over_cap:
  assumes "history_ok w" "length (qw_history w) = 1000"
    and "\<forall>e \<in> set (qw_history w). \<not> same_station ref e \<and> he_id e \<noteq> qw_uuids w (qw_drawn w)"
  shows "length (qw_history (snd (addRadioStationHistoryEntry ref w))) = 1001"
proof -
  let ?e = "radio_entry (qw_uuids w (qw_drawn w)) ref (qw_clock w)"
  have ok: "idb_ok he_id (qw_history w)" using assms(1) by (simp add: history_ok_def)
  have "idb_get he_id (he_id ?e) (qw_history w) = None"
    using assms(3) by (simp add: idb_get_def find_None_iff_all radio_entry_def)
  then have "length (idb_put he_id ?e (qw_history w)) = 1001"
    using idb.length_put_new [OF ok] assms(2) by simp
  moreover have "List.find (same_station ref) (qw_history w) = None"
    using assms(3) by (simp add: find_None_iff_all)
  ultimately show ?thesis
    by (simp add: addRadioStationHistoryEntry_def draw_uuid_def loadQueueHistory_def)
qed

lemma qh_radio_over_cap_witness:
  "length (qw_history (snd (addRadioStationHistoryEntry station0 (full_world 1000)))) = 1001"
proof (rule qh_radio_over_cap [OF full_world_ok])
  have "as i \<noteq> as 1000" if "i < 1000" for i using as_less [OF that] by auto
  then show "\<forall>e \<in> set (qw_history (full_world 1000)). \<not> same_station station0 e
      \<and> he_id e \<noteq> qw_uuids (full_world 1000) (qw_drawn (full_world 1000))"
    by (auto simp: full_world_def initial_world_def loadQueueHistory_def full_store_def same_station_def
        source0_def)
qed (simp add: full_world_def initial_world_def loadQueueHistory_def full_store_def)

end
