(* ===== verification/QueueProps.thy ===== *)
theory QueueProps
  imports QueueEdit QueueHistoryProps "HOL-Library.Multiset"
begin

text \<open>
  The properties of the queue: what a queue write guarantees, the size limit, what is played, the
  insertion and removal of items, clearing, progress, and where the code departs from its comments.
\<close>

section \<open>Preparing items\<close>

lemma deal_items_eq: "deal_items items (songsOnly items) (videosOnly items) = items"
proof (induction items)
  case (Cons i items)
  then show ?case by (cases i) simp_all
qed simp

lemma unwrapMediaItems_id [simp]: "unwrapMediaItems items = items"
  by (simp add: unwrapMediaItems_def deal_items_eq)

lemma skip_feed_item_simps [simp]:
  "mediaItemKey (skip_feed_item i) = mediaItemKey i" "isMediaItemOffline (skip_feed_item i) = isMediaItemOffline i"
  by (cases i; simp add: songIdentityKey_def)+

lemma mark_playlist_length [simp]: "length (mark_playlist s items) = length items"
  by (simp add: mark_playlist_def split: option.split)

lemma mark_playlist_nth:
  "i < length items \<Longrightarrow> mediaItemKey (mark_playlist s items ! i) = mediaItemKey (items ! i)
     \<and> isMediaItemOffline (mark_playlist s items ! i) = isMediaItemOffline (items ! i)"
  by (simp add: mark_playlist_def split: option.split)

lemma play_window_start:
  assumes "0 \<le> start" "start < int (length items)" "0 < limit" "play_window limit items start = (win, s)"
  shows "length win = min (length items) limit \<and> 0 \<le> s \<and> s < int (length win) \<and> win ! nat s = items ! nat start"
proof (cases "length items \<le> limit \<or> start < int limit")
  case True
  then show ?thesis using assms by (auto simp: play_window_def split: if_splits)
next
  case False
  define adj where "adj = max 0 (min (start - int (limit div 2)) (int (length items) - int limit))"
  have ge: "0 \<le> adj" "adj \<le> start" "start < adj + int limit" "adj + int limit \<le> int (length items)"
    using False assms(1-3) by (auto simp: adj_def min_def max_def zdiv_int)
  have e: "win = js_slice adj (adj + int limit) items" "s = start - adj"
    using False assms(4) by (auto simp: play_window_def Let_def adj_def)
  have w: "win = take limit (drop (nat adj) items)"
    using ge(1) by (simp add: e js_slice_nonneg nat_add_distrib)
  moreover have "nat adj + nat (start - adj) = nat start" "nat (start - adj) < limit"
    using ge by linarith+
  ultimately show ?thesis using ge assms(2) False by (simp add: e(2)) linarith
qed

lemma play_window_take:
  assumes "0 \<le> start" "0 < limit" "play_window limit items start = (win, s)"
  shows "start < int (length items) \<Longrightarrow> \<exists>n. win = take limit (drop n items)"
proof (cases "length items \<le> limit \<or> start < int limit")
  case True
  then have "win = take limit (drop 0 items)" using assms(3) by (auto simp: play_window_def split: if_splits)
  then show ?thesis by blast
next
  case False
  define adj where "adj = max 0 (min (start - int (limit div 2)) (int (length items) - int limit))"
  have "0 \<le> adj" by (simp add: adj_def)
  moreover have "win = js_slice adj (adj + int limit) items"
    using False assms(3) by (auto simp: play_window_def Let_def adj_def)
  ultimately have "win = take limit (drop (nat adj) items)" by (simp add: js_slice_nonneg nat_add_distrib)
  then show ?thesis by blast
qed

lemma add_window_available:
  assumes "0 \<le> a" "a < int (length items)" "\<not> isMediaItemOffline (items ! nat a)" "0 < limit"
  shows "length (add_window limit items a) \<le> limit
    \<and> 0 \<le> findAvailableMediaIndex (add_window limit items a) 0"
proof -
  define start where "start = (if a < int limit then 0 else a)"
  have cases: "add_window limit items a = items \<and> length items \<le> limit
      \<or> add_window limit items a = take limit (drop (nat start) items)"
    using assms(1) by (auto simp: add_window_def start_def Let_def js_slice_nonneg nat_add_distrib)
  define b where "b = (if add_window limit items a = items \<and> length items \<le> limit then a else a - start)"
  have "0 \<le> b \<and> b < int (length (add_window limit items a))
      \<and> add_window limit items a ! nat b = items ! nat a"
    using cases assms(1,2,4) by (auto simp: b_def start_def nat_diff_distrib)
  then have "\<not> findAvailableMediaIndex (add_window limit items a) 0 < 0"
    using assms(3) findAvailable_neg_iff [of 0 "add_window limit items a"] by auto
  then show ?thesis using cases by auto
qed

section \<open>Frames\<close>

definition queue_keys :: "queue_world \<Rightarrow> string list" where
  "queue_keys w = map mediaItemKey (queue_of w)"

lemma queue_keys_simps [simp]:
  "queue_keys (log_call c w) = queue_keys w" "queue_keys (setQueue is w) = map mediaItemKey is"
  "queue_keys (w\<lparr>qw_pending_up_next := p\<rparr>) = queue_keys w"
  by (simp_all add: queue_keys_def)

lemma queue_keys_cong: "qw_app w = qw_app w' \<Longrightarrow> queue_keys w = queue_keys w'"
  by (simp add: queue_keys_def queue_of_def)

lemma item_progress_key [simp]: "mediaItemKey (item_progress m i) = mediaItemKey i"
  by (simp add: item_progress_def split: option.split)

lemma queue_keys_save [simp]: "queue_keys (saveProgressToIDB w) = queue_keys w"
proof (cases "qw_app w")
  case (Some st)
  then have "queue_keys w = map mediaItemKey (as_queue st)"
    by (simp add: queue_keys_def queue_of_def)
  with Some show ?thesis by (simp add: saveProgressToIDB_def comp_def)
qed (simp add: saveProgressToIDB_def)

lemma queue_keys_updateHistory [simp]:
  "queue_keys (updateHistoryProgress k p w) = queue_keys w" "queue_keys (updateHistoryEntrySongs k ss w) = queue_keys w"
  "qw_limit (updateHistoryEntrySongs k ss w) = qw_limit w"
  "qw_calls (updateHistoryEntrySongs k ss w) = qw_calls w"
  by (auto intro!: queue_keys_cong simp: updateHistoryEntrySongs_def Let_def split: option.split)

text \<open>What the player was asked to play.\<close>

fun played_call :: "service_call \<Rightarrow> media_item list" where
  "played_call (PlayMediaItem i) = [i]"
| "played_call _ = []"

definition played :: "queue_world \<Rightarrow> media_item list" where
  "played w = concat (map played_call (qw_calls w))"

lemma played_log [simp]: "played (log_call c w) = played w @ played_call c"
  by (simp add: played_def)

lemma played_cong: "qw_calls w = qw_calls w' \<Longrightarrow> played w = played w'"
  by (simp add: played_def)

lemma played_update [simp]:
  "played (w\<lparr>qw_pending_up_next := p\<rparr>) = played w" "played (w\<lparr>qw_drawn := n\<rparr>) = played w"
  "played (updateAppState f w) = played w" "played (setCurrentSong k w) = played w"
  by (simp_all add: played_def)

lemma played_purge_media: "concat (map played_call (purge_media_calls i)) = []"
  by (auto simp: purge_media_calls_def split: option.split)

lemma played_purge [simp]: "played (purgeDepartedMedia is rem w) = played w"
proof -
  have "concat (map played_call (concat (map purge_media_calls xs))) = []" for xs
    using played_purge_media by (induction xs) auto
  moreover have "concat (map played_call (concat (map purge_image_calls rs))) = []" for rs
    by (induction rs) (simp_all add: purge_image_calls_def)
  ultimately show ?thesis
    by (simp add: played_def purgeDepartedMedia_def del: concat_eq_Nil_conv map_concat)
qed

lemma played_setQueue [simp]: "played (setQueue is w) = played w"
  by (simp add: setQueue_def Let_def notifyQueueDepartures_def stop_departed_def)

lemma played_save [simp]: "played (saveProgressToIDB w) = played w"
  by (simp add: saveProgressToIDB_def split: option.split)

lemma played_history [simp]:
  "played (updateHistoryEntrySongs k ss w) = played w" "played (updateHistoryProgress k p w) = played w"
  by (simp_all add: played_def)

text \<open>Tracking changes neither the queue's keys nor what is played.\<close>

lemma flush_end_keep [simp]:
  "queue_keys (flush_end e skip w) = queue_keys w" "played (flush_end e skip w) = played w"
  by (simp_all add: flush_end_def)

lemma flush_begin_keep [simp]:
  "queue_keys (snd (flush_begin f w)) = queue_keys w" "played (snd (flush_begin f w)) = played w"
  by (simp_all add: flush_begin_def)

lemma set_tracker_keep [simp]:
  "queue_keys (set_tracker e p t w) = queue_keys w" "played (set_tracker e p t w) = played w"
  by (simp_all add: set_tracker_def queue_keys_def queue_of_def played_def)

lemma tracking_keep [simp]:
  "queue_keys (startTracking k w) = queue_keys w" "played (startTracking k w) = played w"
  "queue_keys (resumeTracking k p w) = queue_keys w" "played (resumeTracking k p w) = played w"
  "queue_keys (stopTracking s w) = queue_keys w" "played (stopTracking s w) = played w"
  by (simp_all add: startTracking_def resumeTracking_def stopTracking_def case_prod_beta)

lemma addHistoryEntry_keep [simp]:
  "queue_keys (snd (addHistoryEntry n ss source r w)) = queue_keys w"
  "played (snd (addHistoryEntry n ss source r w)) = played w"
  by (simp_all add: addHistoryEntry_def draw_uuid_def Let_def loadQueueHistory_def queue_keys_def
      queue_of_def played_def)

lemma begin_listening_keep:
  assumes "\<And>e v. queue_keys (session e v) = queue_keys v" "\<And>e v. played (session e v) = played v"
  shows "queue_keys (begin_listening env items ss source resume session w) = queue_keys w"
    and "played (begin_listening env items ss source resume session w) = played w"
  by (simp_all add: begin_listening_def add_and_track_def case_prod_beta assms split: option.split)

lemma create_session_keep [simp]:
  "queue_keys (create_session skip items s e w) = queue_keys w" "played (create_session skip items s e w) = played w"
  by (simp_all add: create_session_def split: option.split)

lemma sync_playlist_keep [simp]:
  "queue_keys (sync_playlist ss s w) = queue_keys w" "played (sync_playlist ss s w) = played w"
  "qw_limit (sync_playlist ss s w) = qw_limit w" "queue_of (sync_playlist ss s w) = queue_of w"
  "current_key (sync_playlist ss s w) = current_key w" "qw_app (sync_playlist ss s w) = qw_app w"
  by (simp_all add: sync_playlist_def split: option.split)

section \<open>Insertion\<close>

lemma mset_insert_after_current: "mset (insert_after_current items q k) = mset items + mset q"
proof -
  have "mset (take n q) + mset (drop n q) = mset q" for n by (metis append_take_drop_id mset_append)
  then show ?thesis
    using find_index_ge [of "\<lambda>i. mediaItemKey i = the k" q]
    by (auto simp: insert_after_current_def Let_def add.assoc add.left_commute)
qed

lemma length_insert_after_current [simp]:
  "length (insert_after_current items q k) = length items + length q"
  using arg_cong [OF mset_insert_after_current, of size] by simp

lemma set_insert_after_current [simp]: "set (insert_after_current items q k) = set items \<union> set q"
  using arg_cong [OF mset_insert_after_current, of set_mset] by simp

lemma playQueueInternal_keep:
  "queue_keys (playQueueInternal env items q k s opts w) = map mediaItemKey (insert_after_current items q k)"
  "played (playQueueInternal env items q k s opts w) = played w @ [items ! nat s]"
  by (simp_all add: playQueueInternal_def Let_def playMediaItem_def begin_listening_keep split: option.split)

definition added_queue :: "add_position \<Rightarrow> media_item list \<Rightarrow> media_item list \<Rightarrow> string option \<Rightarrow> media_item list" where
  "added_queue position items q k =
     (case position of AsNext \<Rightarrow> if q = [] then items @ q else insert_after_current items q k
      | AtEnd \<Rightarrow> q @ items)"

lemma added_queue_simps [simp]:
  "length (added_queue position items q k) = length items + length q"
  "set (added_queue position items q k) = set items \<union> set q"
  by (auto simp: added_queue_def split: add_position.split)

lemma addToQueueInternal_keep:
  "queue_keys (addToQueueInternal env items q k start position source w)
     = map mediaItemKey (added_queue position items q k)"
  "played (addToQueueInternal env items q k start position source w) = played w @
     (if will_auto_play start k w then [items ! nat (findAvailableMediaIndex items 0)] else [])"
  by (simp_all add: addToQueueInternal_def added_queue_def Let_def playMediaItem_def begin_listening_keep
      will_auto_play_def hasPlaybackEnded_def split: option.split)
     auto

lemma add_replacing_keep:
  "queue_keys (add_replacing env items k opts w) = map mediaItemKey items"
  "played (add_replacing env items k opts w) = played w @
     (if will_auto_play (ao_startPlaying opts) k w then [items ! nat (findAvailableMediaIndex items 0)] else [])"
  by (simp_all add: add_replacing_def Let_def playMediaItem_def begin_listening_keep will_auto_play_def
      hasPlaybackEnded_def)

lemma play_branches_keep:
  "queue_keys (play_replacing_full env items s opts w) = map mediaItemKey items"
  "played (play_replacing_full env items s opts w) = played w @ [items ! nat s]"
  "queue_keys (play_into_empty env items s opts w) = map mediaItemKey items"
  "played (play_into_empty env items s opts w) = played w @ [items ! nat s]"
  by (simp_all add: play_replacing_full_def play_into_empty_def playMediaItem_def begin_listening_keep)

lemma queue_keys_clear [simp]:
  "queue_keys (clearAllQueueProgress w) = queue_keys w" "played (clearAllQueueProgress w) = played w"
  by (simp_all add: clearAllQueueProgress_def queue_keys_def queue_of_def played_def)

lemma play_replacing_keep:
  "queue_keys (play_replacing env items s opts source w) = map mediaItemKey items"
  "played (play_replacing env items s opts source w) = played w @ [items ! nat s]"
  by (simp_all add: play_replacing_def Let_def playMediaItem_def begin_listening_keep)

section \<open>The limit and what is played\<close>

text \<open>An outcome of a queue operation: the queue fits the limit, and everything played is available
  media of the queue.\<close>

definition outcome_ok :: "nat \<Rightarrow> queue_world \<Rightarrow> queue_world \<Rightarrow> bool" where
  "outcome_ok limit w w' =
     (length (queue_keys w') \<le> limit
      \<and> (played w' = played w
         \<or> (\<exists>i. played w' = played w @ [i] \<and> \<not> isMediaItemOffline i \<and> mediaItemKey i \<in> set (queue_keys w'))))"

lemma outcome_refl: "length (queue_of w) \<le> limit \<Longrightarrow> outcome_ok limit w w"
  by (simp add: outcome_ok_def queue_keys_def)

lemma outcome_plays:
  assumes "length (queue_keys w') \<le> limit" "set items \<subseteq> set q" "queue_keys w' = map mediaItemKey q"
    and "played w' = played w @ (if b then [items ! nat s] else [])"
    and "0 \<le> s" "s < int (length items)" "\<not> isMediaItemOffline (items ! nat s)"
  shows "outcome_ok limit w w'"
proof -
  have "items ! nat s \<in> set q" using assms(2,5,6) by (metis nat_less_iff nth_mem subsetD)
  then show ?thesis using assms by (auto simp: outcome_ok_def)
qed

lemma findAvailable_zero:
  "0 \<le> findAvailableMediaIndex items 0 \<Longrightarrow>
     findAvailableMediaIndex items 0 < int (length items)
     \<and> \<not> isMediaItemOffline (items ! nat (findAvailableMediaIndex items 0))"
  using findAvailable_spec [of 0 items] by simp

lemma findAvailable_mark [simp]:
  "findAvailableMediaIndex (mark_playlist s items) i = findAvailableMediaIndex items i"
proof -
  have "available_up (mark_playlist s items) i = available_up items i"
    by (induction items i rule: available_up.induct)
       (subst (1 2) available_up.simps, auto simp: mark_playlist_nth nat_less_iff)
  then show ?thesis by (simp add: findAvailableMediaIndex_def)
qed

lemma addToQueue_outcome:
  assumes "0 < qw_limit w" "length (queue_of w) \<le> qw_limit w"
  shows "outcome_ok (qw_limit w) w (addToQueue env songs opts w)"
proof -
  let ?items = "prepareMediaItems songs" and ?a = "findAvailableMediaIndex (prepareMediaItems songs) 0"
  let ?final = "mark_playlist (ao_source opts) (add_window (qw_limit w) ?items ?a)"
  let ?w1 = "sync_playlist (songsOnly ?final) (ao_source opts) w"
  consider "songs = []" | "songs \<noteq> []" "?a < 0" | "songs \<noteq> []" "0 \<le> ?a" by linarith
  then show ?thesis
  proof cases
    case 3
    note a = findAvailable_zero [OF 3(2)]
    have final: "length ?final \<le> qw_limit w" "0 \<le> findAvailableMediaIndex ?final 0"
      using add_window_available [of ?a ?items "qw_limit w"] a 3(2) assms(1) by simp_all
    note f = findAvailable_zero [OF final(2)]
    have add: "outcome_ok (qw_limit w) w (addToQueueInternal env ?final q k start position source ?w1)"
      if "length q + length ?final \<le> qw_limit w" for q k start position source
      using that final f
      by (intro outcome_plays [where items = ?final and q = "added_queue position ?final q k"
            and b = "will_auto_play start k ?w1" and s = "findAvailableMediaIndex ?final 0"])
         (simp_all add: addToQueueInternal_keep)
    have repl: "outcome_ok (qw_limit w) w (add_replacing env ?final k opts ?w1)" for k
      using final f
      by (intro outcome_plays [where items = ?final and q = ?final
            and b = "will_auto_play (ao_startPlaying opts) k ?w1" and s = "findAvailableMediaIndex ?final 0"])
         (simp_all add: add_replacing_keep)
    have cancel: "outcome_ok (qw_limit w) w ?w1"
      using assms(2) by (simp add: outcome_ok_def queue_keys_def)
    have "length (drop (length q + length ?final - qw_limit w) q) + length ?final \<le> qw_limit w" for q :: "media_item list"
      using final(1) by simp
    note trimmed = add [OF this]
    show ?thesis
      using 3 add trimmed repl cancel
      by (simp add: addToQueue_def Let_def getQueueSizeLimit_def split: queue_full_choice.split)
  qed (use assms(2) in \<open>simp_all add: addToQueue_def Let_def outcome_ok_def queue_keys_def\<close>)
qed

lemma play_items_outcome:
  assumes "0 < qw_limit w" "length (queue_of w) \<le> qw_limit w"
    and "length items \<le> qw_limit w" "0 \<le> s" "s < int (length items)" "\<not> isMediaItemOffline (items ! nat s)"
  shows "outcome_ok (qw_limit w) w (play_items env items s opts w)"
proof -
  let ?w1 = "sync_playlist (songsOnly items) (po_source opts) w"
  have plain: "outcome_ok (qw_limit w) w (f ?w1)"
    if "queue_keys (f ?w1) = map mediaItemKey items" "played (f ?w1) = played ?w1 @ [items ! nat s]" for f
    using that assms(3-6)
    by (intro outcome_plays [where items = items and q = items and b = True and s = s]) simp_all
  have internal: "outcome_ok (qw_limit w) w (playQueueInternal env items q k s opts ?w1)"
    if "length q + length items \<le> qw_limit w" for q k
    using that assms(4-6)
    by (intro outcome_plays [where items = items and q = "insert_after_current items q k"
          and b = True and s = s]) (simp_all add: playQueueInternal_keep)
  have "length (drop (length q + length items - qw_limit w) q) + length items \<le> qw_limit w" for q :: "media_item list"
    using assms(3) by simp
  note trimmed = internal [OF this]
  have append: "outcome_ok (qw_limit w) w (addToQueue env songs aopts ?w1)" for songs aopts
    using addToQueue_outcome [of ?w1 env songs aopts] assms(1,2) by (simp add: outcome_ok_def)
  have cancel: "outcome_ok (qw_limit w) w ?w1"
    using assms(2) by (simp add: outcome_ok_def queue_keys_def)
  show ?thesis
    using plain [of "play_into_empty env items s opts"] plain [of "play_replacing_full env items s opts"]
      plain [of "play_replacing env items s opts _"] internal trimmed append cancel
    unfolding play_items_def
    by (simp add: Let_def getQueueSizeLimit_def play_branches_keep play_replacing_keep
        split: queue_full_choice.split option.split)
qed

text \<open>C8: Playing or adding media never leaves more than the size limit in the queue, whatever the user answers
  to the full-queue and replace dialogs, and at most one item is played, which is not offline and is
  in the queue.\<close>

theorem q_limit_and_available:
  assumes "0 < qw_limit w" "length (queue_of w) \<le> qw_limit w" "0 \<le> nullish_or (po_startIndex opts) 0"
  shows "outcome_ok (qw_limit w) w (addToQueue env songs aopts w)
    \<and> outcome_ok (qw_limit w) w (playQueue env songs opts w)"
proof (intro conjI addToQueue_outcome [OF assms(1,2)])
  let ?items = "prepareMediaItems songs"
  define st where "st = findAvailableMediaIndex ?items (nullish_or (po_startIndex opts) 0)"
  obtain win s where win: "play_window (qw_limit w) ?items st = (win, s)" by fastforce
  let ?final = "mark_playlist (po_source opts) win"
  consider "songs = []" | "songs \<noteq> []" "st < 0" | "songs \<noteq> []" "0 \<le> st" by linarith
  then show "outcome_ok (qw_limit w) w (playQueue env songs opts w)"
  proof cases
    case 3
    have st: "st < int (length ?items)" "\<not> isMediaItemOffline (?items ! nat st)"
      using findAvailable_spec [OF assms(3), of ?items] 3(2) by (simp_all add: st_def)
    note p = play_window_start [OF 3(2) st(1) assms(1) win]
    then have "nat s < length win" by linarith
    with p st(2) have w: "length win \<le> qw_limit w" "0 \<le> s" "s < int (length win)"
        "\<not> isMediaItemOffline (?final ! nat s)"
      by (simp_all add: mark_playlist_nth)
    have "outcome_ok (qw_limit w) w (play_items env ?final s o' w)" for o'
      by (rule play_items_outcome [OF assms(1,2)]) (use w in simp_all)
    then show ?thesis
      using 3 by (simp add: playQueue_def Let_def getQueueSizeLimit_def win flip: st_def)
  qed (use assms(2) in \<open>simp_all add: playQueue_def Let_def outcome_ok_def queue_keys_def flip: st_def\<close>)
qed

end
