(* ===== verification/QueueClaims.thy ===== *)
theory QueueClaims
  imports QueueProps
begin

text \<open>
  Further properties of the queue: queue writes, playing into an empty queue, removal, reordering,
  clearing, progress, and listen tracking.
\<close>

section \<open>Worlds to evaluate in\<close>

definition ids :: "nat \<Rightarrow> string" where "ids n = as (Suc n)"

lemma ids_ne: "ids n \<noteq> []"
  by (simp add: ids_def as_def)

definition loaded_world :: "media_item list \<Rightarrow> string option \<Rightarrow> nat \<Rightarrow> queue_world" where
  "loaded_world q k limit =
     (let st = \<lparr>as_queue = q, as_current_item_key = k, as_queue_open = False,
               as_active_remote_id = None, as_last_updated = 0\<rparr>
      in (initial_world ids [])\<lparr>qw_app := Some st, qw_stored := Some st, qw_limit := limit\<rparr>)"

definition song_of :: "string \<Rightarrow> song" where
  "song_of k = song0\<lparr>sg_sha256 := k, sg_queue_entry_id := Some (''e'' @ k)\<rparr>"

abbreviation item_of :: "string \<Rightarrow> media_item" where
  "item_of k \<equiv> SongItem (song_of k)"

lemma item_of_simps [simp]:
  "mediaItemKey (item_of k) = (if k = [] then ''1'' else k)" "\<not> isMediaItemOffline (item_of k)"
  "mediaItemQueueEntryId (item_of k) = Some (''e'' @ k)" "mediaItemMaxProgress (item_of k) = None"
  "sg_is_offline (song_of k) = None" "sg_queue_entry_id (song_of k) = Some (''e'' @ k)"
  by (simp_all add: song_of_def song0_def songIdentityKey_def str_or_def)

lemma song_of_key [simp]: "songIdentityKey (song_of k) = (if k = [] then ''1'' else k)"
  by (simp add: song_of_def song0_def songIdentityKey_def str_or_def)

lemma loaded_simps [simp]:
  "queue_of (loaded_world q k n) = q" "current_key (loaded_world q k n) = k" "qw_limit (loaded_world q k n) = n"
  "qw_app (loaded_world q k n) \<noteq> None" "qw_uuids (loaded_world q k n) = ids"
  "qw_playback_ended (loaded_world q k n) = False" "queue_keys (loaded_world q k n) = map mediaItemKey q"
  "qw_pending_up_next (loaded_world q k n) = None" "qw_active_entry (loaded_world q k n) = None"
  by (simp_all add: loaded_world_def initial_world_def queue_of_def current_key_def queue_keys_def Let_def)

definition quiet_env :: "queue_full_choice \<Rightarrow> queue_env" where
  "quiet_env c = \<lparr>qe_full_choice = c, qe_replace_choice = ReplaceQueue, qe_remote_active = False,
     qe_remote_queue = [], qe_session_matches = (\<lambda>_. False), qe_remote_name = None\<rparr>"

definition plain_play :: play_options where
  "plain_play = \<lparr>po_startIndex = None, po_source = None, po_skipServerSession = False, po_resumeProgress = None\<rparr>"

definition plain_add :: add_options where
  "plain_add = \<lparr>ao_startPlaying = False, ao_position = AtEnd, ao_source = None\<rparr>"

lemma q_limit_and_available_witness:
  "length (queue_keys (playQueue (quiet_env RemoveFromStart) [Inr (item_of ''c''), Inr (item_of ''d'')] plain_play
      (loaded_world [item_of ''a'', item_of ''b''] (Some ''a'') 2))) \<le> 2"
  using q_limit_and_available [of "loaded_world [item_of ''a'', item_of ''b''] (Some ''a'') 2" plain_play
      "quiet_env RemoveFromStart" "[Inr (item_of ''c''), Inr (item_of ''d'')]" plain_add]
  by (simp add: outcome_ok_def plain_play_def)

section \<open>Queue writes\<close>

text \<open>C9: Every queue write keeps the signal and its stored copy equal, keeps the items' keys in order, gives
  every item an entry id, and clears the playing item's key exactly when that item has left the
  queue.\<close>

theorem q_write:
  assumes "qw_app w \<noteq> None" "\<forall>n. qw_uuids w n \<noteq> []"
  shows "qw_stored (setQueue items w) = qw_app (setQueue items w)
    \<and> queue_keys (setQueue items w) = map mediaItemKey items
    \<and> (\<forall>i \<in> set (queue_of (setQueue items w)). truthy (mediaItemQueueEntryId i))
    \<and> current_key (setQueue items w) =
        (if truthy (current_key w) \<and> the (current_key w) \<in> set (queue_keys w) - mediaItemKey ` set items
         then None else current_key w)"
  using assms(1) setQueue_stored assign_entry_ids_truthy [OF assms(2)]
  by (simp add: current_key_setQueue surviving_key_def queue_keys_def del: not_None_eq)

lemma q_write_witness:
  "current_key (setQueue [item_of ''b''] (loaded_world [item_of ''a'', item_of ''b''] (Some ''a'') 9)) = None
   \<and> current_key (setQueue [item_of ''b''] (loaded_world [item_of ''a'', item_of ''b''] (Some ''b'') 9)) = Some ''b''"
  using q_write [THEN conjunct2, THEN conjunct2, THEN conjunct2,
      of "loaded_world [item_of ''a'', item_of ''b''] (Some ''a'') 9" "[item_of ''b'']"]
    q_write [THEN conjunct2, THEN conjunct2, THEN conjunct2,
      of "loaded_world [item_of ''a'', item_of ''b''] (Some ''b'') 9" "[item_of ''b'']"]
  by (simp add: ids_ne)

text \<open>The departure purge reports every key that left the queue once and no other, cancels their loads
  before it evicts anything, evicts every image only they referred to exactly once and none that an
  item still queued refers to.\<close>

theorem q_departures:
  assumes "departed = diffQueueDepartures prev items"
  shows "distinct (map mediaItemKey departed)
    \<and> mediaItemKey ` set departed = mediaItemKey ` set prev - mediaItemKey ` set items
    \<and> (\<exists>calls. qw_calls (purgeDepartedMedia departed items w) = qw_calls w
         @ CancelMediaLoads (map mediaItemKey departed) # CancelPendingAutoDownloads departed # calls)
    \<and> (\<forall>i \<in> set items. set (imageRefsFor i) \<inter> set (evicted_images departed items) = {})
    \<and> ref_key ` set (evicted_images departed items)
        = ref_key ` (\<Union>i \<in> set departed. set (imageRefsFor i)) - stillReferenced items
    \<and> distinct (map ref_key (evicted_images departed items))"
  using evicted_image_spared [of _ items _ departed]
  by (auto simp: assms diff_distinct diff_keys purgeDepartedMedia_def evicted_images_def purgeable_keys
      purgeable_distinct)

definition cover :: image where
  "cover = \<lparr>im_blob_type = ''thumbnail'', im_blob_id = None, im_remote_blob_id = Some ''art'',
     im_remote_server_id = Some ''r''\<rparr>"

abbreviation covered :: "string \<Rightarrow> media_item" where
  "covered k \<equiv> SongItem ((song_of k)\<lparr>sg_images := [cover]\<rparr>)"

lemma q_departures_witness:
  "set (imageRefsFor (covered ''b'')) \<inter> set (evicted_images [covered ''a''] [covered ''b'']) = {}
   \<and> set (imageRefsFor (covered ''b'')) \<noteq> {}"
proof -
  have "[covered ''a''] = diffQueueDepartures [covered ''a'', covered ''b''] [covered ''b'']"
    by (simp add: diffQueueDepartures_def Let_def song_of_def song0_def songIdentityKey_def str_or_def)
  from q_departures [OF this] show ?thesis
    by (simp add: song_of_def song0_def cover_def)
qed

section \<open>Playing into an empty queue\<close>

text \<open>Playing a list into an empty queue plays the first available item at or after the requested one,
  and the queue becomes a stretch of the list, as long as the limit allows, that contains it.\<close>

theorem q_play_from:
  assumes "queue_of w = []" "0 < qw_limit w" "songs \<noteq> []" "0 \<le> nullish_or (po_startIndex opts) 0"
    and "st = findAvailableMediaIndex (prepareMediaItems songs) (nullish_or (po_startIndex opts) 0)" "0 \<le> st"
  shows "\<exists>i n. played (playQueue env songs opts w) = played w @ [i]
    \<and> mediaItemKey i = mediaItemKey (prepareMediaItems songs ! nat st)
    \<and> (\<forall>k. nullish_or (po_startIndex opts) 0 \<le> k \<and> k < st \<longrightarrow> isMediaItemOffline (prepareMediaItems songs ! nat k))
    \<and> queue_keys (playQueue env songs opts w)
        = map mediaItemKey (take (qw_limit w) (drop n (prepareMediaItems songs)))
    \<and> mediaItemKey i \<in> set (queue_keys (playQueue env songs opts w))"
proof -
  let ?items = "prepareMediaItems songs"
  obtain win s where win: "play_window (qw_limit w) ?items st = (win, s)" by fastforce
  let ?final = "mark_playlist (po_source opts) win"
  have spec: "available_up ?items (nullish_or (po_startIndex opts) 0) = st" "st \<noteq> -1"
    using assms(5,6) by (simp_all add: findAvailableMediaIndex_def)
  note av = available_up_spec [OF assms(4) spec]
  note p = play_window_start [OF assms(6) _ assms(2) win]
  have s: "nat s < length win" "win ! nat s = ?items ! nat st" using p av by linarith+
  have res: "queue_keys (playQueue env songs opts w) = map mediaItemKey ?final"
      "played (playQueue env songs opts w) = played w @ [?final ! nat s]"
    using assms(1,3,6) win
    by (simp_all add: playQueue_def play_items_def Let_def getQueueSizeLimit_def play_branches_keep flip: assms(5))
  have final: "map mediaItemKey ?final = map mediaItemKey win"
    by (rule nth_equalityI) (simp_all add: mark_playlist_nth)
  obtain n where n: "win = take (qw_limit w) (drop n ?items)"
    using play_window_take [OF assms(6) assms(2) win] av by auto
  have "mediaItemKey (win ! nat s) \<in> set (map mediaItemKey win)" using s(1) by simp
  then show ?thesis
    using res s av n unfolding final
    by (intro exI [of _ "?final ! nat s"] exI [of _ n]) (simp add: mark_playlist_nth)
qed

lemma q_play_from_witness:
  "\<exists>i. played (playQueue (quiet_env ClearAll) [Inr (item_of ''a''), Inr (item_of ''b'')]
        (plain_play\<lparr>po_startIndex := Some 1\<rparr>) (loaded_world [] None 9)) = played (loaded_world [] None 9) @ [i]
     \<and> mediaItemKey i = ''b''"
proof -
  let ?songs = "[Inr (item_of ''a''), Inr (item_of ''b'')] :: (song + media_item) list"
  have items: "prepareMediaItems ?songs = [item_of ''a'', item_of ''b'']"
    by (simp add: prepareMediaItems_def toMediaItems_def)
  have at: "findAvailableMediaIndex (prepareMediaItems ?songs) 1 = 1"
    by (simp add: items findAvailableMediaIndex_def available_up.simps)
  show ?thesis
    using q_play_from [of "loaded_world [] None 9" ?songs "plain_play\<lparr>po_startIndex := Some 1\<rparr>" 1 "quiet_env ClearAll"]
    by (auto simp: plain_play_def at) (auto simp: items)
qed

section \<open>Removal\<close>

lemma without_index_keys:
  "0 \<le> i \<Longrightarrow> i < int (length xs) \<Longrightarrow> set xs = insert (xs ! nat i) (set (without_index i xs))"
  unfolding without_index_def
  by (simp add: insert_commute)
     (metis Un_insert_right append_take_drop_id id_take_nth_drop list.simps(15) nat_less_iff set_append)

lemma updateSongs_app [simp]: "qw_app (updateHistoryEntrySongs k ss v) = qw_app v"
  by (simp add: updateHistoryEntrySongs_def Let_def split: option.split)

lemma sync_queue_keep [simp]:
  "qw_app (sync_queue q w) = qw_app w" "queue_keys (sync_queue q w) = queue_keys w"
  "current_key (sync_queue q w) = current_key w" "played (sync_queue q w) = played w"
  by (simp_all add: sync_queue_def current_key_def)

lemma sync_or_stop_keep [simp]:
  "queue_keys (sync_or_stop q w) = queue_keys w" "current_key (sync_or_stop q w) = current_key w"
  by (simp_all add: sync_or_stop_def)

lemma clearQueueItemProgress_keep [simp]:
  "qw_app (clearQueueItemProgress k w) = qw_app w" "queue_of (clearQueueItemProgress k w) = queue_of w"
  "current_key (clearQueueItemProgress k w) = current_key w" "queue_keys (clearQueueItemProgress k w) = queue_keys w"
  "qw_calls (clearQueueItemProgress k w) = qw_calls w"
  "qw_pending_up_next (clearQueueItemProgress k w) = qw_pending_up_next w"
  by (simp_all add: clearQueueItemProgress_def queue_of_def current_key_def queue_keys_def)

lemma current_key_eq: "qw_app w = Some st \<Longrightarrow> current_key w = as_current_item_key st"
  and queue_of_eq: "qw_app w = Some st \<Longrightarrow> queue_of w = as_queue st"
  by (simp_all add: current_key_def queue_of_def)

text \<open>The steps of a removal after the queue write.\<close>

definition drop_progress :: "media_item \<Rightarrow> queue_world \<Rightarrow> queue_world" where
  "drop_progress i w = (if truthy (mediaItemQueueEntryId i)
     then clearQueueItemProgress (the (mediaItemQueueEntryId i)) w else w)"

definition stop_current :: "bool \<Rightarrow> queue_world \<Rightarrow> queue_world" where
  "stop_current b w = (if b then setCurrentSong None (log_call StopPlayer w) else w)"

definition drop_pending :: "string \<Rightarrow> queue_world \<Rightarrow> queue_world" where
  "drop_pending k w = (if qw_pending_up_next w = Some k then w\<lparr>qw_pending_up_next := None\<rparr> else w)"

lemma remove_steps_keep [simp]:
  "queue_keys (drop_progress i w) = queue_keys w" "current_key (drop_progress i w) = current_key w"
  "qw_app (drop_progress i w) = qw_app w"
  "qw_app w \<noteq> None \<Longrightarrow> queue_keys (stop_current b w) = queue_keys w"
  "current_key (stop_current b w) = (if b then None else current_key w)"
  "queue_keys (drop_pending k w) = queue_keys w" "current_key (drop_pending k w) = current_key w"
  by (simp_all add: drop_progress_def stop_current_def drop_pending_def queue_keys_def)

lemma remove_steps:
  assumes "qw_app w = Some st" "js_at (as_queue st) index = Some i" "mediaItemKey i = k" "k \<noteq> []"
  shows "removeFromQueue index w =
    (let q = without_index index (as_queue st) in
     sync_or_stop q (drop_pending k (stop_current (as_current_item_key st = Some k)
       (drop_progress i (setQueue q (log_call (MirrorRemoveFromQueue index (playing_index st)) w))))))"
proof -
  have k: "truthy (Some k)" "Some k = x \<longleftrightarrow> x = Some k" for x using assms(4) by auto
  show ?thesis
    using assms by (simp add: removeFromQueue_def Let_def drop_pending_def stop_current_def drop_progress_def k)
qed

text \<open>Removing a queue position removes that item and no other and stops playback exactly when its
  identity key is the playing one, so removing a second copy of the playing song stops the copy that
  is still queued.\<close>

theorem q_remove:
  assumes "qw_app w \<noteq> None" "0 \<le> index" "index < int (length (queue_of w))"
    and "mediaItemKey (queue_of w ! nat index) = k" "k \<noteq> []"
  shows "queue_keys (removeFromQueue index w) = map mediaItemKey (without_index index (queue_of w))
    \<and> current_key (removeFromQueue index w) = (if current_key w = Some k then None else current_key w)"
proof -
  obtain st where st: "qw_app w = Some st" using assms(1) by blast
  let ?q = "queue_of w" and ?new = "without_index index (queue_of w)"
  let ?w1 = "log_call (MirrorRemoveFromQueue index (playing_index st)) w"
  have at: "js_at (as_queue st) index = Some (?q ! nat index)"
    using assms(2,3) st by (simp add: js_at_def queue_of_eq)
  have gone: "mediaItemKey ` set ?q - mediaItemKey ` set ?new \<subseteq> {k}"
    using without_index_keys [OF assms(2,3)] assms(4) by auto
  have keep: "current_key (setQueue ?new ?w1) = current_key w" if "current_key w \<noteq> Some k"
    using that gone assms(1)
    by (cases "current_key w") (auto simp: current_key_setQueue surviving_key_def subset_iff)
  show ?thesis
    using keep remove_steps [OF st at] assms(4,5) st
    by (simp add: Let_def queue_of_eq [OF st] current_key_eq [OF st] del: not_None_eq)
qed

lemma q_remove_witness:
  "current_key (removeFromQueue 1 (loaded_world [item_of ''a'', item_of ''a''] (Some ''a'') 9)) = None
   \<and> queue_keys (removeFromQueue 1 (loaded_world [item_of ''a'', item_of ''a''] (Some ''a'') 9)) = [''a'']"
  using q_remove [of "loaded_world [item_of ''a'', item_of ''a''] (Some ''a'') 9" 1 "''a''"]
  by (simp add: without_index_def)

text \<open>Adding to a full queue while its first item plays, with the oldest items to make room, removes the
  playing item and stops playback; the code means to fall back when it cannot make room without
  affecting the playing item.\<close>

theorem q_full_drops_playing:
  assumes "queue_of w = x # q" "current_key w = Some (mediaItemKey x)" "mediaItemKey x \<noteq> []"
    and "length (x # q) = qw_limit w" "\<not> isMediaItemOffline i"
    and "mediaItemKey x \<notin> set (map mediaItemKey (i # q))"
    and "qe_full_choice env = RemoveFromStart" "ao_source opts = None" "ao_position opts = AtEnd"
  shows "queue_keys (addToQueue env [Inr i] opts w) = map mediaItemKey (q @ [i])
    \<and> (ao_startPlaying opts \<or> qw_playback_ended w
       \<or> current_key (addToQueue env [Inr i] opts w) = None \<and> played (addToQueue env [Inr i] opts w) = played w)"
proof -
  have app: "qw_app w \<noteq> None" using assms(1) by (auto simp: queue_of_def split: option.splits)
  have items: "prepareMediaItems [Inr i] = [i]" by (simp add: prepareMediaItems_def toMediaItems_def)
  have at: "findAvailableMediaIndex [i] 0 = 0"
    using assms(5) by (simp add: findAvailableMediaIndex_def available_up.simps)
  have rem: "removable_count (x # q) (current_key w) = Suc (length q)"
    using assms(2,3) by (simp add: removable_count_def current_index_def)
  let ?w1 = "log_call (MirrorAppendToQueue (songsOnly [i])) w"
  have step: "addToQueue env [Inr i] opts w =
      addToQueueInternal env [i] q (current_key w) (ao_startPlaying opts) AtEnd None w"
    using assms(1,4,5,7,8,9) rem
    by (simp add: addToQueue_def items at getQueueSizeLimit_def mark_playlist_def add_window_def
        sync_playlist_def Let_def)
  have cur: "current_key (setQueue (q @ [i]) ?w1) = None"
    using app assms(1-3,6) by (simp add: current_key_setQueue surviving_key_def del: not_None_eq)
  have fields: "qw_playback_ended (setQueue (q @ [i]) ?w1) = qw_playback_ended w" by simp
  show ?thesis
    using assms(2,3) cur
    by (auto simp: step addToQueueInternal_keep added_queue_def)
       (simp_all add: addToQueueInternal_def Let_def will_auto_play_def hasPlaybackEnded_def)
qed

lemma q_full_drops_playing_witness:
  "current_key (addToQueue (quiet_env RemoveFromStart) [Inr (item_of ''c'')] plain_add
      (loaded_world [item_of ''a'', item_of ''b''] (Some ''a'') 2)) = None"
  using q_full_drops_playing [of "loaded_world [item_of ''a'', item_of ''b''] (Some ''a'') 2" "item_of ''a''"
      "[item_of ''b'']" "item_of ''c''" "quiet_env RemoveFromStart" plain_add]
  by (simp add: quiet_env_def plain_add_def)

section \<open>Reordering\<close>

lemma mset_splice_in: "mset (splice_in i x xs) = add_mset x (mset xs)"
proof -
  have "mset (take n xs) + mset (drop n xs) = mset xs" for n
    by (metis append_take_drop_id mset_append)
  then show ?thesis by (simp add: splice_in_def Let_def)
qed

lemma nth_splice_in: "0 \<le> i \<Longrightarrow> nat i \<le> length xs \<Longrightarrow> splice_in i x xs ! nat i = x"
  by (simp add: splice_in_def clamp_index_def Let_def nth_append min_def)

lemma splice_out_in:
  assumes "0 \<le> from" "from < int (length xs)" "0 \<le> to" "to < int (length xs)"
  shows "\<exists>m rest. splice_out from xs = (Some m, rest) \<and> m = xs ! nat from
    \<and> mset (splice_in to m rest) = mset xs \<and> splice_in to m rest ! nat to = m
    \<and> rest = take (nat from) xs @ drop (Suc (nat from)) xs"
proof -
  let ?rest = "take (nat from) xs @ drop (Suc (nat from)) xs"
  have l: "nat from < length xs" "length ?rest = length xs - 1" "nat to \<le> length ?rest"
    using assms by auto
  have c: "clamp_index (length xs) from = nat from"
    using assms l by (auto simp: clamp_index_def)
  have "mset xs = add_mset (xs ! nat from) (mset ?rest)"
    using l(1) by (subst id_take_nth_drop [of "nat from" xs]) simp_all
  then have "mset (splice_in to (xs ! nat from) ?rest) = mset xs"
    by (simp add: mset_splice_in)
  moreover have "splice_in to (xs ! nat from) ?rest ! nat to = xs ! nat from"
    by (rule nth_splice_in [OF assms(3) l(3)])
  ultimately show ?thesis using c l(1) by (simp add: splice_out_def Let_def)
qed

text \<open>Reordering between two positions of the queue is a permutation that puts the moved item at its
  target, loses nothing and interrupts nothing; from a position past the end it rejects without
  touching the local queue, after the remote mirror has been told.\<close>

theorem q_reorder:
  assumes "qw_app w \<noteq> None" "0 \<le> from" "0 \<le> to" "to < int (length (queue_of w))"
  shows "if from < int (length (queue_of w))
    then fst (reorderQueue from to w) = Inr ()
      \<and> mset (queue_keys (snd (reorderQueue from to w))) = mset (queue_keys w)
      \<and> queue_keys (snd (reorderQueue from to w)) ! nat to = queue_keys w ! nat from
      \<and> current_key (snd (reorderQueue from to w)) = current_key w
      \<and> played (snd (reorderQueue from to w)) = played w
    else (\<exists>e i. reorderQueue from to w = (Inl e, log_call (MirrorReorderQueue from to i) w))"
proof (cases "from < int (length (queue_of w))")
  case True
  obtain st where st: "qw_app w = Some st" using assms(1) by blast
  let ?w1 = "log_call (MirrorReorderQueue from to (playing_index st)) w"
  obtain m rest where m: "splice_out from (queue_of w) = (Some m, rest)" "m = queue_of w ! nat from"
      "mset (splice_in to m rest) = mset (queue_of w)" "splice_in to m rest ! nat to = m"
    using splice_out_in [OF assms(2) True assms(3,4)] by blast
  let ?new = "splice_in to m rest"
  have keys: "mset (map mediaItemKey ?new) = mset (queue_keys w)"
    using m(3) by (simp add: queue_keys_def)
  have set: "set ?new = set (queue_of w)" using m(3) by (rule mset_eq_setD)
  have len: "nat to < length ?new" "nat from < length (queue_of w)"
    using mset_eq_length [OF m(3)] assms True by auto
  have cur: "current_key (setQueue ?new ?w1) = current_key w"
    using assms(1) by (simp add: current_key_setQueue surviving_key_def set del: not_None_eq)
  have "reorderQueue from to w = (Inr (), sync_queue ?new (setQueue ?new ?w1))"
    using m(1) st by (simp add: reorderQueue_def Let_def queue_of_eq [OF st])
  moreover have "map mediaItemKey ?new ! nat to = queue_keys w ! nat from"
    using m(2,4) len by (simp add: queue_keys_def)
  ultimately show ?thesis
    using True keys cur by (simp del: mset_map)
next
  case False
  obtain st where st: "qw_app w = Some st" using assms(1) by blast
  have "splice_out from (as_queue st) = (None, as_queue st)"
    using False assms(2) by (simp add: splice_out_def clamp_index_def Let_def queue_of_eq [OF st])
  then show ?thesis using False st by (auto simp: reorderQueue_def)
qed

lemma q_reorder_witness:
  "queue_keys (snd (reorderQueue 0 1 (loaded_world [item_of ''a'', item_of ''b''] (Some ''a'') 9))) ! 1 = ''a''"
  using q_reorder [of "loaded_world [item_of ''a'', item_of ''b''] (Some ''a'') 9" 0 1] by simp

section \<open>Clearing\<close>

lemma purge_calls_no_mirror:
  "MirrorClearQueue \<notin> set (purge_media_calls i)" "MirrorClearQueue \<notin> set (purge_image_calls r)"
  by (auto simp: purge_media_calls_def purge_image_calls_def split: option.split)

lemma setQueue_calls:
  assumes "current_key w = None" "qw_app w \<noteq> None"
  shows "\<exists>rest. qw_calls (setQueue is w) = qw_calls w @ rest \<and> MirrorClearQueue \<notin> set rest"
proof -
  let ?q = "assign_entry_ids (qw_uuids w) (qw_drawn w) is"
  let ?w2 = "log_call ClearInProgressTracking (updateAppState (\<lambda>st. st\<lparr>as_queue := ?q\<rparr>)
      (w\<lparr>qw_drawn := qw_drawn w + length is\<rparr>))"
  have notify: "\<exists>rest. qw_calls (notifyQueueDepartures p ?q v) = qw_calls v @ rest \<and> MirrorClearQueue \<notin> set rest"
    if "current_key v = None" for p v
    using that purge_calls_no_mirror
    by (fastforce simp: notifyQueueDepartures_def Let_def stop_departed_def purgeDepartedMedia_def)
  have "current_key ?w2 = None"
    using assms by (simp add: current_app_state_key del: not_None_eq)
  from notify [OF this] show ?thesis
    by (fastforce simp: setQueue_def Let_def)
qed

text \<open>Clearing resets everything, whatever ran before: the player is told to stop first, the queue and the
  playing key are empty in the signal and in the stored copy, no progress and no up-next item is
  left, and nothing is tracked; the remote queue is only cleared when the queue was abandoned.\<close>

theorem q_clear:
  assumes "w' = clearQueue reason w"
  shows "queue_of w' = [] \<and> current_key w' = None \<and> qw_stored w' = qw_app w' \<and> qw_app w' \<noteq> None
    \<and> qw_progress w' = Map.empty \<and> qw_active_entry w' = None
    \<and> played w' = played w
    \<and> (\<exists>rest. qw_calls w' = qw_calls w @ StopPlayer # rest
         \<and> (MirrorClearQueue \<in> set rest \<longleftrightarrow> reason = ''abandoned''))"
proof -
  define w3 where "w3 = log_call ClearCurrentRadioStation (log_call LeaveRadio
      (if reason = ''abandoned'' then log_call MirrorClearQueue (log_call StopPlayer w) else log_call StopPlayer w))"
  define w5 where "w5 = setCurrentSong None (log_call (StopServerSession reason)
      ((clearAllQueueProgress (log_call StopVideoTracking (stopTracking True w3)))\<lparr>qw_pending_up_next := None\<rparr>))"
  have w': "w' = setQueue [] w5"
    by (simp add: assms clearQueue_def clearQueueState_def Let_def w3_def w5_def)
  have w5: "qw_app w5 \<noteq> None" "current_key w5 = None" "qw_progress w5 = Map.empty" "qw_active_entry w5 = None"
    by (simp_all add: w5_def clearAllQueueProgress_def setCurrentSong_def)
  have calls: "qw_calls w5 = qw_calls w3 @ [StopVideoTracking, StopServerSession reason]"
    by (simp add: w5_def clearAllQueueProgress_def)
  have play: "played w5 = played w"
    by (simp add: w5_def w3_def)
  have "\<exists>rest. qw_calls (setQueue [] w5) = qw_calls w5 @ rest \<and> MirrorClearQueue \<notin> set rest"
    using w5(2,1) by (rule setQueue_calls)
  then obtain rest where rest: "qw_calls w' = qw_calls w5 @ rest" "MirrorClearQueue \<notin> set rest"
    unfolding w' by blast
  have "qw_calls w' = qw_calls w @ StopPlayer # (if reason = ''abandoned'' then [MirrorClearQueue] else [])
      @ [LeaveRadio, ClearCurrentRadioStation, StopVideoTracking, StopServerSession reason] @ rest"
    unfolding rest(1) calls by (simp add: w3_def)
  then have "\<exists>rest. qw_calls w' = qw_calls w @ StopPlayer # rest
         \<and> (MirrorClearQueue \<in> set rest \<longleftrightarrow> reason = ''abandoned'')"
    using rest(2)
    by (intro exI [of _ "(if reason = ''abandoned'' then [MirrorClearQueue] else [])
        @ [LeaveRadio, ClearCurrentRadioStation, StopVideoTracking, StopServerSession reason] @ rest"]) simp
  moreover have "current_key w' = None"
    using w5(1,2) by (simp add: w' current_key_setQueue surviving_key_def del: not_None_eq)
  ultimately show ?thesis
    using w5 play by (simp add: w' setQueue_stored)
qed

lemma q_clear_witness:
  "queue_of (clearQueue ''completed'' (loaded_world [item_of ''a''] (Some ''a'') 9)) = []"
  using q_clear [OF refl, of "''completed''" "loaded_world [item_of ''a''] (Some ''a'') 9"] by blast

section \<open>Progress\<close>

lemma collect_progress_other:
  "\<forall>i \<in> set is. mediaItemQueueEntryId i \<noteq> Some k \<Longrightarrow> collect_progress is m k = m k"
  by (induction "is" m rule: collect_progress.induct) (auto simp: truthy_Some_conv)

lemma collect_progress_item:
  assumes "distinct (map mediaItemQueueEntryId is)" "i \<in> set is" "mediaItemQueueEntryId i = Some k" "k \<noteq> []"
    "mediaItemMaxProgress i = Some p"
  shows "collect_progress is m k = Some p"
  using assms
proof (induction "is" m rule: collect_progress.induct)
  case (2 j "is" m)
  show ?case
  proof (cases "j = i")
    case True
    then have "\<forall>x \<in> set is. mediaItemQueueEntryId x \<noteq> Some k" using 2(2,4) by force
    then show ?thesis using True 2(4-6) by (simp add: collect_progress_other)
  next
    case False
    then show ?thesis using 2 by auto
  qed
qed simp

lemma item_progress_id [simp]: "mediaItemQueueEntryId (item_progress m i) = mediaItemQueueEntryId i"
  by (simp add: item_progress_def split: option.split)

lemma item_progress_max:
  "mediaItemQueueEntryId i = Some k \<Longrightarrow> k \<noteq> [] \<Longrightarrow> m k = Some p \<Longrightarrow> mediaItemMaxProgress (item_progress m i) = Some p"
  by (simp add: item_progress_def)

text \<open>Progress survives a reload: after the map has been saved with the queue and emptied, loading it from
  the queue gives back the progress of every item that had one.\<close>

theorem q_progress_roundtrip:
  assumes "distinct (map mediaItemQueueEntryId (queue_of w))" "\<forall>i \<in> set (queue_of w). truthy (mediaItemQueueEntryId i)"
    and "i \<in> set (queue_of w)" "mediaItemQueueEntryId i = Some k" "qw_progress w k = Some p"
  shows "qw_progress (loadProgressFromStorage (clearAllQueueProgress (saveProgressToIDB w))) k = Some p"
proof -
  let ?m = "qw_progress w" and ?w1 = "saveProgressToIDB w"
  obtain st where st: "qw_app w = Some st" using assms(3) by (cases "qw_app w") (auto simp: queue_of_def)
  have q: "queue_of ?w1 = map (item_progress ?m) (queue_of w)"
  proof (cases "list_ex (progress_changes ?m) (as_queue st)")
    case True
    then show ?thesis
      using st assms(2) by (simp add: saveProgressToIDB_def queue_of_eq [OF st] assign_entry_ids_idle)
  next
    case False
    then have "map (item_progress ?m) (as_queue st) = as_queue st"
      by (intro map_idI) (auto simp: list_ex_iff progress_changes_def item_progress_def split: option.splits if_splits)
    then show ?thesis using False st by (simp add: saveProgressToIDB_def queue_of_eq [OF st])
  qed
  obtain st1 where st1: "qw_app ?w1 = Some st1"
    using st by (cases "qw_app ?w1") (auto simp: saveProgressToIDB_def split: if_splits)
  have k: "k \<noteq> []" using assms(2-4) by (auto simp: truthy_Some_conv)
  have dist: "distinct (map mediaItemQueueEntryId (as_queue st1))"
    using assms(1) q by (simp add: queue_of_eq [OF st1] comp_def)
  have mem: "item_progress ?m i \<in> set (as_queue st1)"
    using assms(3) q by (simp add: queue_of_eq [OF st1])
  have "collect_progress (as_queue st1) Map.empty k = Some p"
    using collect_progress_item [OF dist mem] assms(4,5) k item_progress_max by simp
  moreover from this have "dom (collect_progress (as_queue st1) Map.empty) \<noteq> {}" by blast
  ultimately show ?thesis
    using st1 by (simp add: loadProgressFromStorage_def clearAllQueueProgress_def Let_def)
qed

lemma q_progress_roundtrip_witness:
  "qw_progress (loadProgressFromStorage (clearAllQueueProgress (saveProgressToIDB
     (updateQueueItemProgress ''ea'' (1/2) (loaded_world [item_of ''a'', item_of ''b''] (Some ''a'') 9))))) ''ea''
   = Some (1/2)"
  by (rule q_progress_roundtrip [of _ "item_of ''a''"])
     (simp_all add: updateQueueItemProgress_def loaded_world_def initial_world_def queue_of_def Let_def)

section \<open>Listen tracking\<close>

lemma resumeTracking_idle:
  "qw_active_entry w = None \<Longrightarrow> resumeTracking k p w = set_tracker (Some k) p True w"
  by (simp add: resumeTracking_def flush_begin_def flush_end_def)

lemma getCurrentProgress_tracker [simp]: "getCurrentProgress (set_tracker e p t w) = p"
  by (cases p) (simp add: getCurrentProgress_def set_tracker_def card_image)

text \<open>Stopping writes the tracked progress to its history entry, and resuming that entry from the store
  restores the accumulators: the listened time, the number of completed songs, the song and the
  position in it.\<close>

theorem lp_resume_roundtrip:
  assumes "history_ok w" "qw_active_entry w = Some k" "k \<noteq> []" "idb_get he_id k (qw_history w) \<noteq> None"
  shows "\<exists>e. idb_get he_id k (qw_history (stopTracking skip w)) = Some e
    \<and> getCurrentProgress (resumeTracking k (he_progress e) (stopTracking skip w)) = getCurrentProgress w"
proof -
  obtain e0 where e0: "idb_get he_id k (qw_history w) = Some e0" using assms(4) by blast
  have ok: "idb_ok he_id (qw_history w)" using assms(1) by (simp add: history_ok_def)
  have id: "he_id e0 = k" using e0 by (simp add: idb_get_Some_iff [OF ok])
  let ?e = "e0\<lparr>he_progress := getCurrentProgress w\<rparr>"
  have h: "qw_history (stopTracking skip w) = idb_put he_id ?e (qw_history w)"
    using assms(2,3) e0
    by (simp add: stopTracking_eq flush_begin_def set_tracker_def updateHistoryProgress_def patch_entry_def)
  have "idb_get he_id k (qw_history (stopTracking skip w)) = Some ?e"
    unfolding h by (simp add: idb.get_put [OF ok] id)
  then show ?thesis by (simp add: resumeTracking_idle)
qed

definition entry0 :: history_entry where
  "entry0 = new_entry None ''h'' [song0] source0 None 0"

definition tracked_world :: queue_world where
  "tracked_world = (loadQueueHistory (initial_world ids [entry0]))\<lparr>qw_active_entry := Some ''h'', qw_listened := 7\<rparr>"

lemma lp_resume_roundtrip_witness:
  "\<exists>e. idb_get he_id ''h'' (qw_history (stopTracking False tracked_world)) = Some e
     \<and> rp_listened_seconds (getCurrentProgress (resumeTracking ''h'' (he_progress e) (stopTracking False tracked_world))) = 7"
proof -
  have "history_ok tracked_world" "idb_get he_id ''h'' (qw_history tracked_world) \<noteq> None"
    by (simp_all add: tracked_world_def loadQueueHistory_def initial_world_def history_ok_def entry0_def
        idb_ok_def idb_get_def new_entry_def)
  moreover have "qw_active_entry tracked_world = Some ''h''" "rp_listened_seconds (getCurrentProgress tracked_world) = 7"
    by (simp_all add: tracked_world_def getCurrentProgress_def)
  ultimately show ?thesis
    using lp_resume_roundtrip [of tracked_world "''h''" False] by auto
qed

text \<open>After a reload with only videos in the queue, tracking resumes the newest entry without songs, and a
  bookmarked radio station is such an entry.\<close>

theorem lp_reconnect_takes_bookmark:
  assumes "qw_active_entry w = None" "qw_app w = Some st" "songsOnly (as_queue st) = []" "as_queue st \<noteq> []"
    and "truthy (as_current_item_key st)" "qw_history_signal w = radio_entry k ref t # rest"
  shows "qw_active_entry (reconnectProgressTracking w) = Some k"
proof -
  have "matching_entry [] (qw_history_signal w) = Some (radio_entry k ref t)"
    by (simp add: matching_entry_def assms(6) radio_entry_def)
  then show ?thesis
    using assms(1-5)
    by (simp add: reconnectProgressTracking_def resumeTracking_idle show_position_def radio_entry_def Let_def)
qed

definition video0 :: video where
  "video0 = \<lparr>vd_id = ''v'', vd_title = ''t'', vd_duration_seconds = None, vd_media_blob_id = None,
     vd_blake3 = None, vd_images = [], vd_poster_blob_id = None, vd_is_offline = None,
     vd_source_type = ''local'', vd_remote_server_id = None, vd_queue_entry_id = Some ''ev'',
     vd_queue_max_progress = None\<rparr>"

lemma lp_reconnect_takes_bookmark_witness:
  "qw_active_entry (reconnectProgressTracking
     ((loaded_world [VideoItem video0] (Some ''v'') 9)\<lparr>qw_history_signal := [radio_entry ''r'' station0 0]\<rparr>)) = Some ''r''"
proof (rule lp_reconnect_takes_bookmark)
  show "qw_app ((loaded_world [VideoItem video0] (Some ''v'') 9)\<lparr>qw_history_signal := [radio_entry ''r'' station0 0]\<rparr>)
      = Some \<lparr>as_queue = [VideoItem video0], as_current_item_key = Some ''v'', as_queue_open = False,
          as_active_remote_id = None, as_last_updated = 0\<rparr>"
    by (simp add: loaded_world_def Let_def)
qed (simp_all add: loaded_world_def initial_world_def Let_def)

end
