(* ===== verification/TransferQueue.thy ===== *)
theory TransferQueue
  imports Prelude Complex_Main "HOL-Library.AList"
begin

text \<open>
  Transfer queues, \<open>client/spume/src/app/services/transfers/transferQueue.ts\<close>: the registry of queues
  with their items, the control object of each queue, and the worker pool of \<open>runTransferQueue\<close> as a
  step relation. A worker awaits in three places: at the top of its loop it checks the control and
  waits if paused, after that it claims the next index, and it awaits \<open>sendOne\<close>; one step is what it
  does between two awaits, and any operation of the module can come in between. The blob registry
  (bucket A) is a parameter of the two item-level operations.
\<close>

section \<open>Data\<close>

datatype item_status = ItemPending | ItemActive | ItemPaused | ItemCompleted | ItemFailed | ItemTimeout

record 'r transfer_item =
  ti_id :: string
  ti_label :: string
  ti_status :: item_status
  ti_error :: "string option"
  ti_errorFull :: "string option"
  ti_progress :: "real option"
  ti_blake3 :: "string option"
  ti_result :: "'r option"

record 'r transfer_queue =
  tq_id :: string
  tq_kind :: string
  tq_destName :: string
  tq_items :: "'r transfer_item list"
  tq_paused :: bool
  tq_cancelled :: bool
  tq_done :: bool

text \<open>What \<open>sendOne\<close> settles with: a result with optional errors, or a rejection.\<close>

datatype 'r send_outcome = Sent "'r option" "string option" "string option" | SendThrew js_exn

datatype worker = AtTop | Waiting | Ready | Sending nat | Returned

text \<open>The control object and the local state of one \<open>runTransferQueue\<close>.\<close>

record run =
  rn_ids :: "string list" \<comment> \<open>\<open>itemId\<close> of each item\<close>
  rn_paused :: bool
  rn_cancelled :: bool
  rn_waiters :: "nat list" \<comment> \<open>workers in \<open>pauseWaiters\<close>\<close>
  rn_next :: nat
  rn_workers :: "worker list"
  rn_started :: "nat list" \<comment> \<open>indices \<open>sendOne\<close> was called for\<close>
  rn_finished :: bool

record 'r transfer_world =
  tw_queues :: "(string \<times> 'r transfer_queue) list"
  tw_controls :: "string set"
  tw_runs :: "string \<rightharpoonup> run"
  tw_done_calls :: "'r transfer_queue list" \<comment> \<open>arguments of \<open>onDone\<close>\<close>

definition empty_transfers :: "'r transfer_world" where
  "empty_transfers = \<lparr>tw_queues = [], tw_controls = {}, tw_runs = Map.empty, tw_done_calls = []\<rparr>"

section \<open>The registry\<close>

definition getTransferQueue :: "string \<Rightarrow> 'r transfer_world \<Rightarrow> 'r transfer_queue option" where
  "getTransferQueue q w = map_of (tw_queues w) q"

definition getTransferQueuesByKind :: "string \<Rightarrow> 'r transfer_world \<Rightarrow> 'r transfer_queue list" where
  "getTransferQueuesByKind k w = filter (\<lambda>q. tq_kind q = k) (map snd (tw_queues w))"

definition updateQueue ::
    "string \<Rightarrow> ('r transfer_queue \<Rightarrow> 'r transfer_queue) \<Rightarrow> 'r transfer_world \<Rightarrow> 'r transfer_world" where
  "updateQueue q patch w =
     (case map_of (tw_queues w) q of
        None \<Rightarrow> w
      | Some cur \<Rightarrow> w\<lparr>tw_queues := AList.update q (patch cur) (tw_queues w)\<rparr>)"

definition updateItem ::
    "string \<Rightarrow> string \<Rightarrow> ('r transfer_item \<Rightarrow> 'r transfer_item) \<Rightarrow> 'r transfer_world \<Rightarrow> 'r transfer_world" where
  "updateItem q k patch =
     updateQueue q (\<lambda>cur. cur\<lparr>tq_items := map (\<lambda>it. if ti_id it = k then patch it else it) (tq_items cur)\<rparr>)"

definition updateRun :: "string \<Rightarrow> (run \<Rightarrow> run) \<Rightarrow> 'r transfer_world \<Rightarrow> 'r transfer_world" where
  "updateRun q f w = w\<lparr>tw_runs := (tw_runs w)(q := map_option f (tw_runs w q))\<rparr>"

section \<open>Creating a queue\<close>

definition worker_count :: "nat option \<Rightarrow> nat \<Rightarrow> nat" where
  "worker_count concurrency n = min (max 1 (nullish_or concurrency 1)) (max n 1)"

definition new_run :: "string list \<Rightarrow> nat option \<Rightarrow> run" where
  "new_run ids concurrency =
     \<lparr>rn_ids = ids, rn_paused = False, rn_cancelled = False, rn_waiters = [], rn_next = 0,
      rn_workers = replicate (worker_count concurrency (length ids)) AtTop, rn_started = [],
      rn_finished = False\<rparr>"

text \<open>The items by their id and label; the queue id is drawn by \<open>newQueueId\<close>.\<close>

definition createTransferQueue ::
    "string \<Rightarrow> string \<Rightarrow> string \<Rightarrow> (string \<times> string) list \<Rightarrow> nat option \<Rightarrow> 'r transfer_world \<Rightarrow> 'r transfer_world" where
  "createTransferQueue q kind destName items concurrency w =
     w\<lparr>tw_controls := insert q (tw_controls w),
       tw_queues := AList.update q
         \<lparr>tq_id = q, tq_kind = kind, tq_destName = destName,
          tq_items = map (\<lambda>(k, l). \<lparr>ti_id = k, ti_label = l, ti_status = ItemPending, ti_error = None,
              ti_errorFull = None, ti_progress = None, ti_blake3 = None, ti_result = None\<rparr>) items,
          tq_paused = False, tq_cancelled = False, tq_done = False\<rparr> (tw_queues w),
       tw_runs := (tw_runs w)(q \<mapsto> new_run (map fst items) concurrency)\<rparr>"

section \<open>The workers\<close>

text \<open>\<open>if (ctrl.cancelled) return; await waitIfPaused(queueId)\<close>\<close>

definition run_top :: "bool \<Rightarrow> nat \<Rightarrow> run \<Rightarrow> run" where
  "run_top registered i r =
     (if rn_cancelled r then r\<lparr>rn_workers := (rn_workers r)[i := Returned]\<rparr>
      else if registered \<and> rn_paused r
      then r\<lparr>rn_workers := (rn_workers r)[i := Waiting], rn_waiters := rn_waiters r @ [i]\<rparr>
      else r\<lparr>rn_workers := (rn_workers r)[i := Ready]\<rparr>)"

text \<open>\<open>if (ctrl.cancelled) return; const index = nextIndex++\<close> up to the call of \<open>sendOne\<close>\<close>

definition run_claim :: "nat \<Rightarrow> run \<Rightarrow> run" where
  "run_claim i r =
     (if rn_cancelled r then r\<lparr>rn_workers := (rn_workers r)[i := Returned]\<rparr>
      else if length (rn_ids r) \<le> rn_next r
      then r\<lparr>rn_workers := (rn_workers r)[i := Returned], rn_next := Suc (rn_next r)\<rparr>
      else r\<lparr>rn_workers := (rn_workers r)[i := Sending (rn_next r)], rn_next := Suc (rn_next r),
             rn_started := rn_started r @ [rn_next r]\<rparr>)"

definition claims_item :: "run \<Rightarrow> bool" where
  "claims_item r = (\<not> rn_cancelled r \<and> rn_next r < length (rn_ids r))"

definition claim_step :: "string \<Rightarrow> nat \<Rightarrow> run \<Rightarrow> 'r transfer_world \<Rightarrow> 'r transfer_world" where
  "claim_step q i r w =
     updateRun q (run_claim i)
       (if claims_item r
        then updateItem q (rn_ids r ! rn_next r) (\<lambda>it. it\<lparr>ti_status := ItemActive\<rparr>) w else w)"

fun settle_item :: "'r send_outcome \<Rightarrow> 'r transfer_item \<Rightarrow> 'r transfer_item" where
  "settle_item (Sent result err errFull) it =
     (if truthy err
      then it\<lparr>ti_status := ItemFailed, ti_error := err, ti_errorFull := nullish_orelse errFull err\<rparr>
      else it\<lparr>ti_status := ItemCompleted, ti_result := result, ti_progress := Some 1\<rparr>)"
| "settle_item (SendThrew e) it =
     it\<lparr>ti_status := ItemFailed, ti_error := Some (exn_message e), ti_errorFull := Some (exn_message e)\<rparr>"

definition settle_step :: "string \<Rightarrow> nat \<Rightarrow> nat \<Rightarrow> 'r send_outcome \<Rightarrow> run \<Rightarrow> 'r transfer_world \<Rightarrow> 'r transfer_world" where
  "settle_step q i index outcome r w =
     updateRun q (\<lambda>r. r\<lparr>rn_workers := (rn_workers r)[i := AtTop]\<rparr>)
       (updateItem q (rn_ids r ! index) (settle_item outcome) w)"

text \<open>After \<open>Promise.all\<close>.\<close>

definition finish_step :: "string \<Rightarrow> 'r transfer_world \<Rightarrow> 'r transfer_world" where
  "finish_step q w =
     (let w1 = updateRun q (\<lambda>r. r\<lparr>rn_finished := True\<rparr>) (updateQueue q (\<lambda>c. c\<lparr>tq_done := True\<rparr>) w)
      in case getTransferQueue q w1 of
        None \<Rightarrow> w1
      | Some finished \<Rightarrow> w1\<lparr>tw_done_calls := tw_done_calls w1 @ [finished]\<rparr>)"

inductive run_step :: "string \<Rightarrow> 'r transfer_world \<Rightarrow> 'r transfer_world \<Rightarrow> bool" for q where
  tops: "tw_runs w q = Some r \<Longrightarrow> i < length (rn_workers r) \<Longrightarrow> rn_workers r ! i = AtTop \<Longrightarrow>
     run_step q w (updateRun q (run_top (q \<in> tw_controls w) i) w)"
| claims: "tw_runs w q = Some r \<Longrightarrow> i < length (rn_workers r) \<Longrightarrow> rn_workers r ! i = Ready \<Longrightarrow>
     run_step q w (claim_step q i r w)"
| settles: "tw_runs w q = Some r \<Longrightarrow> i < length (rn_workers r) \<Longrightarrow> rn_workers r ! i = Sending index \<Longrightarrow>
     run_step q w (settle_step q i index outcome r w)"
| finishes: "tw_runs w q = Some r \<Longrightarrow> set (rn_workers r) \<subseteq> {Returned} \<Longrightarrow> \<not> rn_finished r \<Longrightarrow>
     run_step q w (finish_step q w)"

section \<open>Operations\<close>

definition pauseTransferQueue :: "string \<Rightarrow> 'r transfer_world \<Rightarrow> 'r transfer_world" where
  "pauseTransferQueue q w =
     (if q \<notin> tw_controls w \<or> (\<exists>r. tw_runs w q = Some r \<and> rn_cancelled r) then w
      else updateQueue q (\<lambda>c. c\<lparr>tq_paused := True\<rparr>) (updateRun q (\<lambda>r. r\<lparr>rn_paused := True\<rparr>) w))"

definition wake :: "nat list \<Rightarrow> worker list \<Rightarrow> worker list" where
  "wake waiters ws = fold (\<lambda>i ws. ws[i := Ready]) waiters ws"

definition resumeTransferQueue :: "string \<Rightarrow> 'r transfer_world \<Rightarrow> 'r transfer_world" where
  "resumeTransferQueue q w =
     (if q \<notin> tw_controls w then w
      else updateRun q (\<lambda>r. r\<lparr>rn_paused := False, rn_workers := wake (rn_waiters r) (rn_workers r),
                              rn_waiters := []\<rparr>)
             (updateQueue q (\<lambda>c. c\<lparr>tq_paused := False\<rparr>) w))"

definition cancelTransferQueue :: "string \<Rightarrow> 'r transfer_world \<Rightarrow> 'r transfer_world" where
  "cancelTransferQueue q w =
     resumeTransferQueue q
       (updateQueue q (\<lambda>c. c\<lparr>tq_cancelled := True\<rparr>)
         (if q \<in> tw_controls w then updateRun q (\<lambda>r. r\<lparr>rn_cancelled := True\<rparr>) w else w))"

definition clearTransferQueue :: "string \<Rightarrow> 'r transfer_world \<Rightarrow> 'r transfer_world" where
  "clearTransferQueue q w =
     (case map_of (tw_queues w) q of
        Some c \<Rightarrow> if \<not> tq_done c then w
                  else w\<lparr>tw_queues := AList.delete q (tw_queues w), tw_controls := tw_controls w - {q}\<rparr>
      | None \<Rightarrow> w\<lparr>tw_queues := AList.delete q (tw_queues w), tw_controls := tw_controls w - {q}\<rparr>)"

definition resetTransferQueues :: "'r transfer_world \<Rightarrow> 'r transfer_world" where
  "resetTransferQueues w = w\<lparr>tw_queues := [], tw_controls := {}\<rparr>"

text \<open>The three reports of the item context, and the report from outside.\<close>

definition reportBlake3 :: "string \<Rightarrow> string \<Rightarrow> string \<Rightarrow> 'r transfer_world \<Rightarrow> 'r transfer_world" where
  "reportBlake3 q k b = updateItem q k (\<lambda>it. it\<lparr>ti_blake3 := Some b\<rparr>)"

definition reportTransferQueueItemProgress :: "string \<Rightarrow> string \<Rightarrow> real \<Rightarrow> 'r transfer_world \<Rightarrow> 'r transfer_world" where
  "reportTransferQueueItemProgress q k p = updateItem q k (\<lambda>it. it\<lparr>ti_progress := Some p\<rparr>)"

definition reportLabel :: "string \<Rightarrow> string \<Rightarrow> string \<Rightarrow> 'r transfer_world \<Rightarrow> 'r transfer_world" where
  "reportLabel q k l = updateItem q k (\<lambda>it. it\<lparr>ti_label := l\<rparr>)"

definition find_item :: "string \<Rightarrow> string \<Rightarrow> 'r transfer_world \<Rightarrow> 'r transfer_item option" where
  "find_item q k w =
     (case map_of (tw_queues w) q of None \<Rightarrow> None | Some c \<Rightarrow> List.find (\<lambda>it. ti_id it = k) (tq_items c))"

definition pauseTransferQueueItem ::
    "(string \<Rightarrow> bool) \<Rightarrow> string \<Rightarrow> string \<Rightarrow> 'r transfer_world \<Rightarrow> bool \<times> 'r transfer_world" where
  "pauseTransferQueueItem pauseBlobTransfer q k w =
     (case Option.bind (find_item q k w) ti_blake3 of
        None \<Rightarrow> (False, w)
      | Some b \<Rightarrow>
          if b = [] then (False, w)
          else if pauseBlobTransfer b then (True, updateItem q k (\<lambda>it. it\<lparr>ti_status := ItemPaused\<rparr>) w)
          else (False, w))"

definition resumeTransferQueueItem :: "string \<Rightarrow> string \<Rightarrow> 'r transfer_world \<Rightarrow> 'r transfer_world" where
  "resumeTransferQueueItem q k w =
     (if \<not> truthy (Option.bind (find_item q k w) ti_blake3) then w
      else updateItem q k (\<lambda>it. it\<lparr>ti_status := ItemActive\<rparr>) w)"

section \<open>Interleavings\<close>

text \<open>
  Anything the module can do, in any order. A queue id is drawn once. The three reports, the status
  update that follows \<open>await pauseBlobTransfer\<close> and the one of \<open>resumeTransferQueueItem\<close> are all
  \<open>updateItem\<close> with a patch that leaves the id alone.
\<close>

inductive transfer_step :: "'r transfer_world \<Rightarrow> 'r transfer_world \<Rightarrow> bool" where
  creates: "tw_runs w q = None \<Longrightarrow>
     transfer_step w (createTransferQueue q kind dest items concurrency w)"
| runs: "run_step q w w' \<Longrightarrow> transfer_step w w'"
| pauses: "transfer_step w (pauseTransferQueue q w)"
| resumes: "transfer_step w (resumeTransferQueue q w)"
| cancels: "transfer_step w (cancelTransferQueue q w)"
| clears: "transfer_step w (clearTransferQueue q w)"
| resets: "transfer_step w (resetTransferQueues w)"
| reports: "(\<And>it. ti_id (patch it) = ti_id it) \<Longrightarrow> transfer_step w (updateItem q k patch w)"

inductive transfer_reachable :: "'r transfer_world \<Rightarrow> bool" where
  starts: "transfer_reachable empty_transfers"
| moves: "transfer_reachable w \<Longrightarrow> transfer_step w w' \<Longrightarrow> transfer_reachable w'"

inductive_cases run_stepE: "run_step q w w'"

end
