(* ===== verification/TransferQueueProps.thy ===== *)
theory TransferQueueProps
  imports TransferQueue
begin

text \<open>
  Properties of the transfer queues: the moves a single run can make under any interleaving
  (\<open>pool_move\<close>), its invariant \<open>run_ok\<close>, the rank that bounds its own steps, and the agreement of
  the registry with the control objects.
\<close>

section \<open>The moves of one run\<close>

inductive pool_move :: "bool \<Rightarrow> run \<Rightarrow> run \<Rightarrow> bool" for reg r where
  pm_stay: "pool_move reg r r"
| pm_top: "i < length (rn_workers r) \<Longrightarrow> rn_workers r ! i = AtTop \<Longrightarrow> pool_move reg r (run_top reg i r)"
| pm_claim: "i < length (rn_workers r) \<Longrightarrow> rn_workers r ! i = Ready \<Longrightarrow> pool_move reg r (run_claim i r)"
| pm_settle: "i < length (rn_workers r) \<Longrightarrow> rn_workers r ! i = Sending k \<Longrightarrow>
     pool_move reg r (r\<lparr>rn_workers := (rn_workers r)[i := AtTop]\<rparr>)"
| pm_finish: "set (rn_workers r) \<subseteq> {Returned} \<Longrightarrow> \<not> rn_finished r \<Longrightarrow>
     pool_move reg r (r\<lparr>rn_finished := True\<rparr>)"
| pm_pause: "\<not> rn_cancelled r \<Longrightarrow> pool_move reg r (r\<lparr>rn_paused := True\<rparr>)"
| pm_resume: "pool_move reg r (r\<lparr>rn_paused := False,
       rn_workers := wake (rn_waiters r) (rn_workers r), rn_waiters := []\<rparr>)"
| pm_cancel: "pool_move reg r (r\<lparr>rn_cancelled := True, rn_paused := False,
       rn_workers := wake (rn_waiters r) (rn_workers r), rn_waiters := []\<rparr>)"

lemma updateQueue_frame [simp]:
  "tw_runs (updateQueue q f w) = tw_runs w" "tw_controls (updateQueue q f w) = tw_controls w"
  "tw_done_calls (updateQueue q f w) = tw_done_calls w"
  by (simp_all add: updateQueue_def split: option.split)

lemma updateItem_frame [simp]:
  "tw_runs (updateItem q k f w) = tw_runs w" "tw_controls (updateItem q k f w) = tw_controls w"
  "tw_done_calls (updateItem q k f w) = tw_done_calls w"
  by (simp_all add: updateItem_def)

lemma updateRun_frame [simp]:
  "tw_controls (updateRun q f w) = tw_controls w" "tw_queues (updateRun q f w) = tw_queues w"
  "tw_done_calls (updateRun q f w) = tw_done_calls w"
  by (simp_all add: updateRun_def)

lemma updateRun_runs: "tw_runs (updateRun q f w) q' = (if q' = q then map_option f (tw_runs w q) else tw_runs w q')"
  by (simp add: updateRun_def)

lemma finish_frame [simp]:
  "tw_controls (finish_step q w) = tw_controls w"
  "tw_runs (finish_step q w) = tw_runs (updateRun q (\<lambda>r. r\<lparr>rn_finished := True\<rparr>) w)"
  by (simp_all add: finish_step_def Let_def updateRun_def fun_eq_iff split: option.split)

lemma clear_frame [simp]: "tw_runs (clearTransferQueue q w) = tw_runs w"
  by (simp add: clearTransferQueue_def split: option.split)

lemma run_step_run:
  assumes "run_step p w w'" "tw_runs w q = Some r"
  shows "tw_controls w' = tw_controls w \<and> (\<exists>r'. tw_runs w' q = Some r' \<and> pool_move (q \<in> tw_controls w) r r'
           \<and> (p \<noteq> q \<longrightarrow> r' = r))"
  using assms
  by (cases rule: run_step.cases)
    (auto simp: claim_step_def settle_step_def updateRun_runs intro: pool_move.intros)

lemma transfer_step_run:
  assumes "transfer_step w w'" "tw_runs w q = Some r"
  shows "\<exists>r'. tw_runs w' q = Some r' \<and> pool_move (q \<in> tw_controls w) r r'
           \<and> (q \<in> tw_controls w' \<longrightarrow> q \<in> tw_controls w)"
  using assms(1)
proof (cases rule: transfer_step.cases)
  case (runs p)
  then show ?thesis using run_step_run [OF runs assms(2)] by auto
next
  case (pauses p)
  with assms(2) show ?thesis
    by (auto simp: pauseTransferQueue_def updateRun_runs intro: pm_stay pm_pause)
next
  case (resumes p)
  with assms(2) show ?thesis
    by (auto simp: resumeTransferQueue_def updateRun_runs intro: pm_stay pm_resume)
next
  case (cancels p)
  with assms(2) show ?thesis
    using pm_cancel [of "q \<in> tw_controls w" r]
    by (auto simp: cancelTransferQueue_def resumeTransferQueue_def updateRun_runs intro: pm_stay)
next
  case (clears p)
  with assms(2) show ?thesis
    by (auto simp: clearTransferQueue_def intro: pm_stay split: option.splits if_splits)
qed (use assms(2) in \<open>auto simp: createTransferQueue_def resetTransferQueues_def intro: pm_stay\<close>)

lemma transfer_step_new:
  assumes "transfer_step w w'" "tw_runs w q = None" "tw_runs w' q = Some r"
  shows "\<exists>ids c. r = new_run ids c"
  using assms(1)
proof (cases rule: transfer_step.cases)
  case (runs p)
  then show ?thesis using assms(2,3)
    by (cases rule: run_step.cases)
      (auto simp: claim_step_def settle_step_def updateRun_runs split: if_splits)
qed (use assms(2,3) in \<open>auto simp: createTransferQueue_def resetTransferQueues_def pauseTransferQueue_def
    resumeTransferQueue_def cancelTransferQueue_def updateRun_runs split: if_splits\<close>)

section \<open>The invariant of a run\<close>

lemma wake_length [simp]: "length (wake is ws) = length ws"
  by (induction "is" arbitrary: ws) (simp_all add: wake_def)

lemma wake_nth:
  "i < length ws \<Longrightarrow> wake is ws ! i = (if i \<in> set is then Ready else ws ! i)"
proof (induction "is" arbitrary: ws)
  case Nil
  then show ?case by (simp add: wake_def)
next
  case (Cons j js)
  have "wake (j # js) ws = wake js (ws[j := Ready])" by (simp add: wake_def)
  with Cons show ?case by (auto simp: nth_list_update)
qed

lemma wake_Nil [simp]: "wake is ws = [] \<longleftrightarrow> ws = []"
  using wake_length [of "is" ws] by (metis length_0_conv)

text \<open>The claimed indices; who sends what; who waits; who has returned; what finished means.\<close>

definition claims_ok :: "run \<Rightarrow> bool" where
  "claims_ok r \<longleftrightarrow> rn_started r = [0..<min (rn_next r) (length (rn_ids r))]"

fun sent :: "worker \<Rightarrow> nat list" where
  "sent (Sending k) = [k]"
| "sent _ = []"

definition in_flight :: "run \<Rightarrow> nat list" where
  "in_flight r = concat (map sent (rn_workers r))"

definition flight_ok :: "nat \<Rightarrow> worker list \<Rightarrow> bool" where
  "flight_ok m ws \<longleftrightarrow> distinct (concat (map sent ws)) \<and> set (concat (map sent ws)) \<subseteq> {..<m}"

definition sends_ok :: "run \<Rightarrow> bool" where
  "sends_ok r \<longleftrightarrow> flight_ok (min (rn_next r) (length (rn_ids r))) (rn_workers r)"

definition waits_ok :: "run \<Rightarrow> bool" where
  "waits_ok r \<longleftrightarrow>
     (\<forall>i < length (rn_workers r). rn_workers r ! i = Waiting \<longrightarrow> i \<in> set (rn_waiters r))
   \<and> (rn_waiters r \<noteq> [] \<longrightarrow> rn_paused r) \<and> (rn_cancelled r \<longrightarrow> \<not> rn_paused r)"

definition returns_ok :: "run \<Rightarrow> bool" where
  "returns_ok r \<longleftrightarrow> (\<forall>i < length (rn_workers r). rn_workers r ! i = Returned \<longrightarrow>
     rn_cancelled r \<or> length (rn_ids r) \<le> rn_next r)"

definition finish_ok :: "run \<Rightarrow> bool" where
  "finish_ok r \<longleftrightarrow> rn_workers r \<noteq> [] \<and> (\<forall>i < length (rn_workers r).
     (rn_finished r \<longrightarrow> rn_workers r ! i = Returned) \<and> (i \<in> set (rn_waiters r) \<longrightarrow> rn_workers r ! i = Waiting))"

definition run_ok :: "run \<Rightarrow> bool" where
  "run_ok r \<longleftrightarrow> claims_ok r \<and> sends_ok r \<and> waits_ok r \<and> returns_ok r \<and> finish_ok r"

lemma new_run_ok: "run_ok (new_run ids c)"
  by (auto simp: run_ok_def claims_ok_def sends_ok_def flight_ok_def waits_ok_def returns_ok_def finish_ok_def
      new_run_def worker_count_def)

named_theorems move_simps \<open>what a move does to the fields of a run\<close>
declare run_top_def [move_simps] run_claim_def [move_simps] nth_list_update [move_simps]
  wake_nth [move_simps]

lemma move_keeps:
  assumes "pool_move reg r r'"
  shows "rn_ids r' = rn_ids r \<and> length (rn_workers r') = length (rn_workers r) \<and> rn_next r \<le> rn_next r'
     \<and> (rn_cancelled r \<longrightarrow> rn_cancelled r') \<and> (rn_finished r \<longrightarrow> rn_finished r')"
  using assms by cases (auto simp: move_simps)

lemma move_claims: "pool_move reg r r' \<Longrightarrow> claims_ok r \<Longrightarrow> claims_ok r'"
  by (erule pool_move.cases) (auto simp: claims_ok_def move_simps min_def)

lemma flight_split:
  assumes "i < length ws"
  shows "concat (map sent ws) = concat (map sent (take i ws)) @ sent (ws ! i) @ concat (map sent (drop (Suc i) ws))"
    and "concat (map sent (ws[i := a])) = concat (map sent (take i ws)) @ sent a @ concat (map sent (drop (Suc i) ws))"
  using arg_cong [OF id_take_nth_drop [OF assms], of "\<lambda>xs. concat (map sent xs)"] assms
  by (simp_all add: upd_conv_take_nth_drop)

lemma flight_mono: "flight_ok m ws \<Longrightarrow> m \<le> m' \<Longrightarrow> flight_ok m' ws"
  by (auto simp: flight_ok_def)

lemma flight_idle:
  assumes "flight_ok m ws" "sent a = []"
  shows "flight_ok m (ws[i := a])"
proof (cases "i < length ws")
  case True
  with assms show ?thesis
    unfolding flight_ok_def flight_split(2) [OF True] flight_split(1) [OF True] by auto
qed (use assms in \<open>simp add: list_update_beyond\<close>)

lemma flight_claim:
  assumes "flight_ok m ws" "i < length ws"
  shows "flight_ok (Suc m) (ws[i := Sending m])"
  using assms(1) unfolding flight_ok_def flight_split(2) [OF assms(2)] flight_split(1) [OF assms(2)]
  by auto

lemma flight_wake: "flight_ok m ws \<Longrightarrow> flight_ok m (wake is ws)"
proof (induction "is" arbitrary: ws)
  case (Cons j js)
  then show ?case using flight_idle [of m ws Ready j] by (simp add: wake_def)
qed (simp add: wake_def)

lemma move_sends:
  assumes "pool_move reg r r'" "sends_ok r"
  shows "sends_ok r'"
  using assms(1)
proof cases
  case (pm_claim i)
  show ?thesis
  proof (cases "rn_next r < length (rn_ids r)")
    case True
    then show ?thesis
      using assms(2) flight_claim [of "rn_next r" "rn_workers r" i] pm_claim(2) flight_idle
      by (auto simp: pm_claim(1) sends_ok_def run_claim_def min_def)
  next
    case False
    with assms(2) have "flight_ok (length (rn_ids r)) (rn_workers r)"
      by (simp add: sends_ok_def min_absorb2)
    with False show ?thesis
      by (simp add: pm_claim(1) sends_ok_def run_claim_def min_absorb2 flight_idle)
  qed
qed (use assms(2) in \<open>auto simp: sends_ok_def run_top_def intro: flight_idle flight_wake\<close>)

lemma move_waits: "pool_move reg r r' \<Longrightarrow> waits_ok r \<Longrightarrow> waits_ok r'"
  by (erule pool_move.cases) (auto simp: waits_ok_def move_simps split: if_splits)

lemma move_returns: "pool_move reg r r' \<Longrightarrow> returns_ok r \<Longrightarrow> returns_ok r'"
  by (erule pool_move.cases) (auto simp: returns_ok_def move_simps split: if_splits)

lemma all_returned: "set ws \<subseteq> {Returned} \<longleftrightarrow> (\<forall>i < length ws. ws ! i = Returned)"
  by (auto simp: in_set_conv_nth dest: nth_mem)

lemma move_finish: "pool_move reg r r' \<Longrightarrow> finish_ok r \<Longrightarrow> finish_ok r'"
  by (erule pool_move.cases) (auto simp: finish_ok_def move_simps all_returned split: if_splits)

lemma move_ok: "pool_move reg r r' \<Longrightarrow> run_ok r \<Longrightarrow> run_ok r'"
  unfolding run_ok_def
  by (blast intro: move_claims move_sends move_waits move_returns move_finish)

section \<open>The rank of a run\<close>

primrec worker_rank :: "worker \<Rightarrow> nat" where
  "worker_rank AtTop = 2"
| "worker_rank Waiting = 1"
| "worker_rank Ready = 1"
| "worker_rank (Sending k) = 3"
| "worker_rank Returned = 0"

definition pool_rank :: "run \<Rightarrow> nat" where
  "pool_rank r = 3 * (length (rn_ids r) - rn_next r) + sum_list (map worker_rank (rn_workers r))
     + (if rn_finished r then 0 else 1)"

lemma rank_update:
  assumes "i < length ws"
  shows "sum_list (map worker_rank (ws[i := a])) + worker_rank (ws ! i) = sum_list (map worker_rank ws) + worker_rank a"
  using arg_cong [OF id_take_nth_drop [OF assms], of "\<lambda>xs. sum_list (map worker_rank xs)"] assms
  by (simp add: upd_conv_take_nth_drop)

lemma rank_wake:
  assumes "\<And>i. i < length ws \<Longrightarrow> i \<in> set is \<Longrightarrow> ws ! i = Waiting"
  shows "sum_list (map worker_rank (wake is ws)) = sum_list (map worker_rank ws)"
proof -
  have "map worker_rank (wake is ws) = map worker_rank ws"
    using assms by (auto intro!: nth_equalityI simp: wake_nth)
  then show ?thesis by simp
qed

lemma finish_waiters: "finish_ok r \<Longrightarrow> i < length (rn_workers r) \<Longrightarrow> i \<in> set (rn_waiters r) \<Longrightarrow> rn_workers r ! i = Waiting"
  by (simp add: finish_ok_def)

lemma rank_mono: "pool_move reg r r' \<Longrightarrow> finish_ok r \<Longrightarrow> pool_rank r' \<le> pool_rank r"
proof (erule pool_move.cases)
  fix i assume "r' = run_claim i r" "i < length (rn_workers r)" "rn_workers r ! i = Ready"
  then show ?thesis
    using rank_update [of i "rn_workers r" Returned] rank_update [of i "rn_workers r" "Sending (rn_next r)"]
    by (auto simp: pool_rank_def run_claim_def)
next
  fix i assume "r' = run_top reg i r" "i < length (rn_workers r)" "rn_workers r ! i = AtTop"
  then show ?thesis
    using rank_update [of i "rn_workers r" Returned] rank_update [of i "rn_workers r" Waiting]
      rank_update [of i "rn_workers r" Ready]
    by (auto simp: pool_rank_def run_top_def)
next
  fix i k assume "r' = r\<lparr>rn_workers := (rn_workers r)[i := AtTop]\<rparr>" "i < length (rn_workers r)"
    "rn_workers r ! i = Sending k"
  then show ?thesis
    using rank_update [of i "rn_workers r" AtTop] by (auto simp: pool_rank_def)
qed (simp_all add: pool_rank_def rank_wake finish_waiters)

lemma own_step_rank:
  assumes "run_step q w w'" "tw_runs w q = Some r"
  obtains r' where "tw_runs w' q = Some r'" "pool_rank r' < pool_rank r"
  using assms(1)
proof cases
  case (tops s i)
  with assms(2) have "pool_rank (run_top (q \<in> tw_controls w) i r) < pool_rank r"
    using rank_update [of i "rn_workers r" Returned] rank_update [of i "rn_workers r" Waiting]
      rank_update [of i "rn_workers r" Ready]
    by (auto simp: pool_rank_def run_top_def)
  with tops assms(2) that show ?thesis by (simp add: updateRun_runs)
next
  case (claims s i)
  with assms(2) have "pool_rank (run_claim i r) < pool_rank r"
    using rank_update [of i "rn_workers r" Returned] rank_update [of i "rn_workers r" "Sending (rn_next r)"]
    by (auto simp: pool_rank_def run_claim_def)
  with claims assms(2) that show ?thesis by (simp add: updateRun_runs claim_step_def)
next
  case (settles s i k out)
  with assms(2) have "pool_rank (r\<lparr>rn_workers := (rn_workers r)[i := AtTop]\<rparr>) < pool_rank r"
    using rank_update [of i "rn_workers r" AtTop] by (auto simp: pool_rank_def)
  with settles assms(2) that show ?thesis by (simp add: updateRun_runs settle_step_def)
next
  case (finishes s)
  with assms(2) that show ?thesis by (simp add: updateRun_runs pool_rank_def)
qed

lemma not_stuck:
  assumes "tw_runs w q = Some r" "Waiting \<notin> set (rn_workers r)" "\<not> rn_finished r"
  shows "\<exists>w'. run_step q w w'"
proof (cases "set (rn_workers r) \<subseteq> {Returned}")
  case True
  with assms show ?thesis by (blast intro: run_step.finishes)
next
  case False
  then obtain i where "i < length (rn_workers r)" "rn_workers r ! i \<noteq> Returned"
    by (auto simp: all_returned)
  moreover from this assms(2) have "rn_workers r ! i \<noteq> Waiting" by (metis nth_mem)
  ultimately show ?thesis
    using assms(1) by (cases "rn_workers r ! i") (blast intro: run_step.intros)+
qed

section \<open>The registry mirrors the control objects\<close>

definition shows_run :: "'r transfer_queue \<Rightarrow> string \<Rightarrow> run \<Rightarrow> bool" where
  "shows_run c q r \<longleftrightarrow> tq_id c = q \<and> map ti_id (tq_items c) = rn_ids r \<and> tq_paused c = rn_paused r
     \<and> tq_cancelled c = rn_cancelled r \<and> tq_done c = rn_finished r"

definition queue_ok :: "'r transfer_world \<Rightarrow> string \<Rightarrow> bool" where
  "queue_ok w q \<longleftrightarrow> (q \<in> tw_controls w \<longleftrightarrow> map_of (tw_queues w) q \<noteq> None)
     \<and> (\<forall>c. map_of (tw_queues w) q = Some c \<longrightarrow> (\<exists>r. tw_runs w q = Some r \<and> shows_run c q r))"

lemma map_of_updateQueue:
  "map_of (tw_queues (updateQueue q f w)) p =
     (if p = q then map_option f (map_of (tw_queues w) q) else map_of (tw_queues w) p)"
  by (simp add: updateQueue_def update_conv' split: option.split)

lemma map_of_updateItem:
  "map_of (tw_queues (updateItem q k f w)) p =
     (if p = q then map_option (\<lambda>cur. cur\<lparr>tq_items := map (\<lambda>it. if ti_id it = k then f it else it) (tq_items cur)\<rparr>)
        (map_of (tw_queues w) q) else map_of (tw_queues w) p)"
  by (simp add: updateItem_def map_of_updateQueue)

lemma queue_ok_frame:
  assumes "queue_ok w p" "map_of (tw_queues w') p = map_of (tw_queues w) p"
    "p \<in> tw_controls w' \<longleftrightarrow> p \<in> tw_controls w" "tw_runs w' p = tw_runs w p"
  shows "queue_ok w' p"
  using assms by (simp add: queue_ok_def)

lemma queue_ok_step:
  assumes "queue_ok w p" "p \<in> tw_controls w' \<longleftrightarrow> p \<in> tw_controls w"
    "map_of (tw_queues w') p = map_option f (map_of (tw_queues w) p)" "tw_runs w' p = map_option g (tw_runs w p)"
    "\<And>c r. shows_run c p r \<Longrightarrow> tw_runs w p = Some r \<Longrightarrow> shows_run (f c) p (g r)"
  shows "queue_ok w' p"
  using assms by (auto simp: queue_ok_def)

lemma queue_ok_item:
  assumes "queue_ok w p" "\<And>it. ti_id (f it) = ti_id it"
  shows "queue_ok (updateItem q k f w) p"
proof (cases "p = q")
  case True
  show ?thesis
    by (rule queue_ok_step [OF assms(1), where g = "\<lambda>r. r"
          and f = "\<lambda>cur. cur\<lparr>tq_items := map (\<lambda>it. if ti_id it = k then f it else it) (tq_items cur)\<rparr>"])
      (simp_all add: True map_of_updateItem shows_run_def option.map_ident comp_def if_distrib assms(2) cong: if_cong)
qed (rule queue_ok_frame [OF assms(1)], simp_all add: map_of_updateItem)

lemma queue_ok_run:
  assumes "queue_ok w p" "\<And>r. tw_runs w p = Some r \<Longrightarrow>
      rn_ids (f r) = rn_ids r \<and> rn_paused (f r) = rn_paused r \<and> rn_cancelled (f r) = rn_cancelled r \<and> rn_finished (f r) = rn_finished r"
  shows "queue_ok (updateRun q f w) p"
proof (cases "p = q")
  case True
  show ?thesis
    by (rule queue_ok_step [OF assms(1), where f = "\<lambda>c. c" and g = f])
      (use assms(2) in \<open>simp_all add: True updateRun_runs option.map_ident shows_run_def\<close>)
qed (rule queue_ok_frame [OF assms(1)], simp_all add: updateRun_runs)

lemma settle_item_id [simp]: "ti_id (settle_item out it) = ti_id it"
  by (cases out) simp_all

lemma queue_ok_run_step:
  assumes "run_step q w w'" "queue_ok w p"
  shows "queue_ok w' p"
  using assms(1)
proof cases
  case (tops r i)
  show ?thesis unfolding tops(1)
    by (rule queue_ok_run [OF assms(2)]) (simp add: run_top_def)
next
  case (claims r i)
  show ?thesis unfolding claims(1) claim_step_def
    by (rule queue_ok_run) (auto intro: queue_ok_item assms(2) simp: run_claim_def)
next
  case (settles r i k out)
  show ?thesis unfolding settles(1) settle_step_def
    by (rule queue_ok_run) (auto intro: queue_ok_item assms(2))
next
  case (finishes r)
  have *: "queue_ok (updateRun q (\<lambda>r. r\<lparr>rn_finished := True\<rparr>) (updateQueue q (\<lambda>c. c\<lparr>tq_done := True\<rparr>) w)) p"
  proof (cases "p = q")
    case True
    show ?thesis
      by (rule queue_ok_step [OF assms(2), where f = "\<lambda>c. c\<lparr>tq_done := True\<rparr>" and g = "\<lambda>r. r\<lparr>rn_finished := True\<rparr>"])
        (simp_all add: True map_of_updateQueue updateRun_runs shows_run_def)
  qed (rule queue_ok_frame [OF assms(2)], simp_all add: map_of_updateQueue updateRun_runs)
  then show ?thesis
    by (rule queue_ok_frame) (simp_all add: finishes(1) finish_step_def Let_def split: option.split)
qed

lemma queue_ok_both:
  assumes "queue_ok w p"
    "\<And>c r. shows_run c q r \<Longrightarrow> tw_runs w q = Some r \<Longrightarrow> shows_run (f c) q (g r)"
  shows "queue_ok (updateQueue q f (updateRun q g w)) p"
proof (cases "p = q")
  case True
  show ?thesis
    by (rule queue_ok_step [OF assms(1), where f = f and g = g])
      (use assms(2) in \<open>simp_all add: True map_of_updateQueue updateRun_runs\<close>)
qed (rule queue_ok_frame [OF assms(1)], simp_all add: map_of_updateQueue updateRun_runs)

lemma updates_commute: "updateRun q g (updateQueue q f w) = updateQueue q f (updateRun q g w)"
  by (simp add: updateRun_def updateQueue_def split: option.split)

lemma queue_ok_pause: "queue_ok w p \<Longrightarrow> queue_ok (pauseTransferQueue q w) p"
  by (auto simp: pauseTransferQueue_def shows_run_def intro!: queue_ok_both)

lemma queue_ok_resume: "queue_ok w p \<Longrightarrow> queue_ok (resumeTransferQueue q w) p"
  by (auto simp: resumeTransferQueue_def shows_run_def updates_commute intro!: queue_ok_both)

lemma queue_ok_cancel:
  assumes "\<And>p. queue_ok w p"
  shows "queue_ok (cancelTransferQueue q w) p"
proof (cases "q \<in> tw_controls w")
  case True
  then show ?thesis
    using assms by (auto simp: cancelTransferQueue_def shows_run_def
        intro!: queue_ok_resume queue_ok_both)
next
  case False
  with assms [of q] have "updateQueue q (\<lambda>c. c\<lparr>tq_cancelled := True\<rparr>) w = w"
    by (simp add: queue_ok_def updateQueue_def)
  with False assms show ?thesis by (simp add: cancelTransferQueue_def queue_ok_resume)
qed

lemma queue_ok_clear: "queue_ok w p \<Longrightarrow> queue_ok (clearTransferQueue q w) p"
  by (auto simp: clearTransferQueue_def queue_ok_def delete_conv' split: option.split)

lemma queue_ok_create:
  assumes "queue_ok w p"
  shows "queue_ok (createTransferQueue q kind dest items c w) p"
  using assms
  by (auto simp: createTransferQueue_def queue_ok_def update_conv' shows_run_def new_run_def case_prod_beta' comp_def)

lemma queue_ok_reset: "queue_ok (resetTransferQueues w) p"
  by (simp add: resetTransferQueues_def queue_ok_def)

lemma reachable_queue_ok: "transfer_reachable w \<Longrightarrow> queue_ok w p"
proof (induction arbitrary: p rule: transfer_reachable.induct)
  case starts
  then show ?case by (simp add: queue_ok_def empty_transfers_def)
next
  case (moves w w')
  from moves(2) show ?case
    by cases (auto intro: queue_ok_create queue_ok_run_step queue_ok_pause queue_ok_resume
        queue_ok_cancel queue_ok_clear queue_ok_item queue_ok_reset moves.IH)
qed

section \<open>Completion is reported once\<close>

definition reports_of :: "'r transfer_world \<Rightarrow> string \<Rightarrow> 'r transfer_queue list" where
  "reports_of w q = filter (\<lambda>c. tq_id c = q) (tw_done_calls w)"

definition reports_ok :: "'r transfer_world \<Rightarrow> string \<Rightarrow> bool" where
  "reports_ok w q \<longleftrightarrow> length (reports_of w q) \<le> 1 \<and> (\<forall>c \<in> set (reports_of w q). tq_done c)
     \<and> (reports_of w q \<noteq> [] \<longrightarrow> (\<exists>r. tw_runs w q = Some r \<and> rn_finished r))"

lemma reports_frame:
  assumes "reports_ok w q" "tw_done_calls w' = tw_done_calls w" "transfer_step w w'"
  shows "reports_ok w' q"
proof -
  have "\<exists>r'. tw_runs w' q = Some r' \<and> rn_finished r'" if "tw_runs w q = Some r" "rn_finished r" for r
    using transfer_step_run [OF assms(3) that(1)] that(2) by (blast dest: move_keeps)
  then show ?thesis using assms(1,2) by (auto simp: reports_ok_def reports_of_def)
qed

lemma reports_finish:
  assumes "reports_ok w p" "tw_runs w q = Some r" "\<not> rn_finished r" "queue_ok w q"
  shows "reports_ok (finish_step q w) p"
  using assms
  by (cases "map_of (tw_queues w) q"; cases "p = q")
    (auto simp: finish_step_def Let_def getTransferQueue_def map_of_updateQueue reports_ok_def reports_of_def
      updateRun_runs queue_ok_def shows_run_def)

lemma reachable_reports_ok: "transfer_reachable w \<Longrightarrow> reports_ok w q"
proof (induction rule: transfer_reachable.induct)
  case starts
  then show ?case by (simp add: reports_ok_def reports_of_def empty_transfers_def)
next
  case (moves w w')
  show ?case
  proof (cases "tw_done_calls w' = tw_done_calls w")
    case False
    from moves(2) False obtain p r where "w' = finish_step p w" "tw_runs w p = Some r" "\<not> rn_finished r"
      by cases (auto simp: createTransferQueue_def pauseTransferQueue_def resumeTransferQueue_def
          cancelTransferQueue_def clearTransferQueue_def resetTransferQueues_def claim_step_def settle_step_def
          elim!: run_stepE split: option.splits if_splits)
    with moves show ?thesis by (simp add: reports_finish reachable_queue_ok)
  qed (use moves reports_frame in blast)
qed

lemma reachable_run_ok: "transfer_reachable w \<Longrightarrow> tw_runs w q = Some r \<Longrightarrow> run_ok r"
proof (induction arbitrary: r rule: transfer_reachable.induct)
  case (moves w w')
  show ?case
  proof (cases "tw_runs w q")
    case None
    with moves show ?thesis using transfer_step_new new_run_ok by blast
  next
    case (Some r0)
    with moves show ?thesis using transfer_step_run [OF moves(2) Some] move_ok by fastforce
  qed
qed (simp add: empty_transfers_def)

end
