(* ===== verification/TransferClaims.thy ===== *)
theory TransferClaims
  imports TransferQueueProps
begin

text \<open>
  The properties of the transfer queues, over every interleaving of the module's operations with
  the workers' steps.
\<close>

section \<open>Runs from their creation on\<close>

text \<open>\<open>tq_run q w k w'\<close>: from \<open>w\<close> to \<open>w'\<close> by any steps, \<open>k\<close> of them steps of the runner of \<open>q\<close>.\<close>

inductive tq_run :: "string \<Rightarrow> 'r transfer_world \<Rightarrow> nat \<Rightarrow> 'r transfer_world \<Rightarrow> bool" for q w where
  tq_zero: "tq_run q w 0 w"
| tq_own: "tq_run q w k w1 \<Longrightarrow> run_step q w1 w2 \<Longrightarrow> tq_run q w (Suc k) w2"
| tq_other: "tq_run q w k w1 \<Longrightarrow> transfer_step w1 w2 \<Longrightarrow> tq_run q w k w2"

lemma tq_run_run:
  assumes "tq_run q w k w'" "tw_runs w q = Some r" "run_ok r"
  shows "\<exists>r'. tw_runs w' q = Some r' \<and> run_ok r' \<and> rn_ids r' = rn_ids r
     \<and> length (rn_workers r') = length (rn_workers r) \<and> k + pool_rank r' \<le> pool_rank r"
  using assms(1)
proof (induction rule: tq_run.induct)
  case tq_zero
  with assms show ?case by simp
next
  case (tq_own k w1 w2)
  then obtain r1 where r1: "tw_runs w1 q = Some r1" "run_ok r1" "rn_ids r1 = rn_ids r"
    "length (rn_workers r1) = length (rn_workers r)" "k + pool_rank r1 \<le> pool_rank r" by blast
  from run_step_run [OF tq_own(2) r1(1)] obtain r2 where r2: "tw_runs w2 q = Some r2"
    "pool_move (q \<in> tw_controls w1) r1 r2" by blast
  moreover from own_step_rank [OF tq_own(2) r1(1)] r2(1) have "pool_rank r2 < pool_rank r1" by auto
  ultimately show ?case using r1 move_ok [OF r2(2)] move_keeps [OF r2(2)] by force
next
  case (tq_other k w1 w2)
  then obtain r1 where r1: "tw_runs w1 q = Some r1" "run_ok r1" "rn_ids r1 = rn_ids r"
    "length (rn_workers r1) = length (rn_workers r)" "k + pool_rank r1 \<le> pool_rank r" by blast
  from transfer_step_run [OF tq_other(2) r1(1)] obtain r2 where r2: "tw_runs w2 q = Some r2"
    "pool_move (q \<in> tw_controls w1) r1 r2" by blast
  moreover from r1(2) have "finish_ok r1" by (simp add: run_ok_def)
  ultimately show ?case
    using r1 move_ok [OF r2(2)] move_keeps [OF r2(2)] rank_mono [OF r2(2)] by force
qed

lemma created_run:
  "tw_runs (createTransferQueue q kind dest items c w) q = Some (new_run (map fst items) c)"
  by (simp add: createTransferQueue_def)

lemma new_run_rank: "pool_rank (new_run ids c) = 3 * length ids + 2 * worker_count c (length ids) + 1"
  by (simp add: pool_rank_def new_run_def sum_list_replicate)

lemma in_flight_le: "length (in_flight r) \<le> length (rn_workers r)"
proof -
  have "length (concat (map sent ws)) \<le> length ws" for ws
  proof (induction ws)
    case (Cons a ws)
    then show ?case by (cases a) simp_all
  qed simp
  then show ?thesis by (simp add: in_flight_def)
qed

lemma all_returned_idle: "set ws \<subseteq> {Returned} \<Longrightarrow> concat (map sent ws) = []"
  by auto

lemma run_ok_pool:
  assumes "run_ok r"
  shows "distinct (in_flight r) \<and> set (in_flight r) \<subseteq> set (rn_started r)
    \<and> (\<exists>k. k \<le> length (rn_ids r) \<and> rn_started r = [0..<k])
    \<and> (rn_finished r \<longrightarrow> in_flight r = [] \<and> (rn_cancelled r \<or> rn_started r = [0..<length (rn_ids r)]))"
proof -
  from assms have c: "rn_started r = [0..<min (rn_next r) (length (rn_ids r))]"
    and f: "distinct (in_flight r)" "set (in_flight r) \<subseteq> {..<min (rn_next r) (length (rn_ids r))}"
    by (simp_all add: run_ok_def claims_ok_def sends_ok_def flight_ok_def in_flight_def)
  have "in_flight r = [] \<and> (rn_cancelled r \<or> rn_started r = [0..<length (rn_ids r)])" if "rn_finished r"
  proof -
    from assms that have all: "\<forall>i < length (rn_workers r). rn_workers r ! i = Returned" and ne: "0 < length (rn_workers r)"
      by (simp_all add: run_ok_def finish_ok_def)
    from all have "set (rn_workers r) \<subseteq> {Returned}" by (simp add: all_returned)
    then have "in_flight r = []" by (simp add: in_flight_def all_returned_idle)
    moreover have "rn_cancelled r \<or> length (rn_ids r) \<le> rn_next r"
      using assms all ne by (auto simp: run_ok_def returns_ok_def)
    ultimately show ?thesis using c by (auto simp: min_absorb2)
  qed
  with c f show ?thesis by (auto intro: exI [of _ "min (rn_next r) (length (rn_ids r))"])
qed

lemma wake_flight: "k \<in> set (concat (map sent (wake is ws))) \<Longrightarrow> k \<in> set (concat (map sent ws))"
proof (induction "is" arbitrary: ws)
  case (Cons j js)
  then have "k \<in> set (concat (map sent (ws[j := Ready])))" by (simp add: wake_def)
  then show ?case using set_update_subset_insert [of ws j Ready] by auto
qed (simp add: wake_def)

lemma idle_flight:
  "k \<in> set (concat (map sent (ws[i := a]))) \<Longrightarrow> sent a = [] \<Longrightarrow> k \<in> set (concat (map sent ws))"
  using set_update_subset_insert [of ws i a] by auto

lemma move_cancelled:
  assumes "pool_move reg r r'" "rn_cancelled r"
  shows "rn_cancelled r' \<and> (\<not> rn_paused r \<longrightarrow> \<not> rn_paused r') \<and> rn_started r' = rn_started r
     \<and> set (in_flight r') \<subseteq> set (in_flight r)"
  using assms by cases (auto simp: in_flight_def run_top_def run_claim_def simp del: set_concat
      dest: wake_flight idle_flight)

lemma count_update:
  assumes "i < length ws"
  shows "count_list (ws[i := a]) b + (if ws ! i = b then 1 else 0) = count_list ws b + (if a = b then 1 else 0)"
  using arg_cong [OF id_take_nth_drop [OF assms], of "\<lambda>xs. count_list xs b"] assms
  by (simp add: upd_conv_take_nth_drop)

lemma run_step_paused:
  assumes "run_step p w w'" "tw_runs w q = Some r" "rn_paused r" "q \<in> tw_controls w"
  shows "q \<in> tw_controls w' \<and> (\<exists>r' new. tw_runs w' q = Some r' \<and> rn_paused r' \<and> rn_started r' = rn_started r @ new
     \<and> length new + count_list (rn_workers r') Ready \<le> count_list (rn_workers r) Ready)"
proof (cases "p = q")
  case True
  from assms(1) show ?thesis
  proof cases
    case (tops s i)
    with assms True show ?thesis
      using count_update [of i "rn_workers r" Returned Ready] count_update [of i "rn_workers r" Waiting Ready]
      by (auto simp: updateRun_runs run_top_def)
  next
    case (claims s i)
    with assms True show ?thesis
      using count_update [of i "rn_workers r" Returned Ready]
        count_update [of i "rn_workers r" "Sending (rn_next r)" Ready]
      by (auto simp: updateRun_runs claim_step_def run_claim_def)
  next
    case (settles s i k out)
    with assms True show ?thesis
      using count_update [of i "rn_workers r" AtTop Ready]
      by (auto simp: updateRun_runs settle_step_def)
  next
    case (finishes s)
    with assms True show ?thesis by (auto simp: updateRun_runs)
  qed
qed (use run_step_run [OF assms(1,2)] assms in auto)

lemma find_map_item:
  assumes "List.find (\<lambda>x. ti_id x = k) xs = Some it" "\<And>x. ti_id (f x) = ti_id x"
  shows "List.find (\<lambda>x. ti_id x = k) (map (\<lambda>x. if ti_id x = k then f x else x) xs) = Some (f it)"
  using assms(1) by (induction xs) (auto simp: assms(2) split: if_splits)

section \<open>Properties\<close>

text \<open>C10: However the user's operations interleave with the workers, a queue sends its items in
  order and each at most once, never has more than \<open>concurrency\<close> of them in flight, and marks
  itself done only when none is in flight and either all have been sent or it was cancelled.\<close>
theorem tq_pool_safe:
  assumes "tq_run q (createTransferQueue q kind dest items c w) k w'"
  shows "\<exists>r. tw_runs w' q = Some r
     \<and> length (in_flight r) \<le> max 1 (nullish_or c 1)
     \<and> distinct (in_flight r) \<and> set (in_flight r) \<subseteq> set (rn_started r)
     \<and> (\<exists>n. n \<le> length items \<and> rn_started r = [0..<n])
     \<and> (rn_finished r \<longrightarrow> in_flight r = [] \<and> (rn_cancelled r \<or> rn_started r = [0..<length items]))"
proof -
  from tq_run_run [OF assms created_run new_run_ok] obtain r where r: "tw_runs w' q = Some r" "run_ok r"
    "rn_ids r = map fst items" "length (rn_workers r) = worker_count c (length items)"
    by (auto simp: new_run_def)
  have "length (in_flight r) \<le> max 1 (nullish_or c 1)"
    using in_flight_le [of r] r(4) by (auto simp: worker_count_def)
  with r(1,3) run_ok_pool [OF r(2)] show ?thesis by auto
qed

text \<open>C11: The worker pool cannot run forever and does not deadlock: in any interleaving the runner
  of a queue of \<open>n\<close> items makes at most \<open>3 n + 2 workers + 1\<close> steps, and while it is not finished
  it can make one, unless it is paused.\<close>
theorem tq_terminates:
  assumes "tq_run q (createTransferQueue q kind dest items c w) k w'"
  shows "k \<le> 3 * length items + 2 * worker_count c (length items) + 1
     \<and> (\<exists>r. tw_runs w' q = Some r \<and> (rn_finished r \<or> rn_paused r \<or> (\<exists>w''. run_step q w' w'')))"
proof -
  from tq_run_run [OF assms created_run new_run_ok] obtain r where r: "tw_runs w' q = Some r" "run_ok r"
    "k + pool_rank r \<le> pool_rank (new_run (map fst items) c)"
    by auto
  have "rn_paused r" if "Waiting \<in> set (rn_workers r)"
    using r(2) that by (auto simp: run_ok_def waits_ok_def in_set_conv_nth)
  with r not_stuck [OF r(1)] show ?thesis by (auto simp: new_run_rank)
qed

text \<open>A queue of two items, two at a time, whose first worker has taken the first item.\<close>

definition two_items :: "nat transfer_world" where
  "two_items = createTransferQueue ''q'' ''music'' ''peer'' [(''a'', ''A''), (''b'', ''B'')] (Some 2) empty_transfers"

definition one_sending :: "nat transfer_world" where
  "one_sending = claim_step ''q'' 0 (run_top True 0 (new_run [''a'', ''b''] (Some 2)))
     (updateRun ''q'' (run_top True 0) two_items)"

lemma two_items_run: "tw_runs two_items ''q'' = Some (new_run [''a'', ''b''] (Some 2))"
  by (simp add: two_items_def createTransferQueue_def)

lemma two_items_top: "run_step ''q'' two_items (updateRun ''q'' (run_top True 0) two_items)"
  using run_step.tops [OF two_items_run, of 0]
  by (simp add: new_run_def worker_count_def two_items_def createTransferQueue_def)

lemma two_items_claim: "run_step ''q'' (updateRun ''q'' (run_top True 0) two_items) one_sending"
  unfolding one_sending_def
  by (rule run_step.claims) (simp_all add: updateRun_runs two_items_run new_run_def run_top_def worker_count_def)

lemma one_sending_run: "tq_run ''q'' two_items 2 one_sending"
  using tq_own [OF tq_own [OF tq_zero two_items_top] two_items_claim] by (simp add: numeral_2_eq_2)

lemma one_sending_reachable: "transfer_reachable one_sending"
proof -
  have "transfer_reachable two_items"
    unfolding two_items_def
    by (rule moves [OF starts creates]) (simp add: empty_transfers_def)
  then show ?thesis
    using two_items_top two_items_claim transfer_step.runs transfer_reachable.moves by metis
qed

lemma one_sending_state:
  "tw_runs one_sending ''q'' = Some (run_claim 0 (run_top True 0 (new_run [''a'', ''b''] (Some 2))))"
  by (simp add: one_sending_def claim_step_def updateRun_runs two_items_run)

theorem tq_pool_safe_witness:
  "\<exists>r. tw_runs one_sending ''q'' = Some r \<and> length (in_flight r) \<le> 2 \<and> set (in_flight r) \<subseteq> set (rn_started r)"
  using tq_pool_safe [OF one_sending_run [unfolded two_items_def]] by auto

theorem tq_terminates_witness: "(2::nat) \<le> 3 * 2 + 2 * 2 + 1 \<and> (\<exists>r. tw_runs one_sending ''q'' = Some r)"
  using tq_terminates [OF one_sending_run [unfolded two_items_def]] by (auto simp: worker_count_def)

text \<open>Cancelling a live queue is final: nothing that happens afterwards starts another item or
  pauses the queue again; the items in flight only drain.\<close>
theorem tq_cancel_final:
  assumes "tw_runs w q = Some r" "q \<in> tw_controls w" "transfer_step\<^sup>*\<^sup>* (cancelTransferQueue q w) w'"
  shows "\<exists>r'. tw_runs w' q = Some r' \<and> rn_cancelled r' \<and> \<not> rn_paused r'
     \<and> rn_started r' = rn_started r \<and> set (in_flight r') \<subseteq> set (in_flight r)"
  using assms(3)
proof (induction rule: rtranclp_induct)
  case base
  show ?case
    using assms(1,2) by (auto simp: cancelTransferQueue_def resumeTransferQueue_def updateRun_runs
        in_flight_def simp del: set_concat dest: wake_flight)
next
  case (step w1 w2)
  then obtain r1 where r1: "tw_runs w1 q = Some r1" "rn_cancelled r1" "\<not> rn_paused r1"
    "rn_started r1 = rn_started r" "set (in_flight r1) \<subseteq> set (in_flight r)" by blast
  from transfer_step_run [OF step(2) r1(1)] obtain r2 where r2: "tw_runs w2 q = Some r2"
    "pool_move (q \<in> tw_controls w1) r1 r2" by blast
  with r1 move_cancelled [OF r2(2) r1(2)] show ?case by auto
qed

text \<open>While a queue is paused no worker that has not already passed the pause check starts an
  item: over any steps of the runners the number of started items grows by at most the number of
  workers that were past the check, and by none if there was none.\<close>
theorem tq_pause_holds:
  assumes "tw_runs w q = Some r" "q \<in> tw_controls w" "rn_paused r"
    "(\<lambda>a b. \<exists>p. run_step p a b)\<^sup>*\<^sup>* w w'"
  shows "\<exists>r'. tw_runs w' q = Some r' \<and> rn_paused r' \<and> (\<exists>more. rn_started r' = rn_started r @ more
     \<and> length more \<le> count_list (rn_workers r) Ready)"
proof -
  have "q \<in> tw_controls w' \<and> (\<exists>r' more. tw_runs w' q = Some r' \<and> rn_paused r' \<and> rn_started r' = rn_started r @ more
     \<and> length more + count_list (rn_workers r') Ready \<le> count_list (rn_workers r) Ready)"
    using assms(4)
  proof (induction rule: rtranclp_induct)
    case (step w1 w2)
    then obtain p r1 more where r1: "run_step p w1 w2" "q \<in> tw_controls w1" "tw_runs w1 q = Some r1"
      "rn_paused r1" "rn_started r1 = rn_started r @ more"
      "length more + count_list (rn_workers r1) Ready \<le> count_list (rn_workers r) Ready" by blast
    from run_step_paused [OF r1(1,3,4,2)] obtain r2 new where
      "tw_runs w2 q = Some r2" "rn_paused r2" "rn_started r2 = rn_started r1 @ new"
      "length new + count_list (rn_workers r2) Ready \<le> count_list (rn_workers r1) Ready" "q \<in> tw_controls w2" by blast
    with r1 show ?case by (intro conjI exI [of _ r2] exI [of _ "more @ new"]) simp_all
  qed (use assms in simp)
  then show ?thesis by fastforce
qed

text \<open>What the registry shows is the runner's real state: a queue has a control object exactly
  while it is listed, its flags are those of its run, its items are the run's, and \<open>onDone\<close> has been
  called at most once for it, with the queue marked done.\<close>
theorem tq_registry_mirrors:
  assumes "transfer_reachable w"
  shows "(q \<in> tw_controls w \<longleftrightarrow> getTransferQueue q w \<noteq> None)
     \<and> (\<forall>c. getTransferQueue q w = Some c \<longrightarrow> (\<exists>r. tw_runs w q = Some r \<and> tq_id c = q
          \<and> map ti_id (tq_items c) = rn_ids r \<and> tq_paused c = rn_paused r
          \<and> tq_cancelled c = rn_cancelled r \<and> tq_done c = rn_finished r))
     \<and> length (reports_of w q) \<le> 1 \<and> (\<forall>c \<in> set (reports_of w q). tq_done c)"
  using reachable_queue_ok [OF assms, of q] reachable_reports_ok [OF assms, of q]
  by (simp add: queue_ok_def shows_run_def reports_ok_def getTransferQueue_def)

text \<open>A paused item does not stay paused: when the \<open>sendOne\<close> that the pause interrupts settles,
  the item is failed or completed, whatever its status was.\<close>
theorem tq_paused_item_settles:
  assumes "find_item q (rn_ids r ! index) w = Some it"
  shows "\<exists>it'. find_item q (rn_ids r ! index) (settle_step q i index outcome r w) = Some it'
     \<and> ti_status it' \<in> {ItemFailed, ItemCompleted}"
proof -
  obtain c where c: "map_of (tw_queues w) q = Some c" "List.find (\<lambda>x. ti_id x = rn_ids r ! index) (tq_items c) = Some it"
    using assms by (auto simp: find_item_def split: option.splits)
  have "ti_status (settle_item outcome it) \<in> {ItemFailed, ItemCompleted}" by (cases outcome) simp_all
  with c show ?thesis
    by (simp add: find_item_def settle_step_def map_of_updateItem find_map_item)
qed

lemma two_items_controls: "''q'' \<in> tw_controls one_sending"
  by (simp add: one_sending_def claim_step_def two_items_def createTransferQueue_def)

theorem tq_cancel_final_witness:
  "\<exists>r'. tw_runs (cancelTransferQueue ''q'' one_sending) ''q'' = Some r' \<and> rn_cancelled r' \<and> rn_started r' = [0]"
  using tq_cancel_final [OF one_sending_state two_items_controls rtranclp.rtrancl_refl]
  by (auto simp: run_claim_def run_top_def new_run_def)

theorem tq_pause_holds_witness:
  "\<exists>r'. tw_runs (pauseTransferQueue ''q'' one_sending) ''q'' = Some r' \<and> rn_paused r'"
proof -
  have "tw_runs (pauseTransferQueue ''q'' one_sending) ''q''
      = Some ((run_claim 0 (run_top True 0 (new_run [''a'', ''b''] (Some 2))))\<lparr>rn_paused := True\<rparr>)"
    by (simp add: pauseTransferQueue_def two_items_controls one_sending_state updateRun_runs
        run_claim_def run_top_def new_run_def)
  moreover have "''q'' \<in> tw_controls (pauseTransferQueue ''q'' one_sending)"
    using two_items_controls by (simp add: pauseTransferQueue_def)
  ultimately show ?thesis
    using tq_pause_holds [OF _ _ _ rtranclp.rtrancl_refl] by fastforce
qed

theorem tq_registry_mirrors_witness: "''q'' \<in> tw_controls one_sending \<longleftrightarrow> getTransferQueue ''q'' one_sending \<noteq> None"
  using tq_registry_mirrors [OF one_sending_reachable] by blast

theorem tq_paused_item_settles_witness:
  "\<exists>it'. find_item ''q'' ''a'' (settle_step ''q'' 0 0 (SendThrew (JsError ''cancelled''))
       (new_run [''a'', ''b''] (Some 2)) (snd (pauseTransferQueueItem (\<lambda>_. True) ''q'' ''a''
         (reportBlake3 ''q'' ''a'' ''b3'' one_sending)))) = Some it' \<and> ti_status it' \<in> {ItemFailed, ItemCompleted}"
proof -
  let ?w = "snd (pauseTransferQueueItem (\<lambda>_. True) ''q'' ''a'' (reportBlake3 ''q'' ''a'' ''b3'' one_sending))"
  have ids: "rn_ids (new_run [''a'', ''b''] (Some 2)) ! 0 = ''a''" by (simp add: new_run_def)
  obtain it where "find_item ''q'' ''a'' ?w = Some it" "ti_status it = ItemPaused"
    by (simp add: pauseTransferQueueItem_def reportBlake3_def find_item_def map_of_updateItem one_sending_def
        claim_step_def two_items_def createTransferQueue_def claims_item_def run_top_def new_run_def
        empty_transfers_def update_conv')
  then show ?thesis
    using tq_paused_item_settles [of "''q''" "new_run [''a'', ''b''] (Some 2)" 0 ?w it 0
        "SendThrew (JsError ''cancelled'')"] by (simp add: ids)
qed

end
