(* ===== verification/KnockStore.thy ===== *)
theory KnockStore
  imports ObjectStore
begin

text \<open>
  Knocks (access requests), \<open>lib/haruspex/ts/src/knock/types.ts\<close> and \<open>store.ts\<close>: the record shapes,
  the interface \<open>KnockStore\<close> as a record of operations with its contract as a locale, and the
  IndexedDB implementation as the interpretation. \<open>Date.now()\<close> and \<open>crypto.randomUUID()\<close> are
  arguments of the operations that read them, metadata is an opaque type.
\<close>

section \<open>Records\<close>

datatype knock_direction = Inbound | Outbound
datatype knock_status = KPending | KAccepted | KDenied
datatype knock_scope = AccountScope "string option" | BrowseScope | ResourceScope string "string option"

text \<open>\<open>Exclude<KnockStatus, "pending">\<close>\<close>

datatype knock_outcome = Accepted | Denied

primrec outcome_status :: "knock_outcome \<Rightarrow> knock_status" where
  "outcome_status Accepted = KAccepted"
| "outcome_status Denied = KDenied"

record knock_decision =
  kd_byNodeId :: string
  kd_outcome :: knock_outcome
  kd_grantedRole :: "string option"
  kd_at :: int

record 'j knock_record =
  kn_id :: string
  kn_nodeId :: string
  kn_direction :: knock_direction
  kn_scope :: knock_scope
  kn_message :: string
  kn_status :: knock_status
  kn_createdAt :: int
  kn_processedAt :: "int option"
  kn_processedBy :: "string option"
  kn_decisions :: "knock_decision list"
  kn_grantedResourceIds :: "string list option"
  kn_metadata :: "'j option"

record 'j create_knock_input =
  ci_nodeId :: string
  ci_direction :: knock_direction
  ci_scope :: knock_scope
  ci_message :: "string option"
  ci_createdAt :: "int option"
  ci_metadata :: "'j option"

datatype knock_exn = KnockConflictError string knock_scope | KnockFailed js_exn

definition knock_not_found :: "string \<Rightarrow> knock_exn" where
  "knock_not_found k = KnockFailed (JsError (''knock '' @ k @ '' not found''))"

record ('s, 'j) knock_store =
  ks_create :: "string \<Rightarrow> int \<Rightarrow> 'j create_knock_input \<Rightarrow> 's \<Rightarrow> (knock_exn + 'j knock_record) \<times> 's"
  ks_get :: "string \<Rightarrow> 's \<Rightarrow> 'j knock_record option"
  ks_listPending :: "'s \<Rightarrow> 'j knock_record list"
  ks_listAll :: "'s \<Rightarrow> 'j knock_record list"
  ks_findByNodeId :: "string \<Rightarrow> 's \<Rightarrow> 'j knock_record option"
  ks_recordDecision :: "string \<Rightarrow> knock_decision \<Rightarrow> string list option \<Rightarrow> 's \<Rightarrow> (knock_exn + 'j knock_record) \<times> 's"
  ks_delete :: "string \<Rightarrow> 's \<Rightarrow> 's"

section \<open>The dedup key\<close>

fun scopeKey :: "knock_scope \<Rightarrow> string" where
  "scopeKey (AccountScope u) = ''account:'' @ nullish_or u ''''"
| "scopeKey BrowseScope = ''browse''"
| "scopeKey (ResourceScope k role) = ''resource:'' @ k @ '':'' @ nullish_or role ''''"

text \<open>What two scopes have to share for the key not to tell them apart, when resource ids hold no colon.\<close>

fun same_request :: "knock_scope \<Rightarrow> knock_scope \<Rightarrow> bool" where
  "same_request (AccountScope u) (AccountScope v) = (nullish_or u '''' = nullish_or v '''')"
| "same_request BrowseScope BrowseScope = True"
| "same_request (ResourceScope k r) (ResourceScope l s) = (k = l \<and> nullish_or r '''' = nullish_or s '''')"
| "same_request _ _ = False"

fun colon_free :: "knock_scope \<Rightarrow> bool" where
  "colon_free (ResourceScope k _) = (CHR '':'' \<notin> set k)"
| "colon_free _ = True"

lemma split_at_colon:
  assumes "CHR '':'' \<notin> set k" "CHR '':'' \<notin> set l"
  shows "k @ CHR '':'' # r = l @ CHR '':'' # s \<longleftrightarrow> k = l \<and> r = s"
  using assms
proof (induction k arbitrary: l)
  case Nil
  then show ?case by (cases l) auto
next
  case (Cons a k)
  then show ?case by (cases l) auto
qed

lemma scopeKey_faithful:
  assumes "colon_free a" "colon_free b"
  shows "scopeKey a = scopeKey b \<longleftrightarrow> same_request a b"
  using assms by (cases a; cases b) (simp_all add: split_at_colon)

section \<open>The IndexedDB store\<close>

record 'j knock_row = "'j knock_record" +
  row_scopeKey :: string

definition toRow :: "'j knock_record \<Rightarrow> 'j knock_row" where
  "toRow r = knock_record.extend r (knock_row.fields (scopeKey (kn_scope r)))"

definition fromRow :: "'j knock_row \<Rightarrow> 'j knock_record" where
  "fromRow row = knock_record.truncate row"

text \<open>\<open>sort((a, b) => b.createdAt - a.createdAt)\<close>, which is stable.\<close>

definition newest_knocks :: "'j knock_record list \<Rightarrow> 'j knock_record list" where
  "newest_knocks = sort_key (\<lambda>r. - kn_createdAt r)"

definition new_knock :: "string \<Rightarrow> int \<Rightarrow> 'j create_knock_input \<Rightarrow> 'j knock_record" where
  "new_knock uuid now input =
     \<lparr>kn_id = uuid, kn_nodeId = ci_nodeId input, kn_direction = ci_direction input, kn_scope = ci_scope input,
      kn_message = nullish_or (ci_message input) '''', kn_status = KPending,
      kn_createdAt = nullish_or (ci_createdAt input) now, kn_processedAt = None, kn_processedBy = None,
      kn_decisions = [], kn_grantedResourceIds = None, kn_metadata = ci_metadata input\<rparr>"

definition dedup_hits :: "string \<Rightarrow> string \<Rightarrow> 'j knock_row list \<Rightarrow> 'j knock_row list" where
  "dedup_hits nodeId key rows =
     idb_index_all (\<lambda>r. (kn_nodeId r, row_scopeKey r, kn_status r)) (nodeId, key, KPending) rows"

definition createKnock ::
    "string \<Rightarrow> int \<Rightarrow> 'j create_knock_input \<Rightarrow> 'j knock_row list \<Rightarrow> (knock_exn + 'j knock_record) \<times> 'j knock_row list" where
  "createKnock uuid now input rows =
     (if dedup_hits (ci_nodeId input) (scopeKey (ci_scope input)) rows \<noteq> []
      then (Inl (KnockConflictError (ci_nodeId input) (ci_scope input)), rows)
      else (Inr (new_knock uuid now input), idb_put kn_id (toRow (new_knock uuid now input)) rows))"

definition getKnock :: "string \<Rightarrow> 'j knock_row list \<Rightarrow> 'j knock_record option" where
  "getKnock k rows = map_option fromRow (idb_get kn_id k rows)"

definition listPending :: "'j knock_row list \<Rightarrow> 'j knock_record list" where
  "listPending rows = newest_knocks (map fromRow (filter (\<lambda>r. kn_status r = KPending) rows))"

definition listAll :: "'j knock_row list \<Rightarrow> 'j knock_record list" where
  "listAll rows = newest_knocks (map fromRow rows)"

definition findByNodeId :: "string \<Rightarrow> 'j knock_row list \<Rightarrow> 'j knock_record option" where
  "findByNodeId nodeId rows =
     (case sort_key (\<lambda>r. - kn_createdAt r) (idb_index_all kn_nodeId nodeId rows) of
        [] \<Rightarrow> None | row # _ \<Rightarrow> Some (fromRow row))"

definition decided :: "knock_decision \<Rightarrow> string list option \<Rightarrow> 'j knock_record \<Rightarrow> 'j knock_record" where
  "decided d granted r = r\<lparr>kn_status := outcome_status (kd_outcome d), kn_processedAt := Some (kd_at d),
     kn_processedBy := Some (kd_byNodeId d), kn_decisions := kn_decisions r @ [d],
     kn_grantedResourceIds := nullish_orelse granted (kn_grantedResourceIds r)\<rparr>"

definition recordDecision ::
    "string \<Rightarrow> knock_decision \<Rightarrow> string list option \<Rightarrow> 'j knock_row list \<Rightarrow> (knock_exn + 'j knock_record) \<times> 'j knock_row list" where
  "recordDecision k d granted rows =
     (case idb_get kn_id k rows of
        None \<Rightarrow> (Inl (knock_not_found k), rows)
      | Some row \<Rightarrow>
          let updated = decided d granted (fromRow row)
          in (Inr updated, idb_put kn_id (toRow updated) rows))"

definition deleteKnock :: "string \<Rightarrow> 'j knock_row list \<Rightarrow> 'j knock_row list" where
  "deleteKnock k rows = idb_delete kn_id k rows"

definition createIdbKnockStore :: "('j knock_row list, 'j) knock_store" where
  "createIdbKnockStore = \<lparr>ks_create = createKnock, ks_get = getKnock, ks_listPending = listPending,
     ks_listAll = listAll, ks_findByNodeId = findByNodeId, ks_recordDecision = recordDecision,
     ks_delete = deleteKnock\<rparr>"

section \<open>The contract\<close>

text \<open>A pending knock that stands in the way of a new one.\<close>

definition blocks :: "string \<Rightarrow> knock_scope \<Rightarrow> 'j knock_record \<Rightarrow> bool" where
  "blocks nodeId scope r \<longleftrightarrow> kn_nodeId r = nodeId \<and> scopeKey (kn_scope r) = scopeKey scope \<and> kn_status r = KPending"

definition newest_first :: "'j knock_record list \<Rightarrow> bool" where
  "newest_first rs \<longleftrightarrow> distinct rs \<and> sorted_wrt (\<lambda>a b. kn_createdAt b \<le> kn_createdAt a) rs"

text \<open>The audit log of a record agrees with its status and its \<open>processed\<close> fields.\<close>

definition audited :: "'j knock_record \<Rightarrow> bool" where
  "audited r \<longleftrightarrow> (case rev (kn_decisions r) of
      [] \<Rightarrow> kn_status r = KPending \<and> kn_processedAt r = None \<and> kn_processedBy r = None
    | d # _ \<Rightarrow> kn_status r = outcome_status (kd_outcome d) \<and> kn_processedAt r = Some (kd_at d)
        \<and> kn_processedBy r = Some (kd_byNodeId d))"

definition knocks_ok :: "'j knock_record set \<Rightarrow> bool" where
  "knocks_ok rs \<longleftrightarrow> (\<forall>r \<in> rs. audited r) \<and> (\<forall>r \<in> rs. \<forall>r' \<in> rs. kn_status r = KPending \<longrightarrow>
     blocks (kn_nodeId r) (kn_scope r) r' \<longrightarrow> r = r')"

lemma outcome_not_pending [simp]: "outcome_status out \<noteq> KPending" "KPending \<noteq> outcome_status out"
  by (cases out; simp)+

lemma audited_decided: "audited r \<Longrightarrow> audited (decided d g r)"
  by (simp add: audited_def decided_def)

lemma audited_new: "audited (new_knock u now input)"
  by (simp add: audited_def new_knock_def)

lemma audited_pending: "audited r \<Longrightarrow> kn_status r = KPending \<longleftrightarrow> kn_decisions r = []"
  by (cases "kn_decisions r" rule: rev_cases) (simp_all add: audited_def)

lemma decided_fields [simp]:
  "kn_id (decided d g r) = kn_id r" "kn_nodeId (decided d g r) = kn_nodeId r" "kn_scope (decided d g r) = kn_scope r"
  "kn_status (decided d g r) = outcome_status (kd_outcome d)" "kn_direction (decided d g r) = kn_direction r"
  "kn_decisions (decided d g r) = kn_decisions r @ [d]" "kn_createdAt (decided d g r) = kn_createdAt r"
  by (simp_all add: decided_def)

lemma new_knock_fields [simp]:
  "kn_id (new_knock u now i) = u" "kn_nodeId (new_knock u now i) = ci_nodeId i"
  "kn_scope (new_knock u now i) = ci_scope i" "kn_status (new_knock u now i) = KPending"
  "kn_direction (new_knock u now i) = ci_direction i" "kn_decisions (new_knock u now i) = []"
  by (simp_all add: new_knock_def)

lemma knocks_ok_decided:
  "knocks_ok rs \<Longrightarrow> r \<in> rs \<Longrightarrow> knocks_ok (insert (decided d g r) (rs - {r}))"
  by (auto simp: knocks_ok_def blocks_def audited_decided)

lemma knocks_ok_new:
  "knocks_ok rs \<Longrightarrow> \<forall>r \<in> rs. \<not> blocks (ci_nodeId i) (ci_scope i) r \<Longrightarrow> knocks_ok (insert (new_knock u now i) rs)"
  by (auto simp: knocks_ok_def blocks_def audited_new)

lemma knocks_ok_mono: "knocks_ok rs \<Longrightarrow> rs' \<subseteq> rs \<Longrightarrow> knocks_ok rs'"
  unfolding knocks_ok_def by blast

locale knock_repository =
  fixes store :: "('s, 'j) knock_store"
    and recs :: "'s \<Rightarrow> 'j knock_record set"
    and ok :: "'s \<Rightarrow> bool"
  assumes get_iff: "ok s \<Longrightarrow> ks_get store k s = Some r \<longleftrightarrow> r \<in> recs s \<and> kn_id r = k"
    and create_conflict: "ok s \<Longrightarrow> \<exists>r \<in> recs s. blocks (ci_nodeId i) (ci_scope i) r \<Longrightarrow>
      ks_create store u now i s = (Inl (KnockConflictError (ci_nodeId i) (ci_scope i)), s)"
    and create_new: "ok s \<Longrightarrow> \<forall>r \<in> recs s. \<not> blocks (ci_nodeId i) (ci_scope i) r \<Longrightarrow> \<forall>r \<in> recs s. kn_id r \<noteq> u \<Longrightarrow>
      \<exists>s'. ks_create store u now i s = (Inr (new_knock u now i), s') \<and> ok s' \<and> recs s' = insert (new_knock u now i) (recs s)"
    and decide_missing: "ok s \<Longrightarrow> \<forall>r \<in> recs s. kn_id r \<noteq> k \<Longrightarrow> ks_recordDecision store k d g s = (Inl (knock_not_found k), s)"
    and decide: "ok s \<Longrightarrow> r \<in> recs s \<Longrightarrow>
      \<exists>s'. ks_recordDecision store (kn_id r) d g s = (Inr (decided d g r), s') \<and> ok s'
        \<and> recs s' = insert (decided d g r) (recs s - {r})"
    and list_pending: "ok s \<Longrightarrow> set (ks_listPending store s) = {r \<in> recs s. kn_status r = KPending} \<and> newest_first (ks_listPending store s)"
    and list_all: "ok s \<Longrightarrow> set (ks_listAll store s) = recs s \<and> newest_first (ks_listAll store s)"
    and find_none: "ok s \<Longrightarrow> ks_findByNodeId store n s = None \<longleftrightarrow> (\<forall>r \<in> recs s. kn_nodeId r \<noteq> n)"
    and find_some: "ok s \<Longrightarrow> ks_findByNodeId store n s = Some r \<Longrightarrow> r \<in> recs s \<and> kn_nodeId r = n
        \<and> (\<forall>r' \<in> recs s. kn_nodeId r' = n \<longrightarrow> kn_createdAt r' \<le> kn_createdAt r)"
    and delete: "ok s \<Longrightarrow> ok (ks_delete store k s) \<and> recs (ks_delete store k s) = {r \<in> recs s. kn_id r \<noteq> k}"
begin

lemma id_unique: "ok s \<Longrightarrow> r \<in> recs s \<Longrightarrow> r' \<in> recs s \<Longrightarrow> kn_id r = kn_id r' \<Longrightarrow> r = r'"
  by (metis get_iff option.inject)

lemma get_None: "ok s \<Longrightarrow> ks_get store k s = None \<longleftrightarrow> (\<forall>r \<in> recs s. kn_id r \<noteq> k)"
  by (metis get_iff not_Some_eq)

end

section \<open>The IndexedDB store keeps the contract\<close>

definition rows_ok :: "'j knock_row list \<Rightarrow> bool" where
  "rows_ok rows \<longleftrightarrow> idb_ok kn_id rows \<and> (\<forall>r \<in> set rows. row_scopeKey r = scopeKey (kn_scope r))"

definition row_records :: "'j knock_row list \<Rightarrow> 'j knock_record set" where
  "row_records rows = fromRow ` set rows"

lemma fromRow_fields [simp]:
  "kn_id (fromRow w) = kn_id w" "kn_nodeId (fromRow w) = kn_nodeId w" "kn_scope (fromRow w) = kn_scope w"
  "kn_status (fromRow w) = kn_status w" "kn_createdAt (fromRow w) = kn_createdAt w"
  "kn_direction (fromRow w) = kn_direction w"
  by (simp_all add: fromRow_def knock_record.defs)

lemma toRow_fields [simp]:
  "kn_id (toRow r) = kn_id r" "kn_scope (toRow r) = kn_scope r" "row_scopeKey (toRow r) = scopeKey (kn_scope r)"
  "fromRow (toRow r) = r" "kn_status (toRow r) = kn_status r"
  by (simp_all add: fromRow_def toRow_def knock_record.defs knock_row.defs)

lemma rows_ok_put: "rows_ok rows \<Longrightarrow> rows_ok (idb_put kn_id (toRow r) rows)"
  by (auto simp: rows_ok_def idb.ok_put idb.row_put)

lemma records_put:
  "rows_ok rows \<Longrightarrow> row_records (idb_put kn_id (toRow r) rows) = insert r {x \<in> row_records rows. kn_id x \<noteq> kn_id r}"
  by (auto simp: row_records_def rows_ok_def set_idb_put)

lemma records_unique:
  assumes "rows_ok rows" "x \<in> row_records rows" "y \<in> row_records rows" "kn_id x = kn_id y"
  shows "x = y"
proof -
  obtain a b where "a \<in> set rows" "b \<in> set rows" "x = fromRow a" "y = fromRow b"
    using assms(2,3) by (auto simp: row_records_def)
  with assms(1,4) show ?thesis
    using idb.row_unique [of kn_id rows a b] by (simp add: rows_ok_def)
qed

lemma get_row_iff:
  "rows_ok rows \<Longrightarrow> getKnock k rows = Some r \<longleftrightarrow> r \<in> row_records rows \<and> kn_id r = k"
  by (auto simp: getKnock_def rows_ok_def idb.get_iff_row row_records_def)

lemma dedup_hits_iff:
  "rows_ok rows \<Longrightarrow> dedup_hits n (scopeKey sc) rows = [] \<longleftrightarrow> (\<forall>r \<in> row_records rows. \<not> blocks n sc r)"
  by (auto simp: dedup_hits_def idb_index_all_def filter_empty_conv row_records_def blocks_def rows_ok_def)

lemma newest_knocks_ok:
  assumes "distinct rs"
  shows "set (newest_knocks rs) = set rs \<and> newest_first (newest_knocks rs)"
proof -
  have "sorted (map (\<lambda>r. - kn_createdAt r) (newest_knocks rs))"
    by (simp add: newest_knocks_def)
  then have "sorted_wrt (\<lambda>a b. kn_createdAt b \<le> kn_createdAt a) (newest_knocks rs)"
    by (simp add: sorted_map)
  with assms show ?thesis by (simp add: newest_first_def newest_knocks_def)
qed

lemma distinct_records: "rows_ok rows \<Longrightarrow> distinct (map fromRow rows)"
  using idb.distinct_keys [of kn_id rows] distinct_map [of kn_id "map fromRow rows"]
  by (simp add: rows_ok_def comp_def)

lemma find_row_none: "findByNodeId n rows = None \<longleftrightarrow> (\<forall>r \<in> row_records rows. kn_nodeId r \<noteq> n)"
proof -
  have "findByNodeId n rows = None \<longleftrightarrow> idb_index_all kn_nodeId n rows = []"
    using length_sort [of "\<lambda>r. - kn_createdAt r" "idb_index_all kn_nodeId n rows"]
    by (auto simp: findByNodeId_def split: list.splits simp del: length_sort)
  then show ?thesis by (auto simp: idb_index_all_def filter_empty_conv row_records_def)
qed

lemma find_row_some:
  assumes "findByNodeId n rows = Some r"
  shows "r \<in> row_records rows \<and> kn_nodeId r = n \<and> (\<forall>r' \<in> row_records rows. kn_nodeId r' = n \<longrightarrow> kn_createdAt r' \<le> kn_createdAt r)"
proof -
  obtain a as where s: "sort_key (\<lambda>r. - kn_createdAt r) (idb_index_all kn_nodeId n rows) = a # as" "r = fromRow a"
    using assms by (auto simp: findByNodeId_def split: list.splits)
  have set_as: "insert a (set as) = {x \<in> set rows. kn_nodeId x = n}"
    using arg_cong [OF s(1), of set] by (auto simp: idb_index_all_def)
  have "sorted (map (\<lambda>r. - kn_createdAt r) (a # as))"
    using sorted_sort_key [of "\<lambda>r. - kn_createdAt r" "idb_index_all kn_nodeId n rows"] by (simp add: s(1))
  then have "kn_createdAt x \<le> kn_createdAt a" if "x \<in> insert a (set as)" for x
    using that by auto
  with set_as s(2) show ?thesis by (auto simp: row_records_def)
qed

interpretation idbk: knock_repository createIdbKnockStore row_records rows_ok
proof unfold_locales
  fix rows :: "'j knock_row list" and k u n :: string and i :: "'j create_knock_input" and now :: int
    and d :: knock_decision and g :: "string list option" and r :: "'j knock_record"
  assume ok: "rows_ok rows"
  show "ks_get createIdbKnockStore k rows = Some r \<longleftrightarrow> r \<in> row_records rows \<and> kn_id r = k"
    by (simp add: createIdbKnockStore_def get_row_iff [OF ok])
  show "ks_create createIdbKnockStore u now i rows = (Inl (KnockConflictError (ci_nodeId i) (ci_scope i)), rows)"
    if "\<exists>r \<in> row_records rows. blocks (ci_nodeId i) (ci_scope i) r"
    using that by (auto simp: createIdbKnockStore_def createKnock_def dedup_hits_iff [OF ok])
  show "\<exists>s'. ks_create createIdbKnockStore u now i rows = (Inr (new_knock u now i), s') \<and> rows_ok s'
      \<and> row_records s' = insert (new_knock u now i) (row_records rows)"
    if "\<forall>r \<in> row_records rows. \<not> blocks (ci_nodeId i) (ci_scope i) r" "\<forall>r \<in> row_records rows. kn_id r \<noteq> u"
    using that by (auto simp: createIdbKnockStore_def createKnock_def dedup_hits_iff [OF ok] rows_ok_put [OF ok] records_put [OF ok])
  show "ks_recordDecision createIdbKnockStore k d g rows = (Inl (knock_not_found k), rows)"
    if "\<forall>r \<in> row_records rows. kn_id r \<noteq> k"
  proof -
    have "getKnock k rows = None"
      using that get_row_iff [OF ok] by (metis not_Some_eq)
    then show ?thesis by (simp add: createIdbKnockStore_def recordDecision_def getKnock_def)
  qed
  show "\<exists>s'. ks_recordDecision createIdbKnockStore (kn_id r) d g rows = (Inr (decided d g r), s') \<and> rows_ok s'
      \<and> row_records s' = insert (decided d g r) (row_records rows - {r})"
    if "r \<in> row_records rows"
  proof -
    have "getKnock (kn_id r) rows = Some r" using that by (simp add: get_row_iff [OF ok])
    moreover have "{x \<in> row_records rows. kn_id x \<noteq> kn_id r} = row_records rows - {r}"
      using that records_unique [OF ok] by auto
    ultimately show ?thesis
      by (auto simp: createIdbKnockStore_def recordDecision_def getKnock_def Let_def rows_ok_put [OF ok] records_put [OF ok])
  qed
  show "set (ks_listPending createIdbKnockStore rows) = {r \<in> row_records rows. kn_status r = KPending}
      \<and> newest_first (ks_listPending createIdbKnockStore rows)"
    using newest_knocks_ok [of "map fromRow (filter (\<lambda>r. kn_status r = KPending) rows)"] distinct_records [OF ok]
    by (auto simp: createIdbKnockStore_def listPending_def row_records_def distinct_map inj_on_def)
  show "set (ks_listAll createIdbKnockStore rows) = row_records rows \<and> newest_first (ks_listAll createIdbKnockStore rows)"
    using newest_knocks_ok [OF distinct_records [OF ok]]
    by (simp add: createIdbKnockStore_def listAll_def row_records_def)
  show "ks_findByNodeId createIdbKnockStore n rows = None \<longleftrightarrow> (\<forall>r \<in> row_records rows. kn_nodeId r \<noteq> n)"
    by (simp add: createIdbKnockStore_def find_row_none)
  show "r \<in> row_records rows \<and> kn_nodeId r = n
      \<and> (\<forall>r' \<in> row_records rows. kn_nodeId r' = n \<longrightarrow> kn_createdAt r' \<le> kn_createdAt r)"
    if "ks_findByNodeId createIdbKnockStore n rows = Some r"
    using that by (simp add: createIdbKnockStore_def find_row_some)
  show "rows_ok (ks_delete createIdbKnockStore k rows)
      \<and> row_records (ks_delete createIdbKnockStore k rows) = {r \<in> row_records rows. kn_id r \<noteq> k}"
    using ok by (auto simp: createIdbKnockStore_def deleteKnock_def rows_ok_def row_records_def idb.ok_del idb.row_del)
qed

end
