(* ===== verification/KnockFlow.thy ===== *)
theory KnockFlow
  imports KnockStore
begin

text \<open>
  Sending, re-checking, accepting and denying knocks: \<open>requester.ts\<close>, \<open>responder.ts\<close> and
  \<open>pending-checker.ts\<close> of \<open>lib/haruspex/ts/src/knock/\<close>, over any \<open>KnockStore\<close>. The world is the store
  with the rest, \<open>'s \<times> 'n\<close>; the injected transport, policy and delay act on all of it, so that
  whatever runs while they are awaited may have changed the store too. \<open>Date.now()\<close> is a function of the
  world.
\<close>

section \<open>What crosses the wire\<close>

record knock_request =
  kq_scope :: knock_scope
  kq_message :: "string option"
  kq_requesterName :: "string option"

record knock_status_reply =
  kr_status :: knock_status
  kr_grantedResourceIds :: "string list option"

record 'w knock_transport =
  kt_sendKnock :: "string \<Rightarrow> knock_request \<Rightarrow> 'w \<Rightarrow> (js_exn + knock_status_reply) \<times> 'w"
  kt_checkKnockStatus :: "string \<Rightarrow> knock_request \<Rightarrow> 'w \<Rightarrow> (js_exn + knock_status_reply) \<times> 'w"

record check_options =
  co_retries :: "int option"
  co_backoffMs :: "int option"

record knock_policy_result =
  kp_grantedRole :: "string option"
  kp_grantedResourceIds :: "string list option"

section \<open>Requester\<close>

definition reply_decision :: "int \<Rightarrow> 'j knock_record \<Rightarrow> knock_outcome \<Rightarrow> knock_decision" where
  "reply_decision now r out = \<lparr>kd_byNodeId = kn_nodeId r, kd_outcome = out, kd_grantedRole = None, kd_at = now\<rparr>"

definition applyStatusReply ::
    "('s, 'j) knock_store \<Rightarrow> int \<Rightarrow> 'j knock_record \<Rightarrow> knock_status_reply \<Rightarrow> 's \<Rightarrow> (knock_exn + 'j knock_record) \<times> 's" where
  "applyStatusReply store now r reply s =
     (case kr_status reply of
        KPending \<Rightarrow> (Inr r, s)
      | KAccepted \<Rightarrow> ks_recordDecision store (kn_id r) (reply_decision now r Accepted) (kr_grantedResourceIds reply) s
      | KDenied \<Rightarrow> ks_recordDecision store (kn_id r) (reply_decision now r Denied) (kr_grantedResourceIds reply) s)"

definition outbound_input :: "string \<Rightarrow> knock_request \<Rightarrow> 'j create_knock_input" where
  "outbound_input nodeId request = \<lparr>ci_nodeId = nodeId, ci_direction = Outbound, ci_scope = kq_scope request,
     ci_message = kq_message request, ci_createdAt = None, ci_metadata = None\<rparr>"

definition sendKnock ::
    "('s, 'j) knock_store \<Rightarrow> ('s \<times> 'n) knock_transport \<Rightarrow> ('s \<times> 'n \<Rightarrow> int) \<Rightarrow> string \<Rightarrow> string \<Rightarrow> knock_request \<Rightarrow>
     's \<times> 'n \<Rightarrow> (knock_exn + 'j knock_record) \<times> ('s \<times> 'n)" where
  "sendKnock store transport clock uuid nodeId request w =
     (case ks_create store uuid (clock w) (outbound_input nodeId request) (fst w) of
        (Inl e, s1) \<Rightarrow> (Inl e, (s1, snd w))
      | (Inr r, s1) \<Rightarrow>
          (case kt_sendKnock transport nodeId request (s1, snd w) of
             (Inl _, w2) \<Rightarrow> (Inr r, w2)
           | (Inr reply, w2) \<Rightarrow>
               (case applyStatusReply store (clock w2) r reply (fst w2) of
                  (Inl _, s3) \<Rightarrow> (Inr r, (s3, snd w2))
                | (Inr r', s3) \<Rightarrow> (Inr r', (s3, snd w2)))))"

text \<open>\<open>throw lastError instanceof Error ? lastError : new Error(String(lastError))\<close>\<close>

fun rethrown :: "knock_exn option \<Rightarrow> knock_exn" where
  "rethrown None = KnockFailed (JsError ''undefined'')"
| "rethrown (Some (KnockFailed (JsThrown t))) = KnockFailed (JsError t)"
| "rethrown (Some e) = e"

definition recheck_request :: "'j knock_record \<Rightarrow> knock_request" where
  "recheck_request r = \<lparr>kq_scope = kn_scope r, kq_message = Some (kn_message r), kq_requesterName = None\<rparr>"

text \<open>One attempt: ask, and apply the answer.\<close>

definition check_once ::
    "('s, 'j) knock_store \<Rightarrow> ('s \<times> 'n) knock_transport \<Rightarrow> ('s \<times> 'n \<Rightarrow> int) \<Rightarrow> 'j knock_record \<Rightarrow>
     's \<times> 'n \<Rightarrow> (knock_exn + 'j knock_record) \<times> ('s \<times> 'n)" where
  "check_once store transport clock r w =
     (case kt_checkKnockStatus transport (kn_nodeId r) (recheck_request r) w of
        (Inl e, w1) \<Rightarrow> (Inl (KnockFailed e), w1)
      | (Inr reply, w1) \<Rightarrow>
          (case applyStatusReply store (clock w1) r reply (fst w1) of (res, s2) \<Rightarrow> (res, (s2, snd w1))))"

text \<open>The attempts from number \<open>attempt\<close> on, of which \<open>left\<close> remain.\<close>

fun check_loop ::
    "('s \<times> 'n \<Rightarrow> (knock_exn + 'j knock_record) \<times> ('s \<times> 'n)) \<Rightarrow> (int \<Rightarrow> 's \<times> 'n \<Rightarrow> 's \<times> 'n) \<Rightarrow> int \<Rightarrow> nat \<Rightarrow> nat \<Rightarrow>
     knock_exn option \<Rightarrow> 's \<times> 'n \<Rightarrow> (knock_exn + 'j knock_record) \<times> ('s \<times> 'n)" where
  "check_loop try sleep backoffMs 0 attempt lastError w = (Inl (rethrown lastError), w)"
| "check_loop try sleep backoffMs (Suc left) attempt lastError w =
     (case try w of
        (Inr r, w1) \<Rightarrow> (Inr r, w1)
      | (Inl e, w1) \<Rightarrow>
          check_loop try sleep backoffMs left (Suc attempt) (Some e)
            (if left = 0 then w1 else sleep (backoffMs * 2 ^ attempt) w1))"

definition checkKnockStatus ::
    "('s, 'j) knock_store \<Rightarrow> ('s \<times> 'n) knock_transport \<Rightarrow> ('s \<times> 'n \<Rightarrow> int) \<Rightarrow> (int \<Rightarrow> 's \<times> 'n \<Rightarrow> 's \<times> 'n) \<Rightarrow> string \<Rightarrow>
     check_options \<Rightarrow> 's \<times> 'n \<Rightarrow> (knock_exn + 'j knock_record) \<times> ('s \<times> 'n)" where
  "checkKnockStatus store transport clock sleep knockId options w =
     (case ks_get store knockId (fst w) of
        None \<Rightarrow> (Inl (knock_not_found knockId), w)
      | Some r \<Rightarrow> check_loop (check_once store transport clock r) sleep (nullish_or (co_backoffMs options) 1000)
          (nat (nullish_or (co_retries options) 0 + 1)) 0 None w)"

section \<open>Responder\<close>

definition acceptKnock ::
    "('s, 'j) knock_store \<Rightarrow> ('s \<times> 'n \<Rightarrow> int) \<Rightarrow> string \<Rightarrow>
     ('j knock_record \<Rightarrow> 's \<times> 'n \<Rightarrow> (js_exn + knock_policy_result) \<times> ('s \<times> 'n)) \<Rightarrow> string \<Rightarrow>
     's \<times> 'n \<Rightarrow> (knock_exn + 'j knock_record) \<times> ('s \<times> 'n)" where
  "acceptKnock store clock knockId policy decidedBy w =
     (case ks_get store knockId (fst w) of
        None \<Rightarrow> (Inl (knock_not_found knockId), w)
      | Some r \<Rightarrow>
          (case policy r w of
             (Inl e, w1) \<Rightarrow> (Inl (KnockFailed e), w1)
           | (Inr result, w1) \<Rightarrow>
               (case ks_recordDecision store knockId
                  \<lparr>kd_byNodeId = decidedBy, kd_outcome = Accepted, kd_grantedRole = kp_grantedRole result, kd_at = clock w1\<rparr>
                  (kp_grantedResourceIds result) (fst w1) of (res, s2) \<Rightarrow> (res, (s2, snd w1)))))"

definition denyKnock ::
    "('s, 'j) knock_store \<Rightarrow> ('s \<times> 'n \<Rightarrow> int) \<Rightarrow> string \<Rightarrow> string \<Rightarrow> 's \<times> 'n \<Rightarrow>
     (knock_exn + 'j knock_record) \<times> ('s \<times> 'n)" where
  "denyKnock store clock knockId decidedBy w =
     (case ks_get store knockId (fst w) of
        None \<Rightarrow> (Inl (knock_not_found knockId), w)
      | Some r \<Rightarrow>
          (case ks_recordDecision store knockId
              \<lparr>kd_byNodeId = decidedBy, kd_outcome = Denied, kd_grantedRole = None, kd_at = clock w\<rparr> None (fst w) of
             (res, s2) \<Rightarrow> (res, (s2, snd w))))"

section \<open>The sweep at boot\<close>

text \<open>
  \<open>checkPendingKnocks\<close> starts one task per pending outbound knock. A task awaits the store, the
  transport, the store again and the callback; a step is what it does between two of these, and the
  tasks interleave freely. The callbacks are logged.
\<close>

datatype 'j sweep_phase =
    Checking | Asking "'j knock_record" | Recording "'j knock_record" knock_status_reply
  | Notifying "'j knock_record" | Settled

record ('s, 'j) sweep =
  sw_store :: 's
  sw_tasks :: "('j knock_record \<times> 'j sweep_phase) list"
  sw_calls :: "(knock_outcome \<times> 'j knock_record) list"

definition checkPendingKnocks :: "('s, 'j) knock_store \<Rightarrow> 's \<Rightarrow> ('s, 'j) sweep" where
  "checkPendingKnocks store s =
     \<lparr>sw_store = s,
      sw_tasks = map (\<lambda>r. (r, Checking)) (filter (\<lambda>r. kn_direction r = Outbound) (ks_listPending store s)),
      sw_calls = []\<rparr>"

definition set_phase :: "nat \<Rightarrow> 'j sweep_phase \<Rightarrow> ('s, 'j) sweep \<Rightarrow> ('s, 'j) sweep" where
  "set_phase i p sw = sw\<lparr>sw_tasks := (sw_tasks sw)[i := (fst (sw_tasks sw ! i), p)]\<rparr>"

text \<open>\<open>checkKnockStatus\<close> with no retries: a missing record, a failed call and a failed write all throw, and
the task is over.\<close>

definition checked :: "'j knock_record option \<Rightarrow> 'j sweep_phase" where
  "checked found = (case found of None \<Rightarrow> Settled | Some r \<Rightarrow> Asking r)"

definition answered :: "'j knock_record \<Rightarrow> js_exn + knock_status_reply \<Rightarrow> 'j sweep_phase" where
  "answered r answer = (case answer of Inl _ \<Rightarrow> Settled | Inr reply \<Rightarrow> Recording r reply)"

definition recorded :: "knock_exn + 'j knock_record \<Rightarrow> 'j sweep_phase" where
  "recorded res = (case res of Inl _ \<Rightarrow> Settled | Inr updated \<Rightarrow> Notifying updated)"

definition callback :: "'j knock_record \<Rightarrow> (knock_outcome \<times> 'j knock_record) list" where
  "callback updated = (case kn_status updated of
      KAccepted \<Rightarrow> [(Accepted, updated)] | KDenied \<Rightarrow> [(Denied, updated)] | KPending \<Rightarrow> [])"

inductive sweep_step :: "('s, 'j) knock_store \<Rightarrow> ('s, 'j) sweep \<Rightarrow> ('s, 'j) sweep \<Rightarrow> bool" for store where
  checks: "i < length (sw_tasks sw) \<Longrightarrow> sw_tasks sw ! i = (r0, Checking) \<Longrightarrow>
     sweep_step store sw (set_phase i (checked (ks_get store (kn_id r0) (sw_store sw))) sw)"
| answers: "i < length (sw_tasks sw) \<Longrightarrow> sw_tasks sw ! i = (r0, Asking r) \<Longrightarrow>
     sweep_step store sw (set_phase i (answered r answer) sw)"
| records: "i < length (sw_tasks sw) \<Longrightarrow> sw_tasks sw ! i = (r0, Recording r reply) \<Longrightarrow>
     applyStatusReply store now r reply (sw_store sw) = (res, s') \<Longrightarrow>
     sweep_step store sw (set_phase i (recorded res) (sw\<lparr>sw_store := s'\<rparr>))"
| notifies: "i < length (sw_tasks sw) \<Longrightarrow> sw_tasks sw ! i = (r0, Notifying updated) \<Longrightarrow>
     sweep_step store sw (set_phase i Settled (sw\<lparr>sw_calls := sw_calls sw @ callback updated\<rparr>))"

definition sweep_over :: "('s, 'j) sweep \<Rightarrow> bool" where
  "sweep_over sw = (\<forall>t \<in> set (sw_tasks sw). snd t = Settled)"

inductive_cases sweep_stepE: "sweep_step store sw sw'"

end
