(* ===== verification/KnockClaims.thy ===== *)
theory KnockClaims
  imports KnockFlow
begin

text \<open>
  What the knock store and the operations on it promise. The client lemmas are proved in the context of
  \<open>knock_repository\<close>; the properties are their instances on the IndexedDB store.
\<close>

section \<open>The store under any sequence of operations\<close>

inductive knock_reachable :: "'j knock_row list \<Rightarrow> bool" where
  kr_empty: "knock_reachable []"
| kr_create: "knock_reachable rows \<Longrightarrow> \<forall>r \<in> set rows. kn_id r \<noteq> u \<Longrightarrow>
     knock_reachable (snd (createKnock u now input rows))"
| kr_decide: "knock_reachable rows \<Longrightarrow> knock_reachable (snd (recordDecision k d g rows))"
| kr_delete: "knock_reachable rows \<Longrightarrow> knock_reachable (deleteKnock k rows)"

context knock_repository
begin

lemma create_keeps:
  assumes "ok s" "knocks_ok (recs s)" "\<forall>r \<in> recs s. kn_id r \<noteq> u"
  shows "ok (snd (ks_create store u now i s)) \<and> knocks_ok (recs (snd (ks_create store u now i s)))"
proof (cases "\<exists>r \<in> recs s. blocks (ci_nodeId i) (ci_scope i) r")
  case True
  then show ?thesis using assms create_conflict [OF assms(1) True] by simp
next
  case False
  then have free: "\<forall>r \<in> recs s. \<not> blocks (ci_nodeId i) (ci_scope i) r" by blast
  obtain s' where "ks_create store u now i s = (Inr (new_knock u now i), s')" "ok s'"
      "recs s' = insert (new_knock u now i) (recs s)"
    using create_new [OF assms(1) free assms(3)] by blast
  then show ?thesis using knocks_ok_new [OF assms(2) free] by simp
qed

lemma decide_keeps:
  assumes "ok s" "knocks_ok (recs s)"
  shows "ok (snd (ks_recordDecision store k d g s)) \<and> knocks_ok (recs (snd (ks_recordDecision store k d g s)))"
proof (cases "\<exists>r \<in> recs s. kn_id r = k")
  case True
  then obtain r where r: "r \<in> recs s" "kn_id r = k" by blast
  obtain s' where "ks_recordDecision store (kn_id r) d g s = (Inr (decided d g r), s')" "ok s'"
      "recs s' = insert (decided d g r) (recs s - {r})"
    using decide [OF assms(1) r(1)] by blast
  then show ?thesis using knocks_ok_decided [OF assms(2) r(1)] r(2) by auto
next
  case False
  then show ?thesis using assms decide_missing [OF assms(1)] by simp
qed

lemma delete_keeps:
  "ok s \<Longrightarrow> knocks_ok (recs s) \<Longrightarrow> ok (ks_delete store k s) \<and> knocks_ok (recs (ks_delete store k s))"
  using delete [of s k] by (auto elim: knocks_ok_mono)

lemma apply_reply:
  assumes "ok s" "r \<in> recs s"
  shows "if kr_status reply = KPending then applyStatusReply store now r reply s = (Inr r, s)
    else \<exists>d s'. applyStatusReply store now r reply s = (Inr (decided d (kr_grantedResourceIds reply) r), s')
      \<and> outcome_status (kd_outcome d) = kr_status reply \<and> kd_byNodeId d = kn_nodeId r \<and> ok s'
      \<and> recs s' = insert (decided d (kr_grantedResourceIds reply) r) (recs s - {r})"
proof (cases "kr_status reply")
  case KAccepted
  then show ?thesis
    using decide [OF assms, of "reply_decision now r Accepted" "kr_grantedResourceIds reply"]
    by (auto simp: applyStatusReply_def reply_decision_def intro!: exI [of _ "reply_decision now r Accepted"])
next
  case KDenied
  then show ?thesis
    using decide [OF assms, of "reply_decision now r Denied" "kr_grantedResourceIds reply"]
    by (auto simp: applyStatusReply_def reply_decision_def intro!: exI [of _ "reply_decision now r Denied"])
qed (simp add: applyStatusReply_def)

end

lemma reachable_rows: "knock_reachable rows \<Longrightarrow> rows_ok rows \<and> knocks_ok (row_records rows)"
proof (induction rule: knock_reachable.induct)
  case kr_empty
  show ?case by (simp add: rows_ok_def row_records_def knocks_ok_def)
next
  case (kr_create rows u now input)
  then have "\<forall>r \<in> row_records rows. kn_id r \<noteq> u" by (auto simp: row_records_def)
  with kr_create.IH show ?case
    using idbk.create_keeps [of rows u now input] by (simp add: createIdbKnockStore_def)
next
  case (kr_decide rows k d g)
  then show ?case using idbk.decide_keeps [of rows k d g] by (simp add: createIdbKnockStore_def)
next
  case (kr_delete rows k)
  then show ?case using idbk.delete_keeps [of rows k] by (simp add: createIdbKnockStore_def)
qed

text \<open>C12: However knocks are created, decided and deleted, the store never holds two pending knocks of
  one node for one scope key; a knock is pending exactly while its audit log is empty, and otherwise its
  status, time and author are those of the last decision.\<close>
theorem kn_store_sound:
  assumes "knock_reachable rows" "r \<in> row_records rows"
  shows "(\<forall>r' \<in> row_records rows. kn_status r = KPending \<longrightarrow> blocks (kn_nodeId r) (kn_scope r) r' \<longrightarrow> r = r')
    \<and> (kn_status r = KPending \<longleftrightarrow> kn_decisions r = [])
    \<and> (kn_decisions r \<noteq> [] \<longrightarrow> kn_status r = outcome_status (kd_outcome (last (kn_decisions r)))
         \<and> kn_processedAt r = Some (kd_at (last (kn_decisions r)))
         \<and> kn_processedBy r = Some (kd_byNodeId (last (kn_decisions r))))"
proof -
  have "knocks_ok (row_records rows)" using reachable_rows [OF assms(1)] by blast
  then have "audited r" "\<forall>r' \<in> row_records rows. kn_status r = KPending \<longrightarrow> blocks (kn_nodeId r) (kn_scope r) r' \<longrightarrow> r = r'"
    using assms(2) by (simp_all add: knocks_ok_def)
  then show ?thesis
    by (cases "kn_decisions r" rule: rev_cases) (simp_all add: audited_def)
qed

definition browse_knock :: "unit create_knock_input" where
  "browse_knock = \<lparr>ci_nodeId = ''node'', ci_direction = Inbound, ci_scope = BrowseScope, ci_message = Some ''hi'',
     ci_createdAt = None, ci_metadata = None\<rparr>"

theorem kn_store_sound_witness:
  "kn_status (new_knock ''id'' 7 browse_knock) = KPending \<longleftrightarrow> kn_decisions (new_knock ''id'' 7 browse_knock) = []"
proof -
  have "knock_reachable (snd (createKnock ''id'' 7 browse_knock []))"
    by (rule kr_create [OF kr_empty]) simp
  moreover have "new_knock ''id'' 7 browse_knock \<in> row_records (snd (createKnock ''id'' 7 browse_knock []))"
    by (simp add: createKnock_def dedup_hits_def idb_index_all_def row_records_def)
  ultimately show ?thesis using kn_store_sound by blast
qed

section \<open>The dedup key\<close>

text \<open>The string the dedup index is keyed on tells two scopes apart exactly when they ask for different
  things (an absent name or role counts as an empty one), as long as resource ids contain no colon.\<close>
theorem kn_scope_key:
  assumes "colon_free a" "colon_free b"
  shows "scopeKey a = scopeKey b \<longleftrightarrow> same_request a b"
  by (rule scopeKey_faithful [OF assms])

theorem kn_scope_key_witness:
  "scopeKey (ResourceScope ''doc'' (Some ''viewer'')) = scopeKey (ResourceScope ''doc'' None)
     \<longleftrightarrow> same_request (ResourceScope ''doc'' (Some ''viewer'')) (ResourceScope ''doc'' None)"
  by (rule kn_scope_key) simp_all

text \<open>With colons the dedup rule misfires: while a knock for the resource \<open>x:y\<close> is pending, the same
  node's knock for the resource \<open>x\<close> with the role \<open>y:\<close> is refused as a duplicate.\<close>
theorem kn_scope_collision:
  assumes "rows_ok rows" "r \<in> row_records rows" "kn_status r = KPending"
    "kn_scope r = ResourceScope (x @ '':'' @ y) None" "ci_nodeId input = kn_nodeId r"
    "ci_scope input = ResourceScope x (Some (y @ '':''))"
  shows "createKnock u now input rows = (Inl (KnockConflictError (kn_nodeId r) (ci_scope input)), rows)"
proof -
  have "blocks (ci_nodeId input) (ci_scope input) r"
    using assms by (simp add: blocks_def)
  then show ?thesis
    using idbk.create_conflict [of rows input u now] assms by (auto simp: createIdbKnockStore_def)
qed

theorem kn_scope_collision_witness:
  "\<exists>rows. fst (createKnock ''new'' 9 \<lparr>ci_nodeId = ''node'', ci_direction = Inbound,
       ci_scope = ResourceScope ''a'' (Some ''b:''), ci_message = None, ci_createdAt = None, ci_metadata = None :: unit option\<rparr> rows)
     = Inl (KnockConflictError ''node'' (ResourceScope ''a'' (Some ''b:'')))"
proof -
  let ?i = "\<lparr>ci_nodeId = ''node'', ci_direction = Inbound, ci_scope = ResourceScope ''a:b'' None, ci_message = None,
     ci_createdAt = None, ci_metadata = None :: unit option\<rparr>"
  let ?rows = "[toRow (new_knock ''old'' 7 ?i)]"
  have "rows_ok ?rows" by (simp add: rows_ok_def idb_ok_def)
  moreover have "new_knock ''old'' 7 ?i \<in> row_records ?rows" by (simp add: row_records_def)
  ultimately show ?thesis
    using kn_scope_collision [of ?rows "new_knock ''old'' 7 ?i" "''a''" "''b''"
        "\<lparr>ci_nodeId = ''node'', ci_direction = Inbound, ci_scope = ResourceScope ''a'' (Some ''b:''), ci_message = None,
          ci_createdAt = None, ci_metadata = None\<rparr>" "''new''" 9]
    by (intro exI [of _ ?rows]) simp
qed

section \<open>Sending and re-checking\<close>

text \<open>The world at the start of attempt \<open>k\<close>, when all before it failed.\<close>

primrec retry_world ::
    "('s \<times> 'n \<Rightarrow> (knock_exn + 'j knock_record) \<times> ('s \<times> 'n)) \<Rightarrow> (int \<Rightarrow> 's \<times> 'n \<Rightarrow> 's \<times> 'n) \<Rightarrow> int \<Rightarrow> 's \<times> 'n \<Rightarrow> nat \<Rightarrow> 's \<times> 'n" where
  "retry_world try sleep b w 0 = w"
| "retry_world try sleep b w (Suc k) = sleep (b * 2 ^ k) (snd (try (retry_world try sleep b w k)))"

text \<open>The first attempt to succeed decides, or the last one's error is thrown.\<close>

definition retried ::
    "('s \<times> 'n \<Rightarrow> (knock_exn + 'j knock_record) \<times> ('s \<times> 'n)) \<Rightarrow> (nat \<Rightarrow> 's \<times> 'n) \<Rightarrow> nat \<Rightarrow>
     (knock_exn + 'j knock_record) \<times> ('s \<times> 'n) \<Rightarrow> bool" where
  "retried try W n res \<longleftrightarrow>
     (\<exists>m r. m \<le> n \<and> (\<forall>j < m. isl (fst (try (W j)))) \<and> fst (try (W m)) = Inr r \<and> res = (Inr r, snd (try (W m))))
   \<or> (\<forall>j \<le> n. isl (fst (try (W j)))) \<and> res = (Inl (rethrown (Some (projl (fst (try (W n)))))), snd (try (W n)))"

lemma retried_hit:
  "fst (try (W m)) = Inr r \<Longrightarrow> m \<le> n \<Longrightarrow> \<forall>j < m. isl (fst (try (W j))) \<Longrightarrow> retried try W n (Inr r, snd (try (W m)))"
  by (auto simp: retried_def)

lemma check_loop_from:
  assumes "\<forall>j < k. isl (fst (try (retry_world try sleep b w j)))"
  shows "retried try (retry_world try sleep b w) (k + left)
    (check_loop try sleep b (Suc left) k e (retry_world try sleep b w k))"
  using assms
proof (induction left arbitrary: k e)
  case 0
  let ?t = "try (retry_world try sleep b w k)"
  show ?case
  proof (cases "fst ?t")
    case (Inl x)
    then have "check_loop try sleep b (Suc 0) k e (retry_world try sleep b w k) = (Inl (rethrown (Some x)), snd ?t)"
      by (cases ?t) simp
    then show ?thesis using Inl 0 by (auto simp: retried_def le_less)
  next
    case (Inr r)
    then have "check_loop try sleep b (Suc 0) k e (retry_world try sleep b w k) = (Inr r, snd ?t)"
      by (cases ?t) simp
    with retried_hit [of "try" "retry_world try sleep b w" k r k] Inr 0 show ?thesis by simp
  qed
next
  case (Suc left)
  let ?t = "try (retry_world try sleep b w k)"
  show ?case
  proof (cases "fst ?t")
    case (Inl x)
    then have "check_loop try sleep b (Suc (Suc left)) k e (retry_world try sleep b w k)
        = check_loop try sleep b (Suc left) (Suc k) (Some x) (retry_world try sleep b w (Suc k))"
      by (cases ?t) simp
    moreover have "\<forall>j < Suc k. isl (fst (try (retry_world try sleep b w j)))"
      using Suc.prems Inl by (auto simp: less_Suc_eq)
    ultimately show ?thesis using Suc.IH [of "Suc k" "Some x"] by simp
  next
    case (Inr r)
    then have "check_loop try sleep b (Suc (Suc left)) k e (retry_world try sleep b w k) = (Inr r, snd ?t)"
      by (cases ?t) simp
    with retried_hit [of "try" "retry_world try sleep b w" k r "k + Suc left"] Inr Suc.prems show ?thesis by simp
  qed
qed

text \<open>\<open>checkKnockStatus\<close> makes at most one attempt more than \<open>retries\<close> and none after the first that
  succeeds, sleeps \<open>backoffMs * 2 ^ k\<close> after failed attempt \<open>k\<close> but not after the last, and throws the last
  error only when all attempts failed.\<close>
theorem kn_check_retries:
  assumes "ks_get store knockId (fst w) = Some r" "0 \<le> nullish_or (co_retries options) 0"
  shows "retried (check_once store transport clock r)
      (retry_world (check_once store transport clock r) sleep (nullish_or (co_backoffMs options) 1000) w)
      (nat (nullish_or (co_retries options) 0))
      (checkKnockStatus store transport clock sleep knockId options w)"
proof -
  have "nat (nullish_or (co_retries options) 0 + 1) = Suc (nat (nullish_or (co_retries options) 0))"
    using assms(2) by (simp add: Suc_nat_eq_nat_zadd1 add.commute)
  then show ?thesis
    using check_loop_from [of 0 "check_once store transport clock r" sleep "nullish_or (co_backoffMs options) 1000" w
        "nat (nullish_or (co_retries options) 0)" None]
    by (simp add: checkKnockStatus_def assms(1))
qed

text \<open>A peer that is away for two calls and then accepts; the rest of the world counts calls and sleeps.\<close>

definition late_peer :: "(unit knock_row list \<times> (nat \<times> int list)) knock_transport" where
  "late_peer = \<lparr>kt_sendKnock = (\<lambda>_ _ w. (Inl (JsError ''offline''), w)),
     kt_checkKnockStatus = (\<lambda>_ _ (s, n, t).
       (if n < 2 then Inl (JsError ''offline'') else Inr \<lparr>kr_status = KAccepted, kr_grantedResourceIds = None\<rparr>, (s, Suc n, t)))\<rparr>"

definition one_knock :: "unit knock_row list" where
  "one_knock = [toRow (new_knock ''k'' 7 (outbound_input ''peer'' \<lparr>kq_scope = BrowseScope, kq_message = None, kq_requesterName = None\<rparr>))]"

definition knock_sleep :: "int \<Rightarrow> unit knock_row list \<times> (nat \<times> int list) \<Rightarrow> unit knock_row list \<times> (nat \<times> int list)" where
  "knock_sleep ms w = (case w of (s, n, t) \<Rightarrow> (s, n, t @ [ms]))"

lemma late_check:
  "\<exists>s r. checkKnockStatus createIdbKnockStore late_peer (\<lambda>_. 9) knock_sleep ''k'' \<lparr>co_retries = Some 3, co_backoffMs = Some 100\<rparr>
     (one_knock, 0, []) = (Inr r, (s, 3, [100, 200])) \<and> kn_status r = KAccepted"
  by (simp add: checkKnockStatus_def createIdbKnockStore_def getKnock_def one_knock_def idb_get_def check_once_def
      late_peer_def knock_sleep_def applyStatusReply_def recordDecision_def Let_def reply_decision_def eval_nat_numeral)

theorem kn_check_retries_witness:
  "\<exists>r. retried (check_once createIdbKnockStore late_peer (\<lambda>_. 9) r)
     (retry_world (check_once createIdbKnockStore late_peer (\<lambda>_. 9) r) knock_sleep 100 (one_knock, 0, [])) 3
     (checkKnockStatus createIdbKnockStore late_peer (\<lambda>_. 9) knock_sleep ''k'' \<lparr>co_retries = Some 3, co_backoffMs = Some 100\<rparr>
        (one_knock, 0, []))"
proof -
  have "ks_get createIdbKnockStore ''k'' one_knock = Some (fromRow (hd one_knock))"
    by (simp add: createIdbKnockStore_def getKnock_def one_knock_def idb_get_def)
  then show ?thesis
    using kn_check_retries [of createIdbKnockStore "''k''" "(one_knock, 0, [])" _ "\<lparr>co_retries = Some 3, co_backoffMs = Some 100\<rparr>"]
    by fastforce
qed

lemma decision_id:
  assumes "recordDecision k d g rows = (Inr r, rows')"
  shows "kn_id r = k"
proof -
  obtain row where "idb_get kn_id k rows = Some row" "r = decided d g (fromRow row)"
    using assms by (auto simp: recordDecision_def Let_def split: option.splits)
  then show ?thesis by (auto simp: idb_get_def dest: find_SomeD)
qed

lemma applied_id:
  "applyStatusReply createIdbKnockStore now r0 reply rows = (Inr r, rows') \<Longrightarrow> kn_id r = kn_id r0"
  by (auto simp: applyStatusReply_def createIdbKnockStore_def dest: decision_id split: knock_status.splits)

text \<open>\<open>sendKnock\<close> fails only when a knock of that node and scope key is pending, and then it changes
  nothing and contacts nobody. Otherwise the knock is recorded before the peer is contacted: if the call
  fails, the pending knock is the result; an answer is recorded on it.\<close>
theorem kn_send:
  assumes "rows_ok (fst w)" "\<forall>r \<in> row_records (fst w). kn_id r \<noteq> uuid"
    "created = (snd (createKnock uuid (clock w) (outbound_input nodeId request) (fst w)), snd w)"
  shows "if \<exists>r \<in> row_records (fst w). blocks nodeId (kq_scope request) r
    then sendKnock createIdbKnockStore transport clock uuid nodeId request w
        = (Inl (KnockConflictError nodeId (kq_scope request)), w)
    else \<exists>r w'. sendKnock createIdbKnockStore transport clock uuid nodeId request w = (Inr r, w')
      \<and> kn_id r = uuid
      \<and> (case kt_sendKnock transport nodeId request created of
           (Inl _, w2) \<Rightarrow> r = new_knock uuid (clock w) (outbound_input nodeId request) \<and> w' = w2
         | (Inr reply, w2) \<Rightarrow> fst w2 = fst created \<longrightarrow> kn_status r = kr_status reply
             \<and> kn_nodeId r = nodeId \<and> kn_scope r = kq_scope request \<and> r \<in> row_records (fst w'))"
proof (cases "\<exists>r \<in> row_records (fst w). blocks nodeId (kq_scope request) r")
  case True
  then have "createKnock uuid (clock w) (outbound_input nodeId request) (fst w)
      = (Inl (KnockConflictError nodeId (kq_scope request)), fst w)"
    using idbk.create_conflict [OF assms(1), of "outbound_input nodeId request" uuid "clock w"]
    by (simp add: createIdbKnockStore_def outbound_input_def)
  with True show ?thesis by (simp add: sendKnock_def createIdbKnockStore_def)
next
  case False
  let ?new = "new_knock uuid (clock w) (outbound_input nodeId request)"
  have "\<forall>r \<in> row_records (fst w). \<not> blocks (ci_nodeId (outbound_input nodeId request)) (ci_scope (outbound_input nodeId request)) r"
    using False by (simp add: outbound_input_def)
  from idbk.create_new [OF assms(1) this assms(2), of "clock w"] obtain s1 where
    s1: "createKnock uuid (clock w) (outbound_input nodeId request) (fst w) = (Inr ?new, s1)" "rows_ok s1"
      "?new \<in> row_records s1"
    by (auto simp: createIdbKnockStore_def)
  obtain answer w2 where t: "kt_sendKnock transport nodeId request created = (answer, w2)" by (rule prod.exhaust)
  show ?thesis
  proof (cases answer)
    case (Inl e)
    with False s1(1) t assms(3) show ?thesis
      by (simp add: sendKnock_def createIdbKnockStore_def outbound_input_def)
  next
    case (Inr reply)
    obtain res s3 where a: "applyStatusReply createIdbKnockStore (clock w2) ?new reply (fst w2) = (res, s3)" by fastforce
    have fields: "kn_id r = uuid" if "res = Inr r" for r
      using applied_id [of "clock w2" ?new reply "fst w2" r s3] a that by simp
    have exact: "\<exists>r. res = Inr r \<and> kn_status r = kr_status reply \<and> kn_nodeId r = nodeId
        \<and> kn_scope r = kq_scope request \<and> r \<in> row_records s3" if "fst w2 = s1"
      using idbk.apply_reply [OF s1(2,3), of reply "clock w2"] a that s1(3)
      by (auto simp: outbound_input_def split: if_splits)
    show ?thesis
      using False s1(1) t assms(3) Inr a fields exact
      by (cases res) (auto simp: sendKnock_def createIdbKnockStore_def outbound_input_def)
  qed
qed

theorem kn_send_witness:
  "\<exists>r w'. sendKnock createIdbKnockStore late_peer (\<lambda>_. 9) ''new'' ''peer'' \<lparr>kq_scope = BrowseScope, kq_message = None, kq_requesterName = None\<rparr>
      ([], 0, []) = (Inr r, w') \<and> kn_id r = ''new''"
proof -
  have "\<not> (\<exists>r \<in> row_records (fst ([], 0, [])). blocks ''peer'' BrowseScope r)" by (simp add: row_records_def)
  then show ?thesis
    using kn_send [of "([], 0, [])" "''new''" _ "\<lambda>_. 9" "''peer''" "\<lparr>kq_scope = BrowseScope, kq_message = None, kq_requesterName = None\<rparr>" late_peer]
    by (simp add: row_records_def rows_ok_def) blast
qed

section \<open>The sweep\<close>

definition calls_of :: "string \<Rightarrow> ('s, 'j) sweep \<Rightarrow> (knock_outcome \<times> 'j knock_record) list" where
  "calls_of k sw = filter (\<lambda>c. kn_id (snd c) = k) (sw_calls sw)"

lemma decided_same: "decided d g r = decided d' g' r \<Longrightarrow> d = d'"
  by (drule arg_cong [where f = kn_decisions]) simp

definition untouched :: "('s \<Rightarrow> 'j knock_record set) \<Rightarrow> ('s, 'j) sweep \<Rightarrow> 'j knock_record \<Rightarrow> bool" where
  "untouched rs sw r \<longleftrightarrow> r \<in> rs (sw_store sw) \<and> calls_of (kn_id r) sw = []"

definition resolved ::
    "('s \<Rightarrow> 'j knock_record set) \<Rightarrow> ('s, 'j) sweep \<Rightarrow> 'j knock_record \<Rightarrow> (knock_outcome \<times> 'j knock_record) list \<Rightarrow>
     'j knock_record \<Rightarrow> bool" where
  "resolved rs sw r calls u \<longleftrightarrow> u \<in> rs (sw_store sw) \<and> calls_of (kn_id r) sw = calls
     \<and> (\<exists>d g. u = decided d g r \<and> (calls = [] \<or> calls = [(kd_outcome d, u)]))"

fun task_ok :: "('s \<Rightarrow> 'j knock_record set) \<Rightarrow> ('s, 'j) sweep \<Rightarrow> 'j knock_record \<Rightarrow> 'j sweep_phase \<Rightarrow> bool" where
  "task_ok rs sw r Checking = untouched rs sw r"
| "task_ok rs sw r (Asking r') = (r' = r \<and> untouched rs sw r)"
| "task_ok rs sw r (Recording r' reply) = (r' = r \<and> untouched rs sw r)"
| "task_ok rs sw r (Notifying u) = (u = r \<and> untouched rs sw r \<or> resolved rs sw r [] u)"
| "task_ok rs sw r Settled = (untouched rs sw r \<or> (\<exists>d u. resolved rs sw r [(d, u)] u))"

context knock_repository
begin

lemma task_frame:
  assumes "task_ok recs sw r p" "\<And>x. kn_id x = kn_id r \<Longrightarrow> x \<in> recs (sw_store sw') \<longleftrightarrow> x \<in> recs (sw_store sw)"
    "calls_of (kn_id r) sw' = calls_of (kn_id r) sw"
  shows "task_ok recs sw' r p"
proof -
  have u: "untouched recs sw' r = untouched recs sw r" using assms(2,3) by (simp add: untouched_def)
  have "resolved recs sw' r c u = resolved recs sw r c u" for c u
    using assms(2) [of u] assms(3) by (auto simp: resolved_def)
  with u assms(1) show ?thesis by (cases p) simp_all
qed

text \<open>A step of task \<open>i\<close> keeps what the task promises and changes nothing of another knock.\<close>

lemma own_step:
  assumes "sweep_step store sw sw'" "ok (sw_store sw)" "\<forall>t \<in> set (sw_tasks sw). task_ok recs sw (fst t) (snd t) \<and> kn_status (fst t) = KPending"
  obtains i p where "i < length (sw_tasks sw)" "sw_tasks sw' = (sw_tasks sw)[i := (fst (sw_tasks sw ! i), p)]"
    "ok (sw_store sw')" "task_ok recs sw' (fst (sw_tasks sw ! i)) p"
    "\<And>x. kn_id x \<noteq> kn_id (fst (sw_tasks sw ! i)) \<Longrightarrow> x \<in> recs (sw_store sw') \<longleftrightarrow> x \<in> recs (sw_store sw)"
    "\<And>k. k \<noteq> kn_id (fst (sw_tasks sw ! i)) \<Longrightarrow> calls_of k sw' = calls_of k sw"
    "kn_id ` recs (sw_store sw') = kn_id ` recs (sw_store sw)"
  using assms(1)
proof (cases rule: sweep_step.cases)
  case (checks i r0)
  then have "untouched recs sw r0" using assms(3) nth_mem [OF checks(2)] by fastforce
  then have "ks_get store (kn_id r0) (sw_store sw) = Some r0"
    using get_iff [OF assms(2)] by (simp add: untouched_def)
  with checks \<open>untouched recs sw r0\<close> show ?thesis
    by (intro that [of i "Asking r0"]) (simp_all add: set_phase_def checked_def assms(2) untouched_def calls_of_def)
next
  case (answers i r0 r answer)
  then have "untouched recs sw r0 \<and> r = r0" using assms(3) nth_mem [OF answers(2)] by fastforce
  with answers show ?thesis
    by (intro that [of i "answered r answer"])
      (auto simp: set_phase_def answered_def assms(2) untouched_def calls_of_def split: sum.split)
next
  case (records i r0 r reply now res s')
  then have u: "untouched recs sw r0" "r = r0" using assms(3) nth_mem [OF records(2)] by fastforce+
  then have r0: "r0 \<in> recs (sw_store sw)" by (simp add: untouched_def)
  show ?thesis
  proof (cases "kr_status reply = KPending")
    case True
    then have "res = Inr r0" "s' = sw_store sw"
      using apply_reply [OF assms(2) r0, of reply now] records(4) u(2) by simp_all
    with records u show ?thesis
      by (intro that [of i "Notifying r0"])
        (simp_all add: set_phase_def recorded_def assms(2) untouched_def calls_of_def)
  next
    case False
    then obtain d where d: "res = Inr (decided d (kr_grantedResourceIds reply) r0)" "ok s'"
      "recs s' = insert (decided d (kr_grantedResourceIds reply) r0) (recs (sw_store sw) - {r0})"
      using apply_reply [OF assms(2) r0, of reply now] records(4) u(2) by auto
    have ids: "kn_id ` recs s' = kn_id ` recs (sw_store sw)" using r0 by (auto simp: d(3) image_iff)
    with records u d show ?thesis
      by (intro that [of i "Notifying (decided d (kr_grantedResourceIds reply) r0)"])
        (auto simp: set_phase_def recorded_def untouched_def resolved_def calls_of_def)
  qed
next
  case (notifies i r0 updated)
  then have t: "kn_status r0 = KPending" "updated = r0 \<and> untouched recs sw r0 \<or> resolved recs sw r0 [] updated"
    using assms(3) nth_mem [OF notifies(2)] by fastforce+
  have "task_ok recs sw' r0 Settled"
  proof (cases "updated = r0 \<and> untouched recs sw r0")
    case True
    with t(1) show ?thesis by (simp add: notifies(1) set_phase_def callback_def untouched_def calls_of_def)
  next
    case False
    then obtain d g where "updated = decided d g r0" "resolved recs sw r0 [] updated" using t(2) by (auto simp: resolved_def)
    then show ?thesis
      by (cases "kd_outcome d") (auto simp: notifies(1) set_phase_def callback_def resolved_def calls_of_def dest: decided_same intro!: exI)
  qed
  moreover have "kn_id updated = kn_id r0" using t(2) by (auto simp: resolved_def)
  ultimately show ?thesis using notifies
    by (intro that [of i Settled])
      (auto simp: set_phase_def assms(2) calls_of_def callback_def split: knock_status.split)
qed

definition sweep_ok :: "'s \<Rightarrow> 'j knock_record list \<Rightarrow> ('s, 'j) sweep \<Rightarrow> bool" where
  "sweep_ok s0 T sw \<longleftrightarrow> ok (sw_store sw) \<and> map fst (sw_tasks sw) = T
     \<and> (\<forall>t \<in> set (sw_tasks sw). task_ok recs sw (fst t) (snd t) \<and> kn_status (fst t) = KPending)
     \<and> (\<forall>x. kn_id x \<notin> kn_id ` set T \<longrightarrow> x \<in> recs (sw_store sw) \<longleftrightarrow> x \<in> recs s0)
     \<and> (\<forall>k. k \<notin> kn_id ` set T \<longrightarrow> calls_of k sw = [])
     \<and> kn_id ` recs (sw_store sw) = kn_id ` recs s0"

lemma sweep_ok_step:
  assumes "sweep_step store sw sw'" "sweep_ok s0 T sw" "distinct (map kn_id T)"
  shows "sweep_ok s0 T sw'"
proof -
  have inv: "ok (sw_store sw)" "\<forall>t \<in> set (sw_tasks sw). task_ok recs sw (fst t) (snd t) \<and> kn_status (fst t) = KPending"
    and T: "map fst (sw_tasks sw) = T"
    using assms(2) by (simp_all add: sweep_ok_def)
  from assms(1) inv obtain i p where i: "i < length (sw_tasks sw)"
    "sw_tasks sw' = (sw_tasks sw)[i := (fst (sw_tasks sw ! i), p)]" "ok (sw_store sw')"
    and own: "task_ok recs sw' (fst (sw_tasks sw ! i)) p"
    and other: "\<And>x. kn_id x \<noteq> kn_id (fst (sw_tasks sw ! i)) \<Longrightarrow> x \<in> recs (sw_store sw') \<longleftrightarrow> x \<in> recs (sw_store sw)"
      "\<And>k. k \<noteq> kn_id (fst (sw_tasks sw ! i)) \<Longrightarrow> calls_of k sw' = calls_of k sw"
      "kn_id ` recs (sw_store sw') = kn_id ` recs (sw_store sw)"
    by (rule own_step) blast
  have Ti: "fst (sw_tasks sw ! i) = T ! i" "length T = length (sw_tasks sw)" using i(1) T by auto
  have "task_ok recs sw' (fst (sw_tasks sw' ! j)) (snd (sw_tasks sw' ! j)) \<and> kn_status (fst (sw_tasks sw' ! j)) = KPending"
    if "j < length (sw_tasks sw')" for j
  proof (cases "j = i")
    case True
    then show ?thesis using i own inv(2) nth_mem [OF i(1)] by simp
  next
    case False
    have j: "j < length (sw_tasks sw)" using that i(2) by simp
    then have "kn_id (fst (sw_tasks sw ! j)) \<noteq> kn_id (fst (sw_tasks sw ! i))"
      using False i(1) T assms(3) nth_eq_iff_index_eq [of "map kn_id T" j i] by auto
    then show ?thesis
      using False i(2) inv(2) nth_mem [OF j] other(1,2)
      by (auto intro: task_frame)
  qed
  then have "\<forall>t \<in> set (sw_tasks sw'). task_ok recs sw' (fst t) (snd t) \<and> kn_status (fst t) = KPending"
    by (metis in_set_conv_nth)
  moreover have "map fst (sw_tasks sw') = T"
    using T i(2) by (simp add: map_update Ti(1))
  moreover have "kn_id (T ! i) \<in> kn_id ` set T" using Ti(2) i(1) by simp
  then have "k \<noteq> kn_id (fst (sw_tasks sw ! i))" if "k \<notin> kn_id ` set T" for k
    using that unfolding Ti(1) by blast
  with other assms(2) have "\<forall>x. kn_id x \<notin> kn_id ` set T \<longrightarrow> x \<in> recs (sw_store sw') \<longleftrightarrow> x \<in> recs s0"
    "\<forall>k. k \<notin> kn_id ` set T \<longrightarrow> calls_of k sw' = []" "kn_id ` recs (sw_store sw') = kn_id ` recs s0"
    by (simp_all add: sweep_ok_def)
  ultimately show ?thesis using i(3) by (simp add: sweep_ok_def)
qed

lemma sweep_ok_start:
  assumes "ok s0"
  shows "sweep_ok s0 (filter (\<lambda>r. kn_direction r = Outbound) (ks_listPending store s0)) (checkPendingKnocks store s0)
    \<and> distinct (map kn_id (filter (\<lambda>r. kn_direction r = Outbound) (ks_listPending store s0)))"
proof -
  let ?T = "filter (\<lambda>r. kn_direction r = Outbound) (ks_listPending store s0)"
  have T: "set ?T \<subseteq> {r \<in> recs s0. kn_status r = KPending}" "distinct ?T"
    using list_pending [OF assms] by (auto simp: newest_first_def)
  have "inj_on kn_id (set ?T)" using id_unique [OF assms] T(1) by (auto simp: inj_on_def)
  with T assms show ?thesis
    by (auto simp: sweep_ok_def checkPendingKnocks_def comp_def untouched_def calls_of_def distinct_map)
qed

lemma sweep_result:
  assumes "ok s0" "(sweep_step store)\<^sup>*\<^sup>* (checkPendingKnocks store s0) sw" "sweep_over sw" "r \<in> recs s0"
  shows "if kn_status r = KPending \<and> kn_direction r = Outbound
    then untouched recs sw r \<or> (\<exists>d g. decided d g r \<in> recs (sw_store sw) \<and> calls_of (kn_id r) sw = [(kd_outcome d, decided d g r)])
    else untouched recs sw r"
proof -
  let ?T = "filter (\<lambda>r. kn_direction r = Outbound) (ks_listPending store s0)"
  have "sweep_ok s0 ?T sw"
    using assms(2) sweep_ok_start [OF assms(1)]
    by (induction rule: rtranclp_induct) (blast intro: sweep_ok_step)+
  then have sw: "map fst (sw_tasks sw) = ?T" "\<forall>t \<in> set (sw_tasks sw). task_ok recs sw (fst t) Settled"
    "\<forall>x. kn_id x \<notin> kn_id ` set ?T \<longrightarrow> x \<in> recs (sw_store sw) \<longleftrightarrow> x \<in> recs s0"
    "\<forall>k. k \<notin> kn_id ` set ?T \<longrightarrow> calls_of k sw = []"
    using assms(3) unfolding sweep_ok_def sweep_over_def by metis+
  have T: "set ?T = {r \<in> recs s0. kn_status r = KPending \<and> kn_direction r = Outbound}"
    using list_pending [OF assms(1)] by auto
  show ?thesis
  proof (cases "r \<in> set ?T")
    case True
    then have "r \<in> fst ` set (sw_tasks sw)" using arg_cong [OF sw(1), of set] by simp
    then have "task_ok recs sw r Settled" using sw(2) by fastforce
    with True T show ?thesis by (auto simp: resolved_def)
  next
    case False
    then have "kn_id r \<notin> kn_id ` set ?T" using T assms(4) id_unique [OF assms(1)] by auto
    with sw(3,4) assms(4) False T show ?thesis by (auto simp: untouched_def)
  qed
qed

end

text \<open>Whatever the order in which the tasks of the boot sweep interleave and the peers answer, once it is
  over every pending outbound knock is either as it was, with no callback, or carries exactly one new
  decision and its callback ran exactly once with the updated record; every other knock is untouched.\<close>
theorem kn_sweep_once:
  assumes "rows_ok rows" "(sweep_step createIdbKnockStore)\<^sup>*\<^sup>* (checkPendingKnocks createIdbKnockStore rows) sw"
    "sweep_over sw" "r \<in> row_records rows"
  shows "if kn_status r = KPending \<and> kn_direction r = Outbound
    then r \<in> row_records (sw_store sw) \<and> calls_of (kn_id r) sw = []
      \<or> (\<exists>d g. decided d g r \<in> row_records (sw_store sw) \<and> calls_of (kn_id r) sw = [(kd_outcome d, decided d g r)])
    else r \<in> row_records (sw_store sw) \<and> calls_of (kn_id r) sw = []"
  by (rule idbk.sweep_result [OF assms, unfolded untouched_def])

fun phase_rank :: "'j sweep_phase \<Rightarrow> nat" where
  "phase_rank Checking = 4"
| "phase_rank (Asking r) = 3"
| "phase_rank (Recording r reply) = 2"
| "phase_rank (Notifying u) = 1"
| "phase_rank Settled = 0"

definition sweep_rank :: "('s, 'j) sweep \<Rightarrow> nat" where
  "sweep_rank sw = sum_list (map (\<lambda>t. phase_rank (snd t)) (sw_tasks sw))"

lemma set_phase_rank:
  assumes "i < length (sw_tasks sw)" "phase_rank p < phase_rank (snd (sw_tasks sw ! i))" "sw_tasks sw' = sw_tasks sw"
  shows "sweep_rank (set_phase i p sw') < sweep_rank sw"
  using arg_cong [OF id_take_nth_drop [OF assms(1)], of "\<lambda>ts. sum_list (map (\<lambda>t. phase_rank (snd t)) ts)"] assms
  by (simp add: sweep_rank_def set_phase_def upd_conv_take_nth_drop)

lemma sweep_step_rank: "sweep_step store sw sw' \<Longrightarrow> sweep_rank sw' < sweep_rank sw"
  by (erule sweep_stepE)
    (auto simp: checked_def answered_def recorded_def intro!: set_phase_rank split: option.split sum.split)

text \<open>The sweep ends: with \<open>n\<close> pending outbound knocks it makes at most \<open>4 n\<close> steps in any interleaving,
  and as long as a task is not settled some task can make one.\<close>
theorem kn_sweep_ends:
  assumes "(sweep_step store ^^ n) (checkPendingKnocks store s) sw"
  shows "n \<le> 4 * length (sw_tasks (checkPendingKnocks store s)) \<and> (sweep_over sw \<or> (\<exists>sw'. sweep_step store sw sw'))"
proof -
  have "n + sweep_rank sw \<le> sweep_rank (checkPendingKnocks store s)"
    using assms
  proof (induction n arbitrary: sw)
    case (Suc n)
    then obtain sw1 where "(sweep_step store ^^ n) (checkPendingKnocks store s) sw1" "sweep_step store sw1 sw" by auto
    then show ?case using Suc.IH sweep_step_rank by fastforce
  qed simp
  moreover have "sweep_rank (checkPendingKnocks store s) = 4 * length (sw_tasks (checkPendingKnocks store s))"
    by (simp add: sweep_rank_def checkPendingKnocks_def comp_def sum_list_triv mult.commute)
  moreover have "\<exists>sw'. sweep_step store sw sw'" if over: "\<not> sweep_over sw"
  proof -
    obtain i r0 p where i: "i < length (sw_tasks sw)" "sw_tasks sw ! i = (r0, p)" and "p \<noteq> Settled"
      using over by (auto simp: sweep_over_def in_set_conv_nth)
    then show ?thesis
    proof (cases p)
      case (Recording r reply)
      obtain res s' where "applyStatusReply store 0 r reply (sw_store sw) = (res, s')" by fastforce
      with i Recording show ?thesis using records [OF i(1)] by blast
    qed (use i checks [OF i(1)] answers [OF i(1)] notifies [OF i(1)] in blast)+
  qed
  ultimately show ?thesis by auto
qed

definition swept :: "(unit knock_row list, unit) sweep" where
  "swept = set_phase 0 Settled (checkPendingKnocks createIdbKnockStore one_knock)"

text \<open>The peer is away: its task asks, fails and is over.\<close>

lemma swept_run: "(sweep_step createIdbKnockStore ^^ 2) (checkPendingKnocks createIdbKnockStore one_knock) swept"
proof -
  let ?s = "checkPendingKnocks createIdbKnockStore one_knock" and ?r = "fromRow (hd one_knock)"
  have l: "ks_listPending createIdbKnockStore one_knock = [?r]" "kn_direction ?r = Outbound"
    "ks_get createIdbKnockStore (kn_id ?r) one_knock = Some ?r"
    by (simp_all add: createIdbKnockStore_def listPending_def one_knock_def newest_knocks_def outbound_input_def
        getKnock_def idb_get_def)
  have "sweep_step createIdbKnockStore ?s (set_phase 0 (Asking ?r) ?s)"
    using sweep_step.checks [of 0 ?s ?r createIdbKnockStore] l by (simp add: checkPendingKnocks_def checked_def)
  moreover have "sweep_step createIdbKnockStore (set_phase 0 (Asking ?r) ?s) swept"
    using sweep_step.answers [of 0 "set_phase 0 (Asking ?r) ?s" ?r ?r createIdbKnockStore "Inl (JsError ''offline'')"] l
    by (simp add: checkPendingKnocks_def set_phase_def answered_def swept_def)
  ultimately show ?thesis by (auto simp: eval_nat_numeral)
qed

theorem kn_sweep_once_witness:
  "length (calls_of ''k'' swept) \<le> 1"
proof -
  have run: "(sweep_step createIdbKnockStore)\<^sup>*\<^sup>* (checkPendingKnocks createIdbKnockStore one_knock) swept"
    using swept_run by (rule relpowp_imp_rtranclp)
  have "rows_ok one_knock" "fromRow (hd one_knock) \<in> row_records one_knock" "sweep_over swept"
    by (auto simp: one_knock_def rows_ok_def idb_ok_def row_records_def swept_def set_phase_def sweep_over_def
        checkPendingKnocks_def createIdbKnockStore_def listPending_def newest_knocks_def outbound_input_def)
  from kn_sweep_once [OF this(1) run this(3,2)] show ?thesis
    by (auto simp: one_knock_def outbound_input_def split: if_splits)
qed

theorem kn_sweep_ends_witness:
  "2 \<le> 4 * length (sw_tasks (checkPendingKnocks createIdbKnockStore one_knock))"
  using kn_sweep_ends [OF swept_run] by blast

end
