(* ===== verification/Access.thy ===== *)
theory Access
  imports Prelude Complex_Main
begin

text \<open>
  Role hierarchies and access rules, \<open>lib/haruspex/ts/src/permissions/access.ts\<close> and
  \<open>role-table.ts\<close>, and the network filter that enforces read-only roles,
  \<open>lib/reliquary/ts/src/automerge/acl-filtering.ts\<close>. The automerge codec is a parameter.
\<close>

section \<open>Role hierarchies\<close>

type_synonym 'r role_hierarchy = "'r \<Rightarrow> real"

datatype freqhole_role = Root | Admin | Member | Viewer

primrec FREQHOLE_ROLE_HIERARCHY :: "freqhole_role role_hierarchy" where
  "FREQHOLE_ROLE_HIERARCHY Root = 0"
| "FREQHOLE_ROLE_HIERARCHY Admin = 10"
| "FREQHOLE_ROLE_HIERARCHY Member = 20"
| "FREQHOLE_ROLE_HIERARCHY Viewer = 30"

definition hasAtLeastRole :: "'r role_hierarchy \<Rightarrow> 'r \<Rightarrow> 'r \<Rightarrow> bool" where
  "hasAtLeastRole hierarchy actualRole requiredRole = (hierarchy actualRole \<le> hierarchy requiredRole)"

definition isOwner :: "string \<Rightarrow> string option \<Rightarrow> bool" where
  "isOwner userId ownerId = (ownerId \<noteq> None \<and> Some userId = ownerId)"

definition canAccessOwnerOr :: "'r role_hierarchy \<Rightarrow> string \<Rightarrow> string option \<Rightarrow> 'r \<Rightarrow> 'r \<Rightarrow> bool" where
  "canAccessOwnerOr hierarchy userId ownerId actualRole requiredRole =
     (if isOwner userId ownerId then True else hasAtLeastRole hierarchy actualRole requiredRole)"

datatype 'r access_rule = PublicRule | AuthenticatedRule | RoleRule 'r | OwnerRule | OwnerOrRule 'r

record 'r access_context =
  ac_userRole :: "'r option"
  ac_userId :: "string option"
  ac_ownerId :: "string option"

fun canAccess :: "'r role_hierarchy \<Rightarrow> 'r access_rule \<Rightarrow> 'r access_context \<Rightarrow> bool" where
  "canAccess h PublicRule ctx = True"
| "canAccess h AuthenticatedRule ctx = (ac_userRole ctx \<noteq> None)"
| "canAccess h (RoleRule role) ctx =
     (case ac_userRole ctx of None \<Rightarrow> False | Some u \<Rightarrow> hasAtLeastRole h u role)"
| "canAccess h OwnerRule ctx =
     (case ac_userId ctx of None \<Rightarrow> False | Some k \<Rightarrow> isOwner k (ac_ownerId ctx))"
| "canAccess h (OwnerOrRule role) ctx =
     (case ac_userId ctx of None \<Rightarrow> False
      | Some k \<Rightarrow> (case ac_userRole ctx of None \<Rightarrow> False
                  | Some u \<Rightarrow> canAccessOwnerOr h k (ac_ownerId ctx) u role))"

record 'r role_checks =
  rc_hasAtLeastRole :: "'r \<Rightarrow> 'r \<Rightarrow> bool"
  rc_canAccessOwnerOr :: "string \<Rightarrow> string option \<Rightarrow> 'r \<Rightarrow> 'r \<Rightarrow> bool"
  rc_isOwner :: "string \<Rightarrow> string option \<Rightarrow> bool"
  rc_canAccess :: "'r access_rule \<Rightarrow> 'r access_context \<Rightarrow> bool"

definition bindRoleHierarchy :: "'r role_hierarchy \<Rightarrow> 'r role_checks" where
  "bindRoleHierarchy h = \<lparr>rc_hasAtLeastRole = hasAtLeastRole h, rc_canAccessOwnerOr = canAccessOwnerOr h,
     rc_isOwner = isOwner, rc_canAccess = canAccess h\<rparr>"

text \<open>The default table is a linear order, most privileged first.\<close>

instantiation freqhole_role :: linorder
begin

definition less_eq_freqhole_role :: "freqhole_role \<Rightarrow> freqhole_role \<Rightarrow> bool" where
  "less_eq_freqhole_role a b = (FREQHOLE_ROLE_HIERARCHY a \<le> FREQHOLE_ROLE_HIERARCHY b)"

definition less_freqhole_role :: "freqhole_role \<Rightarrow> freqhole_role \<Rightarrow> bool" where
  "less_freqhole_role a b = (FREQHOLE_ROLE_HIERARCHY a < FREQHOLE_ROLE_HIERARCHY b)"

instance
proof
  fix a b :: freqhole_role
  show "a = b" if "a \<le> b" "b \<le> a"
    using that by (cases a; cases b) (simp_all add: less_eq_freqhole_role_def)
qed (auto simp: less_eq_freqhole_role_def less_freqhole_role_def)

end

lemma hasAtLeastRole_freqhole: "hasAtLeastRole FREQHOLE_ROLE_HIERARCHY a b \<longleftrightarrow> a \<le> b"
  by (simp add: hasAtLeastRole_def less_eq_freqhole_role_def)

section \<open>The filtering network adapter\<close>

text \<open>
  Messages carry a type, an optional document and payload, and whatever else (\<open>'x\<close>); a decoded sync
  message its changes and the rest (heads, need, have).
\<close>

record ('b, 'x) net_message =
  nm_type :: string
  nm_documentId :: "string option"
  nm_senderId :: string
  nm_data :: "'b option"
  nm_rest :: 'x

record ('c, 'h) sync_message =
  sm_changes :: "'c list"
  sm_heads_need_have :: 'h

record ('r, 'b, 'c, 'h) acl_env =
  ae_resolveRole :: "string \<Rightarrow> string \<Rightarrow> 'r"
  ae_isReadOnly :: "'r \<Rightarrow> bool"
  ae_decode :: "'b \<Rightarrow> js_exn + ('c, 'h) sync_message"
  ae_encode :: "('c, 'h) sync_message \<Rightarrow> 'b"

datatype ('b, 'x, 'p) adapter_event =
    PeerCandidate 'p | PeerDisconnected 'p | CloseEvent | MessageEvent "('b, 'x) net_message"

record strip_info =
  si_documentId :: string
  si_senderId :: string
  si_changeCount :: nat

text \<open>\<open>handleMessage\<close>: what it emits and what it tells \<open>onStrip\<close>; a payload that does not decode throws.\<close>

definition handleMessage ::
    "('r, 'b, 'c, 'h) acl_env \<Rightarrow> ('b, 'x) net_message \<Rightarrow> js_exn + (('b, 'x) net_message \<times> strip_info option)" where
  "handleMessage env m =
     (if nm_type m \<noteq> ''sync'' \<and> nm_type m \<noteq> ''request'' then Inr (m, None)
      else case (nm_documentId m, nm_data m) of
        (Some d, Some b) \<Rightarrow>
          if d = [] then Inr (m, None)
          else if \<not> ae_isReadOnly env (ae_resolveRole env d (nm_senderId m)) then Inr (m, None)
          else (case ae_decode env b of
             Inl e \<Rightarrow> Inl e
           | Inr decoded \<Rightarrow>
               if length (sm_changes decoded) = 0 then Inr (m, None)
               else Inr (m\<lparr>nm_data := Some (ae_encode env (decoded\<lparr>sm_changes := []\<rparr>))\<rparr>,
                  Some \<lparr>si_documentId = d, si_senderId = nm_senderId m, si_changeCount = length (sm_changes decoded)\<rparr>))
      | _ \<Rightarrow> Inr (m, None))"

text \<open>One event of the wrapped adapter: the events the wrapper emits for it.\<close>

fun wrapped_event :: "('r, 'b, 'c, 'h) acl_env \<Rightarrow> ('b, 'x, 'p) adapter_event \<Rightarrow> ('b, 'x, 'p) adapter_event list" where
  "wrapped_event env (PeerCandidate p) = [PeerCandidate p]"
| "wrapped_event env (PeerDisconnected p) = [PeerDisconnected p]"
| "wrapped_event env CloseEvent = [CloseEvent]"
| "wrapped_event env (MessageEvent m) =
     (case handleMessage env m of Inl _ \<Rightarrow> [] | Inr (m', _) \<Rightarrow> [MessageEvent m'])"

definition emitted :: "('r, 'b, 'c, 'h) acl_env \<Rightarrow> ('b, 'x, 'p) adapter_event list \<Rightarrow> ('b, 'x, 'p) adapter_event list" where
  "emitted env es = concat (map (wrapped_event env) es)"

text \<open>The role resolver over a repository's cached handles: a ready handle has a document.\<close>

datatype 'd doc_handle = NotReady | ReadyDoc 'd

definition createHandleBasedRoleResolver ::
    "(string \<Rightarrow> 'd doc_handle option) \<Rightarrow> ('d \<Rightarrow> string \<Rightarrow> 'r) \<Rightarrow> 'r \<Rightarrow> string \<Rightarrow> string \<Rightarrow> 'r" where
  "createHandleBasedRoleResolver handles readRole defaultRole documentId senderId =
     (case handles documentId of
        Some (ReadyDoc d) \<Rightarrow> readRole d senderId
      | _ \<Rightarrow> defaultRole)"

section \<open>Properties\<close>

text \<open>Access is monotone and the compound rule is the union of its parts: a caller promoted to a more
  privileged role loses nothing under any rule, \<open>owner_or\<close> grants a signed-in caller exactly what \<open>owner\<close>
  or \<open>role\<close> grants, and losing the session loses everything but the public routes.\<close>
theorem ac_access_monotone:
  assumes "canAccess h rule \<lparr>ac_userRole = Some u, ac_userId = k, ac_ownerId = own\<rparr>" "hasAtLeastRole h v u"
  shows "canAccess h rule \<lparr>ac_userRole = Some v, ac_userId = k, ac_ownerId = own\<rparr>
    \<and> canAccess h (OwnerOrRule r) \<lparr>ac_userRole = Some v, ac_userId = Some i, ac_ownerId = own\<rparr>
        = (canAccess h OwnerRule \<lparr>ac_userRole = Some v, ac_userId = Some i, ac_ownerId = own\<rparr>
           \<or> canAccess h (RoleRule r) \<lparr>ac_userRole = Some v, ac_userId = Some i, ac_ownerId = own\<rparr>)
    \<and> canAccess h rule' \<lparr>ac_userRole = None, ac_userId = None, ac_ownerId = own\<rparr> = (rule' = PublicRule)"
  using assms
  by (cases rule; cases rule') (auto simp: hasAtLeastRole_def canAccessOwnerOr_def split: option.splits)

theorem ac_access_monotone_witness:
  "canAccess FREQHOLE_ROLE_HIERARCHY (RoleRule Member)
     \<lparr>ac_userRole = Some Root, ac_userId = None, ac_ownerId = Some ''o''\<rparr>"
  using ac_access_monotone [of FREQHOLE_ROLE_HIERARCHY "RoleRule Member" Admin None "Some ''o''" Root]
  by (simp add: hasAtLeastRole_def)

text \<open>What a message carries, as the receiver decodes it.\<close>

definition carries :: "('r, 'b, 'c, 'h) acl_env \<Rightarrow> ('b, 'x) net_message \<Rightarrow> 'c list" where
  "carries env m = (case nm_data m of None \<Rightarrow> [] | Some b \<Rightarrow> (case ae_decode env b of Inl _ \<Rightarrow> [] | Inr d \<Rightarrow> sm_changes d))"

definition read_only_sync :: "('r, 'b, 'c, 'h) acl_env \<Rightarrow> ('b, 'x) net_message \<Rightarrow> bool" where
  "read_only_sync env m = (nm_type m \<in> {''sync'', ''request''} \<and> truthy (nm_documentId m)
     \<and> ae_isReadOnly env (ae_resolveRole env (nullish_or (nm_documentId m) []) (nm_senderId m)))"

lemma handleMessage_cases:
  assumes "handleMessage env m = Inr (m', info)" "\<And>s. ae_decode env (ae_encode env s) = Inr s"
  shows "(m' = m \<and> (read_only_sync env m \<longrightarrow> carries env m = [])) \<or>
    (\<exists>b d. read_only_sync env m \<and> nm_data m = Some b \<and> ae_decode env b = Inr d
       \<and> m' = m\<lparr>nm_data := Some (ae_encode env (d\<lparr>sm_changes := []\<rparr>))\<rparr> \<and> carries env m' = [])"
  using assms
  by (auto simp: handleMessage_def carries_def read_only_sync_def
      split: if_splits option.splits sum.splits)

text \<open>C13: No change of a read-only peer reaches the repository: every message the wrapper emits is one the
  wrapped adapter delivered, unchanged, or with only its changes removed when it is a sync message of a
  read-only sender; and of such a sender no emitted sync message carries a change.\<close>
theorem af_read_only_stripped:
  assumes "\<And>s. ae_decode env (ae_encode env s) = Inr s" "MessageEvent m' \<in> set (emitted env es)"
  shows "(read_only_sync env m' \<longrightarrow> carries env m' = [])
    \<and> (\<exists>m. MessageEvent m \<in> set es \<and> (m' = m \<or> read_only_sync env m
         \<and> (\<exists>b d. nm_data m = Some b \<and> ae_decode env b = Inr d
              \<and> m' = m\<lparr>nm_data := Some (ae_encode env (d\<lparr>sm_changes := []\<rparr>))\<rparr>)))"
proof -
  obtain e where e: "e \<in> set es" "MessageEvent m' \<in> set (wrapped_event env e)"
    using assms(2) by (auto simp: emitted_def)
  from e(2) obtain m where m: "e = MessageEvent m" by (cases e) auto
  obtain info where h: "handleMessage env m = Inr (m', info)"
    using e(2) by (cases "handleMessage env m") (auto simp: m split: prod.splits)
  show ?thesis
    using handleMessage_cases [OF h assms(1)] e(1) m by blast
qed

text \<open>For everything else the wrapper is transparent: if no message needs stripping and every payload
  decodes, it emits exactly the events of the wrapped adapter, in order.\<close>
theorem af_transparent:
  assumes "\<And>m. MessageEvent m \<in> set es \<Longrightarrow> \<not> read_only_sync env m \<or> carries env m = []
      \<and> (\<forall>b. nm_data m = Some b \<longrightarrow> \<not> isl (ae_decode env b))"
  shows "emitted env es = es"
  using assms
proof (induction es)
  case (Cons e es)
  have "wrapped_event env e = [e]"
  proof (cases e)
    case (MessageEvent m)
    then have "\<not> read_only_sync env m \<or> carries env m = [] \<and> (\<forall>b. nm_data m = Some b \<longrightarrow> \<not> isl (ae_decode env b))"
      using Cons.prems [of m] by simp
    then have "handleMessage env m = Inr (m, None)"
      by (auto simp: handleMessage_def read_only_sync_def carries_def split: option.splits sum.splits)
    with MessageEvent show ?thesis by simp
  qed simp_all
  moreover have "emitted env es = es"
    by (rule Cons.IH, rule Cons.prems) simp
  ultimately show ?case by (simp add: emitted_def)
qed (simp add: emitted_def)

text \<open>A viewer sends one change; the payload is the decoded message itself.\<close>

definition plain_env :: "(freqhole_role, (nat, unit) sync_message, nat, unit) acl_env" where
  "plain_env = \<lparr>ae_resolveRole = createHandleBasedRoleResolver [''doc'' \<mapsto> ReadyDoc Viewer] (\<lambda>d _. d) Member,
     ae_isReadOnly = (\<lambda>r. r = Viewer), ae_decode = Inr, ae_encode = (\<lambda>s. s)\<rparr>"

definition viewer_sync :: "((nat, unit) sync_message, unit) net_message" where
  "viewer_sync = \<lparr>nm_type = ''sync'', nm_documentId = Some ''doc'', nm_senderId = ''peer'',
     nm_data = Some \<lparr>sm_changes = [1], sm_heads_need_have = ()\<rparr>, nm_rest = ()\<rparr>"

theorem af_read_only_stripped_witness:
  "carries plain_env (viewer_sync\<lparr>nm_data := Some \<lparr>sm_changes = [], sm_heads_need_have = ()\<rparr>\<rparr>) = []
   \<and> carries plain_env viewer_sync = [1]"
proof -
  let ?m = "viewer_sync\<lparr>nm_data := Some \<lparr>sm_changes = [], sm_heads_need_have = ()\<rparr>\<rparr>"
  have "MessageEvent ?m \<in> set (emitted plain_env [MessageEvent viewer_sync])" "read_only_sync plain_env ?m"
    by (simp_all add: emitted_def handleMessage_def plain_env_def viewer_sync_def createHandleBasedRoleResolver_def
        read_only_sync_def)
  moreover have "ae_decode plain_env (ae_encode plain_env s) = Inr s" for s by (simp add: plain_env_def)
  ultimately have "carries plain_env ?m = []"
    using af_read_only_stripped [of plain_env ?m "[MessageEvent viewer_sync]"] by blast
  then show ?thesis by (simp add: carries_def plain_env_def viewer_sync_def)
qed

theorem af_transparent_witness:
  "emitted plain_env [CloseEvent, MessageEvent (viewer_sync\<lparr>nm_type := ''ephemeral''\<rparr>)]
     = [CloseEvent, MessageEvent (viewer_sync\<lparr>nm_type := ''ephemeral''\<rparr>)]"
  by (rule af_transparent) (auto simp: read_only_sync_def)

end
