(* ===== verification/JsText.thy ===== *)
theory JsText
  imports Prelude
begin

text \<open>
  JavaScript text at full Unicode width, for the codecs: a string is the list of its code points, where a
  surrogate that has no partner stands for itself. \<open>TextEncoder\<close>, \<open>TextDecoder\<close>, \<open>btoa\<close> and \<open>atob\<close> follow
  their specifications; a byte is a number below 256.
\<close>

type_synonym jstext = "nat list"

definition utext :: "string \<Rightarrow> jstext" where
  "utext s = map of_char s"

definition high_surrogate :: "nat \<Rightarrow> bool" where
  "high_surrogate c = (0xD800 \<le> c \<and> c < 0xDC00)"

definition low_surrogate :: "nat \<Rightarrow> bool" where
  "low_surrogate c = (0xDC00 \<le> c \<and> c < 0xE000)"

abbreviation surrogate :: "nat \<Rightarrow> bool" where
  "surrogate c \<equiv> high_surrogate c \<or> low_surrogate c"

text \<open>A code point list that is the reading of a string: in range, and no pair left uncombined.\<close>

fun wf_text :: "jstext \<Rightarrow> bool" where
  "wf_text [] = True"
| "wf_text [c] = (c < 0x110000)"
| "wf_text (c # d # cs) = (c < 0x110000 \<and> \<not> (high_surrogate c \<and> low_surrogate d) \<and> wf_text (d # cs))"

section \<open>UTF-8\<close>

definition utf8_enc :: "nat \<Rightarrow> nat list" where
  "utf8_enc c =
     (if c < 0x80 then [c]
      else if c < 0x800 then [0xC0 + c div 64, 0x80 + c mod 64]
      else if surrogate c then [0xEF, 0xBF, 0xBD]
      else if c < 0x10000 then [0xE0 + c div 4096, 0x80 + c div 64 mod 64, 0x80 + c mod 64]
      else [0xF0 + c div 262144, 0x80 + c div 4096 mod 64, 0x80 + c div 64 mod 64, 0x80 + c mod 64])"

definition textEncode :: "jstext \<Rightarrow> nat list" where
  "textEncode t = concat (map utf8_enc t)"

text \<open>The decoder's state inside a sequence: code point so far, bytes to come, bounds of the next byte.\<close>

type_synonym utf8_state = "(nat \<times> nat \<times> nat \<times> nat) option"

definition utf8_lead :: "nat \<Rightarrow> jstext \<times> utf8_state" where
  "utf8_lead b =
     (if b < 0x80 then ([b], None)
      else if 0xC2 \<le> b \<and> b \<le> 0xDF then ([], Some (b - 0xC0, 1, 0x80, 0xBF))
      else if 0xE0 \<le> b \<and> b \<le> 0xEF
      then ([], Some (b - 0xE0, 2, if b = 0xE0 then 0xA0 else 0x80, if b = 0xED then 0x9F else 0xBF))
      else if 0xF0 \<le> b \<and> b \<le> 0xF4
      then ([], Some (b - 0xF0, 3, if b = 0xF0 then 0x90 else 0x80, if b = 0xF4 then 0x8F else 0xBF))
      else ([0xFFFD], None))"

definition utf8_step :: "utf8_state \<Rightarrow> nat \<Rightarrow> jstext \<times> utf8_state" where
  "utf8_step s b =
     (case s of
        None \<Rightarrow> utf8_lead b
      | Some (cp, left, lower, upper) \<Rightarrow>
          if b < lower \<or> upper < b then (case utf8_lead b of (out, s') \<Rightarrow> (0xFFFD # out, s'))
          else if left = 1 then ([cp * 64 + (b - 0x80)], None)
          else ([], Some (cp * 64 + (b - 0x80), left - 1, 0x80, 0xBF)))"

fun utf8_dec :: "utf8_state \<Rightarrow> nat list \<Rightarrow> jstext" where
  "utf8_dec s [] = (if s = None then [] else [0xFFFD])"
| "utf8_dec s (b # bs) = (case utf8_step s b of (out, s') \<Rightarrow> out @ utf8_dec s' bs)"

text \<open>A leading byte order mark is dropped.\<close>

definition textDecode :: "nat list \<Rightarrow> jstext" where
  "textDecode bs = utf8_dec None (if take 3 bs = [0xEF, 0xBB, 0xBF] then drop 3 bs else bs)"

lemma utf8_dec_cons: "utf8_dec s (b # bs) = fst (utf8_step s b) @ utf8_dec (snd (utf8_step s b)) bs"
  by (simp add: case_prod_unfold)

lemma utf8_dec_enc_2:
  assumes "0x80 \<le> c" "c < 0x800"
  shows "utf8_dec None ([0xC0 + c div 64, 0x80 + c mod 64] @ bs) = c # utf8_dec None bs"
proof -
  have "2 \<le> c div 64" "c div 64 < 32" "c mod 64 < 64" "c div 64 * 64 + c mod 64 = c"
    using assms by auto
  then show ?thesis
    by (simp add: utf8_step_def utf8_lead_def)
qed

lemma sextets:
  "(c div 4096 * 64 + c div 64 mod 64) * 64 + c mod 64 = (c :: nat)"
  "((c div 262144 * 64 + c div 4096 mod 64) * 64 + c div 64 mod 64) * 64 + c mod 64 = c"
proof -
  have d: "c div 4096 = c div 64 div 64" "c div 262144 = c div 64 div 64 div 64"
    using div_mult2_eq [of c 64 64] div_mult2_eq [of c 4096 64] div_mult2_eq [of c 64 64] by simp_all
  show "(c div 4096 * 64 + c div 64 mod 64) * 64 + c mod 64 = c"
    "((c div 262144 * 64 + c div 4096 mod 64) * 64 + c div 64 mod 64) * 64 + c mod 64 = c"
    by (simp_all only: d div_mult_mod_eq)
qed

lemma utf8_dec_3:
  assumes "h < 16" "a < 64" "b < 64" "h = 0 \<longrightarrow> 32 \<le> a" "h = 13 \<longrightarrow> a < 32"
  shows "utf8_dec None ([0xE0 + h, 0x80 + a, 0x80 + b] @ bs) = ((h * 64 + a) * 64 + b) # utf8_dec None bs"
  using assms by (auto simp: utf8_step_def utf8_lead_def)

lemma utf8_dec_4:
  assumes "h < 5" "a < 64" "b < 64" "d < 64" "h = 0 \<longrightarrow> 16 \<le> a" "h = 4 \<longrightarrow> a < 16"
  shows "utf8_dec None ([0xF0 + h, 0x80 + a, 0x80 + b, 0x80 + d] @ bs)
    = (((h * 64 + a) * 64 + b) * 64 + d) # utf8_dec None bs"
  using assms by (auto simp: utf8_step_def utf8_lead_def)

lemma utf8_dec_enc_3:
  assumes "0x800 \<le> c" "c < 0x10000" "\<not> surrogate c"
  shows "utf8_dec None ([0xE0 + c div 4096, 0x80 + c div 64 mod 64, 0x80 + c mod 64] @ bs) = c # utf8_dec None bs"
proof -
  define h a b where hab: "h = c div 4096" "a = c div 64 mod 64" "b = c mod 64"
  have c: "(h * 64 + a) * 64 + b = c" and m: "a < 64" "b < 64"
    using sextets(1) [of c] by (simp_all add: hab)
  have c': "4096 * h + 64 * a + b = c" using c by simp
  have "h < 16" using c' assms(2) by simp
  moreover have "h = 0 \<longrightarrow> 32 \<le> a" using c' m assms(1) by simp
  moreover have "h = 13 \<longrightarrow> a < 32"
    using c' m assms(3) unfolding high_surrogate_def low_surrogate_def by linarith
  ultimately show ?thesis using utf8_dec_3 [of h a b bs] m unfolding c by (simp only: hab)
qed

lemma utf8_dec_enc_4:
  assumes "0x10000 \<le> c" "c < 0x110000"
  shows "utf8_dec None ([0xF0 + c div 262144, 0x80 + c div 4096 mod 64, 0x80 + c div 64 mod 64, 0x80 + c mod 64] @ bs)
    = c # utf8_dec None bs"
proof -
  define h a b d where hab: "h = c div 262144" "a = c div 4096 mod 64" "b = c div 64 mod 64" "d = c mod 64"
  have c: "((h * 64 + a) * 64 + b) * 64 + d = c" and m: "a < 64" "b < 64" "d < 64"
    using sextets(2) [of c] by (simp_all add: hab)
  have c': "262144 * h + 4096 * a + 64 * b + d = c" using c by simp
  have "h < 5" using c' assms(2) by simp
  moreover have "h = 0 \<longrightarrow> 16 \<le> a" using c' m assms(1) by simp
  moreover have "h = 4 \<longrightarrow> a < 16" using c' m assms(2) by simp
  ultimately show ?thesis using utf8_dec_4 [of h a b d bs] m unfolding c by (simp only: hab)
qed

lemma utf8_dec_enc:
  assumes "c < 0x110000" "\<not> surrogate c"
  shows "utf8_dec None (utf8_enc c @ bs) = c # utf8_dec None bs"
proof -
  consider "c < 0x80" | "0x80 \<le> c" "c < 0x800" | "0x800 \<le> c" "c < 0x10000" | "0x10000 \<le> c"
    by linarith
  then show ?thesis
  proof cases
    case 1
    then show ?thesis by (simp add: utf8_enc_def utf8_step_def utf8_lead_def)
  next
    case 2
    then show ?thesis using utf8_dec_enc_2 [of c bs] by (simp add: utf8_enc_def del: utf8_dec.simps)
  next
    case 3
    then show ?thesis using utf8_dec_enc_3 [of c bs] assms(2) by (simp add: utf8_enc_def del: utf8_dec.simps)
  next
    case 4
    then show ?thesis using utf8_dec_enc_4 [of c bs] assms by (simp add: utf8_enc_def del: utf8_dec.simps)
  qed
qed

lemma utf8_dec_encode:
  "\<forall>c \<in> set t. c < 0x110000 \<and> \<not> surrogate c \<Longrightarrow> utf8_dec None (textEncode t) = t"
  by (induction t) (simp_all add: textEncode_def utf8_dec_enc)

text \<open>Text without lone surrogates that does not start with a byte order mark survives the two.\<close>

lemma text_roundtrip:
  assumes "\<forall>c \<in> set t. c < 0x110000 \<and> \<not> surrogate c" "t \<noteq> []" "hd t < 0x80"
  shows "textDecode (textEncode t) = t"
proof -
  obtain c cs where t: "t = c # cs" "c < 0x80" using assms(2,3) by (cases t) auto
  then have "take 3 (textEncode t) \<noteq> [0xEF, 0xBB, 0xBF]"
    by (simp add: textEncode_def utf8_enc_def)
  then show ?thesis using utf8_dec_encode [OF assms(1)] by (simp add: textDecode_def)
qed

text \<open>Whatever the bytes are, the decoder's output is in range.\<close>

definition utf8_ok :: "utf8_state \<Rightarrow> bool" where
  "utf8_ok s = (case s of None \<Rightarrow> True
     | Some (cp, left, lower, upper) \<Rightarrow> 0x80 \<le> lower \<and> upper \<le> 0xBF \<and>
         (left = 1 \<and> cp \<le> 17407 \<or> left = 2 \<and> cp \<le> 271 \<or> left = 3 \<and> (cp \<le> 3 \<or> cp = 4 \<and> upper \<le> 0x8F)))"

lemma utf8_lead_ok: "utf8_ok (snd (utf8_lead b)) \<and> (\<forall>c \<in> set (fst (utf8_lead b)). c < 0x110000)"
  by (simp add: utf8_lead_def utf8_ok_def; linarith)

lemma utf8_step_ok:
  assumes "utf8_ok s"
  shows "utf8_ok (snd (utf8_step s b)) \<and> (\<forall>c \<in> set (fst (utf8_step s b)). c < 0x110000)"
proof (cases s)
  case None
  then show ?thesis using utf8_lead_ok by (simp add: utf8_step_def)
next
  case (Some q)
  obtain cp left lower upper where q: "q = (cp, left, lower, upper)" by (cases q) auto
  show ?thesis
  proof (cases "b < lower \<or> upper < b")
    case True
    then show ?thesis
      using utf8_lead_ok [of b] Some q by (simp add: utf8_step_def case_prod_unfold)
  next
    case False
    then show ?thesis using assms Some q by (auto simp: utf8_step_def utf8_ok_def)
  qed
qed

lemma utf8_dec_range: "utf8_ok s \<Longrightarrow> \<forall>c \<in> set (utf8_dec s bs). c < 0x110000"
proof (induction bs arbitrary: s)
  case (Cons b bs)
  have "\<forall>c \<in> set (utf8_dec (snd (utf8_step s b)) bs). c < 0x110000"
    using Cons utf8_step_ok by blast
  then show ?case using utf8_step_ok [OF Cons.prems, of b] by (auto simp: utf8_dec_cons simp del: utf8_dec.simps)
qed simp

lemma textDecode_range: "\<forall>c \<in> set (textDecode bs). c < 0x110000"
  unfolding textDecode_def by (rule utf8_dec_range) (simp add: utf8_ok_def)

lemma utf8_enc_bytes: "c < 0x110000 \<Longrightarrow> b \<in> set (utf8_enc c) \<Longrightarrow> b < 256"
  by (auto simp: utf8_enc_def split: if_splits)

lemma textEncode_bytes: "\<forall>c \<in> set t. c < 0x110000 \<Longrightarrow> \<forall>b \<in> set (textEncode t). b < 256"
  by (auto simp: textEncode_def dest: utf8_enc_bytes)

section \<open>Base64\<close>

definition b64_char :: "nat \<Rightarrow> nat" where
  "b64_char n = (if n < 26 then 65 + n else if n < 52 then 71 + n else if n < 62 then n - 4 else if n = 62 then 43 else 47)"

definition b64_value :: "nat \<Rightarrow> nat option" where
  "b64_value c =
     (if 65 \<le> c \<and> c \<le> 90 then Some (c - 65) else if 97 \<le> c \<and> c \<le> 122 then Some (c - 71)
      else if 48 \<le> c \<and> c \<le> 57 then Some (c + 4) else if c = 43 then Some 62 else if c = 47 then Some 63 else None)"

fun b64_sextets :: "nat list \<Rightarrow> nat list" where
  "b64_sextets [] = []"
| "b64_sextets [a] = [a div 4, a mod 4 * 16]"
| "b64_sextets [a, b] = [a div 4, a mod 4 * 16 + b div 16, b mod 16 * 4]"
| "b64_sextets (a # b # c # bs) =
     a div 4 # (a mod 4 * 16 + b div 16) # (b mod 16 * 4 + c div 64) # c mod 64 # b64_sextets bs"

definition b64_padding :: "nat \<Rightarrow> jstext" where
  "b64_padding n = (if n mod 4 = 2 then [61, 61] else if n mod 4 = 3 then [61] else [])"

definition btoa :: "nat list \<Rightarrow> jstext" where
  "btoa bs = map b64_char (b64_sextets bs) @ b64_padding (length (b64_sextets bs))"

fun b64_bytes :: "nat list \<Rightarrow> nat list" where
  "b64_bytes (a # b # c # d # r) =
     (a * 4 + b div 16) # (b mod 16 * 16 + c div 4) # (c mod 4 * 64 + d) # b64_bytes r"
| "b64_bytes [a, b, c] = [a * 4 + b div 16, b mod 16 * 16 + c div 4]"
| "b64_bytes [a, b] = [a * 4 + b div 16]"
| "b64_bytes _ = []"

definition ascii_space :: "nat \<Rightarrow> bool" where
  "ascii_space c = (c \<in> {9, 10, 12, 13, 32})"

text \<open>Forgiving base64 decoding: white space and a complete group's padding go first.\<close>

definition atob :: "jstext \<Rightarrow> nat list option" where
  "atob t =
     (let d = filter (\<lambda>c. \<not> ascii_space c) t;
          e = (if length d mod 4 \<noteq> 0 then d
               else if 2 \<le> length d \<and> drop (length d - 2) d = [61, 61] then take (length d - 2) d
               else if d \<noteq> [] \<and> last d = 61 then butlast d else d)
      in if length e mod 4 = 1 \<or> (\<exists>c \<in> set e. b64_value c = None) then None
         else Some (b64_bytes (map (\<lambda>c. the (b64_value c)) e)))"

lemma b64_sextets_bound: "\<forall>b \<in> set bs. b < 256 \<Longrightarrow> \<forall>n \<in> set (b64_sextets bs). n < 64"
  by (induction bs rule: b64_sextets.induct) auto

lemma b64_sextets_length: "length (b64_sextets bs) mod 4 \<noteq> 1"
  by (induction bs rule: b64_sextets.induct) auto

lemma b64_bytes_sextets: "\<forall>b \<in> set bs. b < 256 \<Longrightarrow> b64_bytes (b64_sextets bs) = bs"
  by (induction bs rule: b64_sextets.induct) auto

lemma b64_value_char: "n < 64 \<Longrightarrow> b64_value (b64_char n) = Some n"
  by (auto simp: b64_value_def b64_char_def)

lemma b64_char_plain: "n < 64 \<Longrightarrow> \<not> ascii_space (b64_char n) \<and> b64_char n \<noteq> 61 \<and> b64_char n < 123"
  by (auto simp: b64_char_def ascii_space_def)

lemma atob_core:
  assumes "\<forall>n \<in> set ns. n < 64" "length ns mod 4 \<noteq> 1"
  shows "atob (map b64_char ns @ b64_padding (length ns)) = Some (b64_bytes ns)"
proof -
  let ?m = "map b64_char ns"
  have plain: "filter (\<lambda>c. \<not> ascii_space c) (?m @ b64_padding (length ns)) = ?m @ b64_padding (length ns)"
    using assms(1) b64_char_plain by (auto simp: filter_id_conv b64_padding_def ascii_space_def)
  have no61: "61 \<notin> set ?m" using assms(1) b64_char_plain by fastforce
  have vals: "map (\<lambda>c. the (b64_value c)) ?m = ns"
    using assms(1) by (auto simp: b64_value_char comp_def intro: map_idI)
  have ok: "\<not> (\<exists>c \<in> set ?m. b64_value c = None)" using assms(1) by (auto simp: b64_value_char)
  consider "length ns mod 4 = 0" | "length ns mod 4 = 2" | "length ns mod 4 = 3"
    using assms(2) by linarith
  then show ?thesis
  proof cases
    case 1
    have "drop (length ?m - 2) ?m \<noteq> [61, 61]" using no61 by (metis in_set_dropD list.set_intros(1))
    moreover have "\<not> (?m \<noteq> [] \<and> last ?m = 61)" using no61 by (metis last_in_set)
    ultimately show ?thesis
      using 1 plain vals ok assms(2) by (auto simp: atob_def Let_def b64_padding_def)
  next
    case 2
    then have "(length ns + 2) mod 4 = 0" by presburger
    with 2 plain vals ok assms(2) show ?thesis by (simp add: atob_def Let_def b64_padding_def)
  next
    case 3
    then have "(length ns + 1) mod 4 = 0" by presburger
    moreover have "drop (length ns - 1) (?m @ [61]) \<noteq> [61, 61]"
      using no61 3 by (cases ns rule: rev_cases) auto
    ultimately show ?thesis
      using 3 plain vals ok assms(2) by (simp add: atob_def Let_def b64_padding_def)
  qed
qed

lemma base64_roundtrip: "\<forall>b \<in> set bs. b < 256 \<Longrightarrow> atob (btoa bs) = Some bs"
  using atob_core [OF b64_sextets_bound b64_sextets_length] by (simp add: btoa_def b64_bytes_sextets)

end
