(* ===== verification/Json.thy ===== *)
theory Json
  imports JsText
begin

text \<open>
  \<open>JSON.parse\<close> and \<open>JSON.stringify\<close> (no indentation) on code point text. The parser is a lexer that
  reads one character at a time and an automaton with a stack that reads the tokens, both structural
  recursions, so there is no fuel. Numbers keep their literal.
\<close>

datatype jsv =
    VNull | VBool bool
  | VNum jstext \<comment> \<open>its literal\<close>
  | VStr jstext
  | VArr "jsv list"
  | VObj "(jstext \<times> jsv) list" \<comment> \<open>members in source order\<close>

section \<open>Printing\<close>

definition hex_lower :: "nat \<Rightarrow> nat" where
  "hex_lower n = (if n < 10 then 48 + n else 87 + n)"

definition hex4 :: "nat \<Rightarrow> jstext" where
  "hex4 n = [hex_lower (n div 4096), hex_lower (n div 256 mod 16), hex_lower (n div 16 mod 16), hex_lower (n mod 16)]"

text \<open>Control characters, quote, backslash and lone surrogates are escaped.\<close>

definition json_escape :: "nat \<Rightarrow> jstext" where
  "json_escape c =
     (if c = 34 then [92, 34] else if c = 92 then [92, 92]
      else if c = 8 then [92, 98] else if c = 9 then [92, 116] else if c = 10 then [92, 110]
      else if c = 12 then [92, 102] else if c = 13 then [92, 114]
      else if c < 32 \<or> surrogate c then [92, 117] @ hex4 c
      else [c])"

definition json_quote :: "jstext \<Rightarrow> jstext" where
  "json_quote t = [34] @ concat (map json_escape t) @ [34]"

fun commas :: "jstext list \<Rightarrow> jstext" where
  "commas [] = []"
| "commas [t] = t"
| "commas (t # ts) = t @ [44] @ commas ts"

primrec json_stringify :: "jsv \<Rightarrow> jstext" where
  "json_stringify VNull = utext ''null''"
| "json_stringify (VBool b) = (if b then utext ''true'' else utext ''false'')"
| "json_stringify (VNum l) = l"
| "json_stringify (VStr s) = json_quote s"
| "json_stringify (VArr vs) = [91] @ commas (map json_stringify vs) @ [93]"
| "json_stringify (VObj ms) =
     [123] @ commas (map (\<lambda>(k, t). json_quote k @ [58] @ t) (map (map_prod id json_stringify) ms)) @ [125]"

section \<open>Lexing\<close>

datatype jtok = TLBrace | TRBrace | TLBrack | TRBrack | TColon | TComma | TStr jstext | TNum jstext | TWord jstext

text \<open>Inside a string (with its characters in reverse), an escape, the digits of one, a number, a word.\<close>

datatype lexer = LTop | LStr jstext | LEsc jstext | LHex jstext nat nat | LNum jstext | LWord jstext

definition digit :: "nat \<Rightarrow> bool" where
  "digit c = (48 \<le> c \<and> c \<le> 57)"

text \<open>\<open>-?(0|[1-9][0-9]*)(\.[0-9]+)?([eE][+-]?[0-9]+)?\<close>\<close>

definition json_exponent :: "jstext \<Rightarrow> bool" where
  "json_exponent t = (case t of [] \<Rightarrow> True
     | c # r \<Rightarrow> c \<in> {69, 101} \<and>
         (let ds = (case r of s # r' \<Rightarrow> if s \<in> {43, 45} then r' else r | [] \<Rightarrow> []) in ds \<noteq> [] \<and> list_all digit ds))"

definition json_fraction :: "jstext \<Rightarrow> bool" where
  "json_fraction t = (case t of
       c # r \<Rightarrow> if c = 46 then takeWhile digit r \<noteq> [] \<and> json_exponent (dropWhile digit r) else json_exponent t
     | [] \<Rightarrow> True)"

definition json_number :: "jstext \<Rightarrow> bool" where
  "json_number t = (let u = (case t of c # r \<Rightarrow> if c = 45 then r else t | [] \<Rightarrow> []) in
     case u of [] \<Rightarrow> False
     | c # r \<Rightarrow> if c = 48 then json_fraction r else digit c \<and> json_fraction (dropWhile digit r))"

definition number_char :: "nat \<Rightarrow> bool" where
  "number_char c = (digit c \<or> c \<in> {43, 45, 46, 69, 101})"

definition json_word :: "jstext \<Rightarrow> bool" where
  "json_word t = (t \<in> {utext ''true'', utext ''false'', utext ''null''})"

definition lex_top :: "nat \<Rightarrow> (jtok list \<times> lexer) option" where
  "lex_top c =
     (if c \<in> {9, 10, 13, 32} then Some ([], LTop)
      else if c = 123 then Some ([TLBrace], LTop) else if c = 125 then Some ([TRBrace], LTop)
      else if c = 91 then Some ([TLBrack], LTop) else if c = 93 then Some ([TRBrack], LTop)
      else if c = 58 then Some ([TColon], LTop) else if c = 44 then Some ([TComma], LTop)
      else if c = 34 then Some ([], LStr [])
      else if c = 45 \<or> digit c then Some ([], LNum [c])
      else if 97 \<le> c \<and> c \<le> 122 then Some ([], LWord [c])
      else None)"

definition unescape :: "nat \<Rightarrow> nat option" where
  "unescape c = (if c \<in> {34, 47, 92} then Some c else if c = 98 then Some 8 else if c = 102 then Some 12
     else if c = 110 then Some 10 else if c = 114 then Some 13 else if c = 116 then Some 9 else None)"

definition hex_value :: "nat \<Rightarrow> nat option" where
  "hex_value c = (if digit c then Some (c - 48) else if 97 \<le> c \<and> c \<le> 102 then Some (c - 87)
     else if 65 \<le> c \<and> c \<le> 70 then Some (c - 55) else None)"

text \<open>Adjacent surrogates of a string are one code point.\<close>

fun join_pairs :: "jstext \<Rightarrow> jstext" where
  "join_pairs (h # l # r) =
     (if high_surrogate h \<and> low_surrogate l
      then (0x10000 + (h - 0xD800) * 0x400 + (l - 0xDC00)) # join_pairs r
      else h # join_pairs (l # r))"
| "join_pairs t = t"

fun lex_step :: "lexer \<Rightarrow> nat \<Rightarrow> (jtok list \<times> lexer) option" where
  "lex_step LTop c = lex_top c"
| "lex_step (LStr acc) c =
     (if c = 34 then Some ([TStr (join_pairs (rev acc))], LTop)
      else if c = 92 then Some ([], LEsc acc)
      else if c < 32 then None else Some ([], LStr (c # acc)))"
| "lex_step (LEsc acc) c =
     (if c = 117 then Some ([], LHex acc 4 0) else map_option (\<lambda>d. ([], LStr (d # acc))) (unescape c))"
| "lex_step (LHex acc n v) c =
     (case hex_value c of None \<Rightarrow> None
      | Some h \<Rightarrow> Some ([], if n = 1 then LStr ((v * 16 + h) # acc) else LHex acc (n - 1) (v * 16 + h)))"
| "lex_step (LNum acc) c =
     (if number_char c then Some ([], LNum (c # acc))
      else if json_number (rev acc) then map_option (\<lambda>(ts, s). (TNum (rev acc) # ts, s)) (lex_top c) else None)"
| "lex_step (LWord acc) c =
     (if 97 \<le> c \<and> c \<le> 122 then Some ([], LWord (c # acc))
      else if json_word (rev acc) then map_option (\<lambda>(ts, s). (TWord (rev acc) # ts, s)) (lex_top c) else None)"

fun lex_end :: "lexer \<Rightarrow> jtok list option" where
  "lex_end LTop = Some []"
| "lex_end (LNum acc) = (if json_number (rev acc) then Some [TNum (rev acc)] else None)"
| "lex_end (LWord acc) = (if json_word (rev acc) then Some [TWord (rev acc)] else None)"
| "lex_end _ = None"

fun lex_run :: "lexer \<Rightarrow> jstext \<Rightarrow> jtok list option" where
  "lex_run s [] = lex_end s"
| "lex_run s (c # cs) =
     (case lex_step s c of None \<Rightarrow> None | Some (ts, s') \<Rightarrow> map_option ((@) ts) (lex_run s' cs))"

section \<open>Parsing\<close>

datatype frame = FArr "jsv list" | FObj "(jstext \<times> jsv) list" | FKey "(jstext \<times> jsv) list" jstext

datatype pmode = WantVal | WantValOrClose | WantKeyOrClose | WantKey | WantColon | GotVal jsv

definition word_value :: "jstext \<Rightarrow> jsv" where
  "word_value t = (if t = utext ''null'' then VNull else VBool (t = utext ''true''))"

fun scalar :: "jtok \<Rightarrow> jsv option" where
  "scalar (TStr s) = Some (VStr s)"
| "scalar (TNum l) = Some (VNum l)"
| "scalar (TWord t) = Some (word_value t)"
| "scalar _ = None"

definition start_value :: "jtok \<Rightarrow> frame list \<Rightarrow> (pmode \<times> frame list) option" where
  "start_value tok st =
     (if tok = TLBrace then Some (WantKeyOrClose, FObj [] # st)
      else if tok = TLBrack then Some (WantValOrClose, FArr [] # st)
      else map_option (\<lambda>v. (GotVal v, st)) (scalar tok))"

fun parse_step :: "pmode \<times> frame list \<Rightarrow> jtok \<Rightarrow> (pmode \<times> frame list) option" where
  "parse_step (WantVal, st) tok = start_value tok st"
| "parse_step (WantValOrClose, st) tok =
     (case (tok, st) of (TRBrack, FArr vs # st') \<Rightarrow> Some (GotVal (VArr (rev vs)), st') | _ \<Rightarrow> start_value tok st)"
| "parse_step (WantKeyOrClose, st) tok =
     (case (tok, st) of
        (TRBrace, FObj ms # st') \<Rightarrow> Some (GotVal (VObj (rev ms)), st')
      | (TStr k, FObj ms # st') \<Rightarrow> Some (WantColon, FKey ms k # st')
      | _ \<Rightarrow> None)"
| "parse_step (WantKey, st) tok =
     (case (tok, st) of (TStr k, FObj ms # st') \<Rightarrow> Some (WantColon, FKey ms k # st') | _ \<Rightarrow> None)"
| "parse_step (WantColon, st) tok = (if tok = TColon then Some (WantVal, st) else None)"
| "parse_step (GotVal v, st) tok =
     (case (tok, st) of
        (TComma, FArr vs # st') \<Rightarrow> Some (WantVal, FArr (v # vs) # st')
      | (TRBrack, FArr vs # st') \<Rightarrow> Some (GotVal (VArr (rev (v # vs))), st')
      | (TComma, FKey ms k # st') \<Rightarrow> Some (WantKey, FObj ((k, v) # ms) # st')
      | (TRBrace, FKey ms k # st') \<Rightarrow> Some (GotVal (VObj (rev ((k, v) # ms))), st')
      | _ \<Rightarrow> None)"

fun parse_run :: "pmode \<times> frame list \<Rightarrow> jtok list \<Rightarrow> jsv option" where
  "parse_run (GotVal v, []) [] = Some v"
| "parse_run _ [] = None"
| "parse_run s (t # ts) = (case parse_step s t of None \<Rightarrow> None | Some s' \<Rightarrow> parse_run s' ts)"

definition json_parse_text :: "jstext \<Rightarrow> jsv option" where
  "json_parse_text t = Option.bind (lex_run LTop t) (parse_run (WantVal, []))"

text \<open>A member's value; the last of several wins.\<close>

definition member :: "jstext \<Rightarrow> (jstext \<times> jsv) list \<Rightarrow> jsv option" where
  "member k ms = map_of (rev ms) k"

section \<open>What is printed is read back\<close>

fun wf_json :: "jsv \<Rightarrow> bool" where
  "wf_json (VNum l) = json_number l"
| "wf_json (VStr s) = wf_text s"
| "wf_json (VArr vs) = (\<forall>v \<in> set vs. wf_json v)"
| "wf_json (VObj ms) = (\<forall>(k, v) \<in> set ms. wf_text k \<and> wf_json v)"
| "wf_json _ = True"

definition delimited :: "jstext \<Rightarrow> bool" where
  "delimited r = (case r of [] \<Rightarrow> True | c # _ \<Rightarrow> \<not> number_char c \<and> \<not> (97 \<le> c \<and> c \<le> 122))"

lemma map_append_Nil [simp]: "map_option ((@) []) x = x"
  by (cases x) simp_all

lemma append_Cons_fun: "(@) (a # as) = (\<lambda>x. a # as @ x)"
  by (rule ext) simp

lemma hex_value_lower: "n < 16 \<Longrightarrow> hex_value (hex_lower n) = Some n"
  by (auto simp: hex_value_def hex_lower_def digit_def)

lemma hex4_value: "c < 0x10000 \<Longrightarrow> ((c div 4096 * 16 + c div 256 mod 16) * 16 + c div 16 mod 16) * 16 + c mod 16 = (c :: nat)"
proof -
  have d: "c div 256 = c div 16 div 16" "c div 4096 = c div 16 div 16 div 16"
    using div_mult2_eq [of c 16 16] div_mult2_eq [of c 256 16] by simp_all
  show ?thesis by (simp only: d div_mult_mod_eq)
qed

lemma lex_hex4:
  assumes "c < 0x10000"
  shows "lex_run (LHex acc 4 0) (hex4 c @ r) = lex_run (LStr (c # acc)) r"
proof -
  have "c div 4096 < 16" using assms by simp
  then have "lex_run (LHex acc 4 0) (hex4 c @ r)
      = lex_run (LStr ((((c div 4096 * 16 + c div 256 mod 16) * 16 + c div 16 mod 16) * 16 + c mod 16) # acc)) r"
    by (simp add: hex4_def hex_value_lower option.map_ident comp_def del: One_nat_def)
  then show ?thesis by (simp only: hex4_value [OF assms])
qed

lemma lex_escape:
  assumes "c < 0x110000"
  shows "lex_run (LStr acc) (json_escape c @ r) = lex_run (LStr (c # acc)) r"
proof (cases "c < 32 \<or> surrogate c")
  case True
  then have "c < 0x10000" "c \<noteq> 34" "c \<noteq> 92" by (auto simp: high_surrogate_def low_surrogate_def)
  then show ?thesis
    using True lex_hex4 [of c acc r]
    by (auto simp: json_escape_def unescape_def option.map_ident comp_def)
next
  case False
  then show ?thesis by (auto simp: json_escape_def unescape_def option.map_ident)
qed

lemma lex_chars:
  "wf_text t \<Longrightarrow> lex_run (LStr acc) (concat (map json_escape t) @ r) = lex_run (LStr (rev t @ acc)) r"
  by (induction t arbitrary: acc rule: wf_text.induct) (simp_all add: lex_escape)

lemma join_wf: "wf_text t \<Longrightarrow> join_pairs t = t"
  by (induction t rule: wf_text.induct) auto

lemma lex_quote:
  "wf_text t \<Longrightarrow> lex_run LTop (json_quote t @ r) = map_option (Cons (TStr t)) (lex_run LTop r)"
  by (simp add: json_quote_def lex_top_def digit_def lex_chars join_wf append_Cons_fun)

lemma all_digits: "list_all digit ds \<Longrightarrow> \<forall>c \<in> set ds. number_char c"
  by (auto simp: list_all_iff number_char_def)

lemma exponent_chars: "json_exponent t \<Longrightarrow> \<forall>c \<in> set t. number_char c"
  by (auto simp: json_exponent_def Let_def number_char_def list_all_iff split: list.splits if_splits)

lemma split_digits: "(\<forall>c \<in> set (dropWhile digit r). number_char c) \<Longrightarrow> \<forall>c \<in> set r. number_char c"
  by (induction r) (auto simp: number_char_def split: if_splits)

lemma fraction_chars: "json_fraction t \<Longrightarrow> \<forall>c \<in> set t. number_char c"
  by (cases t) (auto simp: json_fraction_def number_char_def [of 46] dest!: exponent_chars intro: split_digits [rule_format] split: if_splits)

lemma number_chars:
  assumes "json_number l"
  shows "l \<noteq> [] \<and> (hd l = 45 \<or> digit (hd l)) \<and> (\<forall>c \<in> set l. number_char c)"
proof -
  have u: "(\<forall>c \<in> set u. number_char c) \<and> digit (hd u)"
    if "case u of [] \<Rightarrow> False | c # r \<Rightarrow> if c = 48 then json_fraction r else digit c \<and> json_fraction (dropWhile digit r)" for u
    using that split_digits fraction_chars by (cases u) (auto simp: digit_def number_char_def split: if_splits)
  show ?thesis
    using assms u [of l] u [of "tl l"]
    by (cases l) (auto simp: json_number_def Let_def number_char_def [of 45] split: if_splits)
qed

lemma lex_number_chars:
  "\<forall>c \<in> set cs. number_char c \<Longrightarrow> lex_run (LNum acc) (cs @ r) = lex_run (LNum (rev cs @ acc)) r"
  by (induction cs arbitrary: acc) (simp_all add: option.map_ident)

lemma lex_end_number:
  "json_number (rev acc) \<Longrightarrow> delimited r \<Longrightarrow> lex_run (LNum acc) r = map_option (Cons (TNum (rev acc))) (lex_run LTop r)"
  by (cases r) (auto simp: delimited_def option.map_comp comp_def append_Cons_fun split: option.split prod.split)

lemma lex_number:
  assumes "json_number l" "delimited r"
  shows "lex_run LTop (l @ r) = map_option (Cons (TNum l)) (lex_run LTop r)"
proof -
  obtain c cs where l: "l = c # cs" "c = 45 \<or> digit c" "\<forall>d \<in> set cs. number_char d"
    using number_chars [OF assms(1)] by (cases l) auto
  then have "lex_run LTop (l @ r) = lex_run (LNum (rev l)) r"
    by (auto simp: lex_top_def digit_def lex_number_chars option.map_ident)
  then show ?thesis using lex_end_number [of "rev l" r] assms by simp
qed

lemma lex_word_chars:
  "\<forall>c \<in> set cs. 97 \<le> c \<and> c \<le> 122 \<Longrightarrow> lex_run (LWord acc) (cs @ r) = lex_run (LWord (rev cs @ acc)) r"
  by (induction cs arbitrary: acc) (simp_all add: option.map_ident)

lemma lex_word:
  assumes "json_word t" "delimited r"
  shows "lex_run LTop (t @ r) = map_option (Cons (TWord t)) (lex_run LTop r)"
proof -
  obtain c cs where t: "t = c # cs" "97 \<le> c \<and> c \<le> 122" "\<forall>d \<in> set cs. 97 \<le> d \<and> d \<le> 122"
    using assms(1) by (auto simp: json_word_def utext_def)
  then have "lex_run LTop (t @ r) = lex_run (LWord (rev t)) r"
    by (simp add: lex_top_def digit_def lex_word_chars option.map_ident)
  moreover have "lex_run (LWord (rev t)) r = map_option (Cons (TWord t)) (lex_run LTop r)"
    using assms by (cases r) (auto simp: delimited_def option.map_comp comp_def append_Cons_fun split: option.split prod.split)
  ultimately show ?thesis by simp
qed

text \<open>The tokens of a value.\<close>

fun comma_tokens :: "jtok list list \<Rightarrow> jtok list" where
  "comma_tokens [] = []"
| "comma_tokens [t] = t"
| "comma_tokens (t # ts) = t @ [TComma] @ comma_tokens ts"

primrec json_tokens :: "jsv \<Rightarrow> jtok list" where
  "json_tokens VNull = [TWord (utext ''null'')]"
| "json_tokens (VBool b) = [TWord (if b then utext ''true'' else utext ''false'')]"
| "json_tokens (VNum l) = [TNum l]"
| "json_tokens (VStr s) = [TStr s]"
| "json_tokens (VArr vs) = [TLBrack] @ comma_tokens (map json_tokens vs) @ [TRBrack]"
| "json_tokens (VObj ms) =
     [TLBrace] @ comma_tokens (map (\<lambda>(k, t). [TStr k, TColon] @ t) (map (map_prod id json_tokens) ms)) @ [TRBrace]"

definition lexes :: "jstext \<Rightarrow> jtok list \<Rightarrow> bool" where
  "lexes t ts \<longleftrightarrow> (\<forall>r. delimited r \<longrightarrow> lex_run LTop (t @ r) = map_option ((@) ts) (lex_run LTop r))"

lemma delimited_chars [simp]: "delimited (44 # r)" "delimited (93 # r)" "delimited (125 # r)" "delimited (58 # r)" "delimited []"
  by (simp_all add: delimited_def number_char_def digit_def)

lemma lex_punct [simp]:
  "lex_run LTop (44 # r) = map_option (Cons TComma) (lex_run LTop r)"
  "lex_run LTop (58 # r) = map_option (Cons TColon) (lex_run LTop r)"
  "lex_run LTop (91 # r) = map_option (Cons TLBrack) (lex_run LTop r)"
  "lex_run LTop (93 # r) = map_option (Cons TRBrack) (lex_run LTop r)"
  "lex_run LTop (123 # r) = map_option (Cons TLBrace) (lex_run LTop r)"
  "lex_run LTop (125 # r) = map_option (Cons TRBrace) (lex_run LTop r)"
  by (simp_all add: lex_top_def append_Cons_fun)

declare lex_run.simps(2) [simp del]

lemma map_option_append: "map_option ((@) xs) (map_option ((@) ys) z) = map_option ((@) (xs @ ys)) z"
  by (cases z) simp_all

lemma map_option_Cons: "map_option (Cons x) (map_option ((@) ys) z) = map_option ((@) (x # ys)) z"
  "map_option ((@) xs) (map_option (Cons y) z) = map_option ((@) (xs @ [y])) z"
  by (cases z; simp)+

lemma lexes_commas:
  "list_all2 lexes ts toks \<Longrightarrow> lexes (commas ts) (comma_tokens toks)"
proof (induction ts toks rule: list_all2_induct)
  case (Cons t ts tok toks)
  show ?case
  proof (cases ts)
    case Nil
    with Cons show ?thesis by simp
  next
    case (Cons u us)
    with Cons.hyps obtain tok' toks' where "toks = tok' # toks'" by (auto simp: list_all2_Cons1)
    with Cons Cons.IH Cons.hyps(1) show ?thesis
      by (simp add: lexes_def map_option_append map_option_Cons)
  qed
qed (simp add: lexes_def)

lemma lexes_member: "wf_text k \<Longrightarrow> lexes t ts \<Longrightarrow> lexes (json_quote k @ [58] @ t) ([TStr k, TColon] @ ts)"
  by (simp add: lexes_def lex_quote map_option_Cons)

lemma lexes_bracket:
  "lexes t ts \<Longrightarrow> lexes ([91] @ t @ [93]) ([TLBrack] @ ts @ [TRBrack])"
  "lexes t ts \<Longrightarrow> lexes ([123] @ t @ [125]) ([TLBrace] @ ts @ [TRBrace])"
  by (simp_all add: lexes_def map_option_Cons)

lemma lex_stringify: "wf_json v \<Longrightarrow> lexes (json_stringify v) (json_tokens v)"
proof (induction v)
  case (VArr vs)
  then have "list_all2 lexes (map json_stringify vs) (map json_tokens vs)"
    by (simp add: list_all2_map1 list_all2_map2 list.rel_refl_strong)
  then show ?case by (simp only: json_stringify.simps json_tokens.simps lexes_bracket(1) lexes_commas)
next
  case (VObj ms)
  then have "\<forall>p \<in> set ms. wf_text (fst p) \<and> lexes (json_stringify (snd p)) (json_tokens (snd p))"
    by (fastforce simp: snds.simps)
  then have "list_all2 lexes (map (\<lambda>(k, t). json_quote k @ [58] @ t) (map (map_prod id json_stringify) ms))
      (map (\<lambda>(k, t). [TStr k, TColon] @ t) (map (map_prod id json_tokens) ms))"
    by (auto simp: list_all2_map1 list_all2_map2 split_def intro!: list.rel_refl_strong lexes_member [simplified])
  then show ?case by (simp only: json_stringify.simps json_tokens.simps lexes_bracket(2) lexes_commas)
qed (auto simp: lexes_def lex_quote lex_number lex_word json_word_def append_Cons_fun)

text \<open>The tokens of a value are parsed to it, wherever a value is wanted.\<close>

lemma parse_items:
  assumes "\<And>v st ts. v \<in> set (u # vs) \<Longrightarrow> parse_run (WantVal, st) (json_tokens v @ ts) = parse_run (GotVal v, st) ts"
  shows "parse_run (WantVal, FArr acc # st) (comma_tokens (map json_tokens (u # vs)) @ TRBrack # ts)
    = parse_run (GotVal (VArr (rev acc @ u # vs)), st) ts"
  using assms
proof (induction vs arbitrary: u acc)
  case (Cons w vs)
  have "parse_run (WantVal, FArr acc # st) (comma_tokens (map json_tokens (u # w # vs)) @ TRBrack # ts)
      = parse_run (WantVal, FArr (u # acc) # st) (comma_tokens (map json_tokens (w # vs)) @ TRBrack # ts)"
    using Cons.prems [of u] by simp
  also have "\<dots> = parse_run (GotVal (VArr (rev (u # acc) @ w # vs)), st) ts"
    by (rule Cons.IH) (simp add: Cons.prems)
  finally show ?case by simp
qed simp

definition member_tokens :: "jstext \<times> jsv \<Rightarrow> jtok list" where
  "member_tokens m = TStr (fst m) # TColon # json_tokens (snd m)"

lemma tokens_obj: "json_tokens (VObj ms) = TLBrace # comma_tokens (map member_tokens ms) @ [TRBrace]"
proof -
  have "(\<lambda>(k, t). TStr k # TColon # t) \<circ> map_prod id json_tokens = member_tokens"
    by (auto simp: fun_eq_iff member_tokens_def)
  then show ?thesis by simp
qed

lemma parse_members:
  assumes "\<And>p st ts. p \<in> set (m # ms) \<Longrightarrow> parse_run (WantVal, st) (json_tokens (snd p) @ ts) = parse_run (GotVal (snd p), st) ts"
  shows "parse_run (WantKey, FObj acc # st) (comma_tokens (map member_tokens (m # ms)) @ TRBrace # ts)
    = parse_run (GotVal (VObj (rev acc @ m # ms)), st) ts"
  using assms
proof (induction ms arbitrary: m acc)
  case Nil
  then show ?case by (cases m) (simp add: member_tokens_def)
next
  case (Cons n ms)
  have "parse_run (WantKey, FObj acc # st) (comma_tokens (map member_tokens (m # n # ms)) @ TRBrace # ts)
      = parse_run (WantKey, FObj (m # acc) # st) (comma_tokens (map member_tokens (n # ms)) @ TRBrace # ts)"
    using Cons.prems [of m] by (simp add: member_tokens_def [of m])
  also have "\<dots> = parse_run (GotVal (VObj (rev (m # acc) @ n # ms)), st) ts"
    by (rule Cons.IH) (simp add: Cons.prems)
  finally show ?case by simp
qed

lemma first_token: "\<exists>t ts. json_tokens v = t # ts \<and> t \<notin> {TRBrack, TRBrace, TColon, TComma}"
  by (cases v) auto

lemma want_first:
  "parse_run (WantValOrClose, st) (json_tokens v @ ts) = parse_run (WantVal, st) (json_tokens v @ ts)"
  using first_token [of v] by (auto split: jtok.split)

lemma parse_tokens: "parse_run (WantVal, st) (json_tokens v @ ts) = parse_run (GotVal v, st) ts"
proof (induction v arbitrary: st ts)
  case (VArr vs)
  show ?case
  proof (cases vs)
    case Nil
    then show ?thesis by (simp add: start_value_def)
  next
    case (Cons u us)
    have "parse_run (WantValOrClose, FArr [] # st) (comma_tokens (map json_tokens (u # us)) @ TRBrack # ts)
        = parse_run (WantVal, FArr [] # st) (comma_tokens (map json_tokens (u # us)) @ TRBrack # ts)"
      using want_first [of _ u] by (cases us) simp_all
    then show ?thesis
      using parse_items [of u us "[]" st ts] VArr Cons by (simp add: start_value_def)
  qed
next
  case (VObj ms)
  show ?case
  proof (cases ms)
    case Nil
    then show ?thesis by (simp add: start_value_def)
  next
    case (Cons m ns)
    let ?toks = "comma_tokens (map member_tokens (m # ns)) @ TRBrace # ts"
    have "parse_run (WantKeyOrClose, FObj [] # st) ?toks = parse_run (WantKey, FObj [] # st) ?toks"
      by (cases ns) (simp_all add: member_tokens_def [of m])
    moreover have "parse_run (WantVal, s) (json_tokens (snd p) @ u) = parse_run (GotVal (snd p), s) u" if "p \<in> set (m # ns)" for p s u
      using VObj [of p "snd p"] that Cons by (simp add: snds.simps)
    ultimately show ?thesis
      using parse_members [of m ns "[]" st ts] Cons
      by (simp add: start_value_def tokens_obj del: json_tokens.simps(6))
  qed
qed (simp_all add: start_value_def word_value_def utext_def)

theorem json_roundtrip: "wf_json v \<Longrightarrow> json_parse_text (json_stringify v) = Some v"
  using lex_stringify [of v] parse_tokens [of "[]" v "[]"]
  by (simp add: json_parse_text_def lexes_def) (metis append_Nil2 delimited_chars(5) lex_end.simps(1) lex_run.simps(1) option.simps(9) bind.bind_lunit)

end
