(* ===== verification/ZodSchema.thy ===== *)
theory ZodSchema
  imports Json
begin

text \<open>
  The zod validators the codecs use, as an interface: \<open>safeParse\<close> takes a schema and a value (\<open>None\<close> for
  \<open>undefined\<close>) and answers the parsed value, or \<open>None\<close> when it does not match. The locale \<open>zod\<close> states what
  the code relies on of the library, schema by schema; \<open>zod_ref\<close> is a validator of that kind.
\<close>

datatype zschema =
    ZStr                          \<comment> \<open>\<open>z.string()\<close>\<close>
  | ZStrMin1                      \<comment> \<open>\<open>z.string().min(1)\<close>\<close>
  | ZNum | ZBool
  | ZUnknown                      \<comment> \<open>\<open>z.unknown()\<close>\<close>
  | ZStrMinMax nat nat            \<comment> \<open>\<open>z.string().min(m).max(n)\<close>\<close>
  | ZNat                          \<comment> \<open>\<open>z.number().int().nonnegative()\<close>\<close>
  | ZNonneg                       \<comment> \<open>\<open>z.number().nonnegative()\<close>\<close>
  | ZUnit                         \<comment> \<open>\<open>z.number().min(0).max(1)\<close>\<close>
  | ZLitNum nat | ZLitStr jstext
  | ZEnum "jstext list"
  | ZOpt zschema
  | ZDefault jsv zschema
  | ZArr zschema
  | ZObj "(jstext \<times> zschema) list"
  | ZDisc jstext "zschema list"   \<comment> \<open>\<open>z.discriminatedUnion\<close>\<close>

abbreviation fld :: "string \<Rightarrow> 'a \<Rightarrow> jstext \<times> 'a" where
  "fld k x \<equiv> (utext k, x)"

type_synonym zod_parser = "zschema \<Rightarrow> jsv option \<Rightarrow> jsv option option"

text \<open>\<open>s.length\<close>: the code units of a string.\<close>

definition utf16_length :: "jstext \<Rightarrow> nat" where
  "utf16_length t = length t + length (filter (\<lambda>c. 0x10000 \<le> c) t)"

section \<open>The value of a number literal\<close>

definition digits_value :: "jstext \<Rightarrow> nat" where
  "digits_value ds = foldl (\<lambda>a d. a * 10 + (d - 48)) 0 ds"

definition exponent_value :: "jstext \<Rightarrow> int" where
  "exponent_value t = (case t of [] \<Rightarrow> 0
     | _ # r \<Rightarrow> (case r of s # r' \<Rightarrow>
         if s = 45 then - int (digits_value r') else if s = 43 then int (digits_value r') else int (digits_value r)
       | [] \<Rightarrow> 0))"

text \<open>A literal as digits and a power of ten, with its sign.\<close>

definition literal_parts :: "jstext \<Rightarrow> bool \<times> nat \<times> int" where
  "literal_parts l =
     (let neg = (case l of c # _ \<Rightarrow> c = 45 | [] \<Rightarrow> False);
          u = (if neg then tl l else l);
          ip = takeWhile digit u; r = dropWhile digit u;
          fp = (case r of c # r' \<Rightarrow> if c = 46 then takeWhile digit r' else [] | [] \<Rightarrow> []);
          ex = (case r of c # r' \<Rightarrow> if c = 46 then dropWhile digit r' else r | [] \<Rightarrow> [])
      in (neg, digits_value (ip @ fp), exponent_value ex - int (length fp)))"

definition literal_is :: "jstext \<Rightarrow> nat \<Rightarrow> bool" where
  "literal_is l n =
     (case literal_parts l of (neg, d, e) \<Rightarrow>
        (neg \<longrightarrow> d = 0) \<and> (if 0 \<le> e then d * 10 ^ nat e = n else d = n * 10 ^ nat (- e)))"

definition literal_nat :: "jstext \<Rightarrow> bool" where
  "literal_nat l =
     (case literal_parts l of (neg, d, e) \<Rightarrow> (neg \<longrightarrow> d = 0) \<and> (0 \<le> e \<or> d mod 10 ^ nat (- e) = 0))"

definition literal_nonneg :: "jstext \<Rightarrow> bool" where
  "literal_nonneg l = (case literal_parts l of (neg, d, e) \<Rightarrow> neg \<longrightarrow> d = 0)"

definition literal_unit :: "jstext \<Rightarrow> bool" where
  "literal_unit l =
     (case literal_parts l of (neg, d, e) \<Rightarrow>
        (neg \<longrightarrow> d = 0) \<and> (if 0 \<le> e then d * 10 ^ nat e \<le> 1 else d \<le> 10 ^ nat (- e)))"

text \<open>The whole number a literal accepted by \<open>literal_nat\<close> stands for.\<close>

definition literal_to_nat :: "jstext \<Rightarrow> nat" where
  "literal_to_nat l = (case literal_parts l of (neg, d, e) \<Rightarrow> if 0 \<le> e then d * 10 ^ nat e else d div 10 ^ nat (- e))"

text \<open>
  A plain literal of at most 15 characters: different ones are different doubles, so comparing them
  exactly is comparing them as numbers. The interface says nothing of the value of longer literals.
\<close>

definition literal_short :: "jstext \<Rightarrow> bool" where
  "literal_short l = (length l \<le> 15 \<and> (\<forall>c \<in> set l. digit c \<or> c = 45 \<or> c = 46))"

section \<open>The interface\<close>

text \<open>The fields of an object schema: unknown members go, absent optional ones stay absent.\<close>

fun obj_fields :: "(zschema \<Rightarrow> jsv option \<Rightarrow> jsv option option) \<Rightarrow> (jstext \<times> zschema) list \<Rightarrow>
    (jstext \<times> jsv) list \<Rightarrow> (jstext \<times> jsv) list option" where
  "obj_fields z [] ms = Some []"
| "obj_fields z ((k, s) # fs) ms =
     (case z s (member k ms) of
        None \<Rightarrow> None
      | Some None \<Rightarrow> obj_fields z fs ms
      | Some (Some v) \<Rightarrow> map_option (Cons (k, v)) (obj_fields z fs ms))"

fun arr_items :: "(jsv option \<Rightarrow> jsv option option) \<Rightarrow> jsv list \<Rightarrow> jsv list option" where
  "arr_items p [] = Some []"
| "arr_items p (v # vs) =
     (case p (Some v) of Some (Some u) \<Rightarrow> map_option (Cons u) (arr_items p vs) | _ \<Rightarrow> None)"

text \<open>The union's branch: the first whose discriminator literal is the object's.\<close>

fun disc_literal :: "jstext \<Rightarrow> zschema \<Rightarrow> jstext option" where
  "disc_literal k (ZObj fs) = (case map_of fs k of Some (ZLitStr t) \<Rightarrow> Some t | _ \<Rightarrow> None)"
| "disc_literal k _ = None"

definition disc_branch :: "jstext \<Rightarrow> zschema list \<Rightarrow> (jstext \<times> jsv) list \<Rightarrow> zschema option" where
  "disc_branch k opts ms = (case member k ms of
       Some (VStr t) \<Rightarrow> List.find (\<lambda>s. disc_literal k s = Some t) opts
     | _ \<Rightarrow> None)"

locale zod =
  fixes z :: "zschema \<Rightarrow> jsv option \<Rightarrow> jsv option option"
  assumes z_str: "z ZStr x = (case x of Some (VStr s) \<Rightarrow> Some x | _ \<Rightarrow> None)"
    and z_str1: "z ZStrMin1 x = (case x of Some (VStr s) \<Rightarrow> if s = [] then None else Some x | _ \<Rightarrow> None)"
    and z_num: "literal_short l \<Longrightarrow> z ZNum (Some (VNum l)) = Some (Some (VNum l))"
    and z_nonneg: "literal_short l \<Longrightarrow> z ZNonneg (Some (VNum l)) = (if literal_nonneg l then Some (Some (VNum l)) else None)"
    and z_unit: "literal_short l \<Longrightarrow> z ZUnit (Some (VNum l)) = (if literal_unit l then Some (Some (VNum l)) else None)"
    and z_bool: "z ZBool x = (case x of Some (VBool b) \<Rightarrow> Some x | _ \<Rightarrow> None)"
    and z_unknown: "z ZUnknown x = Some x"
    and z_nat: "literal_short l \<Longrightarrow> z ZNat (Some (VNum l)) = (if literal_nat l then Some (Some (VNum l)) else None)"
    and z_lit_num: "literal_short l \<Longrightarrow> z (ZLitNum n) (Some (VNum l)) = (if literal_is l n then Some (Some (VNum l)) else None)"
    and z_number_only: "z ZNum x = None \<or> (\<exists>l. x = Some (VNum l) \<and> z ZNum x = Some x)"
      "z ZNat x = None \<or> (\<exists>l. x = Some (VNum l) \<and> z ZNat x = Some x)"
      "z (ZLitNum n) x = None \<or> (\<exists>l. x = Some (VNum l) \<and> z (ZLitNum n) x = Some x)"
      "z ZNonneg x = None \<or> (\<exists>l. x = Some (VNum l) \<and> z ZNonneg x = Some x)"
      "z ZUnit x = None \<or> (\<exists>l. x = Some (VNum l) \<and> z ZUnit x = Some x)"
    and z_strlen: "z (ZStrMinMax m n) x =
          (case x of Some (VStr s) \<Rightarrow> if m \<le> utf16_length s \<and> utf16_length s \<le> n then Some x else None | _ \<Rightarrow> None)"
    and z_lit_str: "z (ZLitStr t) x = (if x = Some (VStr t) then Some x else None)"
    and z_enum: "z (ZEnum ts) x = (case x of Some (VStr s) \<Rightarrow> if s \<in> set ts then Some x else None | _ \<Rightarrow> None)"
    and z_opt: "z (ZOpt s) x = (if x = None then Some None else z s x)"
    and z_default: "z (ZDefault d s) x = (if x = None then Some (Some d) else z s x)"
    and z_arr: "z (ZArr s) x = (case x of Some (VArr vs) \<Rightarrow> map_option (\<lambda>us. Some (VArr us)) (arr_items (z s) vs) | _ \<Rightarrow> None)"
    and z_obj: "z (ZObj fs) x = (case x of Some (VObj ms) \<Rightarrow> map_option (\<lambda>us. Some (VObj us)) (obj_fields z fs ms) | _ \<Rightarrow> None)"
    and z_disc: "z (ZDisc k opts) x = (case x of
          Some (VObj ms) \<Rightarrow> (case disc_branch k opts ms of None \<Rightarrow> None | Some s \<Rightarrow> z s x) | _ \<Rightarrow> None)"
begin

lemmas z_scalar = z_str z_str1 z_strlen z_bool z_unknown z_lit_str z_enum z_opt z_default

end

section \<open>A validator of this kind\<close>

lemma obj_fields_eq:
  "\<forall>f \<in> set fs. \<forall>x. z (snd f) x = z' (snd f) x \<Longrightarrow> obj_fields z fs ms = obj_fields z' fs ms"
proof (induction fs)
  case (Cons f fs)
  obtain k s where "f = (k, s)" by fastforce
  with Cons show ?case by (simp split: option.split)
qed simp

lemma obj_fields_cong [fundef_cong]:
  assumes "fs = gs" "ms = ns" "\<And>k s x. (k, s) \<in> set gs \<Longrightarrow> z s x = z' s x"
  shows "obj_fields z fs ms = obj_fields z' gs ns"
  unfolding assms(1,2) by (rule obj_fields_eq) (use assms(3) in auto)

lemma arr_items_cong [fundef_cong]:
  assumes "vs = us" "\<And>x. p x = q x"
  shows "arr_items p vs = arr_items q us"
proof -
  have "p = q" using assms(2) by blast
  with assms(1) show ?thesis by simp
qed

lemma disc_branch_mem: "disc_branch k opts ms = Some s \<Longrightarrow> s \<in> set opts"
  by (auto simp: disc_branch_def dest: find_SomeD split: option.splits jsv.splits)

function zod_ref :: "zschema \<Rightarrow> jsv option \<Rightarrow> jsv option option" where
  "zod_ref ZStr x = (case x of Some (VStr s) \<Rightarrow> Some x | _ \<Rightarrow> None)"
| "zod_ref ZStrMin1 x = (case x of Some (VStr s) \<Rightarrow> if s = [] then None else Some x | _ \<Rightarrow> None)"
| "zod_ref ZNum x = (case x of Some (VNum l) \<Rightarrow> Some x | _ \<Rightarrow> None)"
| "zod_ref ZBool x = (case x of Some (VBool b) \<Rightarrow> Some x | _ \<Rightarrow> None)"
| "zod_ref ZUnknown x = Some x"
| "zod_ref ZNat x = (case x of Some (VNum l) \<Rightarrow> if literal_nat l then Some x else None | _ \<Rightarrow> None)"
| "zod_ref ZNonneg x = (case x of Some (VNum l) \<Rightarrow> if literal_nonneg l then Some x else None | _ \<Rightarrow> None)"
| "zod_ref ZUnit x = (case x of Some (VNum l) \<Rightarrow> if literal_unit l then Some x else None | _ \<Rightarrow> None)"
| "zod_ref (ZStrMinMax m n) x =
     (case x of Some (VStr s) \<Rightarrow> if m \<le> utf16_length s \<and> utf16_length s \<le> n then Some x else None | _ \<Rightarrow> None)"
| "zod_ref (ZLitNum n) x = (case x of Some (VNum l) \<Rightarrow> if literal_is l n then Some x else None | _ \<Rightarrow> None)"
| "zod_ref (ZLitStr t) x = (if x = Some (VStr t) then Some x else None)"
| "zod_ref (ZEnum ts) x = (case x of Some (VStr s) \<Rightarrow> if s \<in> set ts then Some x else None | _ \<Rightarrow> None)"
| "zod_ref (ZOpt s) x = (if x = None then Some None else zod_ref s x)"
| "zod_ref (ZDefault d s) x = (if x = None then Some (Some d) else zod_ref s x)"
| "zod_ref (ZArr s) x = (case x of Some (VArr vs) \<Rightarrow> map_option (\<lambda>us. Some (VArr us)) (arr_items (zod_ref s) vs) | _ \<Rightarrow> None)"
| "zod_ref (ZObj fs) x = (case x of Some (VObj ms) \<Rightarrow> map_option (\<lambda>us. Some (VObj us)) (obj_fields zod_ref fs ms) | _ \<Rightarrow> None)"
| "zod_ref (ZDisc k opts) x = (case x of
      Some (VObj ms) \<Rightarrow> (case disc_branch k opts ms of None \<Rightarrow> None | Some s \<Rightarrow> zod_ref s x) | _ \<Rightarrow> None)"
  by pat_completeness auto
termination
proof (relation "measure (size \<circ> fst)")
  fix k opts and x :: "jsv option" and v ms s
  assume "disc_branch k opts ms = Some s"
  then show "((s, x), ZDisc k opts, x) \<in> measure (size \<circ> fst)"
    using size_list_estimation' [OF disc_branch_mem, of k opts ms s "size s" size] by (simp add: less_Suc_eq_le)
next
  fix fs :: "(jstext \<times> zschema) list" and x :: "jsv option" and k s and y :: "jsv option"
  assume "(k, s) \<in> set fs"
  then show "((s, y), ZObj fs, x) \<in> measure (size \<circ> fst)"
    using size_list_estimation' [of "(k, s)" fs "size s" "size_prod (\<lambda>_. 0) size"] by (simp add: less_Suc_eq_le)
qed simp_all

interpretation zref: zod zod_ref
  by unfold_locales (simp_all split: option.split jsv.split)

end
