(* ===== verification/ShareCodec.thy ===== *)
theory ShareCodec
  imports ZodSchema
begin

text \<open>
  The share-link token codec, \<open>lib/haruspex/ts/src/share/codec.ts\<close>: a payload as json, utf-8 and
  base64url, the extraction of a token from what a user pasted, and the legacy token shapes. The zod
  library is the parameter \<open>z\<close>.
\<close>

section \<open>Payloads\<close>

datatype share_mode = PublicMode | KnockMode

record entity_share =
  es_nodeId :: "jstext option"
  es_httpOrigin :: "jstext option"
  es_entityKind :: jstext
  es_entityId :: jstext
  es_parentId :: "jstext option"
  es_title :: "jstext option"
  es_artist :: "jstext option"
  es_album :: "jstext option"
  es_remoteName :: "jstext option"
  es_contentType :: "jstext option"
  es_seriesTitle :: "jstext option"

datatype share_payload =
    NodeShare jstext "jstext option"
  | DocShare jstext jstext "jstext option" "share_mode option"
  | EntityShare entity_share

section \<open>The wire schemas\<close>

definition CURRENT_WIRE_VERSION :: nat where
  "CURRENT_WIRE_VERSION = 2"

definition NodeWireSchema :: zschema where
  "NodeWireSchema = ZObj [fld ''v'' (ZLitNum CURRENT_WIRE_VERSION), fld ''k'' (ZLitStr (utext ''node'')), fld ''n'' ZStrMin1,
     fld ''t'' (ZOpt ZStr)]"

definition mode_schema :: zschema where
  "mode_schema = ZOpt (ZEnum [utext ''public'', utext ''knock''])"

definition DocWireSchema :: zschema where
  "DocWireSchema = ZObj [fld ''v'' (ZLitNum CURRENT_WIRE_VERSION), fld ''k'' (ZLitStr (utext ''doc'')), fld ''n'' ZStrMin1,
     fld ''d'' ZStrMin1, fld ''t'' (ZOpt ZStr), fld ''m'' mode_schema]"

definition EntityWireSchema :: zschema where
  "EntityWireSchema = ZObj [fld ''v'' (ZLitNum CURRENT_WIRE_VERSION), fld ''k'' (ZLitStr (utext ''entity'')),
     fld ''sn'' (ZOpt ZStr), fld ''sh'' (ZOpt ZStr), fld ''ek'' ZStrMin1, fld ''i'' ZStrMin1, fld ''p'' (ZOpt ZStr),
     fld ''t'' (ZOpt ZStr), fld ''a'' (ZOpt ZStr), fld ''al'' (ZOpt ZStr), fld ''rn'' (ZOpt ZStr), fld ''ct'' (ZOpt ZStr),
     fld ''st'' (ZOpt ZStr)]"

definition WireSchema :: zschema where
  "WireSchema = ZDisc (utext ''k'') [NodeWireSchema, DocWireSchema, EntityWireSchema]"

definition DocLegacyV1Schema :: zschema where
  "DocLegacyV1Schema = ZObj [fld ''v'' (ZLitNum 1), fld ''n'' ZStrMin1, fld ''d'' ZStrMin1, fld ''t'' (ZOpt ZStr), fld ''m'' mode_schema]"

definition EntityLegacyV1Schema :: zschema where
  "EntityLegacyV1Schema = ZObj [fld ''v'' (ZLitNum 1), fld ''s'' (ZObj [fld ''n'' (ZOpt ZStr), fld ''h'' (ZOpt ZStr)]),
     fld ''k'' ZStrMin1, fld ''i'' ZStrMin1, fld ''p'' (ZOpt ZStr), fld ''t'' (ZOpt ZStr), fld ''a'' (ZOpt ZStr), fld ''al'' (ZOpt ZStr)]"

definition DocBareLegacySchema :: zschema where
  "DocBareLegacySchema = ZObj [fld ''n'' ZStrMin1, fld ''d'' ZStrMin1]"

section \<open>To and from the wire\<close>

text \<open>Members with their values, \<open>undefined\<close> ones included; \<open>stripUndefined\<close> drops those.\<close>

definition mode_text :: "share_mode \<Rightarrow> jstext" where
  "mode_text m = (case m of PublicMode \<Rightarrow> utext ''public'' | KnockMode \<Rightarrow> utext ''knock'')"

fun toWire :: "share_payload \<Rightarrow> (jstext \<times> jsv option) list" where
  "toWire (NodeShare n t) =
     [fld ''v'' (Some (VNum (utext ''2''))), fld ''k'' (Some (VStr (utext ''node''))), fld ''n'' (Some (VStr n)), fld ''t'' (map_option VStr t)]"
| "toWire (DocShare n d t m) =
     [fld ''v'' (Some (VNum (utext ''2''))), fld ''k'' (Some (VStr (utext ''doc''))), fld ''n'' (Some (VStr n)), fld ''d'' (Some (VStr d)),
      fld ''t'' (map_option VStr t), fld ''m'' (map_option (VStr \<circ> mode_text) m)]"
| "toWire (EntityShare e) =
     [fld ''v'' (Some (VNum (utext ''2''))), fld ''k'' (Some (VStr (utext ''entity''))), fld ''sn'' (map_option VStr (es_nodeId e)),
      fld ''sh'' (map_option VStr (es_httpOrigin e)), fld ''ek'' (Some (VStr (es_entityKind e))), fld ''i'' (Some (VStr (es_entityId e))),
      fld ''p'' (map_option VStr (es_parentId e)), fld ''t'' (map_option VStr (es_title e)), fld ''a'' (map_option VStr (es_artist e)),
      fld ''al'' (map_option VStr (es_album e)), fld ''rn'' (map_option VStr (es_remoteName e)),
      fld ''ct'' (map_option VStr (es_contentType e)), fld ''st'' (map_option VStr (es_seriesTitle e))]"

fun stripUndefined :: "(jstext \<times> jsv option) list \<Rightarrow> (jstext \<times> jsv) list" where
  "stripUndefined [] = []"
| "stripUndefined ((k, Some v) # ms) = (k, v) # stripUndefined ms"
| "stripUndefined ((k, None) # ms) = stripUndefined ms"

text \<open>Reading a parsed object: an optional string, a string that is there, the mode.\<close>

definition str_opt :: "string \<Rightarrow> (jstext \<times> jsv) list \<Rightarrow> jstext option" where
  "str_opt k ms = (case member (utext k) ms of Some (VStr s) \<Rightarrow> Some s | _ \<Rightarrow> None)"

definition str_req :: "string \<Rightarrow> (jstext \<times> jsv) list \<Rightarrow> jstext" where
  "str_req k ms = nullish_or (str_opt k ms) []"

definition mode_opt :: "(jstext \<times> jsv) list \<Rightarrow> share_mode option" where
  "mode_opt ms = (case str_opt ''m'' ms of None \<Rightarrow> None | Some s \<Rightarrow> if s = utext ''public'' then Some PublicMode else Some KnockMode)"

definition fromWire :: "(jstext \<times> jsv) list \<Rightarrow> share_payload" where
  "fromWire w =
     (if str_opt ''k'' w = Some (utext ''node'') then NodeShare (str_req ''n'' w) (str_opt ''t'' w)
      else if str_opt ''k'' w = Some (utext ''doc'') then DocShare (str_req ''n'' w) (str_req ''d'' w) (str_opt ''t'' w) (mode_opt w)
      else EntityShare \<lparr>es_nodeId = str_opt ''sn'' w, es_httpOrigin = str_opt ''sh'' w, es_entityKind = str_req ''ek'' w,
        es_entityId = str_req ''i'' w, es_parentId = str_opt ''p'' w, es_title = str_opt ''t'' w, es_artist = str_opt ''a'' w,
        es_album = str_opt ''al'' w, es_remoteName = str_opt ''rn'' w, es_contentType = str_opt ''ct'' w,
        es_seriesTitle = str_opt ''st'' w\<rparr>)"

section \<open>Tokens\<close>

definition base64UrlEncode :: "nat list \<Rightarrow> jstext" where
  "base64UrlEncode bytes =
     rev (dropWhile (\<lambda>c. c = 61) (rev (map (\<lambda>c. if c = 43 then 45 else if c = 47 then 95 else c) (btoa bytes))))"

definition base64UrlDecode :: "jstext \<Rightarrow> nat list option" where
  "base64UrlDecode token =
     (let pad = (if length token mod 4 = 0 then [] else replicate (4 - length token mod 4) 61)
      in atob (map (\<lambda>c. if c = 45 then 43 else if c = 95 then 47 else c) token @ pad))"

definition encodeShareToken :: "share_payload \<Rightarrow> jstext" where
  "encodeShareToken payload =
     base64UrlEncode (textEncode (json_stringify (VObj (stripUndefined (toWire payload)))))"

definition shareFragment :: "share_payload \<Rightarrow> jstext" where
  "shareFragment payload = utext ''#share/'' @ encodeShareToken payload"

text \<open>\<open>String.prototype.trim\<close> at full width, and \<open>indexOf\<close>.\<close>

definition unicode_space :: "nat \<Rightarrow> bool" where
  "unicode_space c = (c \<in> {9, 10, 11, 12, 13, 32, 160, 0x1680, 0x2028, 0x2029, 0x202F, 0x205F, 0x3000, 0xFEFF}
     \<or> 0x2000 \<le> c \<and> c \<le> 0x200A)"

definition trim_text :: "jstext \<Rightarrow> jstext" where
  "trim_text t = rev (dropWhile unicode_space (rev (dropWhile unicode_space t)))"

fun index_of :: "jstext \<Rightarrow> jstext \<Rightarrow> nat option" where
  "index_of pat [] = (if pat = [] then Some 0 else None)"
| "index_of pat (c # cs) =
     (if take (length pat) (c # cs) = pat then Some 0 else map_option Suc (index_of pat cs))"

definition cut_at_amp :: "jstext \<Rightarrow> jstext" where
  "cut_at_amp raw = (case index_of [38] raw of None \<Rightarrow> raw | Some i \<Rightarrow> take i raw)"

definition extractShareToken :: "jstext \<Rightarrow> jstext" where
  "extractShareToken input =
     (let raw = trim_text input
      in case index_of (utext ''#share/'') raw of
           Some i \<Rightarrow> cut_at_amp (drop (i + 7) raw)
         | None \<Rightarrow> if take 6 raw = utext ''share/'' then cut_at_amp (drop 6 raw) else raw)"

definition parsed_object :: "(zschema \<Rightarrow> jsv option \<Rightarrow> jsv option option) \<Rightarrow> zschema \<Rightarrow> jsv \<Rightarrow> (jstext \<times> jsv) list option" where
  "parsed_object z s json = (case z s (Some json) of Some (Some (VObj ms)) \<Rightarrow> Some ms | _ \<Rightarrow> None)"

definition entity_legacy :: "(jstext \<times> jsv) list \<Rightarrow> share_payload" where
  "entity_legacy p =
     (let s = (case member (utext ''s'') p of Some (VObj ms) \<Rightarrow> ms | _ \<Rightarrow> [])
      in EntityShare \<lparr>es_nodeId = str_opt ''n'' s, es_httpOrigin = str_opt ''h'' s, es_entityKind = str_req ''k'' p,
        es_entityId = str_req ''i'' p, es_parentId = str_opt ''p'' p, es_title = str_opt ''t'' p, es_artist = str_opt ''a'' p,
        es_album = str_opt ''al'' p, es_remoteName = None, es_contentType = None, es_seriesTitle = None\<rparr>)"

text \<open>The classification of the decoded json, and the whole decoder.\<close>

definition payload_of_json :: "(zschema \<Rightarrow> jsv option \<Rightarrow> jsv option option) \<Rightarrow> jsv \<Rightarrow> share_payload option" where
  "payload_of_json z json =
     (case parsed_object z WireSchema json of
        Some w \<Rightarrow> Some (fromWire w)
      | None \<Rightarrow>
     (case parsed_object z DocLegacyV1Schema json of
        Some p \<Rightarrow> Some (DocShare (str_req ''n'' p) (str_req ''d'' p) (str_opt ''t'' p) (mode_opt p))
      | None \<Rightarrow>
     (case parsed_object z EntityLegacyV1Schema json of
        Some p \<Rightarrow> Some (entity_legacy p)
      | None \<Rightarrow>
     (case parsed_object z DocBareLegacySchema json of
        Some p \<Rightarrow> Some (DocShare (str_req ''n'' p) (str_req ''d'' p) None None)
      | None \<Rightarrow> None))))"

definition decodeShareToken :: "(zschema \<Rightarrow> jsv option \<Rightarrow> jsv option option) \<Rightarrow> jstext \<Rightarrow> share_payload option" where
  "decodeShareToken z input =
     (let raw = extractShareToken input
      in if raw = [] then None
         else case Option.bind (base64UrlDecode raw) (\<lambda>bs. json_parse_text (textDecode bs)) of
            None \<Rightarrow> None
          | Some json \<Rightarrow> payload_of_json z json)"

end
