(* ===== verification/JsonProps.thy ===== *)
theory JsonProps
  imports Json
begin

text \<open>
  Two facts about the JSON model the codecs need: a parsed value is well formed, and a printed one is
  plain text, without lone surrogates.
\<close>

section \<open>What is read is well formed, what is printed is plain\<close>

lemma join_pairs_hd:
  "t \<noteq> [] \<Longrightarrow> \<exists>r. join_pairs t = hd t # r \<or> (\<exists>c r. join_pairs t = c # r \<and> 0x10000 \<le> c)"
  by (cases t rule: join_pairs.cases) auto

lemma wf_text_Cons: "wf_text (c # t) \<longleftrightarrow> c < 0x110000 \<and> wf_text t \<and> (t = [] \<or> \<not> (high_surrogate c \<and> low_surrogate (hd t)))"
  by (cases t) auto

lemma join_pairs_wf: "\<forall>c \<in> set t. c < 0x110000 \<Longrightarrow> wf_text (join_pairs t)"
proof (induction t rule: join_pairs.induct)
  case (1 h l r)
  show ?case
  proof (cases "high_surrogate h \<and> low_surrogate l")
    case True
    then have "\<not> high_surrogate (0x10000 + (h - 0xD800) * 0x400 + (l - 0xDC00))"
      "0x10000 + (h - 0xD800) * 0x400 + (l - 0xDC00) < 0x110000"
      by (auto simp: high_surrogate_def low_surrogate_def)
    with True 1 show ?thesis by (simp add: wf_text_Cons)
  next
    case False
    then have "wf_text (join_pairs (l # r))" "h < 0x110000" using 1 by simp_all
    moreover have "\<not> (high_surrogate h \<and> low_surrogate (hd (join_pairs (l # r))))"
      using join_pairs_hd [of "l # r"] False by (auto simp: low_surrogate_def)
    ultimately show ?thesis using False by (auto simp: wf_text_Cons)
  qed
qed simp_all

definition ranged :: "jstext \<Rightarrow> bool" where
  "ranged t = (\<forall>c \<in> set t. c < 0x110000)"

fun tok_ok :: "jtok \<Rightarrow> bool" where
  "tok_ok (TStr s) = wf_text s"
| "tok_ok (TNum l) = json_number l"
| "tok_ok _ = True"

fun lexer_ok :: "lexer \<Rightarrow> bool" where
  "lexer_ok (LStr acc) = ranged acc"
| "lexer_ok (LEsc acc) = ranged acc"
| "lexer_ok (LHex acc n v) = (ranged acc \<and> (n, v) \<in> {(4, 0)} \<union> {3} \<times> {..<16} \<union> {2} \<times> {..<256} \<union> {1} \<times> {..<4096})"
| "lexer_ok _ = True"

lemma lex_top_ok: "lex_top c = Some (ts, s) \<Longrightarrow> list_all tok_ok ts \<and> lexer_ok s"
  by (auto simp: lex_top_def ranged_def split: if_splits)

lemma hex_value_less: "hex_value c = Some h \<Longrightarrow> h < 16"
  by (auto simp: hex_value_def digit_def split: if_splits)

lemma lex_step_ok:
  assumes "lexer_ok s" "c < 0x110000" "lex_step s c = Some (ts, s')"
  shows "list_all tok_ok ts \<and> lexer_ok s'"
proof (cases s)
  case (LHex acc n v)
  then obtain h where "hex_value c = Some h" "ts = []"
    "s' = (if n = 1 then LStr ((v * 16 + h) # acc) else LHex acc (n - 1) (v * 16 + h))"
    using assms(3) by (auto split: option.splits)
  moreover from this have "h < 16" by (simp add: hex_value_less)
  ultimately show ?thesis using assms(1) LHex by (auto simp: ranged_def)
next
  case (LEsc acc)
  then show ?thesis using assms by (auto simp: ranged_def unescape_def split: if_splits)
next
  case (LStr acc)
  then show ?thesis using assms join_pairs_wf [of "rev acc"] by (auto simp: ranged_def split: if_splits)
qed (use assms lex_top_ok in \<open>auto split: if_splits\<close>)

lemma lex_end_ok: "lex_end s = Some ts \<Longrightarrow> list_all tok_ok ts"
  by (cases s) (auto split: if_splits)

lemma lex_run_ok: "lexer_ok s \<Longrightarrow> ranged t \<Longrightarrow> lex_run s t = Some ts \<Longrightarrow> list_all tok_ok ts"
proof (induction t arbitrary: s ts)
  case (Cons c t)
  then obtain us s' vs where "lex_step s c = Some (us, s')" "lex_run s' t = Some vs" "ts = us @ vs"
    using Cons.prems(3) by (auto simp: lex_run.simps split: option.splits)
  with Cons lex_step_ok [of s c us s'] show ?case by (auto simp: ranged_def)
qed (simp add: lex_end_ok)

fun frame_ok :: "frame \<Rightarrow> bool" where
  "frame_ok (FArr vs) = (\<forall>v \<in> set vs. wf_json v)"
| "frame_ok (FObj ms) = (\<forall>(k, v) \<in> set ms. wf_text k \<and> wf_json v)"
| "frame_ok (FKey ms k) = (wf_text k \<and> (\<forall>(k', v) \<in> set ms. wf_text k' \<and> wf_json v))"

definition state_ok :: "pmode \<times> frame list \<Rightarrow> bool" where
  "state_ok s = ((case fst s of GotVal v \<Rightarrow> wf_json v | _ \<Rightarrow> True) \<and> (\<forall>f \<in> set (snd s). frame_ok f))"

lemma start_value_ok:
  "start_value t st = Some s \<Longrightarrow> tok_ok t \<Longrightarrow> \<forall>f \<in> set st. frame_ok f \<Longrightarrow> state_ok s"
  by (cases t) (auto simp: start_value_def state_ok_def word_value_def)

lemma parse_step_ok:
  assumes ok: "state_ok s" "tok_ok t" and step: "parse_step s t = Some s'"
  shows "state_ok s'"
proof -
  obtain m st where s: "s = (m, st)" by fastforce
  have st: "\<forall>f \<in> set st. frame_ok f" using ok(1) s by (simp add: state_ok_def)
  show ?thesis
  proof (cases m)
    case WantVal
    then show ?thesis using step s start_value_ok ok(2) st by simp
  next
    case WantValOrClose
    show ?thesis
    proof (cases "t = TRBrack \<and> (\<exists>vs st'. st = FArr vs # st')")
      case True
      then show ?thesis using step s st WantValOrClose by (auto simp: state_ok_def)
    next
      case False
      then have "start_value t st = Some s'"
        using step s WantValOrClose by (auto split: jtok.splits list.splits frame.splits)
      then show ?thesis using start_value_ok ok(2) st by blast
    qed
  next
    case (GotVal v)
    have v: "wf_json v" using ok(1) s GotVal by (simp add: state_ok_def)
    show ?thesis using step ok(2) st v unfolding s GotVal
      by (cases t; cases st; cases "hd st") (auto simp: state_ok_def)
  next
    case WantKeyOrClose
    show ?thesis using step ok(2) st unfolding s WantKeyOrClose
      by (cases t; cases st; cases "hd st") (auto simp: state_ok_def)
  next
    case WantKey
    show ?thesis using step ok(2) st unfolding s WantKey
      by (cases t; cases st; cases "hd st") (auto simp: state_ok_def)
  next
    case WantColon
    then show ?thesis using step s st by (auto simp: state_ok_def split: if_splits)
  qed
qed

lemma parse_run_ok: "state_ok s \<Longrightarrow> list_all tok_ok ts \<Longrightarrow> parse_run s ts = Some v \<Longrightarrow> wf_json v"
proof (induction s ts arbitrary: v rule: parse_run.induct)
  case (3 s t ts)
  then show ?case using parse_step_ok [of s t] by (auto split: option.splits)
qed (auto simp: state_ok_def)

theorem parsed_wf: "ranged t \<Longrightarrow> json_parse_text t = Some v \<Longrightarrow> wf_json v"
  using lex_run_ok [of LTop t] parse_run_ok [of "(WantVal, [])" _ v]
  by (auto simp: json_parse_text_def state_ok_def Option.bind_eq_Some_conv)

definition plain :: "jstext \<Rightarrow> bool" where
  "plain t = (\<forall>c \<in> set t. c < 0x110000 \<and> \<not> surrogate c)"

lemma plain_simps [simp]:
  "plain []" "plain (c # t) \<longleftrightarrow> c < 0x110000 \<and> \<not> surrogate c \<and> plain t" "plain (t @ u) \<longleftrightarrow> plain t \<and> plain u"
  by (auto simp: plain_def)

lemma plain_small: "\<forall>c \<in> set t. c < 128 \<Longrightarrow> plain t"
  by (auto simp: plain_def high_surrogate_def low_surrogate_def)

lemma escape_plain:
  assumes "c < 0x110000"
  shows "plain (json_escape c)"
proof (cases "c < 32 \<or> surrogate c")
  case True
  then have "c < 0x10000" by (auto simp: high_surrogate_def low_surrogate_def)
  then have "c div 4096 < 16" by simp
  then have "plain (hex4 c)" by (intro plain_small) (auto simp: hex4_def hex_lower_def)
  then show ?thesis using True assms by (simp add: json_escape_def high_surrogate_def low_surrogate_def)
qed (use assms in \<open>simp add: json_escape_def, simp add: high_surrogate_def low_surrogate_def\<close>)

lemma wf_ranged: "wf_text t \<Longrightarrow> c \<in> set t \<Longrightarrow> c < 0x110000"
  by (induction t rule: wf_text.induct) auto

lemma quote_plain: "wf_text t \<Longrightarrow> plain (json_quote t)"
proof -
  assume "wf_text t"
  then have "\<forall>c \<in> set t. plain (json_escape c)" using wf_ranged escape_plain by blast
  then have "plain (concat (map json_escape t))" by (induction t) simp_all
  then show ?thesis by (simp add: json_quote_def high_surrogate_def low_surrogate_def)
qed

lemma commas_plain: "\<forall>t \<in> set ts. plain t \<Longrightarrow> plain (commas ts)"
  by (induction ts rule: commas.induct) (simp_all add: high_surrogate_def low_surrogate_def)

lemma stringify_plain: "wf_json v \<Longrightarrow> plain (json_stringify v)"
proof (induction v)
  case (VNum l)
  then show ?case using number_chars [of l] by (intro plain_small) (auto simp: number_char_def digit_def)
next
  case (VArr vs)
  then show ?case using commas_plain [of "map json_stringify vs"]
    by (simp add: high_surrogate_def low_surrogate_def)
next
  case (VObj ms)
  then have "\<forall>m \<in> set ms. plain (json_quote (fst m) @ [58] @ json_stringify (snd m))"
    using quote_plain by (fastforce simp: high_surrogate_def low_surrogate_def)
  then show ?case using commas_plain [of "map (\<lambda>m. json_quote (fst m) @ [58] @ json_stringify (snd m)) ms"]
    by (simp add: high_surrogate_def low_surrogate_def case_prod_unfold comp_def)
next
  case (VStr s)
  then show ?case by (simp add: quote_plain)
qed (simp_all add: utext_def high_surrogate_def low_surrogate_def)

lemma object_bytes:
  assumes "wf_json (VObj ms)"
  shows "json_parse_text (textDecode (textEncode (json_stringify (VObj ms)))) = Some (VObj ms)"
proof -
  have "\<forall>c \<in> set (json_stringify (VObj ms)). c < 0x110000 \<and> \<not> surrogate c"
    using stringify_plain [OF assms] by (simp add: plain_def del: json_stringify.simps)
  then have "textDecode (textEncode (json_stringify (VObj ms))) = json_stringify (VObj ms)"
    by (rule text_roundtrip) simp_all
  then show ?thesis using json_roundtrip [OF assms] by simp
qed

end
