(* ===== verification/ZodProps.thy ===== *)
theory ZodProps
  imports ZodSchema JsonProps
begin

text \<open>
  Consequences of the zod interface: what parsing an object does to its members, and that parsed values
  stay well formed and are fixed points of their schema.
\<close>

section \<open>Objects\<close>

fun defined_members :: "(jstext \<times> jsv option) list \<Rightarrow> (jstext \<times> jsv) list" where
  "defined_members [] = []"
| "defined_members ((k, Some v) # ms) = (k, v) # defined_members ms"
| "defined_members ((k, None) # ms) = defined_members ms"

lemma strip_keys: "fst ` set (defined_members ms) \<subseteq> fst ` set ms"
  by (induction ms rule: defined_members.induct) auto

lemma strip_distinct: "distinct (map fst ms) \<Longrightarrow> distinct (map fst (defined_members ms))"
proof (induction ms rule: defined_members.induct)
  case (2 k v ms)
  then show ?case using strip_keys [of ms] by auto
qed simp_all

lemma map_of_strip: "distinct (map fst ms) \<Longrightarrow> map_of (defined_members ms) k = Option.bind (map_of ms k) id"
proof (induction ms rule: defined_members.induct)
  case (3 l ms)
  then have "l \<notin> fst ` set (defined_members ms)" using strip_keys [of ms] by auto
  then have "map_of (defined_members ms) l = None" "map_of ms l = None" using 3 by (simp_all add: map_of_eq_None_iff)
  with 3 show ?case by simp
qed simp_all

lemma member_strip:
  "distinct (map fst ms) \<Longrightarrow> member k (defined_members ms) = Option.bind (map_of ms k) id"
  by (simp add: member_def map_of_rev_distinct strip_distinct map_of_strip)

lemma obj_fields_kept:
  "\<forall>f \<in> set fs. z (snd f) (member (fst f) ms) = Some (member (fst f) ms) \<Longrightarrow>
   obj_fields z fs ms = Some (defined_members (map (\<lambda>f. (fst f, member (fst f) ms)) fs))"
  by (induction fs) (auto split: option.split)

lemma obj_fields_strip:
  "obj_fields z fs ms = Some us \<Longrightarrow>
   \<exists>vs. us = defined_members vs \<and> map fst vs = map fst fs \<and> list_all2 (\<lambda>f v. z (snd f) (member (fst f) ms) = Some (snd v)) fs vs"
proof (induction fs arbitrary: us)
  case Nil
  then show ?case by simp
next
  case (Cons f fs)
  obtain k s where f: "f = (k, s)" by fastforce
  from Cons.prems f obtain x where x: "z s (member k ms) = Some x" by (auto split: option.splits)
  then obtain us' where us': "obj_fields z fs ms = Some us'" "us = defined_members [(k, x)] @ us'"
    using Cons.prems f by (cases x) auto
  then obtain vs where "us' = defined_members vs" "map fst vs = map fst fs"
    "list_all2 (\<lambda>f v. z (snd f) (member (fst f) ms) = Some (snd v)) fs vs"
    using Cons.IH by blast
  then show ?case using f x us' by (intro exI [of _ "(k, x) # vs"]) (cases x; simp)
qed

fun schema_wf :: "zschema \<Rightarrow> bool" where
  "schema_wf (ZOpt s) = schema_wf s"
| "schema_wf (ZObj fs) = (distinct (map fst fs) \<and> (\<forall>(k, s) \<in> set fs. wf_text k \<and> schema_wf s))"
| "schema_wf (ZDefault d s) = (wf_json d \<and> schema_wf s)"
| "schema_wf (ZDisc k ss) = (\<forall>s \<in> set ss. schema_wf s)"
| "schema_wf (ZArr s) = schema_wf s"
| "schema_wf _ = True"

lemma member_mem: "member k ms = Some v \<Longrightarrow> (k, v) \<in> set ms"
  by (auto simp: member_def dest: map_of_SomeD)

lemma obj_fields_member:
  assumes "obj_fields z fs ms = Some us" "distinct (map fst fs)"
  shows "(k, s) \<in> set fs \<Longrightarrow> z s (member k ms) = Some (member k us)" "k \<notin> fst ` set fs \<Longrightarrow> member k us = None"
proof -
  obtain vs where vs: "us = defined_members vs" "map fst vs = map fst fs"
    "list_all2 (\<lambda>f v. z (snd f) (member (fst f) ms) = Some (snd v)) fs vs"
    using obj_fields_strip [OF assms(1)] by blast
  then have d: "distinct (map fst vs)" using assms(2) by simp
  show "k \<notin> fst ` set fs \<Longrightarrow> member k us = None"
    using member_strip [OF d, of k] vs(1,2) by (metis list.set_map map_of_eq_None_iff bind.bind_lzero)
  assume "(k, s) \<in> set fs"
  then obtain i where i: "i < length fs" "fs ! i = (k, s)" by (auto simp: in_set_conv_nth)
  moreover have l: "length vs = length fs" using vs(3) by (simp add: list_all2_lengthD)
  ultimately have "fst (vs ! i) = k" using vs(2) by (metis fst_conv nth_map)
  moreover have "z s (member k ms) = Some (snd (vs ! i))" using list_all2_nthD [OF vs(3) i(1)] i(2) by simp
  moreover have "map_of vs (fst (vs ! i)) = Some (snd (vs ! i))"
    using d l i(1) by (simp add: map_of_eq_Some_iff)
  ultimately show "z s (member k ms) = Some (member k us)" using member_strip [OF d, of k] vs(1) by simp
qed

lemma zod_wf:
  assumes "zod z"
  shows "schema_wf s \<Longrightarrow> pred_option wf_json x \<Longrightarrow> z s x = Some (Some y) \<Longrightarrow> wf_json y"
proof (induction s arbitrary: x y)
  case (ZObj fs)
  then obtain ms us where u: "x = Some (VObj ms)" "obj_fields z fs ms = Some us" "y = VObj us"
    by (auto simp: zod.z_obj [OF assms] split: option.splits jsv.splits)
  have keep: "wf_text k \<and> wf_json v" if "(k, v) \<in> set us" for k v
  proof -
    have "\<exists>f \<in> set fs. fst f = k \<and> z (snd f) (member k ms) = Some (Some v)"
      using u(2) that by (induction fs arbitrary: us) (auto split: option.splits)
    then obtain s where "(k, s) \<in> set fs" "z s (member k ms) = Some (Some v)" by force
    moreover have "pred_option wf_json (member k ms)"
      using ZObj.prems(2) u(1) member_mem by (cases "member k ms") fastforce+
    ultimately show ?thesis using ZObj.IH [of "(k, s)" s] ZObj.prems(1) by (fastforce simp: snds.simps)
  qed
  then show ?case using u(3) by auto
next
  case (ZDisc k ss)
  from ZDisc.prems(3) obtain ms s where "disc_branch k ss ms = Some s" "z s x = Some (Some y)"
    by (auto simp: zod.z_disc [OF assms] split: option.splits jsv.splits)
  moreover from this have "s \<in> set ss" by (simp add: disc_branch_mem)
  ultimately show ?case using ZDisc.IH ZDisc.prems(1,2) by simp
next
  case (ZArr s)
  have item: "wf_json u" if "z s (Some v) = Some (Some u)" "wf_json v" for u v
    using ZArr.IH [of "Some v" u] ZArr.prems(1) that by simp
  have "\<forall>u \<in> set us. wf_json u" if "arr_items (z s) vs = Some us" "\<forall>v \<in> set vs. wf_json v" for vs us
    using that by (induction vs arbitrary: us) (auto split: option.splits dest: item)
  then show ?case using ZArr.prems by (auto simp: zod.z_arr [OF assms] split: option.splits jsv.splits)
next
  case (ZLitNum n)
  then show ?case using zod.z_number_only(3) [OF assms, of n x] by auto
next
  case ZNat
  then show ?case using zod.z_number_only(2) [OF assms, of x] by auto
next
  case ZNonneg
  then show ?case using zod.z_number_only(4) [OF assms, of x] by auto
next
  case ZUnit
  then show ?case using zod.z_number_only(5) [OF assms, of x] by auto
next
  case ZNum
  then show ?case using zod.z_number_only(1) [OF assms, of x] by auto
qed (auto simp: zod.z_scalar [OF assms] split: option.splits jsv.splits if_splits)

section \<open>Parsed values are fixed points\<close>

fun schema_good :: "(zschema \<Rightarrow> jsv option \<Rightarrow> jsv option option) \<Rightarrow> zschema \<Rightarrow> bool" where
  "schema_good z (ZOpt s) = schema_good z s"
| "schema_good z (ZObj fs) = (distinct (map fst fs) \<and> (\<forall>(k, s) \<in> set fs. schema_good z s))"
| "schema_good z (ZDefault d s) = (schema_good z s \<and> z s (Some d) = Some (Some d))"
| "schema_good z (ZDisc k ss) = (\<forall>s \<in> set ss. schema_good z s)"
| "schema_good z (ZArr s) = schema_good z s"
| "schema_good z _ = True"

lemma zod_some:
  assumes "zod z"
  shows "z s (Some v) = Some y \<Longrightarrow> y \<noteq> None"
proof (induction s arbitrary: v y)
  case (ZDisc k ss)
  then obtain ms s where "disc_branch k ss ms = Some s" "z s (Some v) = Some y"
    by (auto simp: zod.z_disc [OF assms] split: option.splits jsv.splits)
  then show ?case using ZDisc.IH disc_branch_mem by blast
next
  case (ZLitNum n)
  then show ?case using zod.z_number_only(3) [OF assms, of n "Some v"] by auto
next
  case ZNat
  then show ?case using zod.z_number_only(2) [OF assms, of "Some v"] by auto
next
  case ZNonneg
  then show ?case using zod.z_number_only(4) [OF assms, of "Some v"] by auto
next
  case ZUnit
  then show ?case using zod.z_number_only(5) [OF assms, of "Some v"] by auto
next
  case ZNum
  then show ?case using zod.z_number_only(1) [OF assms, of "Some v"] by auto
qed (auto simp: zod.z_scalar [OF assms] zod.z_arr [OF assms] zod.z_obj [OF assms] split: option.splits jsv.splits if_splits)

lemma obj_fields_idem:
  assumes "obj_fields z fs ms = Some us" "distinct (map fst fs)"
    and "\<And>k s x y. (k, s) \<in> set fs \<Longrightarrow> z s x = Some y \<Longrightarrow> z s y = Some y"
  shows "obj_fields z fs us = Some us"
proof -
  obtain vs where vs: "us = defined_members vs" "map fst vs = map fst fs"
    using obj_fields_strip [OF assms(1)] by blast
  have d: "distinct (map fst vs)" using vs(2) assms(2) by simp
  have kept: "\<forall>f \<in> set fs. z (snd f) (member (fst f) us) = Some (member (fst f) us)"
    using obj_fields_member(1) [OF assms(1,2)] assms(3) by fastforce
  have "map (\<lambda>f. (fst f, member (fst f) us)) fs = map (\<lambda>k. (k, member k us)) (map fst vs)"
    by (simp add: vs(2))
  also have "\<dots> = vs"
    using member_strip [OF d] d unfolding vs(1) by (auto intro!: map_idI)
  finally show ?thesis using obj_fields_kept [OF kept] vs(1) by simp
qed

lemma arr_items_idem:
  "arr_items p vs = Some us \<Longrightarrow> (\<And>v u. p (Some v) = Some (Some u) \<Longrightarrow> p (Some u) = Some (Some u)) \<Longrightarrow> arr_items p us = Some us"
  by (induction vs arbitrary: us) (auto split: option.splits)

lemma zod_idem:
  assumes "zod z"
  shows "schema_good z s \<Longrightarrow> z s x = Some y \<Longrightarrow> z s y = Some y"
proof (induction s arbitrary: x y)
  case (ZObj fs)
  then obtain ms us where u: "obj_fields z fs ms = Some us" "y = Some (VObj us)"
    by (auto simp: zod.z_obj [OF assms] split: option.splits jsv.splits)
  have "obj_fields z fs us = Some us"
  proof (rule obj_fields_idem [OF u(1)])
    show "distinct (map fst fs)" using ZObj.prems(1) by simp
    show "z s y = Some y" if "(k, s) \<in> set fs" "z s x = Some y" for k s x y
      using ZObj.IH [of "(k, s)" s x y] ZObj.prems(1) that by (auto simp: snds.simps)
  qed
  then show ?case by (simp add: u(2) zod.z_obj [OF assms])
next
  case (ZDisc k ss)
  then obtain ms s where s: "x = Some (VObj ms)" "disc_branch k ss ms = Some s" "z s x = Some y"
    by (auto simp: zod.z_disc [OF assms] split: option.splits jsv.splits)
  then obtain t where t: "member k ms = Some (VStr t)" "List.find (\<lambda>s. disc_literal k s = Some t) ss = Some s"
    by (auto simp: disc_branch_def split: option.splits jsv.splits)
  then have "disc_literal k s = Some t" by (auto dest: find_SomeD)
  then obtain fs where fs: "s = ZObj fs" "map_of fs k = Some (ZLitStr t)"
    by (cases s) (auto split: option.splits zschema.splits)
  have good: "schema_good z s" using ZDisc.prems(1) disc_branch_mem [OF s(2)] by simp
  obtain us where u: "obj_fields z fs ms = Some us" "y = Some (VObj us)"
    using s(1,3) fs(1) by (auto simp: zod.z_obj [OF assms])
  have "z (ZLitStr t) (member k ms) = Some (member k us)"
    using obj_fields_member(1) [OF u(1)] good fs by (auto dest: map_of_SomeD)
  then have "member k us = Some (VStr t)" using t(1) by (simp add: zod.z_lit_str [OF assms])
  then have "disc_branch k ss us = Some s" using t(2) by (simp add: disc_branch_def)
  moreover have "z s y = Some y" using ZDisc.IH [OF disc_branch_mem [OF s(2)] good s(3)] .
  ultimately show ?case using u(2) by (simp add: zod.z_disc [OF assms])
next
  case (ZArr s)
  then obtain vs us where "arr_items (z s) vs = Some us" "y = Some (VArr us)"
    by (auto simp: zod.z_arr [OF assms] split: option.splits jsv.splits)
  moreover from this have "arr_items (z s) us = Some us"
    using arr_items_idem [of "z s" vs us] ZArr.IH ZArr.prems(1) by simp
  ultimately show ?case by (simp add: zod.z_arr [OF assms])
next
  case (ZDefault d s)
  show ?case
  proof (cases x)
    case None
    then show ?thesis using ZDefault.prems by (auto simp: zod.z_default [OF assms])
  next
    case (Some v)
    then have "z s (Some v) = Some y" using ZDefault.prems(2) by (simp add: zod.z_default [OF assms])
    moreover from this have "y \<noteq> None" using zod_some [OF assms] by blast
    ultimately show ?thesis using ZDefault by (auto simp: zod.z_default [OF assms])
  qed
next
  case (ZLitNum n)
  then show ?case using zod.z_number_only(3) [OF assms, of n x] by auto
next
  case ZNat
  then show ?case using zod.z_number_only(2) [OF assms, of x] by auto
next
  case ZNonneg
  then show ?case using zod.z_number_only(4) [OF assms, of x] by auto
next
  case ZUnit
  then show ?case using zod.z_number_only(5) [OF assms, of x] by auto
next
  case ZNum
  then show ?case using zod.z_number_only(1) [OF assms, of x] by auto
qed (auto simp: zod.z_scalar [OF assms] split: option.splits jsv.splits if_splits)

end
