(* ===== verification/ShareProps.thy ===== *)
theory ShareProps
  imports ShareCodec ZodProps
begin

text \<open>
  Lemmas about the share token codec: base64url, extraction of the token from pasted text, and what the
  wire schemas make of an encoded payload and of any json value.
\<close>

section \<open>Base64url\<close>

definition url_char :: "nat \<Rightarrow> nat" where
  "url_char c = (if c = 43 then 45 else if c = 47 then 95 else c)"

definition url_token :: "jstext \<Rightarrow> bool" where
  "url_token t = (\<forall>c \<in> set t. (48 \<le> c \<and> c \<le> 57) \<or> (65 \<le> c \<and> c \<le> 90) \<or> (97 \<le> c \<and> c \<le> 122) \<or> c = 45 \<or> c = 95)"

lemma dropWhile_end:
  "\<forall>c \<in> set xs. \<not> P c \<Longrightarrow> \<forall>c \<in> set ys. P c \<Longrightarrow> rev (dropWhile P (rev (xs @ ys))) = xs"
  by (cases xs rule: rev_cases) (auto simp: dropWhile_append)

lemma b64_char_url:
  "n < 64 \<Longrightarrow> (let c = url_char (b64_char n) in
     c \<noteq> 61 \<and> (if c = 45 then 43 else if c = 95 then 47 else c) = b64_char n \<and> url_token [c])"
  by (simp add: url_char_def b64_char_def url_token_def Let_def; linarith)

lemma base64UrlEncode_core:
  assumes "\<forall>b \<in> set bs. b < 256"
  shows "base64UrlEncode bs = map (url_char \<circ> b64_char) (b64_sextets bs)"
proof -
  have pad: "map url_char (b64_padding n) = b64_padding n" "\<forall>c \<in> set (b64_padding n). c = 61" for n
    by (simp_all add: b64_padding_def url_char_def)
  have "\<forall>c \<in> set (map (url_char \<circ> b64_char) (b64_sextets bs)). c \<noteq> 61"
    using b64_sextets_bound [OF assms] b64_char_url by (auto simp: Let_def)
  then show ?thesis
    unfolding base64UrlEncode_def btoa_def url_char_def [symmetric, abs_def]
    using dropWhile_end [OF _ pad(2)] pad(1) by simp
qed

lemma base64UrlEncode_token: "\<forall>b \<in> set bs. b < 256 \<Longrightarrow> url_token (base64UrlEncode bs)"
  using b64_sextets_bound [of bs] b64_char_url
  by (auto simp: base64UrlEncode_core url_token_def Let_def)

lemma base64Url_roundtrip:
  assumes "\<forall>b \<in> set bs. b < 256"
  shows "base64UrlDecode (base64UrlEncode bs) = Some bs"
proof -
  let ?ns = "b64_sextets bs"
  have unmap: "map (\<lambda>c. if c = 45 then 43 else if c = 95 then 47 else c) (map (url_char \<circ> b64_char) ?ns) = map b64_char ?ns"
    using b64_sextets_bound [OF assms] b64_char_url unfolding Let_def o_def by (auto split del: if_split)
  have l: "length ?ns mod 4 \<noteq> 1" by (rule b64_sextets_length)
  then have "length ?ns mod 4 \<in> {0, 2, 3}" by auto
  then have pad: "(if length ?ns mod 4 = 0 then [] else replicate (4 - length ?ns mod 4) 61) = b64_padding (length ?ns)"
    by (auto simp: b64_padding_def numeral_2_eq_2)
  show ?thesis
    using atob_core [OF b64_sextets_bound [OF assms] l]
    unfolding base64UrlDecode_def base64UrlEncode_core [OF assms] unmap Let_def length_map pad
    by (simp add: b64_bytes_sextets [OF assms])
qed

lemma base64UrlEncode_Nil: "\<forall>b \<in> set bs. b < 256 \<Longrightarrow> base64UrlEncode bs = [] \<longleftrightarrow> bs = []"
  by (cases bs rule: b64_sextets.cases) (simp_all add: base64UrlEncode_core)

section \<open>Extraction\<close>

lemma token_plain: "url_token t \<Longrightarrow> c \<in> set t \<Longrightarrow> \<not> unicode_space c \<and> c \<noteq> 35 \<and> c \<noteq> 38 \<and> c \<noteq> 47"
  by (auto simp: url_token_def unicode_space_def)

lemma index_of_None: "pat \<noteq> [] \<Longrightarrow> hd pat \<notin> set t \<Longrightarrow> index_of pat t = None"
proof (induction t)
  case (Cons c t)
  then show ?case by (cases pat) auto
qed simp

lemma index_of_Some: "pat \<noteq> [] \<Longrightarrow> hd pat \<notin> set u \<Longrightarrow> index_of pat (u @ pat @ r) = Some (length u)"
proof (induction u)
  case Nil
  then show ?case by (cases pat) simp_all
next
  case (Cons c u)
  then show ?case by (cases pat) auto
qed

lemma trim_mid:
  assumes "x \<noteq> []" "\<not> unicode_space (hd x)" "\<not> unicode_space (last x)"
  shows "trim_text (u @ x @ r) = dropWhile unicode_space u @ x @ rev (dropWhile unicode_space (rev r))"
proof -
  have f: "dropWhile unicode_space (u @ x @ r) = dropWhile unicode_space u @ x @ r" for u
  proof (induction u)
    case Nil
    then show ?case using assms(1,2) by (cases x) simp_all
  qed simp
  have b: "dropWhile unicode_space (rev r @ rev x @ w) = dropWhile unicode_space (rev r) @ rev x @ w" for w r
  proof (induction r rule: rev_induct)
    case Nil
    then show ?case using assms(1,3) by (cases x rule: rev_cases) simp_all
  qed simp
  show ?thesis by (simp add: trim_text_def f b)
qed

lemma cut_token: "url_token t \<Longrightarrow> r = [] \<or> hd r = 38 \<Longrightarrow> cut_at_amp (t @ r) = t"
  using index_of_None [of "[38]" t] index_of_Some [of "[38]" t "tl r"] token_plain [of t 38]
  by (cases r; cases "38 \<in> set t") (simp_all add: cut_at_amp_def)

lemma extract_bare:
  assumes "url_token t" "\<forall>c \<in> set u. unicode_space c" "\<forall>c \<in> set r. unicode_space c" "t \<noteq> []"
  shows "extractShareToken (u @ t @ r) = t"
proof -
  have "trim_text (u @ t @ r) = t"
    using trim_mid [of t u r] token_plain [OF assms(1)] assms(2-4) by (simp add: dropWhile_eq_Nil_conv [THEN iffD2])
  moreover have "index_of (utext ''#share/'') t = None"
    using index_of_None [of "utext ''#share/''" t] token_plain [OF assms(1)] by (auto simp: utext_def)
  moreover have "take 6 t \<noteq> utext ''share/''"
  proof
    assume "take 6 t = utext ''share/''"
    then have "47 \<in> set (take 6 t)" by (simp add: utext_def)
    then show False using token_plain [OF assms(1), of 47] by (auto dest: in_set_takeD)
  qed
  ultimately show ?thesis by (simp add: extractShareToken_def)
qed

lemma trimmed_rest:
  "r = [] \<or> hd r = 38 \<Longrightarrow> (let r' = rev (dropWhile unicode_space (rev r)) in r' = [] \<or> hd r' = 38)"
  by (cases r) (auto simp: Let_def dropWhile_append unicode_space_def)

lemma extract_fragment:
  assumes "url_token t" "t \<noteq> []" "35 \<notin> set u" "r = [] \<or> hd r = 38"
  shows "extractShareToken (u @ utext ''#share/'' @ t @ r) = t"
proof -
  let ?u = "dropWhile unicode_space u" and ?r = "rev (dropWhile unicode_space (rev r))"
  have raw: "trim_text (u @ utext ''#share/'' @ t @ r) = ?u @ utext ''#share/'' @ t @ ?r"
    using trim_mid [of "utext ''#share/'' @ t" u r] token_plain [OF assms(1), of "last t"] assms(2)
    by (simp add: utext_def unicode_space_def)
  have "35 \<notin> set ?u" using assms(3) by (meson set_dropWhileD)
  then have "index_of (utext ''#share/'') (?u @ utext ''#share/'' @ t @ ?r) = Some (length ?u)"
    using index_of_Some [of "utext ''#share/''" ?u "t @ ?r"] by (simp add: utext_def)
  moreover have "drop (length ?u + 7) (?u @ utext ''#share/'' @ t @ ?r) = t @ ?r" by (simp add: utext_def)
  moreover have "cut_at_amp (t @ ?r) = t"
    using cut_token [OF assms(1)] trimmed_rest [OF assms(4)] by (simp add: Let_def)
  ultimately show ?thesis by (simp add: extractShareToken_def raw)
qed

lemma extract_prefix:
  assumes "url_token t" "t \<noteq> []" "35 \<notin> set r" "r = [] \<or> hd r = 38"
  shows "extractShareToken (utext ''share/'' @ t @ r) = t"
proof -
  let ?r = "rev (dropWhile unicode_space (rev r))"
  have raw: "trim_text (utext ''share/'' @ t @ r) = utext ''share/'' @ t @ ?r"
    using trim_mid [of "utext ''share/'' @ t" "[]" r] token_plain [OF assms(1), of "last t"] assms(2)
    by (simp add: utext_def unicode_space_def)
  have "35 \<notin> set ?r" using assms(3) set_dropWhileD by fastforce
  then have "35 \<notin> set (utext ''share/'' @ t @ ?r)" using token_plain [OF assms(1), of 35] by (auto simp: utext_def)
  then have "index_of (utext ''#share/'') (utext ''share/'' @ t @ ?r) = None"
    using index_of_None [of "utext ''#share/''"] by (simp add: utext_def)
  moreover have "cut_at_amp (t @ ?r) = t"
    using cut_token [OF assms(1)] trimmed_rest [OF assms(4)] by (simp add: Let_def)
  ultimately show ?thesis by (simp add: extractShareToken_def raw) (simp add: utext_def)
qed

section \<open>Encoded payloads\<close>

text \<open>The required fields are not empty, and every text is the reading of a string.\<close>

fun share_ok :: "share_payload \<Rightarrow> bool" where
  "share_ok (NodeShare n t) = (n \<noteq> [] \<and> wf_text n \<and> pred_option wf_text t)"
| "share_ok (DocShare n d t m) = (n \<noteq> [] \<and> wf_text n \<and> d \<noteq> [] \<and> wf_text d \<and> pred_option wf_text t)"
| "share_ok (EntityShare e) =
     (es_entityKind e \<noteq> [] \<and> es_entityId e \<noteq> [] \<and> wf_text (es_entityKind e) \<and> wf_text (es_entityId e)
      \<and> list_all (pred_option wf_text) [es_nodeId e, es_httpOrigin e, es_parentId e, es_title e, es_artist e, es_album e,
            es_remoteName e, es_contentType e, es_seriesTitle e])"

lemma stripUndefined_defined: "stripUndefined ms = defined_members ms"
  by (induction ms rule: stripUndefined.induct) simp_all

definition wire_of :: "share_payload \<Rightarrow> (jstext \<times> jsv) list" where
  "wire_of p = stripUndefined (toWire p)"

lemma strip_mem: "(k, v) \<in> set (stripUndefined ms) \<Longrightarrow> (k, Some v) \<in> set ms"
  by (induction ms rule: stripUndefined.induct) auto

lemma Some_map_option [simp]: "Some v = map_option f t \<longleftrightarrow> (\<exists>x. t = Some x \<and> v = f x)"
  by (cases t) auto

lemma mode_wf: "wf_text (mode_text m)"
  by (cases m) (simp_all add: mode_text_def utext_def high_surrogate_def)

lemma wire_values_wf:
  assumes "share_ok p" "(k, Some v) \<in> set (toWire p)"
  shows "wf_text k \<and> wf_json v"
proof (cases p)
  case (NodeShare n t)
  then show ?thesis using assms
    by (auto simp: utext_def high_surrogate_def json_number_def json_fraction_def digit_def)
next
  case (DocShare n d t m)
  then show ?thesis using assms
    by (auto simp: utext_def high_surrogate_def json_number_def json_fraction_def digit_def mode_wf)
next
  case (EntityShare e)
  then show ?thesis using assms
    by (auto simp: utext_def high_surrogate_def json_number_def json_fraction_def digit_def)
qed

lemma wire_wf: "share_ok p \<Longrightarrow> wf_json (VObj (wire_of p))"
  using wire_values_wf strip_mem unfolding wire_of_def by fastforce

lemma wire_distinct: "distinct (map fst (toWire p))"
  by (cases p) (simp_all add: utext_def)

lemma wire_member: "member k (wire_of p) = Option.bind (map_of (toWire p) k) id"
  unfolding wire_of_def stripUndefined_defined by (rule member_strip [OF wire_distinct])

lemma version_literal: "literal_is [50] CURRENT_WIRE_VERSION" "literal_short [50]"
  by (simp_all add: literal_short_def literal_is_def literal_parts_def digit_def digits_value_def exponent_value_def CURRENT_WIRE_VERSION_def)

definition branch_of :: "share_payload \<Rightarrow> (jstext \<times> zschema) list" where
  "branch_of p = (case (case p of NodeShare _ _ \<Rightarrow> NodeWireSchema | DocShare _ _ _ _ \<Rightarrow> DocWireSchema
      | EntityShare _ \<Rightarrow> EntityWireSchema) of ZObj fs \<Rightarrow> fs)"

lemma wire_branch:
  "disc_branch (utext ''k'') [NodeWireSchema, DocWireSchema, EntityWireSchema] (wire_of p) = Some (ZObj (branch_of p))"
  by (cases p) (simp_all add: disc_branch_def wire_member branch_of_def NodeWireSchema_def DocWireSchema_def EntityWireSchema_def utext_def)

context zod
begin

lemma z_opt_str: "z (ZOpt ZStr) (map_option VStr t) = Some (map_option VStr t)"
  by (cases t) (simp_all add: z_scalar)

lemma z_opt_mode: "z mode_schema (map_option (\<lambda>m. VStr (mode_text m)) m) = Some (map_option (\<lambda>m. VStr (mode_text m)) m)"
  by (cases m) (simp_all add: mode_schema_def z_scalar mode_text_def split: share_mode.split)

lemma wire_fields:
  "share_ok p \<Longrightarrow> \<forall>f \<in> set (branch_of p). z (snd f) (member (fst f) (wire_of p)) = Some (member (fst f) (wire_of p))"
  by (cases p)
    (simp_all add: wire_member branch_of_def NodeWireSchema_def DocWireSchema_def EntityWireSchema_def
      z_opt_str z_opt_mode z_str1 z_lit_num z_lit_str version_literal utext_def comp_def)

lemma branch_fields: "map (\<lambda>f. (fst f, member (fst f) (wire_of p))) (branch_of p) = toWire p"
  by (cases p) (simp_all add: wire_member branch_of_def NodeWireSchema_def DocWireSchema_def EntityWireSchema_def utext_def)

lemma wire_parsed: "share_ok p \<Longrightarrow> parsed_object z WireSchema (VObj (wire_of p)) = Some (wire_of p)"
  using obj_fields_kept [OF wire_fields] wire_branch [of p]
  by (simp add: parsed_object_def WireSchema_def z_disc z_obj branch_fields stripUndefined_defined [symmetric] wire_of_def [symmetric])

end

lemma from_wire: "fromWire (wire_of p) = p"
proof -
  have s: "str_opt k (wire_of q) = (case Option.bind (map_of (toWire q) (utext k)) id of Some (VStr s) \<Rightarrow> Some s | _ \<Rightarrow> None)" for k q
    by (simp add: str_opt_def wire_member)
  have eta: "(case t of None \<Rightarrow> None | Some x \<Rightarrow> (case_jsv None (\<lambda>_. None) (\<lambda>_. None) Some (\<lambda>_. None) (\<lambda>_. None) \<circ> VStr) x) = t" for t
    by (cases t) simp_all
  show ?thesis
  proof (cases p)
    case (DocShare n d t m)
    then show ?thesis
      by (cases m) (simp_all add: fromWire_def mode_opt_def str_req_def s eta utext_def mode_text_def split: share_mode.split)
  qed (simp_all add: fromWire_def str_req_def s eta utext_def)
qed

lemma payload_parsed: "zod z \<Longrightarrow> share_ok p \<Longrightarrow> payload_of_json z (VObj (wire_of p)) = Some p"
  by (simp add: payload_of_json_def zod.wire_parsed from_wire)

section \<open>Tokens of payloads\<close>

lemma object_text:
  assumes "wf_json (VObj ms)"
  shows "textDecode (textEncode (json_stringify (VObj ms))) = json_stringify (VObj ms)"
    "\<forall>b \<in> set (textEncode (json_stringify (VObj ms))). b < 256"
proof -
  have "plain (json_stringify (VObj ms))" by (rule stringify_plain [OF assms])
  then have r: "\<forall>c \<in> set (json_stringify (VObj ms)). c < 0x110000 \<and> \<not> surrogate c"
    by (simp add: plain_def del: json_stringify.simps)
  show "textDecode (textEncode (json_stringify (VObj ms))) = json_stringify (VObj ms)"
    by (rule text_roundtrip [OF r]) simp_all
  show "\<forall>b \<in> set (textEncode (json_stringify (VObj ms))). b < 256"
    using r by (intro textEncode_bytes) blast
qed

definition object_token :: "(jstext \<times> jsv) list \<Rightarrow> jstext" where
  "object_token ms = base64UrlEncode (textEncode (json_stringify (VObj ms)))"

lemma token_of_payload: "encodeShareToken p = object_token (wire_of p)"
  by (simp add: encodeShareToken_def object_token_def wire_of_def)

lemma object_token_ok: "wf_json (VObj ms) \<Longrightarrow> url_token (object_token ms) \<and> object_token ms \<noteq> []"
  using object_text(2) [of ms] base64UrlEncode_token base64UrlEncode_Nil
  by (auto simp: object_token_def textEncode_def utf8_enc_def)

lemma token_of: "share_ok p \<Longrightarrow> url_token (encodeShareToken p) \<and> encodeShareToken p \<noteq> []"
  unfolding token_of_payload by (rule object_token_ok [OF wire_wf])

lemma decode_object:
  assumes "wf_json (VObj ms)" "extractShareToken t = object_token ms"
  shows "decodeShareToken z t = payload_of_json z (VObj ms)"
  using object_text [OF assms(1)] object_token_ok [OF assms(1)] json_roundtrip [OF assms(1)]
    base64Url_roundtrip [of "textEncode (json_stringify (VObj ms))"]
  by (simp add: decodeShareToken_def assms(2) Let_def object_token_def del: json_stringify.simps)

lemma decode_extracted:
  "zod z \<Longrightarrow> share_ok p \<Longrightarrow> extractShareToken t = encodeShareToken p \<Longrightarrow> decodeShareToken z t = Some p"
  using decode_object [OF wire_wf] payload_parsed token_of_payload by simp

section \<open>Payloads of tokens\<close>

lemma str_opt_wf: "wf_json (VObj us) \<Longrightarrow> pred_option wf_text (str_opt k us)"
  using member_mem [of "utext k" us] by (fastforce simp: str_opt_def split: option.splits jsv.splits)

lemma str_req_wf: "wf_json (VObj us) \<Longrightarrow> wf_text (str_req k us)"
  using str_opt_wf [of us k] by (cases "str_opt k us") (auto simp: str_req_def)

lemma parsed_objectD:
  assumes "zod z" "parsed_object z (ZObj fs) j = Some us"
  shows "\<exists>ms. j = VObj ms \<and> obj_fields z fs ms = Some us"
  using assms(2) by (auto simp: parsed_object_def zod.z_obj [OF assms(1)] split: option.splits jsv.splits)

lemma required_field:
  assumes "zod z" "parsed_object z (ZObj fs) j = Some us" "distinct (map fst fs)" "(utext k, ZStrMin1) \<in> set fs"
  shows "str_req k us \<noteq> []"
proof -
  obtain ms where "obj_fields z fs ms = Some us" using parsed_objectD [OF assms(1,2)] by blast
  then have "z ZStrMin1 (member (utext k) ms) = Some (member (utext k) us)"
    using obj_fields_member(1) assms(3,4) by blast
  then show ?thesis
    by (cases "member (utext k) us") (auto simp: zod.z_str1 [OF assms(1)] str_req_def str_opt_def split: option.splits jsv.splits if_splits)
qed

lemma parsed_wf_obj:
  "zod z \<Longrightarrow> schema_wf s \<Longrightarrow> wf_json j \<Longrightarrow> parsed_object z s j = Some us \<Longrightarrow> wf_json (VObj us)"
  using zod_wf [of z s "Some j" "VObj us"] by (auto simp: parsed_object_def split: option.splits jsv.splits)

lemma legacy_source_wf: "wf_json (VObj us) \<Longrightarrow> member k us = Some (VObj ms) \<Longrightarrow> wf_json (VObj ms)"
  using member_mem by fastforce

lemmas schema_defs = NodeWireSchema_def DocWireSchema_def EntityWireSchema_def mode_schema_def
  DocLegacyV1Schema_def EntityLegacyV1Schema_def DocBareLegacySchema_def

lemma schemas_wf:
  "schema_wf NodeWireSchema" "schema_wf DocWireSchema" "schema_wf EntityWireSchema" "schema_wf DocLegacyV1Schema"
  "schema_wf EntityLegacyV1Schema" "schema_wf DocBareLegacySchema"
  by (simp_all add: schema_defs utext_def high_surrogate_def)

text \<open>Which of the three current schemas a wire value matched.\<close>

lemma wire_cases:
  assumes "zod z" "parsed_object z WireSchema j = Some us"
  shows "\<exists>s \<in> {NodeWireSchema, DocWireSchema, EntityWireSchema}. parsed_object z s j = Some us"
proof -
  obtain ms s where "j = VObj ms" "disc_branch (utext ''k'') [NodeWireSchema, DocWireSchema, EntityWireSchema] ms = Some s"
    "parsed_object z s j = Some us"
    using assms(2) by (auto simp: parsed_object_def WireSchema_def zod.z_disc [OF assms(1)] split: option.splits jsv.splits)
  then show ?thesis using disc_branch_mem by fastforce
qed

lemma kind_field:
  assumes "zod z" "parsed_object z (ZObj fs) j = Some us" "distinct (map fst fs)" "(utext ''k'', ZLitStr t) \<in> set fs"
  shows "str_opt ''k'' us = Some t"
proof -
  obtain ms where "obj_fields z fs ms = Some us" using parsed_objectD [OF assms(1,2)] by blast
  then have "z (ZLitStr t) (member (utext ''k'') ms) = Some (member (utext ''k'') us)"
    using obj_fields_member(1) assms(3,4) by blast
  then show ?thesis by (cases "member (utext ''k'') us") (auto simp: zod.z_lit_str [OF assms(1)] str_opt_def split: if_splits)
qed

lemma from_wire_ok:
  assumes z: "zod z" and j: "wf_json j" and w: "parsed_object z WireSchema j = Some us"
  shows "share_ok (fromWire us)"
proof -
  obtain s where s: "s \<in> {NodeWireSchema, DocWireSchema, EntityWireSchema}" "parsed_object z s j = Some us"
    using wire_cases [OF z w] by blast
  have wf: "wf_json (VObj us)" using parsed_wf_obj [OF z _ j s(2)] s(1) schemas_wf by blast
  note fields = str_opt_wf [OF wf] str_req_wf [OF wf]
  consider "s = NodeWireSchema" | "s = DocWireSchema" | "s = EntityWireSchema" using s(1) by blast
  then show ?thesis
  proof cases
    case 1
    note p = s(2) [unfolded 1 NodeWireSchema_def]
    have "str_opt ''k'' us = Some (utext ''node'')" "str_req ''n'' us \<noteq> []"
      using kind_field [OF z p] required_field [OF z p] by (simp_all add: utext_def)
    then show ?thesis using fields by (simp add: fromWire_def)
  next
    case 2
    note p = s(2) [unfolded 2 DocWireSchema_def]
    have "str_opt ''k'' us = Some (utext ''doc'')" "str_req ''n'' us \<noteq> []" "str_req ''d'' us \<noteq> []"
      using kind_field [OF z p] required_field [OF z p, of "''n''"] required_field [OF z p, of "''d''"] by (simp_all add: utext_def)
    then show ?thesis using fields by (simp add: fromWire_def utext_def)
  next
    case 3
    note p = s(2) [unfolded 3 EntityWireSchema_def]
    have "str_opt ''k'' us = Some (utext ''entity'')" "str_req ''ek'' us \<noteq> []" "str_req ''i'' us \<noteq> []"
      using kind_field [OF z p] required_field [OF z p, of "''ek''"] required_field [OF z p, of "''i''"] by (simp_all add: utext_def)
    then show ?thesis using fields by (simp add: fromWire_def) (simp add: utext_def)
  qed
qed

lemma entity_legacy_ok:
  assumes "wf_json (VObj us)" "str_req ''k'' us \<noteq> []" "str_req ''i'' us \<noteq> []"
  shows "share_ok (entity_legacy us)"
proof -
  let ?s = "case member (utext ''s'') us of Some (VObj ms) \<Rightarrow> ms | _ \<Rightarrow> []"
  have "wf_json (VObj ?s)"
    using legacy_source_wf [OF assms(1)]
    by (cases "member (utext ''s'') us") (auto split: jsv.split simp del: wf_json.simps(4), simp_all)
  then show ?thesis
    using assms str_opt_wf [OF assms(1)] str_req_wf [OF assms(1)] str_opt_wf [of ?s]
    by (simp add: entity_legacy_def Let_def)
qed

lemma payload_of_json_ok:
  assumes z: "zod z" and j: "wf_json j" and p: "payload_of_json z j = Some p"
  shows "share_ok p"
proof -
  note wf = parsed_wf_obj [OF z _ j] and req = required_field [OF z]
  consider (wire) w where "parsed_object z WireSchema j = Some w" "p = fromWire w"
    | (doc) w where "parsed_object z DocLegacyV1Schema j = Some w"
        "p = DocShare (str_req ''n'' w) (str_req ''d'' w) (str_opt ''t'' w) (mode_opt w)"
    | (entity) w where "parsed_object z EntityLegacyV1Schema j = Some w" "p = entity_legacy w"
    | (bare) w where "parsed_object z DocBareLegacySchema j = Some w"
        "p = DocShare (str_req ''n'' w) (str_req ''d'' w) None None"
    using p unfolding payload_of_json_def by (auto split: option.splits)
  then show ?thesis
  proof cases
    case wire
    then show ?thesis using from_wire_ok [OF z j] by simp
  next
    case doc
    have "str_req ''n'' w \<noteq> []" "str_req ''d'' w \<noteq> []"
      by (rule req [OF doc(1) [unfolded DocLegacyV1Schema_def]]; simp add: utext_def)+
    then show ?thesis using doc(2) wf [OF _ doc(1)] schemas_wf str_opt_wf [of w] str_req_wf [of w] by simp
  next
    case entity
    have "str_req ''k'' w \<noteq> []" "str_req ''i'' w \<noteq> []"
      by (rule req [OF entity(1) [unfolded EntityLegacyV1Schema_def]]; simp add: utext_def)+
    then show ?thesis using entity(2) wf [OF _ entity(1)] schemas_wf entity_legacy_ok by simp
  next
    case bare
    have "str_req ''n'' w \<noteq> []" "str_req ''d'' w \<noteq> []"
      by (rule req [OF bare(1) [unfolded DocBareLegacySchema_def]]; simp add: utext_def)+
    then show ?thesis using bare(2) wf [OF _ bare(1)] schemas_wf str_req_wf [of w] by simp
  qed
qed

end
