(* ===== verification/ShareClaims.thy ===== *)
theory ShareClaims
  imports ShareProps
begin

text \<open>
  What the share token codec promises: every payload survives its token in every form a user may paste it,
  and every token that decodes, legacy ones included, gives a payload that can be encoded again.
\<close>

text \<open>C14: 
  Every payload with its required fields survives sharing: its token, with white space around it, its url
  fragment after any url without a fragment, and the bare \<open>share/\<close> form, each with a trailing
  \<open>&\<close>-joined query, decode to exactly that payload; no title makes it throw or come back different.
\<close>

theorem sc_roundtrip:
  assumes "zod z" "share_ok p" "\<forall>c \<in> set ws \<union> set ws'. unicode_space c" "35 \<notin> set u" "r = [] \<or> hd r = 38"
  shows "decodeShareToken z (ws @ encodeShareToken p @ ws') = Some p
    \<and> decodeShareToken z (u @ shareFragment p @ r) = Some p
    \<and> (35 \<notin> set r \<longrightarrow> decodeShareToken z (utext ''share/'' @ encodeShareToken p @ r) = Some p)"
proof -
  have t: "url_token (encodeShareToken p)" "encodeShareToken p \<noteq> []" using token_of [OF assms(2)] by auto
  have "extractShareToken (ws @ encodeShareToken p @ ws') = encodeShareToken p"
    using extract_bare [OF t(1) _ _ t(2)] assms(3) by simp
  moreover have "extractShareToken (u @ shareFragment p @ r) = encodeShareToken p"
    using extract_fragment [OF t assms(4,5)] by (simp add: shareFragment_def)
  moreover have "35 \<notin> set r \<Longrightarrow> extractShareToken (utext ''share/'' @ encodeShareToken p @ r) = encodeShareToken p"
    using extract_prefix [OF t _ assms(5)] by simp
  ultimately show ?thesis using decode_extracted [OF assms(1,2)] by blast
qed

definition song_link :: share_payload where
  "song_link = DocShare (utext ''node1'') (utext ''doc1'') (Some [0x1F3B5, 0xD800, 34]) (Some KnockMode)"

theorem sc_roundtrip_witness:
  "decodeShareToken zod_ref ([32] @ encodeShareToken song_link @ [10]) = Some song_link
    \<and> decodeShareToken zod_ref (utext ''https://x/'' @ shareFragment song_link @ utext ''&a=1'') = Some song_link
    \<and> decodeShareToken zod_ref (utext ''share/'' @ encodeShareToken song_link @ utext ''&a=1'') = Some song_link"
  using sc_roundtrip [OF zref.zod_axioms, of song_link "[32]" "[10]" "utext ''https://x/''" "utext ''&a=1''"]
  by (simp add: song_link_def utext_def unicode_space_def high_surrogate_def low_surrogate_def)

text \<open>
  Whatever text a user pastes, a token that decodes, of the current or a legacy shape, gives a payload of
  its type: every required id is there and not empty, every text well formed. So it can be shared again, and
  the new token, of the current shape, decodes to the same payload.
\<close>

theorem sc_typed:
  assumes "zod z" "decodeShareToken z t = Some p"
  shows "share_ok p \<and> decodeShareToken z (encodeShareToken p) = Some p"
proof -
  obtain bs j where "json_parse_text (textDecode bs) = Some j" "payload_of_json z j = Some p"
    using assms(2) by (auto simp: decodeShareToken_def Let_def Option.bind_eq_Some_conv split: if_splits option.splits)
  then have ok: "share_ok p"
    using payload_of_json_ok [OF assms(1)] parsed_wf textDecode_range by (metis ranged_def)
  moreover have "extractShareToken (encodeShareToken p) = encodeShareToken p"
    using extract_bare [of "encodeShareToken p" "[]" "[]"] token_of [OF ok] by simp
  ultimately show ?thesis using decode_extracted [OF assms(1) ok] by blast
qed

theorem sc_typed_witness:
  "share_ok song_link \<and> decodeShareToken zod_ref (encodeShareToken song_link) = Some song_link"
proof -
  have "share_ok song_link" by (simp add: song_link_def utext_def high_surrogate_def low_surrogate_def)
  then have "decodeShareToken zod_ref (encodeShareToken song_link) = Some song_link"
    using decode_extracted [OF zref.zod_axioms] extract_bare [of "encodeShareToken song_link" "[]" "[]"] token_of by simp
  then show ?thesis by (rule sc_typed [OF zref.zod_axioms])
qed

text \<open>
  A token of any version but 1 and 2 that names a node and a document, a later version's for instance, is
  not refused: the shape meant for links without a version reads it, and its title, mode and every field the
  later version added are dropped.
\<close>

theorem sc_unknown_version:
  assumes "zod z" "member (utext ''v'') ms = Some (VNum l)" "literal_short l" "\<not> literal_is l 1" "\<not> literal_is l CURRENT_WIRE_VERSION"
    and "wf_json (VObj ms)" "member (utext ''n'') ms = Some (VStr n)" "member (utext ''d'') ms = Some (VStr d)" "n \<noteq> []" "d \<noteq> []"
  shows "decodeShareToken z (object_token ms) = Some (DocShare n d None None)"
proof -
  note laws = zod.z_scalar [OF assms(1)] zod.z_obj [OF assms(1)] zod.z_lit_num [OF assms(1,3)] zod.z_disc [OF assms(1)]
  have wire: "parsed_object z s (VObj ms) = None" if "s \<in> {NodeWireSchema, DocWireSchema, EntityWireSchema}" for s
    using that assms(2,5) by (auto simp: parsed_object_def schema_defs laws)
  have "parsed_object z WireSchema (VObj ms) = None"
    using wire_cases [OF assms(1), of "VObj ms"] wire by (cases "parsed_object z WireSchema (VObj ms)") auto
  moreover have "parsed_object z DocLegacyV1Schema (VObj ms) = None" "parsed_object z EntityLegacyV1Schema (VObj ms) = None"
    using assms(2,4) by (simp_all add: parsed_object_def schema_defs laws)
  moreover have "parsed_object z DocBareLegacySchema (VObj ms) = Some [fld ''n'' (VStr n), fld ''d'' (VStr d)]"
    using assms(7-10) by (simp add: parsed_object_def schema_defs laws)
  ultimately have "payload_of_json z (VObj ms) = Some (DocShare n d None None)"
    by (simp add: payload_of_json_def str_req_def str_opt_def member_def utext_def)
  moreover have "extractShareToken (object_token ms) = object_token ms"
    using extract_bare [of "object_token ms" "[]" "[]"] object_token_ok [OF assms(6)] by simp
  ultimately show ?thesis using decode_object [OF assms(6)] by simp
qed

definition later_link :: "(jstext \<times> jsv) list" where
  "later_link = [fld ''v'' (VNum (utext ''3'')), fld ''k'' (VStr (utext ''doc'')), fld ''n'' (VStr (utext ''node1'')),
     fld ''d'' (VStr (utext ''doc1'')), fld ''t'' (VStr (utext ''title''))]"

theorem sc_unknown_version_witness:
  "decodeShareToken zod_ref (object_token later_link) = Some (DocShare (utext ''node1'') (utext ''doc1'') None None)"
  by (rule sc_unknown_version [OF zref.zod_axioms, where l = "utext ''3''"])
    (simp_all add: later_link_def member_def utext_def literal_is_def literal_parts_def literal_short_def digit_def digits_value_def
      exponent_value_def CURRENT_WIRE_VERSION_def high_surrogate_def json_number_def json_fraction_def)

end
