(* ===== verification/Protocol.thy ===== *)
theory Protocol
  imports ZodSchema
begin

text \<open>
  The peer presence protocol's messages, \<open>lib/haruspex/ts/src/protocol/\<close>: the schemas of
  \<open>messages.ts\<close>, the app-extension registry of \<open>extensions.ts\<close>, and the codec of \<open>codec.ts\<close> with its
  length-delimited framing. A core message is the json object zod answers.
\<close>

section \<open>Schemas\<close>

definition wireVersion :: zschema where
  "wireVersion = ZDefault (VNum (utext ''1'')) ZNat"

definition WireRoleSchema :: zschema where
  "WireRoleSchema = ZEnum [utext ''viewer'', utext ''member'', utext ''admin'', utext ''root'']"

definition WireKnockStatusSchema :: zschema where
  "WireKnockStatusSchema = ZEnum [utext ''pending'', utext ''accepted'', utext ''denied'']"

definition BrowseCapabilitySchema :: zschema where
  "BrowseCapabilitySchema = ZEnum [utext ''public'', utext ''knock'']"

definition CapabilitiesSchema :: zschema where
  "CapabilitiesSchema = ZObj [fld ''browse'' BrowseCapabilitySchema]"

definition WireKnockScopeSchema :: zschema where
  "WireKnockScopeSchema = ZDisc (utext ''kind'')
    [ZObj [fld ''kind'' (ZLitStr (utext ''account'')), fld ''requestedUsername'' (ZOpt ZStr)],
     ZObj [fld ''kind'' (ZLitStr (utext ''browse''))],
     ZObj [fld ''kind'' (ZLitStr (utext ''resource'')), fld ''resourceId'' ZStr, fld ''requestedRole'' (ZOpt WireRoleSchema)]]"

definition GossipDigestPendingKnockSchema :: zschema where
  "GossipDigestPendingKnockSchema = ZObj
    [fld ''knockId'' ZStr, fld ''nodeId'' ZStr, fld ''username'' (ZOpt ZStr), fld ''message'' ZStr,
     fld ''scope'' WireKnockScopeSchema, fld ''knockedAt'' ZStr]"

definition GossipDigestProfileEntrySchema :: zschema where
  "GossipDigestProfileEntrySchema = ZObj
    [fld ''peerNodeId'' ZStr, fld ''profileDocId'' ZStr, fld ''updatedAt'' ZStr]"


definition ProfileRequestSchema :: zschema where
  "ProfileRequestSchema = ZObj
    [fld ''type'' (ZLitStr (utext ''profile-request'')), fld ''v'' wireVersion]"

definition ProfileResponseSchema :: zschema where
  "ProfileResponseSchema = ZObj
    [fld ''type'' (ZLitStr (utext ''profile-response'')), fld ''v'' wireVersion, fld ''username'' ZStr,
     fld ''bio'' ZStr, fld ''avatarDataUrl'' ZStr, fld ''accentColor'' (ZOpt ZNum),
     fld ''profileDocId'' (ZOpt ZStr), fld ''profileUpdatedAt'' (ZOpt ZStr), fld ''isHub'' (ZOpt ZBool)]"

definition FriendRequestSchema :: zschema where
  "FriendRequestSchema = ZObj
    [fld ''type'' (ZLitStr (utext ''friend-request'')), fld ''v'' wireVersion, fld ''fromNodeId'' ZStr,
     fld ''fromUsername'' ZStr, fld ''bio'' (ZOpt ZStr), fld ''avatarDataUrl'' (ZOpt ZStr),
     fld ''accentColor'' (ZOpt ZNum), fld ''isHub'' (ZOpt ZBool)]"

definition FriendAcceptSchema :: zschema where
  "FriendAcceptSchema = ZObj
    [fld ''type'' (ZLitStr (utext ''friend-accept'')), fld ''v'' wireVersion, fld ''fromNodeId'' ZStr,
     fld ''fromUsername'' ZStr, fld ''bio'' (ZOpt ZStr), fld ''avatarDataUrl'' (ZOpt ZStr),
     fld ''accentColor'' (ZOpt ZNum), fld ''isHub'' (ZOpt ZBool)]"

definition FriendAcceptAckSchema :: zschema where
  "FriendAcceptAckSchema = ZObj
    [fld ''type'' (ZLitStr (utext ''friend-accept-ack'')), fld ''v'' wireVersion, fld ''fromNodeId'' ZStr]"

definition FriendRejectSchema :: zschema where
  "FriendRejectSchema = ZObj
    [fld ''type'' (ZLitStr (utext ''friend-reject'')), fld ''v'' wireVersion, fld ''fromNodeId'' ZStr]"

definition HeartbeatSchema :: zschema where
  "HeartbeatSchema = ZObj
    [fld ''type'' (ZLitStr (utext ''heartbeat'')), fld ''v'' wireVersion, fld ''nodeId'' ZStr,
     fld ''username'' ZStr, fld ''appPayload'' (ZOpt ZUnknown)]"

definition OfflineAnnouncementSchema :: zschema where
  "OfflineAnnouncementSchema = ZObj
    [fld ''type'' (ZLitStr (utext ''offline-announcement'')), fld ''v'' wireVersion, fld ''nodeId'' ZStr]"

definition HelloSchema :: zschema where
  "HelloSchema = ZObj
    [fld ''type'' (ZLitStr (utext ''hello'')), fld ''v'' wireVersion, fld ''nodeId'' ZStr,
     fld ''username'' (ZOpt ZStr), fld ''avatarBlobId'' (ZOpt ZStr), fld ''capabilities'' CapabilitiesSchema]"

definition HelloOkSchema :: zschema where
  "HelloOkSchema = ZObj
    [fld ''type'' (ZLitStr (utext ''hello-ok'')), fld ''v'' wireVersion, fld ''nodeId'' ZStr,
     fld ''username'' (ZOpt ZStr), fld ''avatarBlobId'' (ZOpt ZStr), fld ''capabilities'' CapabilitiesSchema]"

definition KnockRequestSchema :: zschema where
  "KnockRequestSchema = ZObj
    [fld ''type'' (ZLitStr (utext ''knock-request'')), fld ''v'' wireVersion, fld ''knockId'' ZStr,
     fld ''nodeId'' ZStr, fld ''username'' (ZOpt ZStr), fld ''message'' ZStr,
     fld ''scope'' WireKnockScopeSchema]"

definition KnockAckSchema :: zschema where
  "KnockAckSchema = ZObj
    [fld ''type'' (ZLitStr (utext ''knock-ack'')), fld ''v'' wireVersion, fld ''knockId'' ZStr,
     fld ''ackerNodeId'' ZStr, fld ''resourceId'' (ZOpt ZStr)]"

definition KnockOutcomeSchema :: zschema where
  "KnockOutcomeSchema = ZObj
    [fld ''type'' (ZLitStr (utext ''knock-outcome'')), fld ''v'' wireVersion, fld ''knockId'' (ZOpt ZStr),
     fld ''status'' WireKnockStatusSchema, fld ''grantedRole'' (ZOpt WireRoleSchema),
     fld ''grantedResourceIds'' (ZDefault (VArr []) (ZArr ZStr)), fld ''byNodeId'' (ZOpt ZStr)]"

definition IdentityUpdateSchema :: zschema where
  "IdentityUpdateSchema = ZObj
    [fld ''type'' (ZLitStr (utext ''identity-update'')), fld ''v'' wireVersion, fld ''nodeId'' ZStr,
     fld ''username'' (ZOpt ZStr), fld ''avatarDataUrl'' (ZOpt ZStr), fld ''bio'' (ZOpt ZStr),
     fld ''accentColor'' (ZOpt ZNum)]"

definition AclChangeSchema :: zschema where
  "AclChangeSchema = ZObj
    [fld ''type'' (ZLitStr (utext ''acl-change'')), fld ''v'' wireVersion, fld ''resourceId'' ZStr,
     fld ''resourceTitle'' (ZOpt ZStr), fld ''targetNodeId'' ZStr, fld ''newRole'' (ZOpt WireRoleSchema),
     fld ''changedBy'' ZStr, fld ''changedByUsername'' ZStr]"

definition GossipDigestSchema :: zschema where
  "GossipDigestSchema = ZObj
    [fld ''type'' (ZLitStr (utext ''gossip-digest'')), fld ''v'' wireVersion,
     fld ''pendingKnocks'' (ZDefault (VArr []) (ZArr GossipDigestPendingKnockSchema)),
     fld ''profiles'' (ZDefault (VArr []) (ZArr GossipDigestProfileEntrySchema)),
     fld ''appPayload'' (ZOpt ZUnknown)]"

definition BlobSeekSchema :: zschema where
  "BlobSeekSchema = ZObj
    [fld ''type'' (ZLitStr (utext ''blob-seek'')), fld ''v'' wireVersion,
     fld ''needed'' (ZDefault (VArr []) (ZArr ZStr))]"

definition BlobOfferSchema :: zschema where
  "BlobOfferSchema = ZObj
    [fld ''type'' (ZLitStr (utext ''blob-offer'')), fld ''v'' wireVersion,
     fld ''available'' (ZDefault (VArr []) (ZArr ZStr))]"

definition ErrorMessageSchema :: zschema where
  "ErrorMessageSchema = ZObj
    [fld ''type'' (ZLitStr (utext ''error'')), fld ''v'' wireVersion, fld ''code'' ZStr,
     fld ''message'' ZStr]"

definition core_schemas :: "zschema list" where
  "core_schemas =
    [ProfileRequestSchema, ProfileResponseSchema, FriendRequestSchema, FriendAcceptSchema, FriendAcceptAckSchema,
     FriendRejectSchema, HeartbeatSchema, OfflineAnnouncementSchema, HelloSchema, HelloOkSchema,
     KnockRequestSchema, KnockAckSchema, KnockOutcomeSchema, IdentityUpdateSchema, AclChangeSchema,
     GossipDigestSchema, BlobSeekSchema, BlobOfferSchema, ErrorMessageSchema]"

definition CoreMessageSchema :: zschema where
  "CoreMessageSchema = ZDisc (utext ''type'') core_schemas"

definition CORE_MESSAGE_TYPES :: "jstext list" where
  "CORE_MESSAGE_TYPES = map utext
    [''profile-request'', ''profile-response'', ''friend-request'', ''friend-accept'', ''friend-accept-ack'',
     ''friend-reject'', ''heartbeat'', ''offline-announcement'', ''hello'', ''hello-ok'', ''knock-request'',
     ''knock-ack'', ''knock-outcome'', ''identity-update'', ''acl-change'', ''gossip-digest'', ''blob-seek'',
     ''blob-offer'', ''error'']"

definition isCoreMessageType :: "jstext \<Rightarrow> bool" where
  "isCoreMessageType t = (t \<in> set CORE_MESSAGE_TYPES)"

section \<open>App extensions\<close>

definition isAppExtensionType :: "jstext \<Rightarrow> bool" where
  "isAppExtensionType t = (58 \<in> set t)"

type_synonym json_object = "(jstext \<times> jsv) list"

record app_extension_message =
  ax_messageType :: jstext
  ax_payload :: json_object

datatype proto_error =
    NotAnObject | MissingType | UnknownType jstext | SchemaMismatch | NotJson | NoSchemaRegistered jstext

type_synonym extension_registry = "jstext \<rightharpoonup> zschema"

definition registerExtension :: "jstext \<Rightarrow> zschema \<Rightarrow> extension_registry \<Rightarrow> extension_registry" where
  "registerExtension t s reg = reg(t \<mapsto> s)"

definition unregisterExtension :: "jstext \<Rightarrow> extension_registry \<Rightarrow> extension_registry" where
  "unregisterExtension t reg = reg(t := None)"

definition isRegistered :: "extension_registry \<Rightarrow> jstext \<Rightarrow> bool" where
  "isRegistered reg t = (reg t \<noteq> None)"

definition parseExtension :: "zod_parser \<Rightarrow> extension_registry \<Rightarrow> app_extension_message \<Rightarrow> proto_error + jsv option" where
  "parseExtension z reg msg =
     (case reg (ax_messageType msg) of
        None \<Rightarrow> Inl (NoSchemaRegistered (ax_messageType msg))
      | Some s \<Rightarrow> (case z s (Some (VObj (ax_payload msg))) of None \<Rightarrow> Inl SchemaMismatch | Some v \<Rightarrow> Inr v))"

section \<open>The codec\<close>

datatype friendz_message = Core json_object | AppExtension app_extension_message

definition type_field :: "json_object \<Rightarrow> jstext option" where
  "type_field obj = (case member (utext ''type'') obj of Some (VStr t) \<Rightarrow> if t = [] then None else Some t | _ \<Rightarrow> None)"

definition friendzMessageType :: "friendz_message \<Rightarrow> jstext option" where
  "friendzMessageType m = (case m of Core obj \<Rightarrow> type_field obj | AppExtension x \<Rightarrow> Some (ax_messageType x))"

definition decodeFriendzMessage :: "zod_parser \<Rightarrow> jsv \<Rightarrow> proto_error + friendz_message" where
  "decodeFriendzMessage z raw =
     (case raw of
        VObj obj \<Rightarrow>
          (case type_field obj of
             None \<Rightarrow> Inl MissingType
           | Some t \<Rightarrow>
               if isAppExtensionType t then Inr (AppExtension \<lparr>ax_messageType = t, ax_payload = obj\<rparr>)
               else if \<not> isCoreMessageType t then Inl (UnknownType t)
               else (case z CoreMessageSchema (Some raw) of
                       Some (Some (VObj msg)) \<Rightarrow> Inr (Core msg)
                     | _ \<Rightarrow> Inl SchemaMismatch))
      | _ \<Rightarrow> Inl NotAnObject)"

definition encodeFriendzMessageToJson :: "friendz_message \<Rightarrow> json_object" where
  "encodeFriendzMessageToJson m = (case m of Core obj \<Rightarrow> obj | AppExtension x \<Rightarrow> ax_payload x)"

definition encodeMessage :: "friendz_message \<Rightarrow> nat list" where
  "encodeMessage m = textEncode (json_stringify (VObj (encodeFriendzMessageToJson m)))"

definition decodeMessage :: "zod_parser \<Rightarrow> nat list \<Rightarrow> proto_error + friendz_message" where
  "decodeMessage z bytes =
     (case json_parse_text (textDecode bytes) of None \<Rightarrow> Inl NotJson | Some raw \<Rightarrow> decodeFriendzMessage z raw)"

section \<open>Framing\<close>

text \<open>A big-endian unsigned 32-bit integer; \<open>setUint32\<close> takes its argument modulo \<open>2 ^ 32\<close>.\<close>

definition put_u32 :: "nat \<Rightarrow> nat list" where
  "put_u32 n = (let m = n mod 2 ^ 32 in [m div 16777216, m div 65536 mod 256, m div 256 mod 256, m mod 256])"

fun get_u32 :: "nat list \<Rightarrow> nat" where
  "get_u32 (a # b # c # d # _) = ((a * 256 + b) * 256 + c) * 256 + d"
| "get_u32 _ = 0"

definition frameMessage :: "friendz_message \<Rightarrow> nat list" where
  "frameMessage m = (let payload = encodeMessage m in put_u32 (length payload) @ payload)"

record frame_reader = fr_buffer :: "nat list"

text \<open>
  The loop of \<open>push\<close>: complete frames are decoded off the front of the buffer. A decoding error leaves
  the loop with the frame still in the buffer.
\<close>

function read_frames :: "(nat list \<Rightarrow> proto_error + friendz_message) \<Rightarrow> nat list \<Rightarrow> friendz_message list \<Rightarrow>
    nat list \<times> (proto_error + friendz_message list)" where
  "read_frames dec buf msgs =
     (if length buf < 4 \<or> length buf < 4 + get_u32 buf then (buf, Inr msgs)
      else case dec (take (get_u32 buf) (drop 4 buf)) of
             Inl e \<Rightarrow> (buf, Inl e)
           | Inr m \<Rightarrow> read_frames dec (drop (4 + get_u32 buf) buf) (msgs @ [m]))"
  by pat_completeness auto
termination by (relation "measure (\<lambda>(_, buf, _). length buf)") auto

definition push :: "zod_parser \<Rightarrow> frame_reader \<Rightarrow> nat list \<Rightarrow> frame_reader \<times> (proto_error + friendz_message list)" where
  "push z r chunk =
     (case read_frames (decodeMessage z) (fr_buffer r @ chunk) [] of (buf, out) \<Rightarrow> (r\<lparr>fr_buffer := buf\<rparr>, out))"

definition pendingByteLength :: "frame_reader \<Rightarrow> nat" where
  "pendingByteLength r = length (fr_buffer r)"

end
