(* ===== verification/PresenceClient.thy ===== *)
theory PresenceClient
  imports Protocol "HOL-Library.AList"
begin

text \<open>
  \<open>createFriendzClient\<close> of \<open>lib/haruspex/ts/src/protocol/client.ts\<close>: one send stream per peer, read
  loops, heartbeats and online tracking. The client's maps are association lists in insertion order
  (\<open>AList.update\<close> is \<open>Map.set\<close>). The code is cut at its awaits: what waits for the transport is kept in the
  state, and an event settles it. The stream and open identities are numbers handed out in order.
\<close>

section \<open>State\<close>

type_synonym node_id = jstext

record friendz_options =
  fo_alpn :: string
  fo_localNodeId :: node_id
  fo_localUsername :: jstext
  fo_heartbeatTimeoutMs :: nat
  fo_onMessage_throws :: "friendz_message \<Rightarrow> node_id \<Rightarrow> bool"

text \<open>Who awaits a send: a caller of the client, one turn of a heartbeat tick with the peers after it, an announcement.\<close>

datatype send_caller = UserSend nat | TickSend node_id "node_id list" | AnnounceSend

datatype open_stage = AwaitNode | AwaitBi

datatype decode_failure = BadBytes proto_error | HandlerThrew

datatype client_call =
    OpenBi nat node_id string
  | WriteMessage nat "nat list"
  | CloseStream nat
  | OnlineChange nat               \<comment> \<open>a listener of \<open>onOnlineChange\<close>\<close>
  | PeerBecameOnline node_id
  | PeerWentOffline node_id
  | OnMessage friendz_message node_id
  | OnDecodeError decode_failure node_id
  | SendResolved nat | SendRejected nat

record friendz_client =
  fz_streams :: "(node_id \<times> nat) list"
  fz_pendingConnections :: "(node_id \<times> nat) list"
  fz_lastSeen :: "(node_id \<times> nat) list"
  fz_listeners :: "nat list"
  fz_heartbeatTimer :: bool
  fz_destroyed :: bool
  \<comment> \<open>what is awaited\<close>
  fz_loops :: "(nat \<times> node_id) list"                                 \<comment> \<open>read loops at \<open>read_message\<close>\<close>
  fz_opens :: "(nat \<times> node_id \<times> open_stage) list"                   \<comment> \<open>\<open>openStream\<close> calls\<close>
  fz_waiting :: "(nat \<times> node_id \<times> friendz_message \<times> send_caller) list"  \<comment> \<open>sends awaiting an open\<close>
  fz_writes :: "(nat \<times> send_caller) list"                            \<comment> \<open>sends at \<open>write_message\<close>\<close>
  \<comment> \<open>the world\<close>
  fz_now :: nat
  fz_nextStream :: nat
  fz_nextOpen :: nat
  fz_log :: "client_call list"

definition new_client :: friendz_client where
  "new_client = \<lparr>fz_streams = [], fz_pendingConnections = [], fz_lastSeen = [], fz_listeners = [], fz_heartbeatTimer = False,
     fz_destroyed = False, fz_loops = [], fz_opens = [], fz_waiting = [], fz_writes = [], fz_now = 0, fz_nextStream = 0,
     fz_nextOpen = 0, fz_log = []\<rparr>"

abbreviation log_call :: "client_call \<Rightarrow> friendz_client \<Rightarrow> friendz_client" where
  "log_call c s \<equiv> s\<lparr>fz_log := fz_log s @ [c]\<rparr>"

section \<open>Messages the client sends\<close>

definition heartbeatMessage :: "node_id \<Rightarrow> jstext \<Rightarrow> friendz_message" where
  "heartbeatMessage n u = Core [fld ''type'' (VStr (utext ''heartbeat'')), fld ''v'' (VNum (utext ''1'')),
     fld ''nodeId'' (VStr n), fld ''username'' (VStr u)]"

definition offlineAnnouncementMessage :: "node_id \<Rightarrow> friendz_message" where
  "offlineAnnouncementMessage n = Core [fld ''type'' (VStr (utext ''offline-announcement'')), fld ''v'' (VNum (utext ''1'')),
     fld ''nodeId'' (VStr n)]"

section \<open>Online tracking\<close>

definition emitOnlineChange :: "friendz_client \<Rightarrow> friendz_client" where
  "emitOnlineChange s = s\<lparr>fz_log := fz_log s @ map OnlineChange (fz_listeners s)\<rparr>"

definition isOnline :: "friendz_options \<Rightarrow> node_id \<Rightarrow> friendz_client \<Rightarrow> bool" where
  "isOnline opts p s = (case map_of (fz_lastSeen s) p of None \<Rightarrow> False
     | Some seenAt \<Rightarrow> int (fz_now s) - int seenAt < int (fo_heartbeatTimeoutMs opts))"

definition getOnlinePeers :: "friendz_options \<Rightarrow> friendz_client \<Rightarrow> node_id list" where
  "getOnlinePeers opts s =
     map fst (filter (\<lambda>(_, seenAt). int (fz_now s) - int seenAt < int (fo_heartbeatTimeoutMs opts)) (fz_lastSeen s))"

definition markOnline :: "friendz_options \<Rightarrow> node_id \<Rightarrow> friendz_client \<Rightarrow> friendz_client" where
  "markOnline opts p s =
     (let wasOnline = isOnline opts p s;
          s1 = emitOnlineChange (s\<lparr>fz_lastSeen := AList.update p (fz_now s) (fz_lastSeen s)\<rparr>)
      in if wasOnline then s1 else log_call (PeerBecameOnline p) s1)"

definition markOffline :: "node_id \<Rightarrow> friendz_client \<Rightarrow> friendz_client" where
  "markOffline p s =
     (if map_of (fz_lastSeen s) p = None then s
      else log_call (PeerWentOffline p) (emitOnlineChange (s\<lparr>fz_lastSeen := AList.delete p (fz_lastSeen s)\<rparr>)))"

section \<open>Read loops\<close>

datatype read_result = ReadData "nat list" | ReadEof | ReadError

text \<open>The \<open>finally\<close> of a read loop, and its \<open>while\<close> test, which either reads again or ends it.\<close>

definition loop_finally :: "node_id \<Rightarrow> nat \<Rightarrow> friendz_client \<Rightarrow> friendz_client" where
  "loop_finally p sid s =
     log_call (CloseStream sid)
       (if map_of (fz_streams s) p = Some sid then s\<lparr>fz_streams := AList.delete p (fz_streams s)\<rparr> else s)"

definition loop_head :: "node_id \<Rightarrow> nat \<Rightarrow> friendz_client \<Rightarrow> friendz_client" where
  "loop_head p sid s = (if fz_destroyed s then loop_finally p sid s else s\<lparr>fz_loops := fz_loops s @ [(sid, p)]\<rparr>)"

definition core_string :: "string \<Rightarrow> friendz_message \<Rightarrow> jstext option" where
  "core_string k m = (case m of Core ms \<Rightarrow> (case member (utext k) ms of Some (VStr t) \<Rightarrow> Some t | _ \<Rightarrow> None)
     | AppExtension _ \<Rightarrow> None)"

definition handle_data :: "friendz_options \<Rightarrow> zod_parser \<Rightarrow> node_id \<Rightarrow> nat list \<Rightarrow> friendz_client \<Rightarrow> friendz_client" where
  "handle_data opts z p data s =
     (case decodeMessage z data of
        Inl e \<Rightarrow> log_call (OnDecodeError (BadBytes e) p) s
      | Inr m \<Rightarrow>
          (let s1 = (if core_string ''type'' m = Some (utext ''heartbeat'') then markOnline opts p s else s);
               s2 = (if core_string ''type'' m = Some (utext ''offline-announcement'')
                     then (case core_string ''nodeId'' m of Some n \<Rightarrow> markOffline n s1 | None \<Rightarrow> s1) else s1);
               s3 = log_call (OnMessage m p) s2
           in if fo_onMessage_throws opts m p then log_call (OnDecodeError HandlerThrew p) s3 else s3))"

definition on_read :: "friendz_options \<Rightarrow> zod_parser \<Rightarrow> nat \<Rightarrow> node_id \<Rightarrow> read_result \<Rightarrow> friendz_client \<Rightarrow> friendz_client" where
  "on_read opts z sid p res s0 =
     (let s = s0\<lparr>fz_loops := remove1 (sid, p) (fz_loops s0)\<rparr>
      in case res of
           ReadData data \<Rightarrow> loop_head p sid (handle_data opts z p data s)
         | ReadEof \<Rightarrow> loop_finally p sid s
         | ReadError \<Rightarrow>
             (let wasReplaced = (map_of (fz_streams s) p \<noteq> Some sid)
              in loop_finally p sid (if \<not> fz_destroyed s \<and> \<not> wasReplaced then markOffline p s else s)))"

section \<open>Sending\<close>

definition begin_write :: "nat \<Rightarrow> friendz_message \<Rightarrow> send_caller \<Rightarrow> friendz_client \<Rightarrow> friendz_client" where
  "begin_write sid m c s = log_call (WriteMessage sid (encodeMessage m)) (s\<lparr>fz_writes := fz_writes s @ [(sid, c)]\<rparr>)"

definition openStream :: "node_id \<Rightarrow> friendz_client \<Rightarrow> nat \<times> friendz_client" where
  "openStream p s =
     (fz_nextOpen s, s\<lparr>fz_nextOpen := Suc (fz_nextOpen s), fz_opens := fz_opens s @ [(fz_nextOpen s, p, AwaitNode)]\<rparr>)"

definition sendMessage :: "node_id \<Rightarrow> friendz_message \<Rightarrow> send_caller \<Rightarrow> friendz_client \<Rightarrow> friendz_client" where
  "sendMessage p m c s =
     (case map_of (fz_streams s) p of
        Some sid \<Rightarrow> begin_write sid m c s
      | None \<Rightarrow>
          (let (pid, s1) =
             (case map_of (fz_pendingConnections s) p of
                Some pid \<Rightarrow> (pid, s)
              | None \<Rightarrow> (case openStream p s of
                    (pid, s') \<Rightarrow> (pid, s'\<lparr>fz_pendingConnections := AList.update p pid (fz_pendingConnections s')\<rparr>)))
           in s1\<lparr>fz_waiting := fz_waiting s1 @ [(pid, p, m, c)]\<rparr>))"

definition tick :: "friendz_options \<Rightarrow> node_id list \<Rightarrow> friendz_client \<Rightarrow> friendz_client" where
  "tick opts ps s =
     (case ps of [] \<Rightarrow> s
      | p # ps' \<Rightarrow> sendMessage p (heartbeatMessage (fo_localNodeId opts) (fo_localUsername opts)) (TickSend p ps') s)"

text \<open>A send has settled: the caller goes on. A tick checks its peer's timeout and takes the next.\<close>

definition send_settled :: "friendz_options \<Rightarrow> send_caller \<Rightarrow> bool \<Rightarrow> friendz_client \<Rightarrow> friendz_client" where
  "send_settled opts c ok s =
     (case c of
        UserSend n \<Rightarrow> log_call (if ok then SendResolved n else SendRejected n) s
      | AnnounceSend \<Rightarrow> s
      | TickSend p ps \<Rightarrow>
          tick opts ps
            (case map_of (fz_lastSeen s) p of
               None \<Rightarrow> s
             | Some seenAt \<Rightarrow>
                 if int (fz_now s) - int seenAt \<ge> int (fo_heartbeatTimeoutMs opts) then markOffline p s else s))"

text \<open>
  An open settles: every send that awaited it removes the pending entry, and then each goes on with the
  stream, or fails.
\<close>

definition resume_send :: "friendz_options \<Rightarrow> nat option \<Rightarrow> nat \<times> node_id \<times> friendz_message \<times> send_caller \<Rightarrow>
    friendz_client \<Rightarrow> friendz_client" where
  "resume_send opts res w s =
     (case w of (pid, p, m, c) \<Rightarrow>
        (case res of Some sid \<Rightarrow> begin_write sid m c s | None \<Rightarrow> send_settled opts c False s))"

definition settle_open :: "friendz_options \<Rightarrow> nat \<Rightarrow> nat option \<Rightarrow> friendz_client \<Rightarrow> friendz_client" where
  "settle_open opts pid res s =
     (let ws = filter (\<lambda>w. fst w = pid) (fz_waiting s);
          s1 = s\<lparr>fz_opens := filter (\<lambda>q. fst q \<noteq> pid) (fz_opens s), fz_waiting := filter (\<lambda>w. fst w \<noteq> pid) (fz_waiting s),
                 fz_pendingConnections := fold (\<lambda>w. AList.delete (fst (snd w))) ws (fz_pendingConnections s)\<rparr>
      in fold (resume_send opts res) ws s1)"

section \<open>Operations and events\<close>

definition handleIncomingStream :: "node_id \<Rightarrow> friendz_client \<Rightarrow> friendz_client" where
  "handleIncomingStream p s0 =
     (let sid = fz_nextStream s0; s = s0\<lparr>fz_nextStream := Suc sid\<rparr>;
          s1 = (case map_of (fz_streams s) p of Some old \<Rightarrow> log_call (CloseStream old) s | None \<Rightarrow> s)
      in loop_head p sid (s1\<lparr>fz_streams := AList.update p sid (fz_streams s1)\<rparr>))"

definition stopHeartbeat :: "friendz_client \<Rightarrow> friendz_client" where
  "stopHeartbeat s = s\<lparr>fz_heartbeatTimer := False\<rparr>"

definition startHeartbeat :: "friendz_options \<Rightarrow> node_id list \<Rightarrow> friendz_client \<Rightarrow> friendz_client" where
  "startHeartbeat opts ps s = (tick opts ps (stopHeartbeat s))\<lparr>fz_heartbeatTimer := True\<rparr>"

definition announceOffline :: "friendz_options \<Rightarrow> friendz_client \<Rightarrow> friendz_client" where
  "announceOffline opts s =
     fold (\<lambda>p. sendMessage p (offlineAnnouncementMessage (fo_localNodeId opts)) AnnounceSend) (getOnlinePeers opts s) s"

definition destroy :: "friendz_client \<Rightarrow> friendz_client" where
  "destroy s =
     (let s1 = stopHeartbeat (s\<lparr>fz_destroyed := True\<rparr>)
      in s1\<lparr>fz_log := fz_log s1 @ map (CloseStream \<circ> snd) (fz_streams s1), fz_streams := [], fz_pendingConnections := [],
           fz_lastSeen := [], fz_listeners := []\<rparr>)"

datatype client_event =
    EvSend node_id friendz_message nat
  | EvIncoming node_id
  | EvStart "node_id list" | EvStop | EvInterval "node_id list"
  | EvAnnounce | EvDestroy
  | EvListen nat | EvUnlisten nat
  | EvNode nat bool | EvOpened nat bool
  | EvWritten nat bool          \<comment> \<open>the write at this position of \<open>fz_writes\<close>\<close>
  | EvRead nat read_result      \<comment> \<open>the read loop at this position of \<open>fz_loops\<close>\<close>
  | EvTime nat

text \<open>\<open>open_bi\<close> answers a new stream: it becomes the peer's stream and its read loop starts.\<close>

definition opened :: "friendz_options \<Rightarrow> nat \<Rightarrow> node_id \<Rightarrow> friendz_client \<Rightarrow> friendz_client" where
  "opened opts pid p s =
     (let sid = fz_nextStream s;
          s1 = s\<lparr>fz_nextStream := Suc sid, fz_streams := AList.update p sid (fz_streams s)\<rparr>
      in settle_open opts pid (Some sid) (loop_head p sid s1))"

definition client_event :: "friendz_options \<Rightarrow> zod_parser \<Rightarrow> client_event \<Rightarrow> friendz_client \<Rightarrow> friendz_client" where
  "client_event opts z ev s =
     (case ev of
        EvSend p m n \<Rightarrow> sendMessage p m (UserSend n) s
      | EvIncoming p \<Rightarrow> handleIncomingStream p s
      | EvStart ps \<Rightarrow> startHeartbeat opts ps s
      | EvStop \<Rightarrow> stopHeartbeat s
      | EvInterval ps \<Rightarrow> if fz_heartbeatTimer s then tick opts ps s else s
      | EvAnnounce \<Rightarrow> announceOffline opts s
      | EvDestroy \<Rightarrow> destroy s
      | EvListen h \<Rightarrow> if h \<in> set (fz_listeners s) then s else s\<lparr>fz_listeners := fz_listeners s @ [h]\<rparr>
      | EvUnlisten h \<Rightarrow> s\<lparr>fz_listeners := removeAll h (fz_listeners s)\<rparr>
      | EvNode pid ok \<Rightarrow>
          (case map_of (fz_opens s) pid of
             Some (p, AwaitNode) \<Rightarrow>
               if ok then log_call (OpenBi pid p (fo_alpn opts))
                 (s\<lparr>fz_opens := map (\<lambda>q. if fst q = pid then (pid, p, AwaitBi) else q) (fz_opens s)\<rparr>)
               else settle_open opts pid None s
           | _ \<Rightarrow> s)
      | EvOpened pid ok \<Rightarrow>
          (case map_of (fz_opens s) pid of
             Some (p, AwaitBi) \<Rightarrow> if ok then opened opts pid p s else settle_open opts pid None s
           | _ \<Rightarrow> s)
      | EvWritten i ok \<Rightarrow>
          if i < length (fz_writes s)
          then send_settled opts (snd (fz_writes s ! i)) ok (s\<lparr>fz_writes := take i (fz_writes s) @ drop (Suc i) (fz_writes s)\<rparr>)
          else s
      | EvRead i res \<Rightarrow>
          if i < length (fz_loops s) then (case fz_loops s ! i of (sid, p) \<Rightarrow> on_read opts z sid p res s) else s
      | EvTime t \<Rightarrow> s\<lparr>fz_now := fz_now s + t\<rparr>)"

definition client_run :: "friendz_options \<Rightarrow> zod_parser \<Rightarrow> client_event list \<Rightarrow> friendz_client" where
  "client_run opts z evs = fold (client_event opts z) evs new_client"

end
