(* ===== verification/ProtocolClaims.thy ===== *)
theory ProtocolClaims
  imports Protocol ZodProps
begin

text \<open>
  What the presence protocol's codec promises: accepted messages are exactly those that survive encoding,
  the frame reader does not depend on how the bytes are cut, and what an undecodable frame does to it.
\<close>

section \<open>Messages\<close>

fun message_ok :: "zod_parser \<Rightarrow> friendz_message \<Rightarrow> bool" where
  "message_ok z (Core ms) = (wf_json (VObj ms) \<and> z CoreMessageSchema (Some (VObj ms)) = Some (Some (VObj ms)))"
| "message_ok z (AppExtension x) =
     (wf_json (VObj (ax_payload x)) \<and> type_field (ax_payload x) = Some (ax_messageType x) \<and> isAppExtensionType (ax_messageType x))"

lemmas message_schemas = ProfileRequestSchema_def ProfileResponseSchema_def FriendRequestSchema_def FriendAcceptSchema_def
  FriendAcceptAckSchema_def FriendRejectSchema_def HeartbeatSchema_def OfflineAnnouncementSchema_def HelloSchema_def
  HelloOkSchema_def KnockRequestSchema_def KnockAckSchema_def KnockOutcomeSchema_def IdentityUpdateSchema_def
  AclChangeSchema_def GossipDigestSchema_def BlobSeekSchema_def BlobOfferSchema_def ErrorMessageSchema_def







lemma core_literal:
  assumes "s \<in> set core_schemas" "disc_literal (utext ''type'') s = Some t"
  shows "isCoreMessageType t \<and> \<not> isAppExtensionType t \<and> t \<noteq> []"
proof -
  have "list_all (\<lambda>s. case disc_literal (utext ''type'') s of None \<Rightarrow> False
      | Some t \<Rightarrow> isCoreMessageType t \<and> \<not> isAppExtensionType t \<and> t \<noteq> []) core_schemas"
    unfolding core_schemas_def message_schemas
    by (simp add: utext_def isCoreMessageType_def CORE_MESSAGE_TYPES_def isAppExtensionType_def)
  then show ?thesis using assms by (fastforce simp: list_all_iff)
qed

lemma core_type:
  assumes "zod z" "z CoreMessageSchema (Some (VObj ms)) = Some y"
  shows "\<exists>t. type_field ms = Some t \<and> isCoreMessageType t \<and> \<not> isAppExtensionType t"
proof -
  obtain s where "disc_branch (utext ''type'') core_schemas ms = Some s"
    using assms(2) by (auto simp: CoreMessageSchema_def zod.z_disc [OF assms(1)] split: option.splits)
  then obtain t where "member (utext ''type'') ms = Some (VStr t)"
    "List.find (\<lambda>s. disc_literal (utext ''type'') s = Some t) core_schemas = Some s"
    by (auto simp: disc_branch_def split: option.splits jsv.splits)
  then show ?thesis using core_literal [of s t] by (auto simp: type_field_def dest: find_SomeD)
qed

lemma decode_encode:
  assumes "zod z" "message_ok z m"
  shows "decodeMessage z (encodeMessage m) = Inr m"
proof (cases m)
  case (Core ms)
  obtain t where "type_field ms = Some t" "isCoreMessageType t" "\<not> isAppExtensionType t"
    using core_type [OF assms(1)] assms(2) Core by fastforce
  then show ?thesis
    using assms(2) Core object_bytes [of ms]
    by (simp add: decodeMessage_def encodeMessage_def encodeFriendzMessageToJson_def decodeFriendzMessage_def
        del: json_stringify.simps)
next
  case (AppExtension x)
  then show ?thesis
    using assms(2) object_bytes [of "ax_payload x"]
    by (simp add: decodeMessage_def encodeMessage_def encodeFriendzMessageToJson_def decodeFriendzMessage_def
        del: json_stringify.simps)
qed



section \<open>Framing\<close>

declare read_frames.simps [simp del]

definition settled :: "nat list \<Rightarrow> bool" where
  "settled buf = (length buf < 4 \<or> length buf < 4 + get_u32 buf)"

lemma read_frames_settled: "settled buf \<Longrightarrow> read_frames dec buf msgs = (buf, Inr msgs)"
  by (subst read_frames.simps) (simp add: settled_def)

lemma read_frames_out: "read_frames dec buf msgs = (b, Inr ms) \<Longrightarrow> settled b"
proof (induction dec buf msgs rule: read_frames.induct)
  case (1 dec buf msgs)
  then show ?case
    by (subst (asm) (2) read_frames.simps) (auto simp: settled_def split: if_splits sum.splits)
qed

lemma get_u32_append: "4 \<le> length a \<Longrightarrow> get_u32 (a @ c) = get_u32 a"
  by (cases a rule: get_u32.cases) auto

text \<open>Bytes that arrive later only add to what was decoded, and an error stays.\<close>

lemma read_frames_append:
  "read_frames dec (a @ c) msgs =
     (case read_frames dec a msgs of (b, Inl e) \<Rightarrow> (b @ c, Inl e) | (b, Inr ms) \<Rightarrow> read_frames dec (b @ c) ms)"
proof (induction dec a msgs rule: read_frames.induct)
  case (1 dec buf msgs)
  show ?case
  proof (cases "settled buf")
    case True
    then show ?thesis by (simp add: read_frames_settled)
  next
    case False
    then have big: "4 \<le> length buf" "4 + get_u32 buf \<le> length buf" by (auto simp: settled_def)
    then have g: "get_u32 (buf @ c) = get_u32 buf" by (simp add: get_u32_append)
    have step: "read_frames dec b ms = (case dec (take (get_u32 b) (drop 4 b)) of Inl e \<Rightarrow> (b, Inl e)
        | Inr m \<Rightarrow> read_frames dec (drop (4 + get_u32 b) b) (ms @ [m]))"
      if "4 \<le> length b" "4 + get_u32 b \<le> length b" for b ms
      using that by (subst read_frames.simps) simp
    show ?thesis
      using 1 [OF _, of m for m] False big g step [of buf msgs] step [of "buf @ c" msgs]
      by (simp add: settled_def split: sum.split)
  qed
qed

lemma read_frames_acc:
  "read_frames dec buf (ms @ ns) = (case read_frames dec buf ns of (b, Inl e) \<Rightarrow> (b, Inl e) | (b, Inr ps) \<Rightarrow> (b, Inr (ms @ ps)))"
proof (induction dec buf ns rule: read_frames.induct)
  case (1 dec buf ns)
  show ?case
    using 1 by (subst (1 2) read_frames.simps) (auto split: sum.splits prod.splits)
qed

text \<open>Feeding chunks one after another, the messages of all pushes together.\<close>

fun push_all :: "zod_parser \<Rightarrow> frame_reader \<Rightarrow> nat list list \<Rightarrow> frame_reader \<times> (proto_error + friendz_message list)" where
  "push_all z r [] = (r, Inr [])"
| "push_all z r (c # cs) =
     (case push z r c of
        (r', Inl e) \<Rightarrow> (r', Inl e)
      | (r', Inr ms) \<Rightarrow> (case push_all z r' cs of (r'', Inl e) \<Rightarrow> (r'', Inl e) | (r'', Inr ns) \<Rightarrow> (r'', Inr (ms @ ns))))"

lemma push_append:
  "push z r (c @ d) =
     (case push z r c of
        (r', Inl e) \<Rightarrow> (r'\<lparr>fr_buffer := fr_buffer r' @ d\<rparr>, Inl e)
      | (r', Inr ms) \<Rightarrow> (case push z r' d of (r'', Inl e) \<Rightarrow> (r'', Inl e) | (r'', Inr ns) \<Rightarrow> (r'', Inr (ms @ ns))))"
proof -
  obtain b out where b: "read_frames (decodeMessage z) (fr_buffer r @ c) [] = (b, out)" by fastforce
  show ?thesis
  proof (cases out)
    case (Inl e)
    then show ?thesis using b read_frames_append [of "decodeMessage z" "fr_buffer r @ c" d "[]"] by (simp add: push_def)
  next
    case (Inr ms)
    then show ?thesis
      using b read_frames_append [of "decodeMessage z" "fr_buffer r @ c" d "[]"] read_frames_acc [of "decodeMessage z" "b @ d" ms "[]"]
      by (auto simp: push_def split: prod.splits sum.splits)
  qed
qed

lemma push_settled: "push z r c = (r', Inr ms) \<Longrightarrow> settled (fr_buffer r')"
  using read_frames_out by (auto simp: push_def split: prod.splits)

lemma push_none: "settled (fr_buffer r) \<Longrightarrow> push z r [] = (r, Inr [])"
  by (simp add: push_def read_frames_settled)

lemma push_chunks:
  assumes "settled (fr_buffer r)"
  shows "push_all z r cs = (r', Inr ms) \<longleftrightarrow> push z r (concat cs) = (r', Inr ms)"
  using assms
proof (induction cs arbitrary: r ms)
  case Nil
  then show ?case by (auto simp: push_none)
next
  case (Cons c cs)
  obtain q out where q: "push z r c = (q, out)" by fastforce
  show ?case
  proof (cases out)
    case (Inl e)
    then show ?thesis using q by (simp add: push_append)
  next
    case (Inr ns)
    then have "settled (fr_buffer q)" using push_settled q by simp
    then have IH: "push_all z q cs = (r', Inr ps) \<longleftrightarrow> push z q (concat cs) = (r', Inr ps)" for ps
      using Cons.IH by blast
    have "push_all z r (c # cs) = (r', Inr ms) \<longleftrightarrow> (\<exists>ps. push_all z q cs = (r', Inr ps) \<and> ms = ns @ ps)"
      using q Inr by (auto split: prod.splits sum.splits)
    moreover have "push z r (concat (c # cs)) = (r', Inr ms) \<longleftrightarrow> (\<exists>ps. push z q (concat cs) = (r', Inr ps) \<and> ms = ns @ ps)"
      using q Inr by (auto simp: push_append split: prod.splits sum.splits)
    ultimately show ?thesis using IH by simp
  qed
qed

text \<open>C16: 
  How a transport cuts the bytes makes no difference: pushing the chunks one at a time succeeds exactly when
  pushing them joined does, with the same messages in the same order and the same bytes left over.
\<close>

theorem fr_chunking:
  assumes "settled (fr_buffer r)"
  shows "push_all z r cs = (r', Inr ms) \<longleftrightarrow> push z r (concat cs) = (r', Inr ms)"
  using assms by (rule push_chunks)

theorem fr_chunking_witness:
  "push_all zod_ref \<lparr>fr_buffer = []\<rparr> [[0, 0], [], [0]] = (\<lparr>fr_buffer = [0, 0, 0]\<rparr>, Inr [])"
  by (subst fr_chunking) (simp_all add: settled_def push_def read_frames_settled)

section \<open>Streams of frames\<close>

lemma put_u32_get: "n < 2 ^ 32 \<Longrightarrow> get_u32 (put_u32 n @ r) = n"
proof -
  assume n: "n < 2 ^ 32"
  have d: "n div 65536 = n div 256 div 256" "n div 16777216 = n div 256 div 256 div 256"
    using div_mult2_eq [of n 256 256] div_mult2_eq [of n 65536 256] by simp_all
  have "((n div 16777216 * 256 + n div 65536 mod 256) * 256 + n div 256 mod 256) * 256 + n mod 256 = n"
    by (simp only: d div_mult_mod_eq)
  then show ?thesis using n by (simp add: put_u32_def Let_def)
qed

lemma put_u32_length: "length (put_u32 n) = 4"
  by (simp add: put_u32_def Let_def)

lemma read_frames_frame:
  assumes "length p < 2 ^ 32"
  shows "read_frames dec (put_u32 (length p) @ p @ rest) msgs =
    (case dec p of Inl e \<Rightarrow> (put_u32 (length p) @ p @ rest, Inl e) | Inr m \<Rightarrow> read_frames dec rest (msgs @ [m]))"
  using put_u32_get [OF assms, of "p @ rest"] by (subst read_frames.simps) (simp add: put_u32_length split: sum.split)

definition sendable :: "zod_parser \<Rightarrow> friendz_message \<Rightarrow> bool" where
  "sendable z m = (message_ok z m \<and> length (encodeMessage m) < 2 ^ 32)"

lemma read_frames_frames:
  assumes "zod z" "\<forall>m \<in> set ms. sendable z m"
  shows "read_frames (decodeMessage z) (concat (map frameMessage ms) @ rest) ns = read_frames (decodeMessage z) rest (ns @ ms)"
  using assms(2)
proof (induction ms arbitrary: ns)
  case (Cons m ms)
  have "length (encodeMessage m) < 2 ^ 32" "decodeMessage z (encodeMessage m) = Inr m"
    using Cons.prems decode_encode [OF assms(1)] by (simp_all add: sendable_def)
  then show ?case
    using Cons read_frames_frame [of "encodeMessage m" "decodeMessage z" "concat (map frameMessage ms) @ rest" ns]
    by (simp add: frameMessage_def [of m] Let_def)
qed simp

text \<open>
  Whatever the transport does to the boundaries, a reader that has been fed the frames of some messages
  followed by part of another frame has answered exactly those messages, in order, and holds exactly the
  part.
\<close>

theorem fr_stream:
  assumes "zod z" "\<forall>m \<in> set ms. sendable z m" "settled rest" "concat cs = concat (map frameMessage ms) @ rest"
  shows "push_all z \<lparr>fr_buffer = []\<rparr> cs = (\<lparr>fr_buffer = rest\<rparr>, Inr ms)"
proof -
  have "push z \<lparr>fr_buffer = []\<rparr> (concat cs) = (\<lparr>fr_buffer = rest\<rparr>, Inr ms)"
    using read_frames_frames [OF assms(1,2), of rest "[]"] assms(3,4) by (simp add: push_def read_frames_settled)
  moreover have "push_all z \<lparr>fr_buffer = []\<rparr> cs = (\<lparr>fr_buffer = rest\<rparr>, Inr ms)
      \<longleftrightarrow> push z \<lparr>fr_buffer = []\<rparr> (concat cs) = (\<lparr>fr_buffer = rest\<rparr>, Inr ms)"
    by (rule push_chunks) (simp add: settled_def)
  ultimately show ?thesis by simp
qed

text \<open>
  One frame that does not decode stops the reader for good: the push it completes in throws, the messages
  decoded before it in that push are not answered, the frame stays at the front of the buffer, and every
  later push, whatever it brings, throws the same error and only makes the buffer longer.
\<close>

theorem fr_stuck:
  assumes "zod z" "\<forall>m \<in> set ms. sendable z m" "length bad < 2 ^ 32" "decodeMessage z bad = Inl e"
  shows "push z \<lparr>fr_buffer = []\<rparr> (concat (map frameMessage ms) @ put_u32 (length bad) @ bad @ later)
      = (\<lparr>fr_buffer = put_u32 (length bad) @ bad @ later\<rparr>, Inl e)
    \<and> push z \<lparr>fr_buffer = put_u32 (length bad) @ bad @ later\<rparr> chunk
      = (\<lparr>fr_buffer = put_u32 (length bad) @ bad @ later @ chunk\<rparr>, Inl e)"
  using read_frames_frames [OF assms(1,2), of _ "[]"] read_frames_frame [OF assms(3), of "decodeMessage z"] assms(4)
  by (simp add: push_def)

definition hb :: friendz_message where
  "hb = Core [fld ''type'' (VStr (utext ''friend-accept-ack'')), fld ''v'' (VNum (utext ''1'')),
     fld ''fromNodeId'' (VStr (utext ''n1''))]"

lemma hb_sendable: "sendable zod_ref hb"
proof -
  have "wf_json (VObj (encodeFriendzMessageToJson hb))"
    by (simp add: hb_def encodeFriendzMessageToJson_def utext_def high_surrogate_def json_number_def json_fraction_def digit_def)
  moreover have "zod_ref CoreMessageSchema (Some (VObj (encodeFriendzMessageToJson hb)))
      = Some (Some (VObj (encodeFriendzMessageToJson hb)))"
    by (simp add: hb_def encodeFriendzMessageToJson_def CoreMessageSchema_def core_schemas_def message_schemas
        disc_branch_def utext_def member_def wireVersion_def literal_nat_def literal_parts_def digit_def digits_value_def
        exponent_value_def)
  moreover have "length (encodeMessage hb) < 2 ^ 32"
    by (simp add: hb_def encodeMessage_def encodeFriendzMessageToJson_def textEncode_def json_quote_def json_escape_def
        utext_def utf8_enc_def high_surrogate_def low_surrogate_def)
  ultimately show ?thesis by (simp add: sendable_def hb_def encodeFriendzMessageToJson_def)
qed

theorem fr_stream_witness:
  "push_all zod_ref \<lparr>fr_buffer = []\<rparr> [take 7 (frameMessage hb), drop 7 (frameMessage hb) @ frameMessage hb, [0, 0]]
    = (\<lparr>fr_buffer = [0, 0]\<rparr>, Inr [hb, hb])"
  by (rule fr_stream [OF zref.zod_axioms]) (simp_all add: hb_sendable settled_def)

theorem fr_stuck_witness:
  "push zod_ref \<lparr>fr_buffer = []\<rparr> (concat (map frameMessage [hb]) @ put_u32 (length [123 :: nat]) @ [123] @ [])
      = (\<lparr>fr_buffer = put_u32 (length [123 :: nat]) @ [123] @ []\<rparr>, Inl NotJson)
    \<and> push zod_ref \<lparr>fr_buffer = put_u32 (length [123 :: nat]) @ [123] @ []\<rparr> (frameMessage hb)
      = (\<lparr>fr_buffer = put_u32 (length [123 :: nat]) @ [123] @ [] @ frameMessage hb\<rparr>, Inl NotJson)"
  by (rule fr_stuck [OF zref.zod_axioms])
    (simp_all add: hb_sendable decodeMessage_def textDecode_def utf8_step_def utf8_lead_def json_parse_text_def lex_run.simps lex_top_def start_value_def)


end
