(* ===== verification/PresenceProps.thy ===== *)
theory PresenceProps
  imports PresenceClient ProtocolClaims
begin

text \<open>
  Invariants of the presence client, in three groups of fields that its operations touch separately: the
  streams with their read loops, the connections being opened, and what was reported about peers.
\<close>

section \<open>Projections and frames\<close>

definition closed_of :: "client_call list \<Rightarrow> nat list" where
  "closed_of cs = concat (map (\<lambda>c. case c of CloseStream sid \<Rightarrow> [sid] | _ \<Rightarrow> []) cs)"

definition reports_of :: "client_call list \<Rightarrow> (node_id \<times> bool) list" where
  "reports_of cs = concat (map (\<lambda>c. case c of PeerBecameOnline p \<Rightarrow> [(p, True)] | PeerWentOffline p \<Rightarrow> [(p, False)] | _ \<Rightarrow> []) cs)"

lemma of_append [simp]: "closed_of (a @ b) = closed_of a @ closed_of b" "reports_of (a @ b) = reports_of a @ reports_of b"
  "closed_of [] = []" "reports_of [] = []"
  by (simp_all add: closed_of_def reports_of_def)

lemma of_Cons [simp]:
  "closed_of (c # cs) = (case c of CloseStream sid \<Rightarrow> [sid] | _ \<Rightarrow> []) @ closed_of cs"
  "reports_of (c # cs) = (case c of PeerBecameOnline p \<Rightarrow> [(p, True)] | PeerWentOffline p \<Rightarrow> [(p, False)] | _ \<Rightarrow> []) @ reports_of cs"
  by (simp_all add: closed_of_def reports_of_def)

lemma of_listeners [simp]: "closed_of (map OnlineChange hs) = []" "reports_of (map OnlineChange hs) = []"
  by (simp_all add: closed_of_def reports_of_def)

lemma of_closes [simp]: "closed_of (map (CloseStream \<circ> f) xs) = map f xs" "reports_of (map (CloseStream \<circ> f) xs) = []"
  by (induction xs) (simp_all add: closed_of_def reports_of_def)

text \<open>The fields of each group.\<close>

definition streams_of :: "friendz_client \<Rightarrow> (node_id \<times> nat) list \<times> (nat \<times> node_id) list \<times> nat \<times> bool \<times> nat list" where
  "streams_of s = (fz_streams s, fz_loops s, fz_nextStream s, fz_destroyed s, closed_of (fz_log s))"

definition dials_of :: "friendz_client \<Rightarrow> (node_id \<times> nat) list \<times> (nat \<times> node_id \<times> open_stage) list \<times>
    (nat \<times> node_id \<times> friendz_message \<times> send_caller) list \<times> nat \<times> bool" where
  "dials_of s = (fz_pendingConnections s, fz_opens s, fz_waiting s, fz_nextOpen s, fz_destroyed s)"

definition online_of :: "friendz_client \<Rightarrow> (node_id \<times> nat) list \<times> (node_id \<times> bool) list \<times> bool" where
  "online_of s = (fz_lastSeen s, reports_of (fz_log s), fz_destroyed s)"

lemmas projections = streams_of_def dials_of_def online_of_def

lemma log_frame [simp]:
  "closed_of cs = [] \<Longrightarrow> streams_of (s\<lparr>fz_log := fz_log s @ cs\<rparr>) = streams_of s"
  "dials_of (s\<lparr>fz_log := l\<rparr>) = dials_of s"
  "reports_of cs = [] \<Longrightarrow> online_of (s\<lparr>fz_log := fz_log s @ cs\<rparr>) = online_of s"
  by (simp_all add: projections)

text \<open>Online tracking leaves streams and dials alone, sending leaves streams alone and so on.\<close>

lemma markOnline_frame [simp]: "streams_of (markOnline opts p s) = streams_of s" "dials_of (markOnline opts p s) = dials_of s"
  by (simp_all add: projections markOnline_def emitOnlineChange_def Let_def)

lemma markOffline_frame [simp]: "streams_of (markOffline p s) = streams_of s" "dials_of (markOffline p s) = dials_of s"
  by (simp_all add: projections markOffline_def emitOnlineChange_def)

lemma begin_write_frame [simp]: "streams_of (begin_write sid m c s) = streams_of s" "dials_of (begin_write sid m c s) = dials_of s"
  "online_of (begin_write sid m c s) = online_of s"
  by (simp_all add: projections begin_write_def)

lemma sendMessage_frame [simp]: "streams_of (sendMessage p m c s) = streams_of s" "online_of (sendMessage p m c s) = online_of s"
  by (simp_all add: projections sendMessage_def openStream_def begin_write_def split: option.split)

lemma tick_frame [simp]: "streams_of (tick opts ps s) = streams_of s" "online_of (tick opts ps s) = online_of s"
  by (simp_all add: tick_def split: list.split)

lemma send_settled_frame [simp]: "streams_of (send_settled opts c ok s) = streams_of s"
  by (simp add: send_settled_def split: send_caller.split option.split)

lemma resume_send_frame [simp]: "streams_of (resume_send opts res w s) = streams_of s"
  by (simp add: resume_send_def split: prod.split option.split)

lemma fold_frame: "(\<And>x t. f (g x t) = f t) \<Longrightarrow> f (fold g xs s) = f s"
  by (induction xs arbitrary: s) simp_all

lemma settle_open_frame [simp]: "streams_of (settle_open opts pid res s) = streams_of s"
  unfolding settle_open_def Let_def fold_frame [where f = streams_of, OF resume_send_frame] by (simp add: projections)

lemma loop_frame [simp]: "dials_of (loop_head p sid s) = dials_of s" "online_of (loop_head p sid s) = online_of s"
  "dials_of (loop_finally p sid s) = dials_of s" "online_of (loop_finally p sid s) = online_of s"
  by (simp_all add: projections loop_head_def loop_finally_def)

lemma handle_data_frame [simp]: "streams_of (handle_data opts z p d s) = streams_of s" "dials_of (handle_data opts z p d s) = dials_of s"
  by (auto simp: handle_data_def Let_def split: sum.split option.split)

lemma announce_frame [simp]: "streams_of (announceOffline opts s) = streams_of s" "online_of (announceOffline opts s) = online_of s"
  unfolding announceOffline_def by (rule fold_frame; simp)+

section \<open>Streams\<close>

text \<open>
  Stream identities are fresh; every stream is read or closed; the current stream of a peer is read for that
  peer and not closed.
\<close>

type_synonym stream_fields = "(node_id \<times> nat) list \<times> (nat \<times> node_id) list \<times> nat \<times> bool \<times> nat list"

fun streams_inv :: "stream_fields \<Rightarrow> bool" where
  "streams_inv (streams, loops, nextId, destroyed, closed) =
     (distinct (map fst streams) \<and> distinct (map fst loops)
     \<and> (\<forall>(sid, p) \<in> set loops. sid < nextId) \<and> (\<forall>sid \<in> set closed. sid < nextId)
     \<and> (\<forall>sid < nextId. sid \<in> set closed \<or> sid \<in> fst ` set loops)
     \<and> (\<forall>p sid. map_of streams p = Some sid \<longrightarrow> (sid, p) \<in> set loops \<and> sid \<notin> set closed)
     \<and> (destroyed \<longrightarrow> streams = []))"

lemma loops_unique: "distinct (map fst loops) \<Longrightarrow> (sid, p) \<in> set loops \<Longrightarrow> (sid, q) \<in> set loops \<Longrightarrow> p = q"
  by (metis eq_key_imp_eq_value)

lemma loops_remove:
  assumes "distinct (map fst loops)" "(sid, p) \<in> set loops"
  shows "distinct (map fst (remove1 (sid, p) loops))" "set (remove1 (sid, p) loops) = set loops - {(sid, p)}"
    "fst ` set (remove1 (sid, p) loops) = fst ` set loops - {sid}"
proof -
  have d: "distinct loops" using assms(1) by (simp add: distinct_map)
  show "distinct (map fst (remove1 (sid, p) loops))"
    using assms(1) by (simp add: distinct_map inj_on_diff)
  show r: "set (remove1 (sid, p) loops) = set loops - {(sid, p)}" using d by simp
  show "fst ` set (remove1 (sid, p) loops) = fst ` set loops - {sid}"
    unfolding r using assms by (subst inj_on_image_set_diff [of fst "set loops"]) (auto simp: distinct_map)
qed

lemma inv_read_again:
  assumes "streams_inv (S, L, n, d, C)" "(sid, p) \<in> set L"
  shows "streams_inv (S, remove1 (sid, p) L @ [(sid, p)], n, d, C)"
proof -
  have "distinct (map fst L)" using assms(1) by simp
  note r = loops_remove [OF this assms(2)]
  have "set (remove1 (sid, p) L @ [(sid, p)]) = set L" using r(2) assms(2) by auto
  moreover have "distinct (map fst (remove1 (sid, p) L @ [(sid, p)]))" using r(1,3) by simp
  ultimately show ?thesis using assms(1) unfolding streams_inv.simps by presburger
qed

lemma inv_ended:
  assumes "streams_inv (S, L, n, d, C)" "(sid, p) \<in> set L"
  shows "streams_inv (if map_of S p = Some sid then AList.delete p S else S, remove1 (sid, p) L, n, d, C @ [sid])"
proof -
  let ?S = "if map_of S p = Some sid then AList.delete p S else S"
  have d: "distinct (map fst L)" "distinct (map fst S)" using assms(1) by simp_all
  note r = loops_remove [OF d(1) assms(2)]
  have other: "map_of S q = Some i \<and> (q \<noteq> p \<or> i \<noteq> sid)" if "map_of ?S q = Some i" for q i
    using that by (auto simp: delete_conv' split: if_splits)
  have "(i, q) \<in> set (remove1 (sid, p) L) \<and> i \<notin> set (C @ [sid])" if "map_of ?S q = Some i" for q i
  proof -
    have i: "(i, q) \<in> set L" "i \<notin> set C" using other [OF that] assms(1) unfolding streams_inv.simps by blast+
    moreover have "i \<noteq> sid" using other [OF that] i loops_unique [OF d(1) assms(2)] by blast
    ultimately show ?thesis using r(2) by simp
  qed
  moreover have "distinct (map fst ?S)" using d(2) by (simp add: distinct_delete)
  moreover have "d \<longrightarrow> ?S = []" using assms(1) by simp
  ultimately show ?thesis using assms r by (auto simp: image_iff)
qed

lemma inv_added:
  assumes "streams_inv (S, L, n, False, C)" "C' = C \<or> (\<exists>old. map_of S p = Some old \<and> C' = C @ [old])"
  shows "streams_inv (AList.update p n S, L @ [(n, p)], Suc n, False, C')"
proof -
  have d: "distinct (map fst L)" "distinct (map fst S)" using assms(1) by simp_all
  have fresh: "n \<notin> fst ` set L" "n \<notin> set C" using assms(1) by auto
  have old: "old < n" "n \<notin> set C'" if "map_of S p = Some old" for old
    using that assms fresh by (auto dest!: spec)
  have new: "n \<notin> set C'" using assms fresh old by auto
  have "(i, q) \<in> set L \<and> i \<notin> set C'" if "map_of S q = Some i" "q \<noteq> p" for q i
  proof -
    have i: "(i, q) \<in> set L" "i \<notin> set C" using that(1) assms(1) unfolding streams_inv.simps by blast+
    have "i \<noteq> old" if "map_of S p = Some old" for old
      using that i \<open>q \<noteq> p\<close> assms(1) loops_unique [OF d(1)] by auto
    with i show ?thesis using assms(2) by auto
  qed
  moreover have "\<forall>sid \<in> set C'. sid < Suc n" using assms old by fastforce
  moreover have "\<forall>sid < Suc n. sid \<in> set C' \<or> sid \<in> fst ` set (L @ [(n, p)])"
    using assms by (auto simp: less_Suc_eq image_iff)
  ultimately show ?thesis
    using assms(1) d fresh(1) new by (auto simp: update_conv' distinct_update less_Suc_eq)
qed

lemma inv_late:
  assumes "streams_inv (S, L, n, True, C)"
  shows "streams_inv ([], L, Suc n, True, C @ [n])"
  using assms by (auto simp: less_Suc_eq)

lemma inv_destroyed:
  assumes "streams_inv (S, L, n, d, C)"
  shows "streams_inv ([], L, n, True, C @ map snd S)"
proof -
  have "sid < n" if "(p, sid) \<in> set S" for p sid
    using assms map_of_is_SomeI [of S p sid] that by fastforce
  with assms show ?thesis by auto
qed

declare streams_inv.simps [simp del]

lemma streams_of_finally: "streams_of (loop_finally p sid s) =
    (if map_of (fz_streams s) p = Some sid then AList.delete p (fz_streams s) else fz_streams s,
     fz_loops s, fz_nextStream s, fz_destroyed s, closed_of (fz_log s) @ [sid])"
  by (simp add: streams_of_def loop_finally_def)

lemma streams_of_head: "\<not> fz_destroyed s \<Longrightarrow> streams_of (loop_head p sid s) =
    (fz_streams s, fz_loops s @ [(sid, p)], fz_nextStream s, fz_destroyed s, closed_of (fz_log s))"
  by (simp add: streams_of_def loop_head_def)

lemma head_destroyed: "fz_destroyed s \<Longrightarrow> loop_head p sid s = loop_finally p sid s"
  by (simp add: loop_head_def)

abbreviation streams_ok :: "friendz_client \<Rightarrow> bool" where
  "streams_ok s \<equiv> streams_inv (streams_of s)"

lemma on_read_streams:
  assumes "streams_ok s" "(sid, p) \<in> set (fz_loops s)"
  shows "streams_ok (on_read opts z sid p res s)"
proof -
  define t where "t = s\<lparr>fz_loops := remove1 (sid, p) (fz_loops s)\<rparr>"
  obtain S n d C where f: "fz_streams s = S" "fz_nextStream s = n" "fz_destroyed s = d" "closed_of (fz_log s) = C" by blast
  have inv: "streams_inv (S, fz_loops s, n, d, C)" using assms(1) f by (simp add: streams_of_def)
  have t: "streams_of t = (S, remove1 (sid, p) (fz_loops s), n, d, C)" by (simp add: t_def streams_of_def f)
  have ended: "streams_ok (loop_finally p sid u)" if "streams_of u = streams_of t" for u
  proof -
    have "fz_streams u = S" "fz_loops u = remove1 (sid, p) (fz_loops s)" "fz_nextStream u = n" "fz_destroyed u = d"
      "closed_of (fz_log u) = C" using that by (simp_all add: t) (simp_all add: streams_of_def)
    then show ?thesis using inv_ended [OF inv assms(2)] unfolding streams_of_finally by (simp only:)
  qed
  have headed: "streams_ok (loop_head p sid u)" if "streams_of u = streams_of t" for u
  proof (cases "fz_destroyed u")
    case True
    then show ?thesis using ended [OF that] by (simp add: head_destroyed)
  next
    case False
    then show ?thesis using inv_read_again [OF inv assms(2)] that by (simp add: t streams_of_head) (simp add: streams_of_def)
  qed
  show ?thesis
    unfolding on_read_def t_def [symmetric] Let_def
    by (cases res) (auto intro: ended headed)
qed

lemma added_streams:
  assumes "streams_ok s" "fz_nextStream s = n"
    and "streams_of t = (AList.update p n (fz_streams s), fz_loops s, Suc n, fz_destroyed s, C')"
    and "C' = closed_of (fz_log s) \<or> (\<exists>old. map_of (fz_streams s) p = Some old \<and> C' = closed_of (fz_log s) @ [old])"
  shows "streams_ok (loop_head p n t)"
proof (cases "fz_destroyed s")
  case True
  then have "fz_streams s = []" using assms(1) by (simp add: streams_of_def streams_inv.simps)
  then have "C' = closed_of (fz_log s)" using assms(4) by simp
  moreover have "streams_inv ([], fz_loops s, n, True, closed_of (fz_log s))"
    using assms(1,2) True \<open>fz_streams s = []\<close> by (simp add: streams_of_def)
  ultimately have "streams_inv ([], fz_loops s, Suc n, True, C' @ [n])" using inv_late by blast
  moreover have "fz_destroyed t" "fz_streams t = [(p, n)]" "fz_loops t = fz_loops s" "fz_nextStream t = Suc n" "closed_of (fz_log t) = C'"
    using assms(3) True \<open>fz_streams s = []\<close> by (simp_all add: streams_of_def)
  ultimately show ?thesis by (simp add: head_destroyed streams_of_finally)
next
  case False
  then have "streams_inv (fz_streams s, fz_loops s, n, False, closed_of (fz_log s))"
    using assms(1,2) by (simp add: streams_of_def)
  then have "streams_inv (AList.update p n (fz_streams s), fz_loops s @ [(n, p)], Suc n, False, C')"
    using inv_added assms(4) by blast
  moreover have "\<not> fz_destroyed t" "fz_streams t = AList.update p n (fz_streams s)" "fz_loops t = fz_loops s"
    "fz_nextStream t = Suc n" "closed_of (fz_log t) = C'"
    using assms(3) False by (simp_all add: streams_of_def)
  ultimately show ?thesis by (simp add: streams_of_head)
qed

lemma event_streams:
  assumes "streams_ok s"
  shows "streams_ok (client_event opts z ev s)"
proof (cases ev)
  case (EvIncoming p)
  have "streams_ok (handleIncomingStream p s)"
    unfolding handleIncomingStream_def Let_def
    by (rule added_streams [OF assms, where C' = "closed_of (fz_log s) @ (case map_of (fz_streams s) p of Some old \<Rightarrow> [old] | None \<Rightarrow> [])"])
      (auto simp: streams_of_def split: option.split)
  then show ?thesis using EvIncoming by (simp add: client_event_def)
next
  case (EvOpened pid ok)
  have "streams_ok (loop_head p (fz_nextStream s) (s\<lparr>fz_nextStream := Suc (fz_nextStream s),
      fz_streams := AList.update p (fz_nextStream s) (fz_streams s)\<rparr>))" for p
    by (rule added_streams [OF assms]) (auto simp: streams_of_def)
  then show ?thesis using EvOpened assms
    by (auto simp: client_event_def opened_def Let_def split: option.split prod.split open_stage.split)
next
  case (EvRead i res)
  then show ?thesis using assms on_read_streams [of s "fst (fz_loops s ! i)" "snd (fz_loops s ! i)"]
    by (auto simp: client_event_def split: prod.split) (metis fst_conv nth_mem snd_conv)
next
  case EvDestroy
  then show ?thesis using assms inv_destroyed
    by (simp add: client_event_def destroy_def stopHeartbeat_def Let_def streams_of_def)
next
  case (EvNode pid ok)
  then show ?thesis using assms
    by (auto simp: client_event_def split: option.split prod.split open_stage.split) (simp add: streams_of_def)
next
  case (EvWritten i ok)
  then show ?thesis using assms by (simp add: client_event_def) (simp add: streams_of_def)
next
  case (EvStart ps)
  have "streams_of (startHeartbeat opts ps s) = streams_of (tick opts ps (stopHeartbeat s))"
    by (simp add: startHeartbeat_def streams_of_def)
  then show ?thesis using EvStart assms by (simp add: client_event_def) (simp add: stopHeartbeat_def streams_of_def)
qed (use assms in \<open>auto simp: client_event_def\<close>, (simp add: stopHeartbeat_def streams_of_def)+)

lemma run_invariant:
  assumes "P new_client" "\<And>ev s. P s \<Longrightarrow> P (client_event opts z ev s)"
  shows "P (client_run opts z evs)"
  unfolding client_run_def using assms by (induction evs rule: rev_induct) simp_all

lemma run_streams: "streams_ok (client_run opts z evs)"
  by (rule run_invariant [where P = streams_ok]) (simp_all add: event_streams, simp add: new_client_def streams_of_def streams_inv.simps)

section \<open>Dials\<close>

text \<open>
  Every connection being opened has a send awaiting it and every awaiting send an open of its own peer; what
  \<open>pendingConnections\<close> holds is being opened, and until the client is destroyed it holds every open.
\<close>

fun dials_inv :: "(node_id \<times> nat) list \<times> (nat \<times> node_id \<times> open_stage) list \<times>
    (nat \<times> node_id \<times> friendz_message \<times> send_caller) list \<times> nat \<times> bool \<Rightarrow> bool" where
  "dials_inv (pending, opens, waiting, nextId, destroyed) =
     (distinct (map fst opens) \<and> (\<forall>q \<in> set opens. fst q < nextId)
     \<and> (\<forall>w \<in> set waiting. \<exists>q \<in> set opens. fst q = fst w \<and> fst (snd q) = fst (snd w))
     \<and> (\<forall>q \<in> set opens. \<exists>w \<in> set waiting. fst w = fst q)
     \<and> (\<forall>p pid. map_of pending p = Some pid \<longrightarrow> (\<exists>q \<in> set opens. fst q = pid \<and> fst (snd q) = p))
     \<and> (\<not> destroyed \<longrightarrow> (\<forall>q \<in> set opens. map_of pending (fst (snd q)) = Some (fst q))))"

declare dials_inv.simps [simp del]

abbreviation dials_ok :: "friendz_client \<Rightarrow> bool" where
  "dials_ok s \<equiv> dials_inv (dials_of s)"

lemmas dials_simps = dials_inv.simps dials_of_def

lemma sendMessage_dials:
  assumes "dials_ok s"
  shows "dials_ok (sendMessage p m c s)"
proof (cases "map_of (fz_streams s) p")
  case (Some sid)
  then show ?thesis using assms by (simp add: sendMessage_def)
next
  case None
  show ?thesis
  proof (cases "map_of (fz_pendingConnections s) p")
    case (Some pid)
    moreover from this have "\<exists>q \<in> set (fz_opens s). fst q = pid \<and> fst (snd q) = p"
      using assms by (simp add: dials_simps)
    ultimately show ?thesis using assms None by (auto simp: sendMessage_def dials_simps)
  next
    case pending: None
    have "fst (snd q) \<noteq> p" if "q \<in> set (fz_opens s)" "\<not> fz_destroyed s" for q
      using assms pending that by (auto simp: dials_simps)
    then show ?thesis
      using assms None pending
      by (auto simp: sendMessage_def openStream_def dials_simps update_conv' less_Suc_eq)
  qed
qed

lemma tick_dials: "dials_ok s \<Longrightarrow> dials_ok (tick opts ps s)"
  by (simp add: tick_def sendMessage_dials split: list.split)

lemma send_settled_dials: "dials_ok s \<Longrightarrow> dials_ok (send_settled opts c ok s)"
  by (simp add: send_settled_def tick_dials split: send_caller.split option.split)

lemma resume_send_dials: "dials_ok s \<Longrightarrow> dials_ok (resume_send opts res w s)"
  by (simp add: resume_send_def send_settled_dials split: prod.split option.split)

lemma fold_preserves: "P s \<Longrightarrow> (\<And>x t. P t \<Longrightarrow> P (g x t)) \<Longrightarrow> P (fold g xs s)"
  by (induction xs arbitrary: s) simp_all

lemma map_of_fold_delete:
  "map_of (fold (\<lambda>w. AList.delete (f w)) ws al) k = (if k \<in> f ` set ws then None else map_of al k)"
  by (induction ws arbitrary: al) (auto simp: delete_conv')

lemma open_unique: "distinct (map fst xs) \<Longrightarrow> q \<in> set xs \<Longrightarrow> r \<in> set xs \<Longrightarrow> fst q = fst r \<Longrightarrow> q = r"
  by (metis distinct_map inj_onD)

lemma settled_fields:
  assumes inv: "dials_inv (P, Q, W, n, d)"
  shows "dials_inv (fold (\<lambda>w. AList.delete (fst (snd w))) (filter (\<lambda>w. fst w = pid) W) P,
    filter (\<lambda>q. fst q \<noteq> pid) Q, filter (\<lambda>w. fst w \<noteq> pid) W, n, d)"
proof -
  let ?gone = "fst ` snd ` set (filter (\<lambda>w. fst w = pid) W)"
  have ds: "distinct (map fst Q)" and less: "\<forall>q \<in> set Q. fst q < n"
    and waits: "\<And>w. w \<in> set W \<Longrightarrow> \<exists>q \<in> set Q. fst q = fst w \<and> fst (snd q) = fst (snd w)"
    and waited: "\<And>q. q \<in> set Q \<Longrightarrow> \<exists>w \<in> set W. fst w = fst q"
    and pending: "\<And>p i. map_of P p = Some i \<Longrightarrow> \<exists>q \<in> set Q. fst q = i \<and> fst (snd q) = p"
    and held: "\<And>q. \<not> d \<Longrightarrow> q \<in> set Q \<Longrightarrow> map_of P (fst (snd q)) = Some (fst q)"
    using inv by (simp_all add: dials_inv.simps)
  have gone: "fst (snd q) \<in> ?gone" if q: "q \<in> set Q" "fst q = pid" for q
  proof -
    obtain w where w: "w \<in> set W" "fst w = pid" using waited q by blast
    then obtain r where r: "r \<in> set Q" "fst r = fst w" "fst (snd r) = fst (snd w)" using waits by blast
    then have "r = q" using open_unique [OF ds] q w(2) by simp
    moreover have "fst (snd w) \<in> ?gone" using w by (intro imageI) simp
    ultimately show ?thesis using r(3) by simp
  qed
  have gone_only: "fst q = pid" if q: "q \<in> set Q" "\<not> d" "fst (snd q) \<in> ?gone" for q
  proof -
    obtain w where w: "w \<in> set W" "fst w = pid" "fst (snd w) = fst (snd q)" using q(3) by auto
    then obtain r where r: "r \<in> set Q" "fst r = fst w" "fst (snd r) = fst (snd w)" using waits by blast
    then have "map_of P (fst (snd r)) = Some (fst r)" "map_of P (fst (snd q)) = Some (fst q)"
      using held q(1,2) by blast+
    then show ?thesis using r w by simp
  qed
  have image: "(\<lambda>w. fst (snd w)) ` set (filter (\<lambda>w. fst w = pid) W) = ?gone" by (simp add: image_image)
  have P: "map_of (fold (\<lambda>w. AList.delete (fst (snd w))) (filter (\<lambda>w. fst w = pid) W) P) k
      = (if k \<in> ?gone then None else map_of P k)" for k
    by (simp only: map_of_fold_delete image)
  have "\<exists>q \<in> set (filter (\<lambda>q. fst q \<noteq> pid) Q). fst q = i \<and> fst (snd q) = k"
    if k: "(if k \<in> ?gone then None else map_of P k) = Some i" for k i
  proof -
    have "k \<notin> ?gone" "map_of P k = Some i" using k by (auto split: if_splits)
    moreover from this obtain q where "q \<in> set Q" "fst q = i" "fst (snd q) = k" using pending by blast
    ultimately show ?thesis using gone by fastforce
  qed
  moreover have "(if fst (snd q) \<in> ?gone then None else map_of P (fst (snd q))) = Some (fst q)"
    if "q \<in> set (filter (\<lambda>q. fst q \<noteq> pid) Q)" "\<not> d" for q
    using that gone_only [of q] held [of q] by (cases "fst (snd q) \<in> ?gone") (simp_all only: if_False if_True, simp_all)
  moreover have "distinct (map fst (filter (\<lambda>q. fst q \<noteq> pid) Q))" using ds by (simp add: distinct_map inj_on_def)
  moreover have "\<forall>w \<in> set (filter (\<lambda>w. fst w \<noteq> pid) W). \<exists>q \<in> set (filter (\<lambda>q. fst q \<noteq> pid) Q). fst q = fst w \<and> fst (snd q) = fst (snd w)"
    using waits by fastforce
  moreover have "\<forall>q \<in> set (filter (\<lambda>q. fst q \<noteq> pid) Q). \<exists>w \<in> set (filter (\<lambda>w. fst w \<noteq> pid) W). fst w = fst q"
    using waited by fastforce
  moreover have "\<forall>q \<in> set (filter (\<lambda>q. fst q \<noteq> pid) Q). fst q < n" using less by simp
  ultimately show ?thesis unfolding dials_inv.simps P by blast
qed

lemma settle_open_dials:
  assumes "dials_ok s"
  shows "dials_ok (settle_open opts pid res s)"
  unfolding settle_open_def Let_def
  by (rule fold_preserves)
    (use settled_fields [of "fz_pendingConnections s"] assms resume_send_dials in \<open>simp_all add: dials_of_def\<close>)

lemma staged_fields:
  assumes "dials_inv (P, Q, W, n, d)" "\<And>q. q \<in> set Q \<Longrightarrow> fst (f q) = fst q \<and> fst (snd (f q)) = fst (snd q)"
  shows "dials_inv (P, map f Q, W, n, d)"
proof -
  have "map fst (map f Q) = map fst Q" using assms(2) by simp
  moreover have "(\<exists>q \<in> set (map f Q). A (fst q) (fst (snd q))) = (\<exists>q \<in> set Q. A (fst q) (fst (snd q)))"
    "(\<forall>q \<in> set (map f Q). A (fst q) (fst (snd q))) = (\<forall>q \<in> set Q. A (fst q) (fst (snd q)))" for A
    using assms(2) by auto
  ultimately show ?thesis using assms(1) assms(2) unfolding dials_inv.simps by (simp del: map_map)
qed

lemma event_dials:
  assumes "dials_ok s"
  shows "dials_ok (client_event opts z ev s)"
proof (cases ev)
  case (EvNode pid ok)
  have "dials_ok (s\<lparr>fz_opens := map (\<lambda>q. if fst q = pid then (pid, p, AwaitBi) else q) (fz_opens s)\<rparr>)"
    if "map_of (fz_opens s) pid = Some (p, st)" for p st
  proof -
    have d: "distinct (map fst (fz_opens s))" using assms by (simp add: dials_simps)
    have "fst (snd q) = p" if "q \<in> set (fz_opens s)" "fst q = pid" for q
      using open_unique [OF d that(1) map_of_SomeD [OF \<open>map_of (fz_opens s) pid = Some (p, st)\<close>]] that(2) by simp
    then show ?thesis
      using staged_fields [of "fz_pendingConnections s" "fz_opens s" "fz_waiting s" "fz_nextOpen s" "fz_destroyed s"
          "\<lambda>q. if fst q = pid then (pid, p, AwaitBi) else q"] assms
      by (simp add: dials_of_def)
  qed
  then show ?thesis using EvNode assms settle_open_dials
    by (auto simp: client_event_def split: option.split prod.split open_stage.split)
next
  case (EvOpened pid ok)
  have "dials_ok (settle_open opts pid (Some i) (loop_head p i (s\<lparr>fz_nextStream := n, fz_streams := al\<rparr>)))" for p i n al
    by (rule settle_open_dials) (use assms in \<open>simp, simp add: dials_of_def\<close>)
  then show ?thesis using EvOpened assms settle_open_dials
    by (auto simp: client_event_def opened_def Let_def split: option.split prod.split open_stage.split)
next
  case (EvIncoming p)
  then show ?thesis using assms
    by (simp add: client_event_def handleIncomingStream_def Let_def split: option.split) (simp add: dials_of_def)
next
  case (EvStart ps)
  have "dials_ok (tick opts ps (stopHeartbeat s))"
    by (rule tick_dials) (use assms in \<open>simp add: stopHeartbeat_def dials_of_def\<close>)
  then show ?thesis using EvStart by (simp add: client_event_def startHeartbeat_def dials_of_def)
next
  case (EvWritten i ok)
  have "dials_ok (send_settled opts c ok (s\<lparr>fz_writes := ws\<rparr>))" for c ws
    by (rule send_settled_dials) (use assms in \<open>simp add: dials_of_def\<close>)
  then show ?thesis using EvWritten assms by (simp add: client_event_def)
next
  case (EvRead i res)
  have "dials_of (on_read opts z sid p res s) = dials_of s" for sid p
    by (cases res) (simp_all add: on_read_def Let_def, simp_all add: dials_of_def)
  then show ?thesis using EvRead assms by (simp add: client_event_def split: prod.split)
next
  case EvDestroy
  then show ?thesis using assms by (simp add: client_event_def destroy_def Let_def stopHeartbeat_def dials_simps)
next
  case EvAnnounce
  have "dials_ok (announceOffline opts s)"
    unfolding announceOffline_def by (rule fold_preserves) (simp_all add: assms sendMessage_dials)
  then show ?thesis using EvAnnounce by (simp add: client_event_def)
qed (use assms sendMessage_dials tick_dials in \<open>auto simp: client_event_def\<close>, (simp add: stopHeartbeat_def dials_of_def)+)

lemma run_dials: "dials_ok (client_run opts z evs)"
  by (rule run_invariant [where P = dials_ok]) (simp_all add: event_dials, simp add: new_client_def dials_simps)

section \<open>Reports\<close>

text \<open>Whether the last report about a peer said online; offline is only reported of such peers.\<close>

definition reported_online :: "node_id \<Rightarrow> (node_id \<times> bool) list \<Rightarrow> bool" where
  "reported_online p rs = (case filter (\<lambda>r. fst r = p) (rev rs) of [] \<Rightarrow> False | r # _ \<Rightarrow> snd r)"

definition offline_after_online :: "(node_id \<times> bool) list \<Rightarrow> bool" where
  "offline_after_online rs = (\<forall>us p vs. rs = us @ (p, False) # vs \<longrightarrow> reported_online p us)"

lemma reported_snoc: "reported_online p (rs @ [(q, b)]) = (if p = q then b else reported_online p rs)"
  by (simp add: reported_online_def)

lemma offline_snoc: "offline_after_online (rs @ [(q, b)]) \<longleftrightarrow> offline_after_online rs \<and> (b \<or> reported_online q rs)"
proof -
  have "rs @ [(q, b)] = us @ (p, False) # vs \<longleftrightarrow>
      (vs = [] \<and> us = rs \<and> p = q \<and> \<not> b) \<or> (\<exists>ws. vs = ws @ [(q, b)] \<and> rs = us @ (p, False) # ws)" for us p vs
    by (cases vs rule: rev_cases) auto
  then show ?thesis unfolding offline_after_online_def by auto
qed

fun online_inv :: "(node_id \<times> nat) list \<times> (node_id \<times> bool) list \<times> bool \<Rightarrow> bool" where
  "online_inv (lastSeen, reports, destroyed) =
     (offline_after_online reports \<and> (\<forall>p. map_of lastSeen p \<noteq> None \<longrightarrow> reported_online p reports)
     \<and> (\<not> destroyed \<longrightarrow> (\<forall>p. reported_online p reports \<longrightarrow> map_of lastSeen p \<noteq> None)))"

declare online_inv.simps [simp del]

abbreviation online_ok :: "friendz_client \<Rightarrow> bool" where
  "online_ok s \<equiv> online_inv (online_of s)"

lemmas online_simps = online_inv.simps online_of_def

lemma markOnline_online: "online_ok s \<Longrightarrow> online_ok (markOnline opts p s)"
  by (auto simp: online_simps markOnline_def emitOnlineChange_def isOnline_def Let_def update_conv' reported_snoc offline_snoc
      split: option.splits)

lemma markOffline_online: "online_ok s \<Longrightarrow> online_ok (markOffline p s)"
  by (auto simp: online_simps markOffline_def emitOnlineChange_def delete_conv' reported_snoc offline_snoc)

lemma send_settled_online: "online_ok s \<Longrightarrow> online_ok (send_settled opts c ok s)"
  by (simp add: send_settled_def markOffline_online split: send_caller.split option.split)

lemma resume_send_online: "online_ok s \<Longrightarrow> online_ok (resume_send opts res w s)"
  by (simp add: resume_send_def send_settled_online split: prod.split option.split)

lemma settle_open_online: "online_ok s \<Longrightarrow> online_ok (settle_open opts pid res s)"
  unfolding settle_open_def Let_def
  by (rule fold_preserves) (simp_all add: resume_send_online, simp add: online_of_def)

lemma handle_data_online: "online_ok s \<Longrightarrow> online_ok (handle_data opts z p d s)"
  by (simp add: handle_data_def Let_def markOnline_online markOffline_online split: sum.split option.split)

lemma on_read_online:
  assumes "online_ok s"
  shows "online_ok (on_read opts z sid p res s)"
proof -
  have "online_ok (s\<lparr>fz_loops := l\<rparr>)" for l using assms by (simp add: online_of_def)
  then show ?thesis
    by (cases res) (simp_all add: on_read_def Let_def handle_data_online markOffline_online)
qed

lemma event_online:
  assumes "online_ok s"
  shows "online_ok (client_event opts z ev s)"
proof (cases ev)
  case (EvNode pid ok)
  then show ?thesis using assms settle_open_online
    by (auto simp: client_event_def split: option.split prod.split open_stage.split) (simp add: online_of_def)
next
  case (EvOpened pid ok)
  have "online_ok (settle_open opts pid (Some i) (loop_head p i (s\<lparr>fz_nextStream := n, fz_streams := al\<rparr>)))" for p i n al
    by (rule settle_open_online) (use assms in \<open>simp, simp add: online_of_def\<close>)
  then show ?thesis using EvOpened assms settle_open_online
    by (auto simp: client_event_def opened_def Let_def split: option.split prod.split open_stage.split)
next
  case (EvIncoming p)
  then show ?thesis using assms
    by (simp add: client_event_def handleIncomingStream_def Let_def split: option.split) (simp add: online_of_def)
next
  case (EvStart ps)
  have "online_of (startHeartbeat opts ps s) = online_of (tick opts ps (stopHeartbeat s))"
    by (simp add: startHeartbeat_def online_of_def)
  then show ?thesis using EvStart assms by (simp add: client_event_def) (simp add: stopHeartbeat_def online_of_def)
next
  case (EvWritten i ok)
  have "online_ok (send_settled opts c ok (s\<lparr>fz_writes := ws\<rparr>))" for c ws
    by (rule send_settled_online) (use assms in \<open>simp add: online_of_def\<close>)
  then show ?thesis using EvWritten assms by (simp add: client_event_def)
next
  case (EvRead i res)
  then show ?thesis using assms on_read_online by (simp add: client_event_def split: prod.split)
next
  case EvDestroy
  then show ?thesis using assms by (simp add: client_event_def destroy_def Let_def stopHeartbeat_def online_simps)
qed (use assms in \<open>auto simp: client_event_def\<close>, (simp add: stopHeartbeat_def online_of_def)+)

lemma run_online: "online_ok (client_run opts z evs)"
  by (rule run_invariant [where P = online_ok])
    (simp_all add: event_online, simp add: new_client_def online_simps offline_after_online_def reported_online_def)

end
