(* ===== verification/PresenceClaims.thy ===== *)
theory PresenceClaims
  imports PresenceProps
begin

text \<open>
  What the presence client promises in every run of user calls, transport events and clock: no stream handle
  is lost, one connection attempt per peer, coherent online reports. And where it can be misled.
\<close>

text \<open>C17: 
  In every run each stream the client was handed is either closed or still being read by exactly one loop;
  the stream a send to a peer uses is one that is read for that peer and was not closed; and after
  \<open>destroy\<close> the client keeps no stream.
\<close>

theorem fz_streams_live:
  assumes s: "s = client_run opts z evs"
  shows "distinct (map fst (fz_loops s))
    \<and> {..<fz_nextStream s} = set (closed_of (fz_log s)) \<union> fst ` set (fz_loops s)
    \<and> (\<forall>p sid. map_of (fz_streams s) p = Some sid \<longrightarrow> (sid, p) \<in> set (fz_loops s) \<and> sid \<notin> set (closed_of (fz_log s)))
    \<and> (fz_destroyed s \<longrightarrow> fz_streams s = [])"
  using run_streams [of opts z evs, folded s] by (auto simp: streams_of_def streams_inv.simps)

text \<open>
  Until it is destroyed the client never opens two connections to one peer at a time: the opens under way
  have different peers, \<open>pendingConnections\<close> is exactly their table, and every send that waits is waiting for
  the open of its own peer.
\<close>

theorem fz_single_dial:
  assumes s: "s = client_run opts z evs" and live: "\<not> fz_destroyed s"
  shows "distinct (map (\<lambda>q. fst (snd q)) (fz_opens s))
    \<and> (\<forall>p pid. map_of (fz_pendingConnections s) p = Some pid \<longleftrightarrow> (\<exists>stage. (pid, p, stage) \<in> set (fz_opens s)))
    \<and> (\<forall>(pid, p, m, c) \<in> set (fz_waiting s). map_of (fz_pendingConnections s) p = Some pid)"
proof -
  have inv: "distinct (map fst (fz_opens s))" "\<And>q. q \<in> set (fz_opens s) \<Longrightarrow> map_of (fz_pendingConnections s) (fst (snd q)) = Some (fst q)"
    "\<And>w. w \<in> set (fz_waiting s) \<Longrightarrow> \<exists>q \<in> set (fz_opens s). fst q = fst w \<and> fst (snd q) = fst (snd w)"
    "\<And>p pid. map_of (fz_pendingConnections s) p = Some pid \<Longrightarrow> \<exists>q \<in> set (fz_opens s). fst q = pid \<and> fst (snd q) = p"
    using run_dials [of opts z evs, folded s] live by (simp_all add: dials_simps)
  have "inj_on (\<lambda>q. fst (snd q)) (set (fz_opens s))"
    by (rule inj_onI) (metis inv(1,2) open_unique option.inject)
  moreover have "distinct (fz_opens s)" using inv(1) by (simp add: distinct_map)
  ultimately have "distinct (map (\<lambda>q. fst (snd q)) (fz_opens s))" by (simp add: distinct_map)
  moreover have "\<exists>stage. (pid, p, stage) \<in> set (fz_opens s)" if "map_of (fz_pendingConnections s) p = Some pid" for p pid
    using inv(4) [OF that] by (metis prod.collapse)
  moreover have held: "map_of (fz_pendingConnections s) p = Some pid" if "(pid, p, stage) \<in> set (fz_opens s)" for p pid stage
    using inv(2) [OF that] by simp
  moreover have "map_of (fz_pendingConnections s) p = Some pid" if w: "(pid, p, m, c) \<in> set (fz_waiting s)" for pid p m c
  proof -
    obtain q where "q \<in> set (fz_opens s)" "fst q = pid" "fst (snd q) = p" using inv(3) [OF w] by auto
    then show ?thesis using inv(2) by fastforce
  qed
  ultimately show ?thesis by blast
qed

text \<open>
  A peer is reported offline only when its last report said online, and until the client is destroyed the
  peers whose last report said online are exactly those it keeps a last-seen time of.
\<close>

theorem fz_reports:
  assumes s: "s = client_run opts z evs"
  shows "(\<forall>us p vs. reports_of (fz_log s) = us @ (p, False) # vs \<longrightarrow> reported_online p us)
    \<and> (\<not> fz_destroyed s \<longrightarrow> {p. reported_online p (reports_of (fz_log s))} = dom (map_of (fz_lastSeen s)))
    \<and> (\<forall>p \<in> set (getOnlinePeers opts s). reported_online p (reports_of (fz_log s)))"
proof -
  have inv: "offline_after_online (reports_of (fz_log s))"
    "\<And>p. map_of (fz_lastSeen s) p \<noteq> None \<Longrightarrow> reported_online p (reports_of (fz_log s))"
    "\<And>p. \<not> fz_destroyed s \<Longrightarrow> reported_online p (reports_of (fz_log s)) \<Longrightarrow> map_of (fz_lastSeen s) p \<noteq> None"
    using run_online [of opts z evs, folded s] by (simp_all add: online_simps)
  have "map_of (fz_lastSeen s) p \<noteq> None" if "p \<in> set (getOnlinePeers opts s)" for p
    using that unfolding getOnlinePeers_def map_of_eq_None_iff by auto
  then show ?thesis using inv by (auto simp: offline_after_online_def)
qed

section \<open>Where the client can be misled\<close>

lemma announcement_ok:
  assumes "zod z" "wf_text b"
  shows "decodeMessage z (encodeMessage (offlineAnnouncementMessage b)) = Inr (offlineAnnouncementMessage b)"
proof (rule decode_encode [OF assms(1)])
  have lit: "literal_short [49]" "literal_nat [49]"
    by (simp_all add: literal_short_def literal_nat_def literal_parts_def digit_def digits_value_def exponent_value_def)
  show "message_ok z (offlineAnnouncementMessage b)"
    using assms lit
    by (simp add: offlineAnnouncementMessage_def CoreMessageSchema_def core_schemas_def message_schemas disc_branch_def
        member_def wireVersion_def utext_def zod.z_disc zod.z_obj zod.z_scalar zod.z_nat high_surrogate_def json_number_def
        json_fraction_def digit_def)
qed

lemma announcement_fields:
  "core_string ''type'' (offlineAnnouncementMessage b) = Some (utext ''offline-announcement'')"
  "core_string ''nodeId'' (offlineAnnouncementMessage b) = Some b"
  "utext ''offline-announcement'' \<noteq> utext ''heartbeat''"
  by (simp_all add: core_string_def offlineAnnouncementMessage_def member_def utext_def)

lemma insert_remove1: "x \<in> set xs \<Longrightarrow> insert x (set (remove1 x xs)) = set xs"
  by (induction xs) auto

text \<open>
  An offline announcement is believed whoever sends it: any peer with a stream can have any other peer
  reported offline and dropped from the online peers, although that peer's own stream is untouched.
\<close>

theorem fz_offline_spoof:
  assumes "zod z" "wf_text b" "map_of (fz_lastSeen s) b \<noteq> None" "i < length (fz_loops s)" "fz_loops s ! i = (sid, a)"
    and "a \<noteq> b" "\<not> fz_destroyed s"
    and t: "t = client_event opts z (EvRead i (ReadData (encodeMessage (offlineAnnouncementMessage b)))) s"
  shows "reports_of (fz_log t) = reports_of (fz_log s) @ [(b, False)] \<and> b \<notin> set (getOnlinePeers opts t)
    \<and> \<not> isOnline opts b t \<and> fz_streams t = fz_streams s \<and> set (fz_loops t) = set (fz_loops s)"
proof -
  define u where "u = s\<lparr>fz_loops := remove1 (sid, a) (fz_loops s)\<rparr>"
  define v where "v = handle_data opts z a (encodeMessage (offlineAnnouncementMessage b)) u"
  have u: "map_of (fz_lastSeen u) b \<noteq> None" "fz_log u = fz_log s" using assms(3) by (simp_all add: u_def)
  have v: "online_of v = (AList.delete b (fz_lastSeen s), reports_of (fz_log s) @ [(b, False)], fz_destroyed s)"
    using u by (auto simp: v_def handle_data_def announcement_ok [OF assms(1,2)] announcement_fields Let_def markOffline_def
        emitOnlineChange_def online_of_def u_def)
  have "streams_of v = streams_of u" by (simp add: v_def)
  then have w: "\<not> fz_destroyed v" "fz_streams v = fz_streams s" "fz_loops v = remove1 (sid, a) (fz_loops s)"
    using assms(7) by (simp_all add: streams_of_def u_def)
  have t': "t = loop_head a sid v"
    using assms(4,5) by (simp add: t client_event_def on_read_def Let_def v_def u_def)
  have "online_of t = online_of v" by (simp add: t')
  then have o: "fz_lastSeen t = AList.delete b (fz_lastSeen s)" "reports_of (fz_log t) = reports_of (fz_log s) @ [(b, False)]"
    using v by (simp_all add: online_of_def)
  have "set (fz_loops t) = set (fz_loops s)"
    using w insert_remove1 [of "(sid, a)" "fz_loops s"] nth_mem [OF assms(4)] assms(5) by (simp add: t' loop_head_def)
  moreover have "b \<notin> set (getOnlinePeers opts t)" by (auto simp: getOnlinePeers_def o(1) AList.delete_eq)
  moreover have "\<not> isOnline opts b t" by (simp add: isOnline_def o(1) delete_conv')
  ultimately show ?thesis using o(2) w by (simp add: t' loop_head_def)
qed

text \<open>
  When a peer connects while the client is dialing it, the dialed stream takes the place of the incoming one
  without closing it: nothing the client does later, not even \<open>destroy\<close>, closes that stream, and its read
  loop stays until the other side ends it.
\<close>

theorem fz_dial_orphan:
  assumes s: "s = client_run opts z evs" and "\<not> fz_destroyed s"
    and "map_of (fz_opens s) pid = Some (p, AwaitBi)" "map_of (fz_streams s) p = Some old"
    and t: "t = client_run opts z (evs @ [EvOpened pid True, EvDestroy])"
  shows "fz_destroyed t \<and> old \<notin> set (closed_of (fz_log t)) \<and> (old, p) \<in> set (fz_loops t)"
proof -
  define n where "n = fz_nextStream s"
  define u where "u = opened opts pid p s"
  have "streams_inv (streams_of s)" using run_streams s by simp
  then have inv: "distinct (map fst (fz_loops s))" "\<And>q i. map_of (fz_streams s) q = Some i \<Longrightarrow> (i, q) \<in> set (fz_loops s)"
    "old \<notin> set (closed_of (fz_log s))" "old < n" "distinct (map fst (fz_streams s))"
    using assms(4) by (auto simp: streams_of_def streams_inv.simps n_def) fastforce
  have u: "streams_of u = (AList.update p n (fz_streams s), fz_loops s @ [(n, p)], Suc n, False, closed_of (fz_log s))"
    using assms(2) by (simp add: u_def opened_def Let_def streams_of_head n_def)
  have "client_event opts z (EvOpened pid True) s = u"
    using assms(3) by (simp add: client_event_def u_def)
  then have t': "t = destroy u" by (simp add: t s client_run_def client_event_def)
  have "old \<notin> snd ` set (AList.update p n (fz_streams s))"
  proof
    assume "old \<in> snd ` set (AList.update p n (fz_streams s))"
    then obtain q where "(q, old) \<in> set (AList.update p n (fz_streams s))" by auto
    then have "map_of (AList.update p n (fz_streams s)) q = Some old"
      using inv(5) by (simp add: distinct_update map_of_is_SomeI)
    then have "q \<noteq> p" "map_of (fz_streams s) q = Some old" using inv(4) by (auto simp: update_conv' split: if_splits)
    then show False using inv(2) assms(4) loops_unique [OF inv(1)] by metis
  qed
  moreover have "fz_streams u = AList.update p n (fz_streams s)" "fz_loops u = fz_loops s @ [(n, p)]"
    "closed_of (fz_log u) = closed_of (fz_log s)" using u by (simp_all add: streams_of_def)
  ultimately show ?thesis using inv assms(4) by (simp add: t' destroy_def stopHeartbeat_def Let_def)
qed

section \<open>Witnesses\<close>

definition demo_options :: friendz_options where
  "demo_options = \<lparr>fo_alpn = ''freqhole-friendz/1'', fo_localNodeId = utext ''me'', fo_localUsername = utext ''u'',
     fo_heartbeatTimeoutMs = 90000, fo_onMessage_throws = (\<lambda>_ _. False)\<rparr>"

lemma heartbeat_ok:
  assumes "zod z" "wf_text a" "wf_text b"
  shows "decodeMessage z (encodeMessage (heartbeatMessage a b)) = Inr (heartbeatMessage a b)"
proof (rule decode_encode [OF assms(1)])
  have lit: "literal_short [49]" "literal_nat [49]"
    by (simp_all add: literal_short_def literal_nat_def literal_parts_def digit_def digits_value_def exponent_value_def)
  show "message_ok z (heartbeatMessage a b)"
    using assms lit
    by (simp add: heartbeatMessage_def CoreMessageSchema_def core_schemas_def message_schemas disc_branch_def
        member_def wireVersion_def utext_def zod.z_disc zod.z_obj zod.z_scalar zod.z_nat high_surrogate_def json_number_def
        json_fraction_def digit_def)
qed

text \<open>Two peers connect and the first sends a heartbeat; a third is being dialed while it connects.\<close>

definition demo_events :: "client_event list" where
  "demo_events = [EvIncoming [98], EvIncoming [99], EvRead 0 (ReadData (encodeMessage (heartbeatMessage [98] [98]))),
     EvSend [100] (heartbeatMessage [97] [97]) 0, EvNode 0 True, EvIncoming [100]]"

lemmas client_defs = client_run_def demo_events_def new_client_def client_event_def handleIncomingStream_def loop_head_def
  on_read_def sendMessage_def openStream_def markOnline_def isOnline_def emitOnlineChange_def

lemma heartbeat_fields:
  "core_string ''type'' (heartbeatMessage a b) = Some (utext ''heartbeat'')"
  by (simp add: core_string_def heartbeatMessage_def member_def utext_def)

lemma handle_heartbeat:
  "wf_text a \<Longrightarrow> wf_text b \<Longrightarrow> handle_data demo_options zod_ref p (encodeMessage (heartbeatMessage a b)) s
    = log_call (OnMessage (heartbeatMessage a b) p) (markOnline demo_options p s)"
  using announcement_fields(3) [symmetric]
  by (simp add: handle_data_def heartbeat_ok [OF zref.zod_axioms] heartbeat_fields demo_options_def Let_def)

lemma demo_run:
  "client_run demo_options zod_ref demo_events =
     \<lparr>fz_streams = [([98], 0), ([99], 1), ([100], 2)], fz_pendingConnections = [([100], 0)], fz_lastSeen = [([98], 0)],
      fz_listeners = [], fz_heartbeatTimer = False, fz_destroyed = False, fz_loops = [(1, [99]), (0, [98]), (2, [100])],
      fz_opens = [(0, [100], AwaitBi)], fz_waiting = [(0, [100], heartbeatMessage [97] [97], UserSend 0)], fz_writes = [],
      fz_now = 0, fz_nextStream = 3, fz_nextOpen = 1,
      fz_log = [PeerBecameOnline [98], OnMessage (heartbeatMessage [98] [98]) [98], OpenBi 0 [100] ''freqhole-friendz/1'']\<rparr>"
  by (simp add: client_defs handle_heartbeat Let_def) (simp add: demo_options_def)

theorem fz_streams_live_witness:
  "{..<3 :: nat} = set (closed_of (fz_log (client_run demo_options zod_ref demo_events)))
      \<union> fst ` set (fz_loops (client_run demo_options zod_ref demo_events))"
  using fz_streams_live [OF refl, of demo_options zod_ref demo_events] by (simp add: demo_run)

theorem fz_single_dial_witness:
  "distinct (map (\<lambda>q. fst (snd q)) (fz_opens (client_run demo_options zod_ref demo_events)))
    \<and> map_of (fz_pendingConnections (client_run demo_options zod_ref demo_events)) [100] = Some 0"
  using fz_single_dial [OF refl, of demo_options zod_ref demo_events] by (simp add: demo_run)

theorem fz_reports_witness:
  "{p. reported_online p (reports_of (fz_log (client_run demo_options zod_ref demo_events)))} = {[98]}"
  using fz_reports [OF refl, of demo_options zod_ref demo_events] by (simp add: demo_run)

theorem fz_offline_spoof_witness:
  "\<not> isOnline demo_options [98] (client_event demo_options zod_ref
      (EvRead 0 (ReadData (encodeMessage (offlineAnnouncementMessage [98])))) (client_run demo_options zod_ref demo_events))"
  using fz_offline_spoof [OF zref.zod_axioms, where b = "[98]" and i = 0 and sid = 1 and a = "[99]"
      and s = "client_run demo_options zod_ref demo_events" and opts = demo_options, OF _ _ _ _ _ _ refl]
  by (simp add: demo_run)

theorem fz_dial_orphan_witness:
  "(2, [100]) \<in> set (fz_loops (client_run demo_options zod_ref (demo_events @ [EvOpened 0 True, EvDestroy])))"
  using fz_dial_orphan [OF refl, of demo_options zod_ref demo_events 0 "[100]" 2, OF _ _ _ refl] by (simp add: demo_run)

end
