(* ===== verification/PlayerTrust.thy ===== *)
theory PlayerTrust
  imports ObjectStore JsText
begin

text \<open>
  Which controllers a player trusts: \<open>cenotaph/pairing/trustStore.ts\<close>, its interface as a record of
  operations with the locale \<open>controller_trust\<close> as contract, and the default store over IndexedDB. Node ids
  are strings, display names the text a controller sent. \<open>trustController\<close> is given the clock and an
  identifier nobody uses, for the implementations that need one.
\<close>

datatype peer_role = PAdmin | PMember | PViewer

primrec ROLE_LEVEL :: "peer_role \<Rightarrow> nat" where
  "ROLE_LEVEL PAdmin = 10"
| "ROLE_LEVEL PMember = 20"
| "ROLE_LEVEL PViewer = 30"

record trusted_controller =
  tc_node_id :: string
  tc_display_name :: jstext
  tc_role :: peer_role
  tc_paired_at :: int

record 's trust_store =
  ts_isTrustedController :: "string \<Rightarrow> 's \<Rightarrow> bool"
  ts_getTrustedController :: "string \<Rightarrow> 's \<Rightarrow> trusted_controller option"
  ts_trustController :: "int \<Rightarrow> string \<Rightarrow> string \<Rightarrow> jstext \<Rightarrow> peer_role \<Rightarrow> 's \<Rightarrow> 's"
  ts_forgetController :: "string \<Rightarrow> 's \<Rightarrow> 's"
  ts_listTrustedControllers :: "'s \<Rightarrow> trusted_controller list"

section \<open>The contract\<close>

locale controller_trust =
  fixes T :: "'s trust_store"
    and ok :: "'s \<Rightarrow> bool"
    and unused :: "string \<Rightarrow> 's \<Rightarrow> bool"
  assumes trusted_iff: "ok s \<Longrightarrow> ts_isTrustedController T n s \<longleftrightarrow> ts_getTrustedController T n s \<noteq> None"
    and get_node: "ok s \<Longrightarrow> ts_getTrustedController T n s = Some c \<Longrightarrow> tc_node_id c = n"
    and trust_get: "ok s \<Longrightarrow> \<exists>t. ts_getTrustedController T n (ts_trustController T now u n d r s) =
          Some \<lparr>tc_node_id = n, tc_display_name = d, tc_role = r, tc_paired_at = t\<rparr>"
    and trust_keeps: "ok s \<Longrightarrow> ts_isTrustedController T m s \<Longrightarrow> ts_isTrustedController T m (ts_trustController T now u n d r s)"
    and trust_only: "ok s \<Longrightarrow> unused u s \<Longrightarrow> ts_isTrustedController T m (ts_trustController T now u n d r s) \<Longrightarrow>
          m = n \<or> ts_isTrustedController T m s"
    and forget_gone: "ok s \<Longrightarrow> \<not> ts_isTrustedController T n (ts_forgetController T n s)"
    and forget_only: "ok s \<Longrightarrow> ts_isTrustedController T m (ts_forgetController T n s) \<Longrightarrow> ts_isTrustedController T m s"
    and list_iff: "ok s \<Longrightarrow> c \<in> set (ts_listTrustedControllers T s) \<longleftrightarrow> ts_getTrustedController T (tc_node_id c) s = Some c"
    and ok_trust: "ok s \<Longrightarrow> ok (ts_trustController T now u n d r s)"
    and ok_forget: "ok s \<Longrightarrow> ok (ts_forgetController T n s)"
begin

lemma trust_trusted: "ok s \<Longrightarrow> ts_isTrustedController T n (ts_trustController T now u n d r s)"
  using trust_get [of s n now u d r] by (auto simp: trusted_iff ok_trust)

lemma list_Nil_iff: "ok s \<Longrightarrow> ts_listTrustedControllers T s = [] \<longleftrightarrow> (\<forall>n. \<not> ts_isTrustedController T n s)"
proof -
  assume ok: "ok s"
  have "ts_listTrustedControllers T s \<noteq> []" if "ts_getTrustedController T n s = Some c" for n c
    using list_iff [OF ok, of c] get_node [OF ok that] that by auto
  moreover have "\<exists>n. ts_getTrustedController T n s \<noteq> None" if "ts_listTrustedControllers T s \<noteq> []"
    using list_iff [OF ok, of "hd (ts_listTrustedControllers T s)"] that by auto
  ultimately show ?thesis unfolding trusted_iff [OF ok] by blast
qed

end

text \<open>A store in which what happens to one controller leaves every other one alone.\<close>

locale isolated_trust = controller_trust +
  assumes trust_frame: "ok s \<Longrightarrow> m \<noteq> n \<Longrightarrow>
      ts_getTrustedController T m (ts_trustController T now u n d r s) = ts_getTrustedController T m s"
    and forget_frame: "ok s \<Longrightarrow> m \<noteq> n \<Longrightarrow> ts_getTrustedController T m (ts_forgetController T n s) = ts_getTrustedController T m s"
begin

lemma role_stable: "ok s \<Longrightarrow> m \<noteq> n \<Longrightarrow>
    map_option tc_role (ts_getTrustedController T m (ts_trustController T now u n d r s)) =
    map_option tc_role (ts_getTrustedController T m s)"
  by (simp add: trust_frame)

end

section \<open>The default store\<close>

definition createIdbTrustStore :: "trusted_controller list trust_store" where
  "createIdbTrustStore =
     \<lparr>ts_isTrustedController = \<lambda>n s. idb_get tc_node_id n s \<noteq> None,
      ts_getTrustedController = idb_get tc_node_id,
      ts_trustController = \<lambda>now u n d r s.
        idb_put tc_node_id \<lparr>tc_node_id = n, tc_display_name = d, tc_role = r, tc_paired_at = now\<rparr> s,
      ts_forgetController = idb_delete tc_node_id,
      ts_listTrustedControllers = \<lambda>s. s\<rparr>"

interpretation idb_trust: isolated_trust createIdbTrustStore "idb_ok tc_node_id" "\<lambda>_ _. True"
  by unfold_locales
    (auto simp: createIdbTrustStore_def idb.get_put idb.get_del idb.ok_put idb.ok_del idb.get_iff_row split: if_splits)

end
