(* ===== verification/PlayerSession.thy ===== *)
theory PlayerSession
  imports PlayerTrust
begin

text \<open>
  The player's session and the brake on guessing its pin: \<open>cenotaph/pairing/rateLimiter.ts\<close>, \<open>pin.ts\<close> and
  \<open>playerSession.ts\<close>. \<open>Date.now()\<close> and the random bytes are arguments. A session operation that saves what it
  returns is the function that computes it; the machine of \<open>PlayerMachine\<close> saves it at the await.
\<close>

section \<open>Rate limiter\<close>

definition MAX_ATTEMPTS :: nat where
  "MAX_ATTEMPTS = 5"

definition WINDOW_MS :: int where
  "WINDOW_MS = 60000"

type_synonym failures = "string \<rightharpoonup> int list"

definition recent_failures :: "int \<Rightarrow> int list \<Rightarrow> int list" where
  "recent_failures now fs = filter (\<lambda>ts. ts > now - WINDOW_MS) fs"

definition isRateLimited :: "int \<Rightarrow> string \<Rightarrow> failures \<Rightarrow> bool \<times> failures" where
  "isRateLimited now n m =
     (case m n of
        None \<Rightarrow> (False, m)
      | Some fs \<Rightarrow> (length (recent_failures now fs) \<ge> MAX_ATTEMPTS, m(n \<mapsto> recent_failures now fs)))"

definition recordPairingFailure :: "int \<Rightarrow> string \<Rightarrow> failures \<Rightarrow> failures" where
  "recordPairingFailure now n m = m(n \<mapsto> nullish_or (m n) [] @ [now])"

definition clearPairingFailures :: "string \<Rightarrow> failures \<Rightarrow> failures" where
  "clearPairingFailures n m = m(n := None)"

section \<open>Pins\<close>

definition PIN_LENGTH :: nat where
  "PIN_LENGTH = 6"

definition generatePin :: "nat list \<Rightarrow> jstext" where
  "generatePin bytes = map (\<lambda>b. 48 + b mod 10) (take PIN_LENGTH bytes)"

definition isValidPinFormat :: "jstext \<Rightarrow> bool" where
  "isValidPinFormat c = (length c = 6 \<and> list_all (\<lambda>d. 48 \<le> d \<and> d \<le> 57) c)"

section \<open>Sessions\<close>

datatype session_mode = Everyone | Selected

record player_session =
  ps_pin :: jstext
  ps_mode :: session_mode
  ps_allowed_node_ids :: "string list"
  ps_admin_grant_pending :: bool
  ps_last_active_at :: int

definition SESSION_IDLE_MS :: int where
  "SESSION_IDLE_MS = 60 * 60 * 1000"

definition freshSession :: "int \<Rightarrow> nat list \<Rightarrow> player_session" where
  "freshSession now bytes =
     \<lparr>ps_pin = generatePin bytes, ps_mode = Selected, ps_allowed_node_ids = [], ps_admin_grant_pending = False,
      ps_last_active_at = now\<rparr>"

text \<open>The session to go on with, and whether it has to be saved first.\<close>

definition ensureActiveSession :: "int \<Rightarrow> nat list \<Rightarrow> player_session option \<Rightarrow> player_session \<times> bool" where
  "ensureActiveSession now bytes stored =
     (case stored of
        None \<Rightarrow> (freshSession now bytes, True)
      | Some s \<Rightarrow>
          if now - ps_last_active_at s > SESSION_IDLE_MS
          then (s\<lparr>ps_pin := generatePin bytes, ps_allowed_node_ids := [], ps_admin_grant_pending := False,
                  ps_last_active_at := now\<rparr>, True)
          else (s, False))"

definition touchSession :: "int \<Rightarrow> player_session \<Rightarrow> player_session" where
  "touchSession now s = s\<lparr>ps_last_active_at := now\<rparr>"

definition isPeerAllowedInSession :: "player_session \<Rightarrow> string \<Rightarrow> peer_role option \<Rightarrow> bool" where
  "isPeerAllowedInSession s n role = (role = Some PAdmin \<or> ps_mode s = Everyone \<or> n \<in> set (ps_allowed_node_ids s))"

definition joinSession :: "int \<Rightarrow> string \<Rightarrow> player_session \<Rightarrow> player_session" where
  "joinSession now n s =
     s\<lparr>ps_allowed_node_ids := (if n \<in> set (ps_allowed_node_ids s) then ps_allowed_node_ids s else ps_allowed_node_ids s @ [n]),
       ps_admin_grant_pending := False, ps_last_active_at := now\<rparr>"

definition setSessionMode :: "int \<Rightarrow> session_mode \<Rightarrow> player_session \<Rightarrow> player_session" where
  "setSessionMode now mode s = s\<lparr>ps_mode := mode, ps_last_active_at := now\<rparr>"

definition leaveSession :: "int \<Rightarrow> string \<Rightarrow> player_session \<Rightarrow> player_session" where
  "leaveSession now n s =
     s\<lparr>ps_allowed_node_ids := filter (\<lambda>i. i \<noteq> n) (ps_allowed_node_ids s), ps_last_active_at := now\<rparr>"

definition regenerateAdminPin :: "int \<Rightarrow> nat list \<Rightarrow> player_session \<Rightarrow> player_session" where
  "regenerateAdminPin now bytes s =
     s\<lparr>ps_pin := generatePin bytes, ps_admin_grant_pending := True, ps_last_active_at := now\<rparr>"

definition regenerateSessionPin :: "int \<Rightarrow> nat list \<Rightarrow> player_session \<Rightarrow> player_session" where
  "regenerateSessionPin now bytes s = s\<lparr>ps_pin := generatePin bytes, ps_last_active_at := now\<rparr>"

text \<open>
  The default session store keeps the one session under a fixed key, so its state is the session or nothing;
  spume's own (\<open>adapters/playerSessionAdapter.ts\<close>) does the same in its database.
\<close>

definition loadSession :: "player_session option \<Rightarrow> player_session option" where
  "loadSession stored = stored"

definition saveSession :: "player_session \<Rightarrow> player_session option \<Rightarrow> player_session option" where
  "saveSession s stored = Some s"

section \<open>Properties\<close>

lemma generatePin_valid: "PIN_LENGTH \<le> length bytes \<Longrightarrow> isValidPinFormat (generatePin bytes)"
  by (auto simp: isValidPinFormat_def generatePin_def PIN_LENGTH_def list_all_iff)

lemma isPeerAllowed_mono: "isPeerAllowedInSession s n None \<Longrightarrow> isPeerAllowedInSession s n role"
  by (auto simp: isPeerAllowedInSession_def)

text \<open>
  The brake, seen over all failures \<open>fs\<close> of a node since they were last cleared: the limiter keeps at least
  those of the last window, and no window ever holds more than \<open>MAX_ATTEMPTS\<close> of them, as long as a failure is
  only recorded after the limiter let the attempt through.
\<close>

definition braked :: "int \<Rightarrow> int list \<Rightarrow> int list option \<Rightarrow> bool" where
  "braked now fs kept =
     ((\<forall>x \<in> set fs. x \<le> now) \<and> (\<exists>lo \<le> now - WINDOW_MS. nullish_or kept [] = filter (\<lambda>x. lo < x) fs)
     \<and> (\<forall>t. length (filter (\<lambda>x. t < x \<and> x \<le> t + WINDOW_MS) fs) \<le> MAX_ATTEMPTS))"

lemma braked_Nil [simp]: "braked now [] None"
  by (auto simp: braked_def)

lemma braked_time:
  assumes "braked now fs kept" "now \<le> now'"
  shows "braked now' fs kept"
proof -
  obtain lo where "lo \<le> now - WINDOW_MS" "nullish_or kept [] = filter (\<lambda>x. lo < x) fs"
    using assms(1) by (auto simp: braked_def)
  then have "lo \<le> now' - WINDOW_MS \<and> nullish_or kept [] = filter (\<lambda>x. lo < x) fs" using assms(2) by simp
  moreover have "\<forall>x \<in> set fs. x \<le> now'" using assms by (auto simp: braked_def)
  ultimately show ?thesis using assms(1) unfolding braked_def by blast
qed

lemma later_cut: "(lo::int) \<le> c \<Longrightarrow> lo < x \<and> c < x \<longleftrightarrow> c < x"
  by auto

lemma braked_limited:
  assumes "braked now fs (m n)" "isRateLimited now n m = (limited, m')"
  shows "braked now fs (m' n)" "p \<noteq> n \<Longrightarrow> m' p = m p"
    "\<not> limited \<Longrightarrow> length (filter (\<lambda>x. now - WINDOW_MS < x) fs) < MAX_ATTEMPTS"
proof -
  obtain lo where lo: "lo \<le> now - WINDOW_MS" "nullish_or (m n) [] = filter (\<lambda>x. lo < x) fs"
    using assms(1) by (auto simp: braked_def)
  have kept: "nullish_or (m' n) [] = filter (\<lambda>x. lo < x) fs \<or> nullish_or (m' n) [] = filter (\<lambda>x. now - WINDOW_MS < x) fs"
    using assms(2) lo by (auto simp: isRateLimited_def recent_failures_def later_cut split: option.splits)
  then show "braked now fs (m' n)"
    using assms(1) lo(1) unfolding braked_def by blast
  show "p \<noteq> n \<Longrightarrow> m' p = m p"
    using assms(2) by (auto simp: isRateLimited_def split: option.splits)
  have "recent_failures now (nullish_or (m n) []) = filter (\<lambda>x. now - WINDOW_MS < x) fs"
    unfolding lo(2) recent_failures_def using lo(1) by (simp add: later_cut)
  then show "length (filter (\<lambda>x. now - WINDOW_MS < x) fs) < MAX_ATTEMPTS" if "\<not> limited"
    using that assms(2) by (auto simp: isRateLimited_def recent_failures_def MAX_ATTEMPTS_def split: option.splits)
qed

lemma braked_record:
  assumes "braked now fs (m n)" "length (filter (\<lambda>x. now - WINDOW_MS < x) fs) < MAX_ATTEMPTS"
  shows "braked now (fs @ [now]) (recordPairingFailure now n m n)"
proof -
  obtain lo where lo: "lo \<le> now - WINDOW_MS" "nullish_or (m n) [] = filter (\<lambda>x. lo < x) fs"
    using assms(1) by (auto simp: braked_def)
  have "lo < now" using lo(1) by (simp add: WINDOW_MS_def)
  with lo have kept: "nullish_or (recordPairingFailure now n m n) [] = filter (\<lambda>x. lo < x) (fs @ [now])"
    by (simp add: recordPairingFailure_def)
  have window: "length (filter (\<lambda>x. t < x \<and> x \<le> t + WINDOW_MS) (fs @ [now])) \<le> MAX_ATTEMPTS" for t
  proof (cases "t < now \<and> now \<le> t + WINDOW_MS")
    case True
    have "length (filter (\<lambda>x. t < x \<and> x \<le> t + WINDOW_MS) fs) \<le> length (filter (\<lambda>x. now - WINDOW_MS < x) fs)"
      using True by (induction fs) auto
    with True assms(2) show ?thesis by simp
  next
    case False
    then show ?thesis using assms(1) by (auto simp: braked_def)
  qed
  show ?thesis
    using assms(1) lo(1) kept window unfolding braked_def by (auto intro!: exI [of _ lo])
qed

lemma braked_clear: "braked now [] (clearPairingFailures n m n)"
  by (simp add: clearPairingFailures_def)

end
