(* ===== verification/PlayerProtocol.thy ===== *)
theory PlayerProtocol
  imports ZodSchema
begin

text \<open>
  What a controller and a player say to each other: the pairing handshake (\<open>cenotaph/pairing/protocol.ts\<close>) and
  the control protocol (\<open>cenotaph/control/schema.ts\<close>). A command that matches its schema is read off the
  object zod answers. Numbers of milliseconds and volumes keep their literal.
\<close>

section \<open>Pairing\<close>

definition PairRequestSchema :: zschema where
  "PairRequestSchema = ZObj [fld ''type'' (ZLitStr (utext ''pair_request'')), fld ''code'' ZStr,
     fld ''display_name'' (ZStrMinMax 1 64)]"

datatype pair_reason = InvalidPin | RateLimited

definition PairResponseSchema :: zschema where
  "PairResponseSchema = ZObj [fld ''type'' (ZLitStr (utext ''pair_response'')), fld ''ok'' ZBool,
     fld ''reason'' (ZOpt (ZEnum [utext ''invalid_pin'', utext ''rate_limited'']))]"

section \<open>Media\<close>

definition RenditionRefSchema :: zschema where
  "RenditionRefSchema = ZObj [fld ''blake3_hash'' ZStr, fld ''label'' ZStr, fld ''mime_type'' (ZOpt ZStr),
     fld ''width'' (ZOpt ZNum), fld ''height'' (ZOpt ZNum)]"

definition MediaRefSchema :: zschema where
  "MediaRefSchema = ZObj [fld ''source_peer_addr'' ZStr, fld ''blake3_hash'' ZStr, fld ''size_bytes'' (ZOpt ZNonneg),
     fld ''duration_ms'' (ZOpt ZNonneg), fld ''mime_type'' (ZOpt ZStr),
     fld ''kind'' (ZOpt (ZEnum [utext ''audio'', utext ''video''])), fld ''title'' (ZOpt ZStr), fld ''artist'' (ZOpt ZStr),
     fld ''artwork_thumb_url'' (ZOpt ZStr), fld ''artwork_full_url'' (ZOpt ZStr),
     fld ''available_renditions'' (ZOpt (ZArr RenditionRefSchema))]"

record rendition_ref =
  rr_blake3_hash :: jstext
  rr_label :: jstext
  rr_mime_type :: "jstext option"
  rr_width :: "jstext option"
  rr_height :: "jstext option"

datatype ref_kind = AudioRef | VideoRef

record media_ref =
  mr_source_peer_addr :: jstext
  mr_blake3_hash :: jstext
  mr_size_bytes :: "jstext option"
  mr_duration_ms :: "jstext option"
  mr_mime_type :: "jstext option"
  mr_kind :: "ref_kind option"
  mr_title :: "jstext option"
  mr_artist :: "jstext option"
  mr_artwork_thumb_url :: "jstext option"
  mr_artwork_full_url :: "jstext option"
  mr_available_renditions :: "rendition_ref list option"

fun str_of :: "jsv option \<Rightarrow> jstext option" where
  "str_of (Some (VStr t)) = Some t"
| "str_of _ = None"

fun num_of :: "jsv option \<Rightarrow> jstext option" where
  "num_of (Some (VNum l)) = Some l"
| "num_of _ = None"

fun bool_of :: "jsv option \<Rightarrow> bool option" where
  "bool_of (Some (VBool b)) = Some b"
| "bool_of _ = None"

fun arr_of :: "jsv option \<Rightarrow> jsv list option" where
  "arr_of (Some (VArr vs)) = Some vs"
| "arr_of _ = None"

abbreviation str_at :: "string \<Rightarrow> (jstext \<times> jsv) list \<Rightarrow> jstext" where
  "str_at k ms \<equiv> nullish_or (str_of (member (utext k) ms)) []"

abbreviation opt_str :: "string \<Rightarrow> (jstext \<times> jsv) list \<Rightarrow> jstext option" where
  "opt_str k ms \<equiv> str_of (member (utext k) ms)"

abbreviation opt_num :: "string \<Rightarrow> (jstext \<times> jsv) list \<Rightarrow> jstext option" where
  "opt_num k ms \<equiv> num_of (member (utext k) ms)"

fun rendition_of :: "jsv \<Rightarrow> rendition_ref option" where
  "rendition_of (VObj ms) = Some \<lparr>rr_blake3_hash = str_at ''blake3_hash'' ms, rr_label = str_at ''label'' ms,
     rr_mime_type = opt_str ''mime_type'' ms, rr_width = opt_num ''width'' ms, rr_height = opt_num ''height'' ms\<rparr>"
| "rendition_of _ = None"

definition kind_of :: "jstext \<Rightarrow> ref_kind" where
  "kind_of t = (if t = utext ''video'' then VideoRef else AudioRef)"

fun media_of :: "jsv \<Rightarrow> media_ref option" where
  "media_of (VObj ms) = Some \<lparr>mr_source_peer_addr = str_at ''source_peer_addr'' ms, mr_blake3_hash = str_at ''blake3_hash'' ms,
     mr_size_bytes = opt_num ''size_bytes'' ms, mr_duration_ms = opt_num ''duration_ms'' ms,
     mr_mime_type = opt_str ''mime_type'' ms, mr_kind = map_option kind_of (opt_str ''kind'' ms),
     mr_title = opt_str ''title'' ms, mr_artist = opt_str ''artist'' ms,
     mr_artwork_thumb_url = opt_str ''artwork_thumb_url'' ms, mr_artwork_full_url = opt_str ''artwork_full_url'' ms,
     mr_available_renditions = map_option (List.map_filter rendition_of) (arr_of (member (utext ''available_renditions'') ms))\<rparr>"
| "media_of _ = None"

section \<open>Commands\<close>

abbreviation command_schema :: "string \<Rightarrow> (jstext \<times> zschema) list \<Rightarrow> zschema" where
  "command_schema name fs \<equiv> ZObj ([fld ''type'' (ZLitStr (utext ''control'')), fld ''command'' (ZLitStr (utext name))] @ fs)"

definition command_schemas :: "zschema list" where
  "command_schemas =
     [command_schema ''play'' [fld ''item'' MediaRefSchema],
      command_schema ''replace_queue'' [fld ''items'' (ZArr MediaRefSchema)],
      command_schema ''append_queue'' [fld ''items'' (ZArr MediaRefSchema)],
      command_schema ''pause'' [], command_schema ''resume'' [],
      command_schema ''seek'' [fld ''position_ms'' ZNonneg],
      command_schema ''skip'' [],
      command_schema ''remove_from_queue'' [fld ''index'' ZNat],
      command_schema ''reorder_queue'' [fld ''from_index'' ZNat, fld ''to_index'' ZNat],
      command_schema ''set_volume'' [fld ''volume'' ZUnit],
      command_schema ''stop'' [], command_schema ''get_status'' [],
      command_schema ''set_auto_download_enabled'' [fld ''enabled'' ZBool],
      command_schema ''tune_radio'' [fld ''peer_addr'' ZStr, fld ''station_id'' (ZOpt ZStr)],
      command_schema ''stop_radio'' [],
      command_schema ''request_source_access'' [fld ''peer_addr'' ZStr, fld ''username'' ZStr, fld ''message'' (ZOpt ZStr)],
      command_schema ''list_output_devices'' [],
      command_schema ''set_output_device'' [fld ''name'' ZStr]]"

definition PlayerCommandSchema :: zschema where
  "PlayerCommandSchema = ZDisc (utext ''command'') command_schemas"

datatype player_command =
    Play media_ref | ReplaceQueue "media_ref list" | AppendQueue "media_ref list"
  | Pause | Resume | Seek jstext | Skip
  | RemoveFromQueue nat | ReorderQueue nat nat
  | SetVolume jstext | Stop | GetStatus | SetAutoDownloadEnabled bool
  | TuneRadio jstext "jstext option" | StopRadio
  | RequestSourceAccess jstext jstext "jstext option"
  | ListOutputDevices | SetOutputDevice jstext

definition nat_at :: "string \<Rightarrow> (jstext \<times> jsv) list \<Rightarrow> nat" where
  "nat_at k ms = (case opt_num k ms of Some l \<Rightarrow> literal_to_nat l | None \<Rightarrow> 0)"

definition items_at :: "(jstext \<times> jsv) list \<Rightarrow> media_ref list" where
  "items_at ms = List.map_filter media_of (nullish_or (arr_of (member (utext ''items'') ms)) [])"

text \<open>The command an object accepted by the schema is.\<close>

definition command_of :: "(jstext \<times> jsv) list \<Rightarrow> player_command option" where
  "command_of ms =
     (let c = str_at ''command'' ms
      in if c = utext ''play'' then map_option Play (Option.bind (member (utext ''item'') ms) media_of)
         else if c = utext ''replace_queue'' then Some (ReplaceQueue (items_at ms))
         else if c = utext ''append_queue'' then Some (AppendQueue (items_at ms))
         else if c = utext ''pause'' then Some Pause
         else if c = utext ''resume'' then Some Resume
         else if c = utext ''seek'' then map_option Seek (opt_num ''position_ms'' ms)
         else if c = utext ''skip'' then Some Skip
         else if c = utext ''remove_from_queue'' then Some (RemoveFromQueue (nat_at ''index'' ms))
         else if c = utext ''reorder_queue'' then Some (ReorderQueue (nat_at ''from_index'' ms) (nat_at ''to_index'' ms))
         else if c = utext ''set_volume'' then map_option SetVolume (opt_num ''volume'' ms)
         else if c = utext ''stop'' then Some Stop
         else if c = utext ''get_status'' then Some GetStatus
         else if c = utext ''set_auto_download_enabled'' then map_option SetAutoDownloadEnabled (bool_of (member (utext ''enabled'') ms))
         else if c = utext ''tune_radio'' then Some (TuneRadio (str_at ''peer_addr'' ms) (opt_str ''station_id'' ms))
         else if c = utext ''stop_radio'' then Some StopRadio
         else if c = utext ''request_source_access''
           then Some (RequestSourceAccess (str_at ''peer_addr'' ms) (str_at ''username'' ms) (opt_str ''message'' ms))
         else if c = utext ''list_output_devices'' then Some ListOutputDevices
         else if c = utext ''set_output_device'' then Some (SetOutputDevice (str_at ''name'' ms))
         else None)"

definition parse_command :: "zod_parser \<Rightarrow> jsv \<Rightarrow> player_command option" where
  "parse_command z v = (case z PlayerCommandSchema (Some v) of Some (Some (VObj ms)) \<Rightarrow> command_of ms | _ \<Rightarrow> None)"

section \<open>Subscriptions, presence, acknowledgements\<close>

definition SubscribeRequestSchema :: zschema where
  "SubscribeRequestSchema = ZObj [fld ''type'' (ZLitStr (utext ''subscribe''))]"

definition PresenceQuerySchema :: zschema where
  "PresenceQuerySchema = ZObj [fld ''type'' (ZLitStr (utext ''presence_query''))]"

datatype access_status = AccessAdmin | InSession | NotInSession

datatype ack_reason =
    Untrusted | InvalidCommand | AckNotInSession | SourceAccessDenied | SourceUnreachable | TuneFailed | RequestAccessFailed

record audio_device =
  ad_name :: jstext
  ad_description :: jstext

record 'st command_ack =
  ca_ok :: bool
  ca_reason :: "ack_reason option"
  ca_detail :: "jstext option"
  ca_status :: "'st option"
  ca_devices :: "audio_device list option"

end
