(* ===== verification/PlayerMachine.thy ===== *)
theory PlayerMachine
  imports PlayerSession PlayerProtocol "HOL-Library.AList"
begin

text \<open>
  A player answering its controllers: the pairing handshake of \<open>cenotaph/pairing/pairingHandler.ts\<close>, the command
  dispatcher of \<open>control/dispatcher.ts\<close>, the registries \<open>connectedControllers.ts\<close> and \<open>statusSubscribers.ts\<close>,
  the session signal of \<open>pairing/pinStore.ts\<close>, and the handler of \<open>control/playerConnectionHandler.ts\<close>, cut at its
  awaits: a connection rests where it awaits something, with the local variables it goes on with, and an event
  resumes it. Connections interleave with each other, with the clock, and with the settings panel. A store or
  stream operation takes effect when its await is resumed, and may reject. The playback backend and the trust
  store are interfaces of the code and so records here; a backend method runs in one step.
\<close>

section \<open>The playback backend\<close>

datatype backend_exn = PlaybackCommandError ack_reason "jstext option" | BackendThrew

type_synonym 'b backend_call = "'b \<Rightarrow> 'b \<times> backend_exn option"

record ('b, 'st) playback_backend =
  pb_play :: "media_ref \<Rightarrow> 'b backend_call"
  pb_replaceQueue :: "media_ref list \<Rightarrow> 'b backend_call"
  pb_appendQueue :: "media_ref list \<Rightarrow> 'b backend_call"
  pb_pause :: "'b backend_call"
  pb_resume :: "'b backend_call"
  pb_seek :: "jstext \<Rightarrow> 'b backend_call"
  pb_skip :: "'b backend_call"
  pb_removeFromQueue :: "nat \<Rightarrow> 'b backend_call"
  pb_reorderQueue :: "nat \<Rightarrow> nat \<Rightarrow> 'b backend_call"
  pb_setVolume :: "jstext \<Rightarrow> 'b backend_call"
  pb_stop :: "'b backend_call"
  pb_startRadio :: "jstext \<Rightarrow> jstext option \<Rightarrow> 'b backend_call"
  pb_stopRadio :: "'b backend_call"
  pb_requestSourceAccess :: "jstext \<Rightarrow> jstext \<Rightarrow> jstext option \<Rightarrow> 'b backend_call"
  pb_setAutoDownloadEnabled :: "bool \<Rightarrow> 'b backend_call"
  pb_currentStatus :: "'b \<Rightarrow> backend_exn + 'st"
  pb_listOutputDevices :: "'b \<Rightarrow> 'b \<times> (backend_exn + audio_device list)"
  pb_setOutputDevice :: "jstext \<Rightarrow> 'b backend_call"

definition no_devices :: "'b \<times> backend_exn option \<Rightarrow> 'b \<times> (backend_exn + audio_device list option)" where
  "no_devices r = (case r of (b, None) \<Rightarrow> (b, Inr None) | (b, Some e) \<Rightarrow> (b, Inl e))"

fun run_command :: "('b, 'st) playback_backend \<Rightarrow> player_command \<Rightarrow> 'b \<Rightarrow> 'b \<times> (backend_exn + audio_device list option)" where
  "run_command K (Play m) b = no_devices (pb_play K m b)"
| "run_command K (ReplaceQueue ms) b = no_devices (pb_replaceQueue K ms b)"
| "run_command K (AppendQueue ms) b = no_devices (pb_appendQueue K ms b)"
| "run_command K Pause b = no_devices (pb_pause K b)"
| "run_command K Resume b = no_devices (pb_resume K b)"
| "run_command K (Seek t) b = no_devices (pb_seek K t b)"
| "run_command K Skip b = no_devices (pb_skip K b)"
| "run_command K (RemoveFromQueue i) b = no_devices (pb_removeFromQueue K i b)"
| "run_command K (ReorderQueue i j) b = no_devices (pb_reorderQueue K i j b)"
| "run_command K (SetVolume v) b = no_devices (pb_setVolume K v b)"
| "run_command K Stop b = no_devices (pb_stop K b)"
| "run_command K (TuneRadio p st) b = no_devices (pb_startRadio K p st b)"
| "run_command K StopRadio b = no_devices (pb_stopRadio K b)"
| "run_command K (RequestSourceAccess p u m) b = no_devices (pb_requestSourceAccess K p u m b)"
| "run_command K (SetAutoDownloadEnabled e) b = no_devices (pb_setAutoDownloadEnabled K e b)"
| "run_command K ListOutputDevices b = (case pb_listOutputDevices K b of (b', Inl e) \<Rightarrow> (b', Inl e) | (b', Inr ds) \<Rightarrow> (b', Inr (Some ds)))"
| "run_command K (SetOutputDevice n) b = no_devices (pb_setOutputDevice K n b)"
| "run_command K GetStatus b = (b, Inr None)"

text \<open>The cases of the switch that await their method.\<close>

fun awaited :: "player_command \<Rightarrow> bool" where
  "awaited (Seek _) = False"
| "awaited (ReorderQueue _ _) = False"
| "awaited (SetVolume _) = False"
| "awaited Stop = False"
| "awaited StopRadio = False"
| "awaited (SetAutoDownloadEnabled _) = False"
| "awaited GetStatus = False"
| "awaited _ = True"

fun tracksLoading :: "player_command \<Rightarrow> bool" where
  "tracksLoading (Play _) = True"
| "tracksLoading (ReplaceQueue _) = True"
| "tracksLoading (AppendQueue _) = True"
| "tracksLoading _ = False"

section \<open>State\<close>

datatype pair_reply = PairOk | PairRejected pair_reason

text \<open>Where a connection's handler awaits, with what it goes on with.\<close>

datatype 'st conn_state =
    AwaitTrusted                                     \<comment> \<open>\<open>isTrustedController\<close>\<close>
  | AwaitFirstLine bool
  | PairLoad jstext | PairCreate jstext player_session       \<comment> \<open>\<open>ensureActiveSession\<close>: load, save\<close>
  | PairList player_session jstext
  | PairTrust player_session jstext peer_role bool
  | PairJoin player_session bool
  | PairRegen player_session
  | PairReply pair_reply | PairReload | PairEof
  | CtlGet jstext
  | CtlLoad jstext "trusted_controller option" | CtlCreate jstext "trusted_controller option" player_session
  | PresenceReply access_status
  | Subscribed
  | CtlDenied "trusted_controller option" player_session
  | CtlBackend "trusted_controller option" player_session player_command
  | CtlReply "trusted_controller option" player_session "'st command_ack"
  | CtlTouch "trusted_controller option" player_session
  | CtlRead "trusted_controller option" player_session
  | RejectReply
  | Closed

datatype 'st reply = PairResponse pair_reply | PresenceAnswer access_status | CommandAck "'st command_ack"

datatype 'st player_log =
    Wrote nat "'st reply" | ClosedStream nat | Pushed nat 'st
  | Ran nat string player_command
  | PairFailed string int | Redeemed string | TrustedAs string peer_role | Picked string

record connected_controller =
  cc_node_id :: string
  cc_display_name :: jstext

record ('t, 'b, 'st) player_world =
  pw_now :: int
  pw_active :: bool
  pw_failures :: failures
  pw_trust :: 't
  pw_session :: "player_session option"
  pw_signal :: "player_session option"
  pw_subscribers :: "(string \<times> nat list) list"
  pw_connected :: "connected_controller list"
  pw_removals :: "(string \<times> int) list"
  pw_activity :: "int option"
  pw_inFlight :: bool
  pw_backend :: 'b
  pw_conns :: "(string \<times> 'st conn_state) list"
  pw_log :: "'st player_log list"

record ('t, 'b, 'st) player_env =
  pe_zod :: zod_parser
  pe_trust :: "'t trust_store"
  pe_backend :: "('b, 'st) playback_backend"

abbreviation plog :: "'st player_log \<Rightarrow> ('t, 'b, 'st) player_world \<Rightarrow> ('t, 'b, 'st) player_world" where
  "plog e w \<equiv> w\<lparr>pw_log := pw_log w @ [e]\<rparr>"

section \<open>Registries\<close>

definition DISCONNECT_GRACE_MS :: int where
  "DISCONNECT_GRACE_MS = 45000"

definition markControllerConnected :: "connected_controller \<Rightarrow> ('t, 'b, 'st) player_world \<Rightarrow> ('t, 'b, 'st) player_world" where
  "markControllerConnected c w =
     w\<lparr>pw_removals := AList.delete (cc_node_id c) (pw_removals w),
       pw_connected := (if \<exists>d \<in> set (pw_connected w). cc_node_id d = cc_node_id c then pw_connected w else pw_connected w @ [c])\<rparr>"

definition markControllerDisconnected :: "string \<Rightarrow> ('t, 'b, 'st) player_world \<Rightarrow> ('t, 'b, 'st) player_world" where
  "markControllerDisconnected n w =
     (if map_of (pw_removals w) n \<noteq> None then w
      else w\<lparr>pw_removals := pw_removals w @ [(n, pw_now w + DISCONNECT_GRACE_MS)]\<rparr>)"

definition removal_fired :: "string \<Rightarrow> ('t, 'b, 'st) player_world \<Rightarrow> ('t, 'b, 'st) player_world" where
  "removal_fired n w =
     (case map_of (pw_removals w) n of
        Some due \<Rightarrow>
          if due \<le> pw_now w
          then w\<lparr>pw_removals := AList.delete n (pw_removals w),
                 pw_connected := filter (\<lambda>c. cc_node_id c \<noteq> n) (pw_connected w)\<rparr>
          else w
      | None \<Rightarrow> w)"

definition registerSubscriber :: "string \<Rightarrow> nat \<Rightarrow> ('t, 'b, 'st) player_world \<Rightarrow> ('t, 'b, 'st) player_world" where
  "registerSubscriber n i w =
     (let old = nullish_or (map_of (pw_subscribers w) n) []
      in w\<lparr>pw_subscribers := AList.update n (if i \<in> set old then old else old @ [i]) (pw_subscribers w)\<rparr>)"

definition unregisterSubscriber :: "string \<Rightarrow> nat \<Rightarrow> ('t, 'b, 'st) player_world \<Rightarrow> ('t, 'b, 'st) player_world" where
  "unregisterSubscriber n i w =
     (case map_of (pw_subscribers w) n of
        None \<Rightarrow> w
      | Some old \<Rightarrow>
          (let left = removeAll i old
           in w\<lparr>pw_subscribers := (if left = [] then AList.delete n (pw_subscribers w)
                                   else AList.update n left (pw_subscribers w))\<rparr>))"

text \<open>A status is pushed to every subscribed stream; a push that fails takes its stream out.\<close>

definition broadcastStatus :: "'st \<Rightarrow> ('t, 'b, 'st) player_world \<Rightarrow> ('t, 'b, 'st) player_world" where
  "broadcastStatus st w = w\<lparr>pw_log := pw_log w @ map (\<lambda>i. Pushed i st) (concat (map snd (pw_subscribers w)))\<rparr>"

definition push_failed :: "string \<Rightarrow> nat \<Rightarrow> ('t, 'b, 'st) player_world \<Rightarrow> ('t, 'b, 'st) player_world" where
  "push_failed n i w =
     (case map_of (pw_subscribers w) n of
        None \<Rightarrow> w
      | Some old \<Rightarrow> w\<lparr>pw_subscribers := AList.update n (removeAll i old) (pw_subscribers w)\<rparr>)"

definition markActivity :: "('t, 'b, 'st) player_world \<Rightarrow> ('t, 'b, 'st) player_world" where
  "markActivity w = w\<lparr>pw_activity := Some (pw_now w)\<rparr>"

section \<open>Reading lines\<close>

definition type_is :: "string \<Rightarrow> jsv \<Rightarrow> bool" where
  "type_is t v = (case v of VObj ms \<Rightarrow> member (utext ''type'') ms = Some (VStr (utext t)) | _ \<Rightarrow> False)"

definition isPairRequestLine :: "jstext \<Rightarrow> bool" where
  "isPairRequestLine l = (case json_parse_text l of Some v \<Rightarrow> type_is ''pair_request'' v | None \<Rightarrow> False)"

definition isGetStatusCommand :: "jstext \<Rightarrow> bool" where
  "isGetStatusCommand l =
     (case json_parse_text l of
        Some (VObj ms) \<Rightarrow> type_is ''control'' (VObj ms) \<and> member (utext ''command'') ms = Some (VStr (utext ''get_status''))
      | _ \<Rightarrow> False)"

definition isSubscribeRequest :: "zod_parser \<Rightarrow> jstext \<Rightarrow> bool" where
  "isSubscribeRequest z l = (case json_parse_text l of Some v \<Rightarrow> z SubscribeRequestSchema (Some v) \<noteq> None | None \<Rightarrow> False)"

definition isPresenceQuery :: "zod_parser \<Rightarrow> jstext \<Rightarrow> bool" where
  "isPresenceQuery z l = (case json_parse_text l of Some v \<Rightarrow> z PresenceQuerySchema (Some v) \<noteq> None | None \<Rightarrow> False)"

section \<open>Ending a connection\<close>

text \<open>The inner \<open>finally\<close> blocks of the place a connection is in, then the outer one.\<close>

fun in_control :: "'st conn_state \<Rightarrow> bool" where
  "in_control (CtlDenied _ _) = True"
| "in_control (CtlBackend _ _ _) = True"
| "in_control (CtlReply _ _ _) = True"
| "in_control (CtlTouch _ _) = True"
| "in_control (CtlRead _ _) = True"
| "in_control _ = False"

definition unwind :: "nat \<Rightarrow> string \<Rightarrow> 'st conn_state \<Rightarrow> ('t, 'b, 'st) player_world \<Rightarrow> ('t, 'b, 'st) player_world" where
  "unwind i p c w =
     (if c = Subscribed then markControllerDisconnected p (unregisterSubscriber p i w)
      else if in_control c then markControllerDisconnected p w else w)"

definition finish :: "nat \<Rightarrow> string \<Rightarrow> 'st conn_state \<Rightarrow> ('t, 'b, 'st) player_world \<Rightarrow> 'st conn_state \<times> ('t, 'b, 'st) player_world" where
  "finish i p c w = (Closed, plog (ClosedStream i) (unwind i p c w))"

section \<open>The pairing handshake\<close>

text \<open>\<open>handlePairRequest\<close> up to its first await, and after each.\<close>

definition pair_start :: "('t, 'b, 'st) player_env \<Rightarrow> nat \<Rightarrow> string \<Rightarrow> jstext \<Rightarrow> player_session \<Rightarrow>
    ('t, 'b, 'st) player_world \<Rightarrow> 'st conn_state \<times> ('t, 'b, 'st) player_world" where
  "pair_start E i p line s w =
     (case isRateLimited (pw_now w) p (pw_failures w) of (limited, fs) \<Rightarrow>
        let w1 = w\<lparr>pw_failures := fs\<rparr>;
            rejected = (PairReply (PairRejected InvalidPin),
                        plog (PairFailed p (pw_now w)) (w1\<lparr>pw_failures := recordPairingFailure (pw_now w) p fs\<rparr>))
        in if limited then (PairReply (PairRejected RateLimited), w1)
           else (case json_parse_text line of
                   None \<Rightarrow> finish i p (PairLoad line) w1
                 | Some v \<Rightarrow>
                     (case pe_zod E PairRequestSchema (Some v) of
                        Some (Some (VObj ms)) \<Rightarrow>
                          if str_at ''code'' ms \<noteq> ps_pin s then rejected
                          else (PairList s (str_at ''display_name'' ms),
                                plog (Redeemed p) (w1\<lparr>pw_failures := clearPairingFailures p fs\<rparr>))
                      | _ \<Rightarrow> rejected)))"

definition pair_list :: "('t, 'b, 'st) player_env \<Rightarrow> player_session \<Rightarrow> jstext \<Rightarrow>
    ('t, 'b, 'st) player_world \<Rightarrow> 'st conn_state \<times> ('t, 'b, 'st) player_world" where
  "pair_list E s d w =
     (let existing = ts_listTrustedControllers (pe_trust E) (pw_trust w);
          grantsAdmin = (existing = [] \<or> ps_admin_grant_pending s)
      in (PairTrust s d (if grantsAdmin then PAdmin else PViewer) grantsAdmin, w))"

definition pair_trust :: "('t, 'b, 'st) player_env \<Rightarrow> string \<Rightarrow> string \<Rightarrow> player_session \<Rightarrow> jstext \<Rightarrow> peer_role \<Rightarrow> bool \<Rightarrow>
    ('t, 'b, 'st) player_world \<Rightarrow> 'st conn_state \<times> ('t, 'b, 'st) player_world" where
  "pair_trust E uuid p s d r grantsAdmin w =
     (PairJoin (joinSession (pw_now w) p s) grantsAdmin,
      plog (TrustedAs p r) (w\<lparr>pw_trust := ts_trustController (pe_trust E) (pw_now w) uuid p d r (pw_trust w)\<rparr>))"

definition pair_join :: "nat list \<Rightarrow> player_session \<Rightarrow> bool \<Rightarrow>
    ('t, 'b, 'st) player_world \<Rightarrow> 'st conn_state \<times> ('t, 'b, 'st) player_world" where
  "pair_join bytes joined grantsAdmin w =
     (if grantsAdmin then PairRegen (regenerateSessionPin (pw_now w) bytes joined) else PairReply PairOk,
      w\<lparr>pw_session := saveSession joined (pw_session w)\<rparr>)"

section \<open>Dispatching commands\<close>

definition failed_ack :: "ack_reason \<Rightarrow> 'st command_ack" where
  "failed_ack r = \<lparr>ca_ok = False, ca_reason = Some r, ca_detail = None, ca_status = None, ca_devices = None\<rparr>"

text \<open>From the settling of the backend's method on, with \<open>catch\<close> and \<open>finally\<close>; \<open>None\<close> when it throws.\<close>

definition dispatch_catch :: "('t, 'b, 'st) player_env \<Rightarrow> backend_exn \<Rightarrow> ('t, 'b, 'st) player_world \<Rightarrow>
    'st command_ack option \<times> ('t, 'b, 'st) player_world" where
  "dispatch_catch E e w =
     (case e of
        PlaybackCommandError r d \<Rightarrow>
          (case pb_currentStatus (pe_backend E) (pw_backend w) of
             Inl _ \<Rightarrow> (None, w)
           | Inr st \<Rightarrow> (Some \<lparr>ca_ok = False, ca_reason = Some r, ca_detail = d, ca_status = Some st, ca_devices = None\<rparr>,
                         broadcastStatus st w))
      | BackendThrew \<Rightarrow> (Some (failed_ack InvalidCommand), w))"

definition dispatch_settled :: "('t, 'b, 'st) player_env \<Rightarrow> player_command \<Rightarrow> ('t, 'b, 'st) player_world \<Rightarrow>
    'st command_ack option \<times> ('t, 'b, 'st) player_world" where
  "dispatch_settled E cmd w =
     (case run_command (pe_backend E) cmd (pw_backend w) of (b, res) \<Rightarrow>
        let w1 = w\<lparr>pw_backend := b\<rparr>;
            (ack, w2) = (case res of
               Inl e \<Rightarrow> dispatch_catch E e w1
             | Inr devices \<Rightarrow>
                 (case pb_currentStatus (pe_backend E) b of
                    Inl e \<Rightarrow> dispatch_catch E e w1
                  | Inr st \<Rightarrow> (Some \<lparr>ca_ok = True, ca_reason = None, ca_detail = None, ca_status = Some st, ca_devices = devices\<rparr>,
                                broadcastStatus st w1)))
        in (ack, if tracksLoading cmd then w2\<lparr>pw_inFlight := False\<rparr> else w2))"

definition ctl_settled :: "('t, 'b, 'st) player_env \<Rightarrow> nat \<Rightarrow> string \<Rightarrow> trusted_controller option \<Rightarrow> player_session \<Rightarrow> player_command \<Rightarrow>
    ('t, 'b, 'st) player_world \<Rightarrow> 'st conn_state \<times> ('t, 'b, 'st) player_world" where
  "ctl_settled E i p c s cmd w =
     (case dispatch_settled E cmd w of
        (Some ack, w') \<Rightarrow> (CtlReply c s ack, w')
      | (None, w') \<Rightarrow> finish i p (CtlBackend c s cmd) w')"

definition dispatchCommand :: "('t, 'b, 'st) player_env \<Rightarrow> nat \<Rightarrow> string \<Rightarrow> trusted_controller option \<Rightarrow> player_session \<Rightarrow> jstext \<Rightarrow>
    ('t, 'b, 'st) player_world \<Rightarrow> 'st conn_state \<times> ('t, 'b, 'st) player_world" where
  "dispatchCommand E i p c s line w =
     (case json_parse_text line of
        None \<Rightarrow> finish i p (CtlRead c s) w
      | Some v \<Rightarrow>
          (case parse_command (pe_zod E) v of
             None \<Rightarrow> (CtlReply c s (failed_ack InvalidCommand), w)
           | Some cmd \<Rightarrow>
               (let w1 = plog (Ran i p cmd) (if cmd = GetStatus then w else markActivity w);
                    w2 = (if tracksLoading cmd then w1\<lparr>pw_inFlight := True\<rparr> else w1)
                in if awaited cmd then (CtlBackend c s cmd, w2) else ctl_settled E i p c s cmd w2)))"

section \<open>A connection\<close>

abbreviation role_of :: "trusted_controller option \<Rightarrow> peer_role option" where
  "role_of c \<equiv> map_option tc_role c"

definition access_of :: "player_session \<Rightarrow> string \<Rightarrow> trusted_controller option \<Rightarrow> access_status" where
  "access_of s p c =
     (if role_of c = Some PAdmin then AccessAdmin
      else if isPeerAllowedInSession s p (role_of c) then InSession else NotInSession)"

definition connected_info :: "string \<Rightarrow> trusted_controller option \<Rightarrow> connected_controller" where
  "connected_info p c = \<lparr>cc_node_id = p, cc_display_name = (case c of Some t \<Rightarrow> tc_display_name t | None \<Rightarrow> utext (take 8 p))\<rparr>"

text \<open>The body of the control loop for one line.\<close>

definition ctl_line :: "('t, 'b, 'st) player_env \<Rightarrow> nat \<Rightarrow> string \<Rightarrow> trusted_controller option \<Rightarrow> player_session \<Rightarrow> jstext \<Rightarrow>
    ('t, 'b, 'st) player_world \<Rightarrow> 'st conn_state \<times> ('t, 'b, 'st) player_world" where
  "ctl_line E i p c s line w =
     (if \<not> isGetStatusCommand line \<and> \<not> isPeerAllowedInSession s p (role_of c) then (CtlDenied c s, w)
      else dispatchCommand E i p c s line w)"

definition ctl_branch :: "('t, 'b, 'st) player_env \<Rightarrow> nat \<Rightarrow> string \<Rightarrow> trusted_controller option \<Rightarrow> player_session \<Rightarrow> jstext \<Rightarrow>
    ('t, 'b, 'st) player_world \<Rightarrow> 'st conn_state \<times> ('t, 'b, 'st) player_world" where
  "ctl_branch E i p c s line w =
     (if isPresenceQuery (pe_zod E) line then (PresenceReply (access_of s p c), w)
      else if isSubscribeRequest (pe_zod E) line
      then (Subscribed, markControllerConnected (connected_info p c) (registerSubscriber p i w))
      else ctl_line E i p c s line (markControllerConnected (connected_info p c) w))"

text \<open>What an await settles with: it is done, it rejects, or a line (or the end of the stream) was read.\<close>

datatype conn_input = InDone | InFailed | InLine "jstext option"

fun reads :: "'st conn_state \<Rightarrow> bool" where
  "reads (AwaitFirstLine _) = True"
| "reads PairEof = True"
| "reads Subscribed = True"
| "reads (CtlRead _ _) = True"
| "reads _ = False"

definition on_line :: "('t, 'b, 'st) player_env \<Rightarrow> nat \<Rightarrow> string \<Rightarrow> 'st conn_state \<Rightarrow> jstext option \<Rightarrow>
    ('t, 'b, 'st) player_world \<Rightarrow> 'st conn_state \<times> ('t, 'b, 'st) player_world" where
  "on_line E i p c line w =
     (case (c, line) of
        (AwaitFirstLine trusted, Some l) \<Rightarrow>
          (if isPairRequestLine l then PairLoad l else if trusted then CtlGet l else RejectReply, w)
      | (Subscribed, Some l) \<Rightarrow> (Subscribed, w)
      | (CtlRead ctl s, Some l) \<Rightarrow> ctl_line E i p ctl s l w
      | _ \<Rightarrow> finish i p c w)"

fun on_done :: "('t, 'b, 'st) player_env \<Rightarrow> nat list \<Rightarrow> string \<Rightarrow> nat \<Rightarrow> string \<Rightarrow> 'st conn_state \<Rightarrow>
    ('t, 'b, 'st) player_world \<Rightarrow> 'st conn_state \<times> ('t, 'b, 'st) player_world" where
  "on_done E bytes uuid i p AwaitTrusted w =
     (AwaitFirstLine (ts_isTrustedController (pe_trust E) p (pw_trust w)), w)"
| "on_done E bytes uuid i p (PairLoad l) w =
     (case ensureActiveSession (pw_now w) bytes (loadSession (pw_session w)) of (s, save) \<Rightarrow>
        if save then (PairCreate l s, w) else pair_start E i p l s w)"
| "on_done E bytes uuid i p (PairCreate l s) w =
     pair_start E i p l s (w\<lparr>pw_session := saveSession s (pw_session w)\<rparr>)"
| "on_done E bytes uuid i p (PairList s d) w = pair_list E s d w"
| "on_done E bytes uuid i p (PairTrust s d r g) w = pair_trust E uuid p s d r g w"
| "on_done E bytes uuid i p (PairJoin s g) w = pair_join bytes s g w"
| "on_done E bytes uuid i p (PairRegen s) w =
     (PairReply PairOk, w\<lparr>pw_session := saveSession s (pw_session w)\<rparr>)"
| "on_done E bytes uuid i p (PairReply r) w = (PairReload, plog (Wrote i (PairResponse r)) w)"
| "on_done E bytes uuid i p PairReload w =
     (PairEof, case loadSession (pw_session w) of Some s \<Rightarrow> w\<lparr>pw_signal := Some s\<rparr> | None \<Rightarrow> w)"
| "on_done E bytes uuid i p (CtlGet l) w = (CtlLoad l (ts_getTrustedController (pe_trust E) p (pw_trust w)), w)"
| "on_done E bytes uuid i p (CtlLoad l c) w =
     (case ensureActiveSession (pw_now w) bytes (loadSession (pw_session w)) of (s, save) \<Rightarrow>
        if save then (CtlCreate l c s, w) else ctl_branch E i p c s l w)"
| "on_done E bytes uuid i p (CtlCreate l c s) w =
     ctl_branch E i p c s l (w\<lparr>pw_session := saveSession s (pw_session w)\<rparr>)"
| "on_done E bytes uuid i p (PresenceReply a) w = finish i p (PresenceReply a) (plog (Wrote i (PresenceAnswer a)) w)"
| "on_done E bytes uuid i p (CtlDenied c s) w = (CtlRead c s, plog (Wrote i (CommandAck (failed_ack AckNotInSession))) w)"
| "on_done E bytes uuid i p (CtlBackend c s cmd) w = ctl_settled E i p c s cmd w"
| "on_done E bytes uuid i p (CtlReply c s ack) w =
     (CtlTouch c (touchSession (pw_now w) s), plog (Wrote i (CommandAck ack)) w)"
| "on_done E bytes uuid i p (CtlTouch c s) w = (CtlRead c s, w\<lparr>pw_session := saveSession s (pw_session w)\<rparr>)"
| "on_done E bytes uuid i p RejectReply w =
     finish i p RejectReply (plog (Wrote i (PairResponse (PairRejected InvalidPin))) w)"
| "on_done E bytes uuid i p c w = (c, w)"

text \<open>
  A rejection is thrown out of the handler; the backend's rejections are the dispatcher's to catch, so they come
  out of the backend record. What does not fit the place is no event of it.
\<close>

definition resume_conn :: "('t, 'b, 'st) player_env \<Rightarrow> nat list \<Rightarrow> string \<Rightarrow> nat \<Rightarrow> string \<Rightarrow> 'st conn_state \<Rightarrow> conn_input \<Rightarrow>
    ('t, 'b, 'st) player_world \<Rightarrow> 'st conn_state \<times> ('t, 'b, 'st) player_world" where
  "resume_conn E bytes uuid i p c inp w =
     (case inp of
        InDone \<Rightarrow> on_done E bytes uuid i p c w
      | InLine l \<Rightarrow> if reads c then on_line E i p c l w else (c, w)
      | InFailed \<Rightarrow> (case c of Closed \<Rightarrow> (c, w) | CtlBackend _ _ _ \<Rightarrow> (c, w) | _ \<Rightarrow> finish i p c w))"

section \<open>Events\<close>

datatype player_event =
    EvAccept string
  | EvResume nat conn_input
  | EvClock nat
  | EvRemoval string
  | EvPushFailed string nat
  | EvInitSession | EvToggleMode | EvToggleMember string | EvAdminPin | EvNewPin
  | EvForget string
  | EvActive bool

definition accept_conn :: "string \<Rightarrow> ('t, 'b, 'st) player_world \<Rightarrow> ('t, 'b, 'st) player_world" where
  "accept_conn p w =
     (if pw_active w then w\<lparr>pw_conns := pw_conns w @ [(p, AwaitTrusted)]\<rparr>
      else plog (ClosedStream (length (pw_conns w))) (w\<lparr>pw_conns := pw_conns w @ [(p, Closed)]\<rparr>))"

definition resume_event :: "('t, 'b, 'st) player_env \<Rightarrow> nat list \<Rightarrow> string \<Rightarrow> nat \<Rightarrow> conn_input \<Rightarrow>
    ('t, 'b, 'st) player_world \<Rightarrow> ('t, 'b, 'st) player_world" where
  "resume_event E bytes uuid i inp w =
     (if i < length (pw_conns w)
      then (case pw_conns w ! i of (p, c) \<Rightarrow>
              (case resume_conn E bytes uuid i p c inp w of (c', w') \<Rightarrow> w'\<lparr>pw_conns := (pw_conns w')[i := (p, c')]\<rparr>))
      else w)"

text \<open>The settings panel changes the session it shows: what it changes is the signal's session, which it saves.\<close>

definition panel_saves :: "player_session \<Rightarrow> ('t, 'b, 'st) player_world \<Rightarrow> ('t, 'b, 'st) player_world" where
  "panel_saves s w = w\<lparr>pw_session := saveSession s (pw_session w), pw_signal := Some s\<rparr>"

definition initSessionSignal :: "nat list \<Rightarrow> ('t, 'b, 'st) player_world \<Rightarrow> ('t, 'b, 'st) player_world" where
  "initSessionSignal bytes w =
     (case ensureActiveSession (pw_now w) bytes (loadSession (pw_session w)) of (s, save) \<Rightarrow>
        if save then panel_saves s w else w\<lparr>pw_signal := Some s\<rparr>)"

definition toggleSessionMode :: "('t, 'b, 'st) player_world \<Rightarrow> ('t, 'b, 'st) player_world" where
  "toggleSessionMode w =
     (case pw_signal w of
        None \<Rightarrow> w
      | Some s \<Rightarrow> panel_saves (setSessionMode (pw_now w) (if ps_mode s = Everyone then Selected else Everyone) s) w)"

definition toggleSessionMember :: "string \<Rightarrow> ('t, 'b, 'st) player_world \<Rightarrow> ('t, 'b, 'st) player_world" where
  "toggleSessionMember n w =
     (case pw_signal w of
        None \<Rightarrow> w
      | Some s \<Rightarrow>
          if isPeerAllowedInSession s n None then panel_saves (leaveSession (pw_now w) n s) w
          else plog (Picked n) (panel_saves (joinSession (pw_now w) n s) w))"

definition requestAdminPin :: "nat list \<Rightarrow> ('t, 'b, 'st) player_world \<Rightarrow> ('t, 'b, 'st) player_world" where
  "requestAdminPin bytes w =
     (case pw_signal w of None \<Rightarrow> w | Some s \<Rightarrow> panel_saves (regenerateAdminPin (pw_now w) bytes s) w)"

definition regeneratePin :: "nat list \<Rightarrow> ('t, 'b, 'st) player_world \<Rightarrow> ('t, 'b, 'st) player_world" where
  "regeneratePin bytes w =
     (let base = (case pw_signal w of Some s \<Rightarrow> s | None \<Rightarrow> fst (ensureActiveSession (pw_now w) bytes (loadSession (pw_session w))))
      in panel_saves (regenerateSessionPin (pw_now w) bytes base) w)"

definition forget_controller :: "('t, 'b, 'st) player_env \<Rightarrow> string \<Rightarrow> ('t, 'b, 'st) player_world \<Rightarrow> ('t, 'b, 'st) player_world" where
  "forget_controller E n w = w\<lparr>pw_trust := ts_forgetController (pe_trust E) n (pw_trust w)\<rparr>"

fun player_step :: "('t, 'b, 'st) player_env \<Rightarrow> nat list \<Rightarrow> string \<Rightarrow> player_event \<Rightarrow>
    ('t, 'b, 'st) player_world \<Rightarrow> ('t, 'b, 'st) player_world" where
  "player_step E bytes uuid (EvAccept p) w = accept_conn p w"
| "player_step E bytes uuid (EvResume i inp) w = resume_event E bytes uuid i inp w"
| "player_step E bytes uuid (EvClock d) w = w\<lparr>pw_now := pw_now w + int d\<rparr>"
| "player_step E bytes uuid (EvRemoval n) w = removal_fired n w"
| "player_step E bytes uuid (EvPushFailed n i) w = push_failed n i w"
| "player_step E bytes uuid EvInitSession w = initSessionSignal bytes w"
| "player_step E bytes uuid EvToggleMode w = toggleSessionMode w"
| "player_step E bytes uuid (EvToggleMember n) w = toggleSessionMember n w"
| "player_step E bytes uuid EvAdminPin w = requestAdminPin bytes w"
| "player_step E bytes uuid EvNewPin w = regeneratePin bytes w"
| "player_step E bytes uuid (EvForget n) w = forget_controller E n w"
| "player_step E bytes uuid (EvActive b) w = w\<lparr>pw_active := b\<rparr>"

definition new_player :: "'t \<Rightarrow> 'b \<Rightarrow> ('t, 'b, 'st) player_world" where
  "new_player t b =
     \<lparr>pw_now = 0, pw_active = True, pw_failures = Map.empty, pw_trust = t, pw_session = None, pw_signal = None, pw_subscribers = [],
      pw_connected = [], pw_removals = [], pw_activity = None, pw_inFlight = False, pw_backend = b, pw_conns = [], pw_log = []\<rparr>"

text \<open>
  What can happen to a player from its installation on. An event comes with the random bytes and the identifier
  it may use up; an identifier is one no user has.
\<close>

inductive player_reach :: "('t, 'b, 'st) player_env \<Rightarrow> (string \<Rightarrow> 't \<Rightarrow> bool) \<Rightarrow> ('t, 'b, 'st) player_world \<Rightarrow>
    ('t, 'b, 'st) player_world \<Rightarrow> bool" for E unused w0 where
  start: "player_reach E unused w0 w0"
| event: "player_reach E unused w0 w \<Longrightarrow> unused uuid (pw_trust w) \<Longrightarrow> player_reach E unused w0 (player_step E bytes uuid ev w)"

fun player_run :: "('t, 'b, 'st) player_env \<Rightarrow> (nat list \<times> string \<times> player_event) list \<Rightarrow>
    ('t, 'b, 'st) player_world \<Rightarrow> ('t, 'b, 'st) player_world" where
  "player_run E [] w = w"
| "player_run E ((bytes, uuid, ev) # evs) w = player_run E evs (player_step E bytes uuid ev w)"

end
