(* ===== verification/PlayerProps.thy ===== *)
theory PlayerProps
  imports PlayerMachine
begin

text \<open>
  Invariants of the player under every interleaving of its connections, the clock and the settings panel: who
  is trusted and runs commands has redeemed a pin, whose node a session allows has redeemed one or was picked, and
  the brake on guessing holds over the whole history of failures.
\<close>

section \<open>What the log says\<close>

definition redeemed :: "('t, 'b, 'st) player_world \<Rightarrow> string set" where
  "redeemed w = {p. Redeemed p \<in> set (pw_log w)}"

definition picked :: "('t, 'b, 'st) player_world \<Rightarrow> string set" where
  "picked w = {p. Picked p \<in> set (pw_log w)}"

definition ran :: "('t, 'b, 'st) player_world \<Rightarrow> string set" where
  "ran w = {p. \<exists>i cmd. Ran i p cmd \<in> set (pw_log w)}"

text \<open>The times of the failed attempts of a node since it last got in.\<close>

definition note_failure :: "string \<Rightarrow> 'st player_log \<Rightarrow> int list \<Rightarrow> int list" where
  "note_failure p e fs = (case e of PairFailed q t \<Rightarrow> if q = p then fs @ [t] else fs
     | Redeemed q \<Rightarrow> if q = p then [] else fs | _ \<Rightarrow> fs)"

definition failures_since :: "string \<Rightarrow> 'st player_log list \<Rightarrow> int list" where
  "failures_since p es = fold (note_failure p) es []"

lemma failures_since_snoc: "failures_since p (es @ [e]) = note_failure p e (failures_since p es)"
  by (simp add: failures_since_def)

lemma failures_since_pushed: "failures_since p (es @ map (\<lambda>i. Pushed i st) ids) = failures_since p es"
  by (induction ids rule: rev_induct) (simp_all flip: append_assoc add: failures_since_snoc note_failure_def)

text \<open>The parts of a world the invariants speak of.\<close>

abbreviation limiter_of :: "('t, 'b, 'st) player_world \<Rightarrow> int \<times> failures \<times> (string \<Rightarrow> int list)" where
  "limiter_of w \<equiv> (pw_now w, pw_failures w, \<lambda>p. failures_since p (pw_log w))"

abbreviation auth_of :: "('t, 'b, 'st) player_world \<Rightarrow> 't \<times> string set \<times> string set" where
  "auth_of w \<equiv> (pw_trust w, redeemed w, ran w)"

abbreviation sessions_of :: "('t, 'b, 'st) player_world \<Rightarrow> player_session option \<times> player_session option \<times> string set \<times> string set" where
  "sessions_of w \<equiv> (pw_session w, pw_signal w, redeemed w, picked w)"

lemma log_facts [simp]:
  "redeemed (w\<lparr>pw_log := pw_log v @ [e]\<rparr>) = redeemed v \<union> (case e of Redeemed p \<Rightarrow> {p} | _ \<Rightarrow> {})"
  "picked (w\<lparr>pw_log := pw_log v @ [e]\<rparr>) = picked v \<union> (case e of Picked p \<Rightarrow> {p} | _ \<Rightarrow> {})"
  "ran (w\<lparr>pw_log := pw_log v @ [e]\<rparr>) = ran v \<union> (case e of Ran i p cmd \<Rightarrow> {p} | _ \<Rightarrow> {})"
  by (auto simp: redeemed_def picked_def ran_def split: player_log.split)

lemma log_only [simp]:
  "redeemed (w\<lparr>pw_now := a\<rparr>) = redeemed w" "redeemed (w\<lparr>pw_active := b\<rparr>) = redeemed w" "redeemed (w\<lparr>pw_failures := c\<rparr>) = redeemed w"
  "redeemed (w\<lparr>pw_trust := t\<rparr>) = redeemed w" "redeemed (w\<lparr>pw_session := s\<rparr>) = redeemed w" "redeemed (w\<lparr>pw_signal := s\<rparr>) = redeemed w"
  "redeemed (w\<lparr>pw_subscribers := u\<rparr>) = redeemed w" "redeemed (w\<lparr>pw_connected := d\<rparr>) = redeemed w"
  "redeemed (w\<lparr>pw_removals := r\<rparr>) = redeemed w" "redeemed (w\<lparr>pw_activity := x\<rparr>) = redeemed w"
  "redeemed (w\<lparr>pw_inFlight := b\<rparr>) = redeemed w" "redeemed (w\<lparr>pw_backend := k\<rparr>) = redeemed w" "redeemed (w\<lparr>pw_conns := cs\<rparr>) = redeemed w"
  "picked (w\<lparr>pw_now := a\<rparr>) = picked w" "picked (w\<lparr>pw_active := b\<rparr>) = picked w" "picked (w\<lparr>pw_failures := c\<rparr>) = picked w"
  "picked (w\<lparr>pw_trust := t\<rparr>) = picked w" "picked (w\<lparr>pw_session := s\<rparr>) = picked w" "picked (w\<lparr>pw_signal := s\<rparr>) = picked w"
  "picked (w\<lparr>pw_subscribers := u\<rparr>) = picked w" "picked (w\<lparr>pw_connected := d\<rparr>) = picked w"
  "picked (w\<lparr>pw_removals := r\<rparr>) = picked w" "picked (w\<lparr>pw_activity := x\<rparr>) = picked w"
  "picked (w\<lparr>pw_inFlight := b\<rparr>) = picked w" "picked (w\<lparr>pw_backend := k\<rparr>) = picked w" "picked (w\<lparr>pw_conns := cs\<rparr>) = picked w"
  "ran (w\<lparr>pw_now := a\<rparr>) = ran w" "ran (w\<lparr>pw_active := b\<rparr>) = ran w" "ran (w\<lparr>pw_failures := c\<rparr>) = ran w"
  "ran (w\<lparr>pw_trust := t\<rparr>) = ran w" "ran (w\<lparr>pw_session := s\<rparr>) = ran w" "ran (w\<lparr>pw_signal := s\<rparr>) = ran w"
  "ran (w\<lparr>pw_subscribers := u\<rparr>) = ran w" "ran (w\<lparr>pw_connected := d\<rparr>) = ran w"
  "ran (w\<lparr>pw_removals := r\<rparr>) = ran w" "ran (w\<lparr>pw_activity := x\<rparr>) = ran w"
  "ran (w\<lparr>pw_inFlight := b\<rparr>) = ran w" "ran (w\<lparr>pw_backend := k\<rparr>) = ran w" "ran (w\<lparr>pw_conns := cs\<rparr>) = ran w"
  by (simp_all add: redeemed_def picked_def ran_def)

section \<open>Frames\<close>

text \<open>The registries, the backend and the end of a connection touch none of these parts.\<close>

definition core_of :: "('t, 'b, 'st) player_world \<Rightarrow> _" where
  "core_of w = (limiter_of w, auth_of w, sessions_of w, pw_conns w)"

lemma core_same:
  assumes "core_of w = core_of v"
  shows "pw_now w = pw_now v" "pw_failures w = pw_failures v" "failures_since p (pw_log w) = failures_since p (pw_log v)"
    "pw_trust w = pw_trust v" "redeemed w = redeemed v" "ran w = ran v" "pw_session w = pw_session v" "pw_signal w = pw_signal v"
    "picked w = picked v" "pw_conns w = pw_conns v"
  using assms by (auto simp: core_of_def fun_eq_iff)

lemma registry_core [simp]:
  "core_of (markControllerConnected cc w) = core_of w" "core_of (markControllerDisconnected n w) = core_of w"
  "core_of (registerSubscriber n i w) = core_of w" "core_of (unregisterSubscriber n i w) = core_of w"
  "core_of (removal_fired n w) = core_of w" "core_of (push_failed n i w) = core_of w" "core_of (markActivity w) = core_of w"
  by (simp_all add: core_of_def markControllerConnected_def markControllerDisconnected_def registerSubscriber_def
      unregisterSubscriber_def removal_fired_def push_failed_def markActivity_def Let_def split: option.split)

lemma broadcast_core [simp]: "core_of (broadcastStatus st w) = core_of w"
  by (auto simp: core_of_def broadcastStatus_def failures_since_pushed redeemed_def ran_def picked_def)

lemma plain_core [simp]:
  "core_of (w\<lparr>pw_inFlight := b\<rparr>) = core_of w" "core_of (w\<lparr>pw_backend := k\<rparr>) = core_of w" "core_of (w\<lparr>pw_active := b\<rparr>) = core_of w"
  "core_of (plog (Wrote i r) w) = core_of w" "core_of (plog (ClosedStream i) w) = core_of w" "core_of (plog (TrustedAs n role) w) = core_of w"
  by (simp_all add: core_of_def failures_since_snoc note_failure_def)

lemma unwind_core [simp]: "core_of (unwind i p c w) = core_of w"
  by (simp add: unwind_def)

lemma finish_core [simp]: "core_of (snd (finish i p c w)) = core_of w" "fst (finish i p c w) = Closed"
  by (simp_all add: finish_def)

lemma dispatch_settled_core [simp]: "core_of (snd (dispatch_settled E cmd w)) = core_of w"
  by (simp add: dispatch_settled_def dispatch_catch_def Let_def split: prod.split sum.split backend_exn.split)

lemma ctl_settled_core [simp]: "core_of (snd (ctl_settled E i p c s cmd w)) = core_of w"
  using dispatch_settled_core [of E cmd w]
  by (cases "dispatch_settled E cmd w"; cases "fst (dispatch_settled E cmd w)") (auto simp: ctl_settled_def)

lemmas core_frames [simp] = registry_core [THEN core_same(1)] registry_core [THEN core_same(2)] registry_core [THEN core_same(3)]
  registry_core [THEN core_same(4)] registry_core [THEN core_same(5)] registry_core [THEN core_same(6)]
  registry_core [THEN core_same(7)] registry_core [THEN core_same(8)] registry_core [THEN core_same(9)] registry_core [THEN core_same(10)]

lemmas outcome_frames [simp] = core_same [OF finish_core(1)] core_same [OF ctl_settled_core]

section \<open>Who is trusted, and who runs commands\<close>

text \<open>The places a connection reaches only for a node that redeemed a pin.\<close>

fun vetted :: "'st conn_state \<Rightarrow> bool" where
  "vetted AwaitTrusted = False"
| "vetted (AwaitFirstLine trusted) = trusted"
| "vetted (PairLoad _) = False"
| "vetted (PairCreate _ _) = False"
| "vetted (PairReply _) = False"
| "vetted PairReload = False"
| "vetted PairEof = False"
| "vetted RejectReply = False"
| "vetted Closed = False"
| "vetted _ = True"

text \<open>What the handshake does before its first await.\<close>

lemma pair_start_outcomes:
  assumes "isRateLimited (pw_now w) p (pw_failures w) = (limited, fs)"
  obtains "pair_start E i p l s w = (PairReply (PairRejected RateLimited), w\<lparr>pw_failures := fs\<rparr>)"
  | "pair_start E i p l s w = finish i p (PairLoad l) (w\<lparr>pw_failures := fs\<rparr>)"
  | "\<not> limited" "pair_start E i p l s w = (PairReply (PairRejected InvalidPin),
        plog (PairFailed p (pw_now w)) (w\<lparr>pw_failures := recordPairingFailure (pw_now w) p fs\<rparr>))"
  | d where "\<not> limited" "pair_start E i p l s w = (PairList s d, plog (Redeemed p) (w\<lparr>pw_failures := clearPairingFailures p fs\<rparr>))"
proof (cases "limited \<or> json_parse_text l = None")
  case True
  with assms that(1,2) show ?thesis by (cases limited) (auto simp: pair_start_def)
next
  case False
  then obtain v where v: "\<not> limited" "json_parse_text l = Some v" by auto
  show ?thesis
  proof (cases "\<exists>ms. pe_zod E PairRequestSchema (Some v) = Some (Some (VObj ms)) \<and> str_at ''code'' ms = ps_pin s")
    case True
    then obtain ms where "pe_zod E PairRequestSchema (Some v) = Some (Some (VObj ms))" "str_at ''code'' ms = ps_pin s" by blast
    with v assms have "pair_start E i p l s w = (PairList s (str_at ''display_name'' ms),
        plog (Redeemed p) (w\<lparr>pw_failures := clearPairingFailures p fs\<rparr>))"
      by (simp add: pair_start_def)
    with v(1) show ?thesis by (rule that(4))
  next
    case False
    with v assms have "pair_start E i p l s w = (PairReply (PairRejected InvalidPin),
        plog (PairFailed p (pw_now w)) (w\<lparr>pw_failures := recordPairingFailure (pw_now w) p fs\<rparr>))"
      by (auto simp: pair_start_def Let_def split: option.split jsv.split)
    with v(1) show ?thesis by (rule that(3))
  qed
qed

lemma dispatch_auth:
  "pw_trust (snd (dispatchCommand E i p c s l w)) = pw_trust w" "redeemed (snd (dispatchCommand E i p c s l w)) = redeemed w"
  "ran (snd (dispatchCommand E i p c s l w)) \<subseteq> insert p (ran w)"
  by (auto simp: dispatchCommand_def Let_def split: option.split)

lemma branch_auth:
  "pw_trust (snd (ctl_branch E i p c s l w)) = pw_trust w" "redeemed (snd (ctl_branch E i p c s l w)) = redeemed w"
  "ran (snd (ctl_branch E i p c s l w)) \<subseteq> insert p (ran w)"
  "pw_trust (snd (ctl_line E i p c s l w)) = pw_trust w" "redeemed (snd (ctl_line E i p c s l w)) = redeemed w"
  "ran (snd (ctl_line E i p c s l w)) \<subseteq> insert p (ran w)"
  using dispatch_auth [of E i p c s l w]
    dispatch_auth [of E i p c s l "markControllerConnected (connected_info p c) w"]
  by (auto simp: ctl_branch_def ctl_line_def)

text \<open>One resumption: whose trust it may change, who may be redeemed, who may run a command.\<close>

definition auth_effect :: "('t, 'b, 'st) player_env \<Rightarrow> string \<Rightarrow> string \<Rightarrow> bool \<Rightarrow>
    ('t, 'b, 'st) player_world \<Rightarrow> ('t, 'b, 'st) player_world \<Rightarrow> bool" where
  "auth_effect E uuid p v w w' =
     ((pw_trust w' = pw_trust w \<or> (v \<and> (\<exists>d r. pw_trust w' = ts_trustController (pe_trust E) (pw_now w) uuid p d r (pw_trust w))))
     \<and> redeemed w \<subseteq> redeemed w' \<and> redeemed w' \<subseteq> insert p (redeemed w)
     \<and> ran w \<subseteq> ran w' \<and> ran w' \<subseteq> (if v then insert p (ran w) else ran w))"

lemma pair_start_auth:
  "auth_effect E uuid p False w (snd (pair_start E i p l s w))"
  "vetted (fst (pair_start E i p l s w)) \<Longrightarrow> p \<in> redeemed (snd (pair_start E i p l s w))"
proof -
  obtain limited fs where l: "isRateLimited (pw_now w) p (pw_failures w) = (limited, fs)" by fastforce
  show "auth_effect E uuid p False w (snd (pair_start E i p l s w))"
    by (rule pair_start_outcomes [OF l, of E i l s]) (auto simp: auth_effect_def)
  show "vetted (fst (pair_start E i p l s w)) \<Longrightarrow> p \<in> redeemed (snd (pair_start E i p l s w))"
    by (rule pair_start_outcomes [OF l, of E i l s]) (auto simp: auth_effect_def)
qed

lemma dispatch_more: "ran w \<subseteq> ran (snd (dispatchCommand E i p c s l w))"
  by (auto simp: dispatchCommand_def Let_def split: option.split)

lemma branch_more: "ran w \<subseteq> ran (snd (ctl_branch E i p c s l w))" "ran w \<subseteq> ran (snd (ctl_line E i p c s l w))"
  using dispatch_more [of w E i p c s l] dispatch_more [of "markControllerConnected (connected_info p c) w" E i p c s l]
  by (auto simp: ctl_branch_def ctl_line_def)

lemma on_done_auth:
  "auth_effect E uuid p (vetted c) w (snd (on_done E bytes uuid i p c w))"
proof (cases c)
  case (PairLoad l)
  then show ?thesis using pair_start_auth(1) [of E uuid p w i l] by (auto simp: auth_effect_def split: prod.split)
next
  case (PairCreate l s)
  then show ?thesis
    using pair_start_auth(1) [of E uuid p "w\<lparr>pw_session := saveSession s (pw_session w)\<rparr>" i l s] by (simp add: auth_effect_def)
next
  case (PairTrust s d r g)
  then show ?thesis by (auto simp: auth_effect_def pair_trust_def)
next
  case (CtlLoad l k)
  then show ?thesis
    using branch_auth(1-3) [of E i p k _ l w] branch_more(1) [of w E i p k _ l]
    by (auto simp: auth_effect_def split: prod.split)
next
  case (CtlCreate l k s)
  then show ?thesis
    using branch_auth(1-3) [of E i p k s l "w\<lparr>pw_session := saveSession s (pw_session w)\<rparr>"]
      branch_more(1) [of "w\<lparr>pw_session := saveSession s (pw_session w)\<rparr>" E i p k s l]
    by (auto simp: auth_effect_def)
qed (auto simp: auth_effect_def pair_list_def pair_join_def Let_def split: option.split)

lemma resume_auth: "auth_effect E uuid p (vetted c) w (snd (resume_conn E bytes uuid i p c inp w))"
proof (cases inp)
  case InDone
  then show ?thesis using on_done_auth by (simp add: resume_conn_def)
next
  case InFailed
  then show ?thesis by (cases c) (auto simp: resume_conn_def auth_effect_def)
next
  case (InLine l)
  then show ?thesis
    using branch_auth(4-6) [of E i p _ _ _ w] branch_more(2) [of w E i p]
    by (cases c; cases l) (auto simp: resume_conn_def on_line_def auth_effect_def)
qed

lemma resume_vetted:
  assumes "vetted c \<Longrightarrow> p \<in> redeemed w" "ts_isTrustedController (pe_trust E) p (pw_trust w) \<Longrightarrow> p \<in> redeemed w"
    and "vetted (fst (resume_conn E bytes uuid i p c inp w))"
  shows "p \<in> redeemed (snd (resume_conn E bytes uuid i p c inp w))"
proof (cases "vetted c")
  case True
  then show ?thesis using assms(1) resume_auth [of E uuid p c w bytes i inp] by (auto simp: auth_effect_def)
next
  case False
  then show ?thesis
    using assms(2,3) pair_start_auth(2) [of E i p _ _ _]
    by (cases c; cases inp) (auto simp: resume_conn_def on_line_def split: prod.splits option.splits if_splits)
qed

definition access_inv :: "('t, 'b, 'st) player_env \<Rightarrow> ('t \<Rightarrow> bool) \<Rightarrow> ('t, 'b, 'st) player_world \<Rightarrow> bool" where
  "access_inv E ok w =
     (ok (pw_trust w) \<and> (\<forall>n. ts_isTrustedController (pe_trust E) n (pw_trust w) \<longrightarrow> n \<in> redeemed w) \<and> ran w \<subseteq> redeemed w
     \<and> (\<forall>(p, c) \<in> set (pw_conns w). vetted c \<longrightarrow> p \<in> redeemed w))"

lemma access_inv_conn: "access_inv E ok w \<Longrightarrow> i < length (pw_conns w) \<Longrightarrow> pw_conns w ! i = (p, c) \<Longrightarrow> vetted c \<Longrightarrow> p \<in> redeemed w"
  by (metis (mono_tags, lifting) access_inv_def case_prodD nth_mem)

text \<open>Only the list entry of the resumed connection changes.\<close>

lemma pair_start_conns [simp]: "pw_conns (snd (pair_start E i p l s w)) = pw_conns w"
proof -
  obtain limited fs where l: "isRateLimited (pw_now w) p (pw_failures w) = (limited, fs)" by fastforce
  show ?thesis by (rule pair_start_outcomes [OF l, of E i l s]) simp_all
qed

lemma line_conns [simp]: "pw_conns (snd (ctl_line E i p c s l w)) = pw_conns w" "pw_conns (snd (ctl_branch E i p c s l w)) = pw_conns w"
  by (simp_all add: ctl_line_def ctl_branch_def dispatchCommand_def Let_def split: option.split)

lemma done_conns: "pw_conns (snd (on_done E bytes uuid i p c w)) = pw_conns w"
  by (cases c) (simp_all add: pair_list_def pair_trust_def pair_join_def Let_def split: prod.split option.split)

lemma resume_conns [simp]: "pw_conns (snd (resume_conn E bytes uuid i p c inp w)) = pw_conns w"
  by (cases inp) (simp_all add: resume_conn_def on_line_def done_conns split: conn_state.split option.split)

lemma resume_event_at:
  assumes "i < length (pw_conns w)" "pw_conns w ! i = (p, c)"
  shows "resume_event E bytes uuid i inp w =
    (snd (resume_conn E bytes uuid i p c inp w))\<lparr>pw_conns := (pw_conns w)[i := (p, fst (resume_conn E bytes uuid i p c inp w))]\<rparr>"
  using resume_conns [of E bytes uuid i p c inp w] assms
  by (cases "resume_conn E bytes uuid i p c inp w") (simp add: resume_event_def)

lemma access_inv_resume:
  assumes "controller_trust (pe_trust E) ok unused" "unused uuid (pw_trust w)" "access_inv E ok w"
  shows "access_inv E ok (resume_event E bytes uuid i inp w)"
proof (cases "i < length (pw_conns w)")
  case True
  obtain p c where c: "pw_conns w ! i = (p, c)" by fastforce
  let ?r = "resume_conn E bytes uuid i p c inp w"
  note ev = resume_event_at [OF True c]
  have inv: "ok (pw_trust w)" "\<And>n. ts_isTrustedController (pe_trust E) n (pw_trust w) \<Longrightarrow> n \<in> redeemed w" "ran w \<subseteq> redeemed w"
    "\<And>q d. (q, d) \<in> set (pw_conns w) \<Longrightarrow> vetted d \<Longrightarrow> q \<in> redeemed w"
    using assms(3) by (auto simp: access_inv_def)
  have here: "vetted c \<Longrightarrow> p \<in> redeemed w" using access_inv_conn [OF assms(3) True c] .
  note eff = resume_auth [of E uuid p c w bytes i inp, unfolded auth_effect_def]
  have mono: "redeemed w \<subseteq> redeemed (snd ?r)" using eff by blast
  have "ok (pw_trust (snd ?r))" using eff inv(1) controller_trust.ok_trust [OF assms(1)] by auto
  moreover have "n \<in> redeemed (snd ?r)" if "ts_isTrustedController (pe_trust E) n (pw_trust (snd ?r))" for n
  proof -
    have "n = p \<and> vetted c \<or> ts_isTrustedController (pe_trust E) n (pw_trust w)"
      using eff that controller_trust.trust_only [OF assms(1) inv(1) assms(2), of n _ p] by metis
    then show ?thesis using inv(2) here mono by blast
  qed
  moreover have "ran (snd ?r) \<subseteq> redeemed (snd ?r)" 
    using eff inv(3) here mono by (cases "vetted c"; simp; blast)
  moreover have "q \<in> redeemed (snd ?r)" if "(q, d) \<in> set ((pw_conns w)[i := (p, fst ?r)])" "vetted d" for q d
  proof (cases "(q, d) \<in> set (pw_conns w)")
    case True
    then show ?thesis using inv(4) that(2) mono by blast
  next
    case False
    then have "(q, d) = (p, fst ?r)" using that(1) set_update_subset_insert by fastforce
    then have "q = p" "vetted (fst ?r)" using that(2) by simp_all
    moreover have "p \<in> redeemed (snd ?r)"
      by (rule resume_vetted) (use here inv(2) \<open>vetted (fst ?r)\<close> in auto)
    ultimately show ?thesis by simp
  qed
  ultimately show ?thesis unfolding ev access_inv_def by auto
next
  case False
  then show ?thesis using assms(3) by (simp add: resume_event_def)
qed

lemma access_inv_step:
  assumes "controller_trust (pe_trust E) ok unused" "unused uuid (pw_trust w)" "access_inv E ok w"
  shows "access_inv E ok (player_step E bytes uuid ev w)"
proof (cases ev)
  case (EvResume i inp)
  then show ?thesis using access_inv_resume [OF assms] by simp
next
  case (EvForget n)
  then show ?thesis
    using assms(3) controller_trust.ok_forget [OF assms(1)] controller_trust.forget_only [OF assms(1)]
    by (auto simp: access_inv_def forget_controller_def)
next
  case EvInitSession
  then show ?thesis using assms(3)
    by (auto simp: access_inv_def initSessionSignal_def panel_saves_def split: prod.split)
next
  case (EvAccept p)
  then show ?thesis using assms(3) by (auto simp: access_inv_def accept_conn_def)
qed (use assms(3) in \<open>auto simp: access_inv_def toggleSessionMode_def toggleSessionMember_def requestAdminPin_def
    regeneratePin_def panel_saves_def Let_def split: option.split\<close>)

theorem access_inv_reach:
  assumes "controller_trust (pe_trust E) ok unused" "ok t" "\<And>n. \<not> ts_isTrustedController (pe_trust E) n t"
    and "player_reach E unused (new_player t b) w"
  shows "access_inv E ok w"
  using assms(4)
proof induction
  case start
  then show ?case using assms(2,3) by (simp add: access_inv_def new_player_def ran_def)
next
  case (event w uuid bytes ev)
  then show ?case by (intro access_inv_step [OF assms(1)])
qed

section \<open>The brake on guessing\<close>

definition limiter_inv :: "('t, 'b, 'st) player_world \<Rightarrow> bool" where
  "limiter_inv w = (\<forall>p. braked (pw_now w) (failures_since p (pw_log w)) (pw_failures w p))"

lemma limiter_inv_same:
  "pw_now v = pw_now w \<Longrightarrow> pw_failures v = pw_failures w \<Longrightarrow> (\<And>p. failures_since p (pw_log v) = failures_since p (pw_log w)) \<Longrightarrow>
   limiter_inv w \<Longrightarrow> limiter_inv v"
  by (simp add: limiter_inv_def)

lemmas note_failure_simps [simp] = failures_since_snoc note_failure_def

lemma dispatch_limiter [simp]:
  "pw_now (snd (dispatchCommand E i p c s l w)) = pw_now w" "pw_failures (snd (dispatchCommand E i p c s l w)) = pw_failures w"
  "failures_since q (pw_log (snd (dispatchCommand E i p c s l w))) = failures_since q (pw_log w)"
  by (auto simp: dispatchCommand_def Let_def split: option.split)

lemma branch_limiter [simp]:
  "pw_now (snd (ctl_branch E i p c s l w)) = pw_now w" "pw_failures (snd (ctl_branch E i p c s l w)) = pw_failures w"
  "failures_since q (pw_log (snd (ctl_branch E i p c s l w))) = failures_since q (pw_log w)"
  "pw_now (snd (ctl_line E i p c s l w)) = pw_now w" "pw_failures (snd (ctl_line E i p c s l w)) = pw_failures w"
  "failures_since q (pw_log (snd (ctl_line E i p c s l w))) = failures_since q (pw_log w)"
  by (simp_all add: ctl_branch_def ctl_line_def)

lemma pair_start_limiter:
  assumes "limiter_inv w"
  shows "limiter_inv (snd (pair_start E i p l s w))"
proof -
  obtain limited fs where l: "isRateLimited (pw_now w) p (pw_failures w) = (limited, fs)" by fastforce
  have b: "braked (pw_now w) (failures_since q (pw_log w)) (pw_failures w q)" for q
    using assms by (simp add: limiter_inv_def)
  have k: "braked (pw_now w) (failures_since q (pw_log w)) (fs q)" for q
    using braked_limited(1) [OF b l] braked_limited(2) [OF b l, of q] b [of q] by (cases "q = p") auto
  note few = braked_limited(3) [OF b l]
  show ?thesis
  proof (rule pair_start_outcomes [OF l, of E i l s])
    assume "\<not> limited" "pair_start E i p l s w = (PairReply (PairRejected InvalidPin),
        plog (PairFailed p (pw_now w)) (w\<lparr>pw_failures := recordPairingFailure (pw_now w) p fs\<rparr>))"
    then show ?thesis using braked_record [of "pw_now w" _ fs p, OF k few] k
      by (auto simp: limiter_inv_def recordPairingFailure_def)
  next
    fix d
    assume "pair_start E i p l s w = (PairList s d, plog (Redeemed p) (w\<lparr>pw_failures := clearPairingFailures p fs\<rparr>))"
    then show ?thesis using k by (auto simp: limiter_inv_def clearPairingFailures_def)
  qed (use k in \<open>simp_all add: limiter_inv_def\<close>)
qed

lemma session_limiter [simp]: "limiter_inv (w\<lparr>pw_session := s\<rparr>) = limiter_inv w" "limiter_inv (w\<lparr>pw_conns := cs\<rparr>) = limiter_inv w"
  by (simp_all add: limiter_inv_def)

lemma resume_limiter:
  assumes "limiter_inv w"
  shows "limiter_inv (snd (resume_conn E bytes uuid i p c inp w))"
proof (cases inp)
  case InDone
  show ?thesis
  proof (cases "(\<exists>l. c = PairLoad l) \<or> (\<exists>l s. c = PairCreate l s)")
    case True
    then show ?thesis using InDone assms
      by (auto simp: resume_conn_def split: prod.split intro!: pair_start_limiter)
  next
    case False
    show ?thesis
      by (rule limiter_inv_same [OF _ _ _ assms]; insert InDone False; cases c)
        (auto simp: resume_conn_def pair_list_def pair_trust_def pair_join_def Let_def split: prod.split option.split)
  qed
next
  case InFailed
  show ?thesis
    by (rule limiter_inv_same [OF _ _ _ assms]; insert InFailed; cases c) (simp_all add: resume_conn_def)
next
  case (InLine l)
  show ?thesis
    by (rule limiter_inv_same [OF _ _ _ assms]; insert InLine; cases c; cases l) (simp_all add: resume_conn_def on_line_def)
qed

lemma limiter_inv_step:
  assumes "limiter_inv w"
  shows "limiter_inv (player_step E bytes uuid ev w)"
proof (cases ev)
  case (EvResume i inp)
  obtain p c where "i < length (pw_conns w) \<Longrightarrow> pw_conns w ! i = (p, c)" by (cases "pw_conns w ! i") simp
  then show ?thesis
    using EvResume assms resume_limiter [OF assms]
    by (cases "i < length (pw_conns w)") (simp_all add: resume_event_at, simp add: resume_event_def)
next
  case (EvClock d)
  then show ?thesis using assms braked_time [of "pw_now w" _ _ "pw_now w + int d"] by (simp add: limiter_inv_def)
next
  case EvInitSession
  then show ?thesis
    by (intro limiter_inv_same [OF _ _ _ assms]) (auto simp: initSessionSignal_def panel_saves_def split: prod.split)
next
  case (EvAccept p)
  then show ?thesis by (intro limiter_inv_same [OF _ _ _ assms]) (auto simp: accept_conn_def)
qed (intro limiter_inv_same [OF _ _ _ assms]; auto simp: toggleSessionMode_def toggleSessionMember_def requestAdminPin_def
    regeneratePin_def panel_saves_def forget_controller_def Let_def split: option.split)+

theorem limiter_inv_reach: "player_reach E unused (new_player t b) w \<Longrightarrow> limiter_inv w"
proof (induction rule: player_reach.induct)
  case start
  then show ?case by (simp add: limiter_inv_def new_player_def failures_since_def)
qed (rule limiter_inv_step)

end
