(* ===== verification/PlayerProtocolProps.thy ===== *)
theory PlayerProtocolProps
  imports PlayerProtocol ZodProps
begin

text \<open>Every object the command schema accepts is a command, with its numbers in the schema's range.\<close>

lemma command_schemas_shape:
  "s \<in> set command_schemas \<Longrightarrow> \<exists>fs. s = ZObj fs \<and> distinct (map fst fs)"
  by (auto simp: command_schemas_def utext_def)

lemma accepted_command:
  assumes "zod z" "z PlayerCommandSchema (Some v) = Some y"
  shows "\<exists>ms us fs. v = VObj ms \<and> y = Some (VObj us) \<and> ZObj fs \<in> set command_schemas \<and>
    (\<forall>(k, t) \<in> set fs. z t (member k ms) = Some (member k us))"
proof -
  obtain ms s where s: "v = VObj ms" "disc_branch (utext ''command'') command_schemas ms = Some s" "z s (Some v) = Some y"
    using assms(2) by (auto simp: PlayerCommandSchema_def zod.z_disc [OF assms(1)] split: option.splits jsv.splits)
  then have mem: "s \<in> set command_schemas" by (simp add: disc_branch_mem)
  then obtain fs where fs: "s = ZObj fs" "distinct (map fst fs)" using command_schemas_shape by blast
  with s(1,3) obtain us where us: "obj_fields z fs ms = Some us" "y = Some (VObj us)"
    by (auto simp: zod.z_obj [OF assms(1)])
  then show ?thesis using s(1) mem fs(1) obj_fields_member(1) [OF us(1) fs(2)] by blast
qed

text \<open>What a required field of each kind turns into.\<close>

lemma required_fields:
  assumes "zod z"
  shows "z (ZLitStr t) x = Some y \<Longrightarrow> y = Some (VStr t)" "z ZNonneg x = Some y \<Longrightarrow> \<exists>l. y = Some (VNum l) \<and> x = y"
    "z ZUnit x = Some y \<Longrightarrow> \<exists>l. y = Some (VNum l) \<and> x = y" "z ZBool x = Some y \<Longrightarrow> \<exists>b. y = Some (VBool b)"
    "z (ZObj fs) x = Some y \<Longrightarrow> \<exists>us. y = Some (VObj us)" "z ZNat x = Some y \<Longrightarrow> \<exists>l. y = Some (VNum l) \<and> x = y"
  using zod.z_number_only(2) [OF assms, of x] zod.z_number_only(4) [OF assms, of x] zod.z_number_only(5) [OF assms, of x]
  by (auto simp: zod.z_scalar [OF assms] zod.z_obj [OF assms] split: option.splits jsv.splits if_splits)

fun in_range :: "player_command \<Rightarrow> bool" where
  "in_range (SetVolume l) = (literal_short l \<longrightarrow> literal_unit l)"
| "in_range (Seek l) = (literal_short l \<longrightarrow> literal_nonneg l)"
| "in_range _ = True"

lemma utext_eq_iff: "utext s = utext t \<longleftrightarrow> s = t"
  using inj_map_eq_map [of of_char s t] inj_of_char by (auto simp: utext_def)

lemma accepted_is_command:
  assumes z: "zod z" and acc: "z PlayerCommandSchema (Some v) = Some y"
  shows "\<exists>cmd. parse_command z v = Some cmd \<and> in_range cmd"
proof -
  obtain ms us fs where o: "v = VObj ms" "y = Some (VObj us)" "ZObj fs \<in> set command_schemas"
    "\<forall>(k, t) \<in> set fs. z t (member k ms) = Some (member k us)"
    using accepted_command [OF assms] by blast
  have fld_in: "z t (member k ms) = Some (member k us)" if "(k, t) \<in> set fs" for k t
    using o(4) that by blast
  have name: "\<forall>n. (utext ''command'', ZLitStr n) \<in> set fs \<longrightarrow> member (utext ''command'') us = Some (VStr n)"
    using fld_in required_fields(1) [OF z] by blast
  have seek: "\<forall>k. (k, ZNonneg) \<in> set fs \<longrightarrow> (\<exists>l. member k us = Some (VNum l) \<and> (literal_short l \<longrightarrow> literal_nonneg l))"
    using fld_in required_fields(2) [OF z] zod.z_nonneg [OF z] by (metis option.distinct(1))
  have vol: "\<forall>k. (k, ZUnit) \<in> set fs \<longrightarrow> (\<exists>l. member k us = Some (VNum l) \<and> (literal_short l \<longrightarrow> literal_unit l))"
    using fld_in required_fields(3) [OF z] zod.z_unit [OF z] by (metis option.distinct(1))
  have bool: "\<forall>k. (k, ZBool) \<in> set fs \<longrightarrow> (\<exists>b. member k us = Some (VBool b))"
    using fld_in required_fields(4) [OF z] by blast
  have item: "\<forall>k. (k, MediaRefSchema) \<in> set fs \<longrightarrow> (\<exists>o'. member k us = Some (VObj o'))"
    using fld_in required_fields(5) [OF z] unfolding MediaRefSchema_def by blast
  have "\<exists>cmd. command_of us = Some cmd \<and> in_range cmd"
    using o(3) unfolding command_schemas_def list.set insert_iff zschema.inject empty_iff
  proof (elim disjE FalseE)
  qed (insert name seek vol bool item, auto simp: command_of_def Let_def utext_eq_iff MediaRefSchema_def)
  then show ?thesis using acc o(2) by (simp add: parse_command_def)
qed

end
