(* ===== verification/PlayerUsers.thy ===== *)
theory PlayerUsers
  imports PlayerTrust
begin

text \<open>
  The trust store spume itself uses: \<open>app/services/users/usersStore.ts\<close> keeps users and the nodes they
  connect from in two stores, and \<open>cenotaph/adapters/trustStoreAdapter.ts\<close> answers the trust store's
  interface from them (the browser branch; the desktop branch asks the Rust server).
\<close>

record user =
  us_id :: string
  us_username :: jstext
  us_role :: peer_role
  us_api_key :: "string option"
  us_created_at :: int
  us_updated_at :: int
  us_deleted_at :: "int option"
  us_haruspex_user_id :: "string option"
  us_metadata :: "string option"

record user_peer_node =
  pn_node_id :: string
  pn_user_id :: string
  pn_instance_name :: "string option"
  pn_metadata :: "string option"
  pn_created_at :: int
  pn_last_seen_at :: "int option"
  pn_deleted_at :: "int option"

record peer_node_with_user =
  pu_user_id :: string
  pu_node_id :: string
  pu_instance_name :: "string option"
  pu_created_at :: int
  pu_last_seen_at :: "int option"
  pu_username :: jstext
  pu_role :: peer_role
  pu_deleted_at :: "int option"
  pu_user_deleted_at :: "int option"

record users_db =
  ud_users :: "user list"
  ud_peer_nodes :: "user_peer_node list"

definition joinUserAndPeerNode :: "user \<Rightarrow> user_peer_node \<Rightarrow> peer_node_with_user" where
  "joinUserAndPeerNode u p =
     \<lparr>pu_user_id = pn_user_id p, pu_node_id = pn_node_id p, pu_instance_name = pn_instance_name p,
      pu_created_at = pn_created_at p, pu_last_seen_at = pn_last_seen_at p, pu_username = us_username u,
      pu_role = us_role u, pu_deleted_at = pn_deleted_at p, pu_user_deleted_at = us_deleted_at u\<rparr>"

section \<open>Users\<close>

definition getUser :: "string \<Rightarrow> users_db \<Rightarrow> user option" where
  "getUser i db = idb_get us_id i (ud_users db)"

definition getUserByUsername :: "jstext \<Rightarrow> users_db \<Rightarrow> user option" where
  "getUserByUsername name db = List.find (\<lambda>u. us_username u = name) (ud_users db)"

definition put_user :: "user \<Rightarrow> users_db \<Rightarrow> users_db" where
  "put_user u db = db\<lparr>ud_users := idb_put us_id u (ud_users db)\<rparr>"

definition createUser :: "string \<Rightarrow> int \<Rightarrow> jstext \<Rightarrow> peer_role \<Rightarrow> users_db \<Rightarrow> user \<times> users_db" where
  "createUser uuid now name r db =
     (let u = \<lparr>us_id = uuid, us_username = name, us_role = r, us_api_key = None, us_created_at = now,
               us_updated_at = now, us_deleted_at = None, us_haruspex_user_id = None, us_metadata = None\<rparr>
      in (u, put_user u db))"

record user_patch =
  up_username :: "jstext option"
  up_role :: "peer_role option"
  up_metadata :: "string option option"

definition updateUser :: "int \<Rightarrow> string \<Rightarrow> user_patch \<Rightarrow> users_db \<Rightarrow> user option \<times> users_db" where
  "updateUser now i p db =
     (case getUser i db of
        None \<Rightarrow> (None, db)
      | Some u \<Rightarrow>
          (let u' = u\<lparr>us_username := nullish_or (up_username p) (us_username u), us_role := nullish_or (up_role p) (us_role u),
                      us_metadata := nullish_or (up_metadata p) (us_metadata u), us_updated_at := now\<rparr>
           in (Some u', put_user u' db)))"

definition deleteUser :: "string \<Rightarrow> users_db \<Rightarrow> users_db" where
  "deleteUser i db = db\<lparr>ud_users := idb_delete us_id i (ud_users db)\<rparr>"

section \<open>Peer nodes\<close>

definition getPeerNode :: "string \<Rightarrow> users_db \<Rightarrow> user_peer_node option" where
  "getPeerNode n db = idb_get pn_node_id n (ud_peer_nodes db)"

definition put_node :: "user_peer_node \<Rightarrow> users_db \<Rightarrow> users_db" where
  "put_node p db = db\<lparr>ud_peer_nodes := idb_put pn_node_id p (ud_peer_nodes db)\<rparr>"

definition upsertPeerNode :: "int \<Rightarrow> string \<Rightarrow> string \<Rightarrow> string option \<Rightarrow> users_db \<Rightarrow> user_peer_node \<times> users_db" where
  "upsertPeerNode now uid n inst db =
     (let old = getPeerNode n db;
          p = \<lparr>pn_node_id = n, pn_user_id = uid,
               pn_instance_name = nullish_orelse inst (Option.bind old pn_instance_name),
               pn_metadata = Option.bind old pn_metadata,
               pn_created_at = nullish_or (map_option pn_created_at old) now,
               pn_last_seen_at = Option.bind old pn_last_seen_at, pn_deleted_at = None\<rparr>
      in (p, put_node p db))"

definition touchPeerNode :: "int \<Rightarrow> string \<Rightarrow> users_db \<Rightarrow> users_db" where
  "touchPeerNode now n db =
     (case getPeerNode n db of None \<Rightarrow> db | Some p \<Rightarrow> put_node (p\<lparr>pn_last_seen_at := Some now\<rparr>) db)"

definition removePeerNode :: "string \<Rightarrow> users_db \<Rightarrow> users_db" where
  "removePeerNode n db =
     (let db' = db\<lparr>ud_peer_nodes := idb_delete pn_node_id n (ud_peer_nodes db)\<rparr>
      in case getPeerNode n db of None \<Rightarrow> db' | Some p \<Rightarrow> deleteUser (pn_user_id p) db')"

definition findUserByNodeId :: "string \<Rightarrow> users_db \<Rightarrow> peer_node_with_user option" where
  "findUserByNodeId n db =
     (case getPeerNode n db of
        None \<Rightarrow> None
      | Some p \<Rightarrow> map_option (\<lambda>u. joinUserAndPeerNode u p) (getUser (pn_user_id p) db))"

definition listPeerNodesWithUsers :: "users_db \<Rightarrow> peer_node_with_user list" where
  "listPeerNodesWithUsers db =
     (let usersById = map_of (rev (map (\<lambda>u. (us_id u, u)) (ud_users db)))
      in List.map_filter (\<lambda>p. map_option (\<lambda>u. joinUserAndPeerNode u p) (usersById (pn_user_id p))) (ud_peer_nodes db))"

section \<open>Allowing a peer\<close>

definition name_and_role :: "jstext \<Rightarrow> peer_role \<Rightarrow> user_patch" where
  "name_and_role name r = \<lparr>up_username = Some name, up_role = Some r, up_metadata = None\<rparr>"

definition role_only :: "peer_role \<Rightarrow> user_patch" where
  "role_only r = \<lparr>up_username = None, up_role = Some r, up_metadata = None\<rparr>"

definition allow_by_name :: "int \<Rightarrow> string \<Rightarrow> string \<Rightarrow> jstext \<Rightarrow> peer_role \<Rightarrow> users_db \<Rightarrow> peer_node_with_user \<times> users_db" where
  "allow_by_name now uuid n name r db =
     (let (u, db1) =
        (case getUserByUsername name db of
           Some e \<Rightarrow> (case updateUser now (us_id e) (role_only r) db of (res, db') \<Rightarrow> (nullish_or res e, db'))
         | None \<Rightarrow> createUser uuid now name r db);
          (p, db2) = upsertPeerNode now (us_id u) n None db1
      in (joinUserAndPeerNode u p, db2))"

definition allowPeer :: "int \<Rightarrow> string \<Rightarrow> string \<Rightarrow> jstext \<Rightarrow> peer_role \<Rightarrow> users_db \<Rightarrow> peer_node_with_user \<times> users_db" where
  "allowPeer now uuid n name r db =
     (case getPeerNode n db of
        Some p \<Rightarrow>
          (case updateUser now (pn_user_id p) (name_and_role name r) db of
             (Some u, db1) \<Rightarrow> (case upsertPeerNode now (us_id u) n None db1 of (p', db2) \<Rightarrow> (joinUserAndPeerNode u p', db2))
           | (None, db1) \<Rightarrow> allow_by_name now uuid n name r db1)
      | None \<Rightarrow> allow_by_name now uuid n name r db)"

section \<open>The adapter\<close>

definition toTrustedController :: "peer_node_with_user \<Rightarrow> trusted_controller" where
  "toTrustedController j =
     \<lparr>tc_node_id = pu_node_id j, tc_display_name = pu_username j, tc_role = pu_role j, tc_paired_at = pu_created_at j\<rparr>"

definition spumeTrustStore :: "users_db trust_store" where
  "spumeTrustStore =
     \<lparr>ts_isTrustedController = \<lambda>n db. findUserByNodeId n db \<noteq> None,
      ts_getTrustedController = \<lambda>n db. map_option toTrustedController (findUserByNodeId n db),
      ts_trustController = \<lambda>now uuid n d r db. snd (allowPeer now uuid n d r db),
      ts_forgetController = removePeerNode,
      ts_listTrustedControllers = \<lambda>db. map toTrustedController (listPeerNodesWithUsers db)\<rparr>"

end
