(* ===== verification/PlayerUsersProps.thy ===== *)
theory PlayerUsersProps
  imports PlayerUsers
begin

text \<open>
  The users store meets the trust store's contract, but it is no isolated store: users are found by name, and
  controllers of one name share their user and with it their role.
\<close>

definition users_ok :: "users_db \<Rightarrow> bool" where
  "users_ok db = (idb_ok us_id (ud_users db) \<and> idb_ok pn_node_id (ud_peer_nodes db))"

definition unused_id :: "string \<Rightarrow> users_db \<Rightarrow> bool" where
  "unused_id i db = ((\<forall>u \<in> set (ud_users db). us_id u \<noteq> i) \<and> (\<forall>p \<in> set (ud_peer_nodes db). pn_user_id p \<noteq> i))"

text \<open>The user a controller is linked to when it is allowed.\<close>

definition linked_user :: "string \<Rightarrow> string \<Rightarrow> jstext \<Rightarrow> users_db \<Rightarrow> string" where
  "linked_user uuid n name db =
     (let by_name = (case getUserByUsername name db of Some e \<Rightarrow> us_id e | None \<Rightarrow> uuid)
      in case getPeerNode n db of
           Some p \<Rightarrow> if getUser (pn_user_id p) db = None then by_name else pn_user_id p
         | None \<Rightarrow> by_name)"

section \<open>Stores\<close>

lemma put_ok [simp]: "users_ok db \<Longrightarrow> users_ok (put_user u db)" "users_ok db \<Longrightarrow> users_ok (put_node p db)"
  by (simp_all add: users_ok_def put_user_def put_node_def idb.ok_put)

lemma get_put [simp]:
  "users_ok db \<Longrightarrow> getUser i (put_user u db) = (if i = us_id u then Some u else getUser i db)"
  "users_ok db \<Longrightarrow> getPeerNode n (put_node p db) = (if n = pn_node_id p then Some p else getPeerNode n db)"
  "getUser i (put_node p db) = getUser i db" "getPeerNode n (put_user u db) = getPeerNode n db"
  by (simp_all add: users_ok_def getUser_def getPeerNode_def put_user_def put_node_def idb.get_put)

lemma getUser_iff: "users_ok db \<Longrightarrow> getUser i db = Some u \<longleftrightarrow> u \<in> set (ud_users db) \<and> us_id u = i"
  by (simp add: users_ok_def getUser_def idb.get_iff_row)

lemma getPeerNode_iff: "users_ok db \<Longrightarrow> getPeerNode n db = Some p \<longleftrightarrow> p \<in> set (ud_peer_nodes db) \<and> pn_node_id p = n"
  by (simp add: users_ok_def getPeerNode_def idb.get_iff_row)

lemma find_put:
  assumes "users_ok db" "pn_node_id p = n" "pn_user_id p = us_id u"
  shows "findUserByNodeId m (put_node p (put_user u db)) =
    (if m = n then Some (joinUserAndPeerNode u p)
     else case getPeerNode m db of None \<Rightarrow> None
       | Some q \<Rightarrow> map_option (\<lambda>v. joinUserAndPeerNode v q) (if pn_user_id q = us_id u then Some u else getUser (pn_user_id q) db))"
  using assms by (auto simp: findUserByNodeId_def joinUserAndPeerNode_def split: option.split)

section \<open>Allowing a peer\<close>

text \<open>Whatever the branch, one user is written, then the node that links to it.\<close>

lemma allow_by_name_writes:
  assumes "users_ok db"
  shows "\<exists>u p. allow_by_name now uuid n name r db = (joinUserAndPeerNode u p, put_node p (put_user u db))
    \<and> pn_node_id p = n \<and> pn_user_id p = us_id u \<and> us_username u = name \<and> us_role u = r
    \<and> us_id u = (case getUserByUsername name db of Some e \<Rightarrow> us_id e | None \<Rightarrow> uuid)"
proof (cases "getUserByUsername name db")
  case None
  then show ?thesis
    by (intro exI conjI, simp add: allow_by_name_def createUser_def upsertPeerNode_def Let_def) simp_all
next
  case (Some e)
  then have "getUser (us_id e) db = Some e" "us_username e = name"
    using assms by (auto simp: getUserByUsername_def getUser_iff dest: find_SomeD)
  with Some show ?thesis
    using \<open>us_username e = name\<close>
    by (intro exI conjI, simp add: allow_by_name_def updateUser_def role_only_def upsertPeerNode_def Let_def) simp_all
qed

lemma allow_writes:
  assumes "users_ok db"
  shows "\<exists>u p. allowPeer now uuid n name r db = (joinUserAndPeerNode u p, put_node p (put_user u db))
    \<and> pn_node_id p = n \<and> pn_user_id p = us_id u \<and> us_username u = name \<and> us_role u = r
    \<and> us_id u = linked_user uuid n name db"
proof (cases "\<exists>q v. getPeerNode n db = Some q \<and> getUser (pn_user_id q) db = Some v")
  case True
  then obtain q v where q: "getPeerNode n db = Some q" "getUser (pn_user_id q) db = Some v" by blast
  then have "us_id v = pn_user_id q" using assms by (simp add: getUser_iff)
  with q show ?thesis
    by (intro exI conjI, simp add: allowPeer_def updateUser_def name_and_role_def upsertPeerNode_def Let_def)
      (simp_all add: linked_user_def)
next
  case False
  then have "allowPeer now uuid n name r db = allow_by_name now uuid n name r db"
    by (auto simp: allowPeer_def updateUser_def split: option.split)
  moreover have "linked_user uuid n name db = (case getUserByUsername name db of Some e \<Rightarrow> us_id e | None \<Rightarrow> uuid)"
    using False by (auto simp: linked_user_def Let_def split: option.split)
  ultimately show ?thesis using allow_by_name_writes [OF assms] by simp
qed

lemma find_user_id: "users_ok db \<Longrightarrow> findUserByNodeId m db = Some j \<Longrightarrow>
    \<exists>q v. getPeerNode m db = Some q \<and> getUser (pu_user_id j) db = Some v \<and> pu_user_id j = pn_user_id q \<and> j = joinUserAndPeerNode v q"
  by (auto simp: findUserByNodeId_def joinUserAndPeerNode_def split: option.splits)

text \<open>What allowing a controller means for it and for the others.\<close>

lemma allow_self:
  assumes "users_ok db"
  shows "\<exists>j. findUserByNodeId n (snd (allowPeer now uuid n name r db)) = Some j \<and> fst (allowPeer now uuid n name r db) = j
    \<and> pu_node_id j = n \<and> pu_username j = name \<and> pu_role j = r \<and> pu_user_id j = linked_user uuid n name db"
proof -
  obtain u p where w: "allowPeer now uuid n name r db = (joinUserAndPeerNode u p, put_node p (put_user u db))"
    "pn_node_id p = n" "pn_user_id p = us_id u" "us_username u = name" "us_role u = r" "us_id u = linked_user uuid n name db"
    using allow_writes [OF assms] by blast
  then show ?thesis using assms by (simp add: find_put) (simp add: joinUserAndPeerNode_def)
qed

lemma allow_other:
  assumes "users_ok db" "m \<noteq> n" "findUserByNodeId m db = Some j"
  shows "\<exists>j'. findUserByNodeId m (snd (allowPeer now uuid n name r db)) = Some j' \<and> pu_user_id j' = pu_user_id j
    \<and> (if pu_user_id j = linked_user uuid n name db then pu_username j' = name \<and> pu_role j' = r else j' = j)"
proof -
  obtain u p where w: "allowPeer now uuid n name r db = (joinUserAndPeerNode u p, put_node p (put_user u db))"
    "pn_node_id p = n" "pn_user_id p = us_id u" "us_username u = name" "us_role u = r" "us_id u = linked_user uuid n name db"
    using allow_writes [OF assms(1)] by blast
  obtain q v where q: "getPeerNode m db = Some q" "getUser (pn_user_id q) db = Some v" "pu_user_id j = pn_user_id q"
    "j = joinUserAndPeerNode v q"
    using find_user_id [OF assms(1,3)] by metis
  have f: "findUserByNodeId m (put_node p (put_user u db)) = Some (joinUserAndPeerNode (if pn_user_id q = us_id u then u else v) q)"
    using assms(1,2) w(2,3) q(1,2) by (simp add: find_put)
  show ?thesis
    unfolding w(1) snd_conv f using q(3,4) w(4-6) by (simp add: joinUserAndPeerNode_def)
qed

lemma named_user: "users_ok db \<Longrightarrow> getUserByUsername name db = Some e \<Longrightarrow> getUser (us_id e) db = Some e \<and> us_username e = name"
  by (auto simp: getUserByUsername_def getUser_iff dest: find_SomeD)

lemma linked_known: "users_ok db \<Longrightarrow> linked_user uuid n name db \<noteq> uuid \<Longrightarrow> getUser (linked_user uuid n name db) db \<noteq> None"
  using named_user [of db name] by (auto simp: linked_user_def Let_def split: option.splits if_splits)

lemma allow_only:
  assumes "users_ok db" "unused_id uuid db" "m \<noteq> n" "findUserByNodeId m (snd (allowPeer now uuid n name r db)) \<noteq> None"
  shows "findUserByNodeId m db \<noteq> None"
proof -
  obtain u p where w: "allowPeer now uuid n name r db = (joinUserAndPeerNode u p, put_node p (put_user u db))"
    "pn_node_id p = n" "pn_user_id p = us_id u" "us_id u = linked_user uuid n name db"
    using allow_writes [OF assms(1)] by blast
  obtain q where q: "getPeerNode m db = Some q" "pn_user_id q = us_id u \<or> getUser (pn_user_id q) db \<noteq> None"
    using assms(1,3,4) w(1-3) by (auto simp: find_put split: option.splits if_splits)
  have ne: "pn_user_id q \<noteq> uuid"
    using assms(2) q(1) assms(1) by (auto simp: unused_id_def getPeerNode_iff)
  have "getUser (us_id u) db \<noteq> None" if "us_id u \<noteq> uuid"
    using that linked_known [OF assms(1)] unfolding w(4) by blast
  then have "getUser (pn_user_id q) db \<noteq> None" using q(2) ne by auto
  with q(1) show ?thesis by (auto simp: findUserByNodeId_def)
qed

section \<open>Forgetting a controller\<close>

lemma users_ok_remove: "users_ok db \<Longrightarrow> users_ok (removePeerNode n db)"
  by (auto simp: users_ok_def removePeerNode_def deleteUser_def idb.ok_del Let_def split: option.split)

lemma remove_gets:
  assumes "users_ok db"
  shows "getPeerNode m (removePeerNode n db) = (if m = n then None else getPeerNode m db)"
    "getUser i (removePeerNode n db) = (if map_option pn_user_id (getPeerNode n db) = Some i then None else getUser i db)"
  using assms unfolding users_ok_def removePeerNode_def deleteUser_def Let_def getPeerNode_def getUser_def
  by (cases "idb_get pn_node_id n (ud_peer_nodes db)"; simp add: idb.get_del)+

lemma find_remove:
  assumes "users_ok db"
  shows "findUserByNodeId m (removePeerNode n db) =
    (if m = n \<or> map_option pn_user_id (getPeerNode m db) = map_option pn_user_id (getPeerNode n db) then None
     else findUserByNodeId m db)"
  by (cases "getPeerNode n db"; cases "getPeerNode m db")
    (auto simp: findUserByNodeId_def remove_gets [OF assms])

section \<open>The contract\<close>

lemma list_users: "users_ok db \<Longrightarrow> j \<in> set (listPeerNodesWithUsers db) \<longleftrightarrow> findUserByNodeId (pu_node_id j) db = Some j"
proof -
  assume ok: "users_ok db"
  have "distinct (map us_id (ud_users db))" using ok idb.distinct_keys by (auto simp: users_ok_def)
  then have d: "distinct (map fst (map (\<lambda>u. (us_id u, u)) (ud_users db)))" by (simp add: comp_def)
  have "map_of (rev (map (\<lambda>u. (us_id u, u)) (ud_users db))) i = Some u \<longleftrightarrow> getUser i db = Some u" for i u
    using ok unfolding map_of_rev_distinct [OF d] getUser_iff [OF ok] map_of_eq_Some_iff [OF d] by auto
  then have e: "map_of (rev (map (\<lambda>u. (us_id u, u)) (ud_users db))) i = getUser i db" for i
    by (rule option_eqI)
  have "j \<in> set (listPeerNodesWithUsers db) \<longleftrightarrow>
      (\<exists>p. p \<in> set (ud_peer_nodes db) \<and> map_option (\<lambda>u. joinUserAndPeerNode u p) (getUser (pn_user_id p) db) = Some j)"
    unfolding listPeerNodesWithUsers_def Let_def e by (force simp: map_filter_def)
  also have "\<dots> \<longleftrightarrow> findUserByNodeId (pu_node_id j) db = Some j"
  proof -
    have row: "p \<in> set (ud_peer_nodes db) \<longleftrightarrow> getPeerNode (pn_node_id p) db = Some p" for p
      by (simp add: getPeerNode_iff [OF ok])
    have node: "getPeerNode (pu_node_id j) db = Some p \<Longrightarrow> pn_node_id p = pu_node_id j" for p
      by (simp add: getPeerNode_iff [OF ok])
    show ?thesis
      unfolding row using node
      by (auto simp: findUserByNodeId_def joinUserAndPeerNode_def split: option.split) force
  qed
  finally show ?thesis .
qed

lemma spume_trust_simps:
  "ts_isTrustedController spumeTrustStore n db \<longleftrightarrow> findUserByNodeId n db \<noteq> None"
  "ts_getTrustedController spumeTrustStore n db = map_option toTrustedController (findUserByNodeId n db)"
  "ts_trustController spumeTrustStore now uuid n d r db = snd (allowPeer now uuid n d r db)"
  "ts_forgetController spumeTrustStore n db = removePeerNode n db"
  "ts_listTrustedControllers spumeTrustStore db = map toTrustedController (listPeerNodesWithUsers db)"
  by (simp_all add: spumeTrustStore_def)

lemma find_node_id: "findUserByNodeId n db = Some j \<Longrightarrow> users_ok db \<Longrightarrow> pu_node_id j = n"
  by (auto simp: findUserByNodeId_def joinUserAndPeerNode_def getPeerNode_iff split: option.splits)

interpretation spume_trust: controller_trust spumeTrustStore users_ok unused_id
proof
  fix db :: users_db and n m uuid :: string and c d r and now :: int
  assume ok: "users_ok db"
  show "ts_isTrustedController spumeTrustStore n db = (ts_getTrustedController spumeTrustStore n db \<noteq> None)"
    by (simp add: spume_trust_simps)
  show "tc_node_id c = n" if "ts_getTrustedController spumeTrustStore n db = Some c"
    using that ok by (auto simp: spume_trust_simps toTrustedController_def dest: find_node_id)
  show "\<exists>t. ts_getTrustedController spumeTrustStore n (ts_trustController spumeTrustStore now uuid n d r db) =
      Some \<lparr>tc_node_id = n, tc_display_name = d, tc_role = r, tc_paired_at = t\<rparr>"
    using allow_self [OF ok, of n now uuid d r] by (auto simp: spume_trust_simps toTrustedController_def)
  show "ts_isTrustedController spumeTrustStore m (ts_trustController spumeTrustStore now uuid n d r db)"
    if "ts_isTrustedController spumeTrustStore m db"
    using that allow_self [OF ok, of n now uuid d r] allow_other [OF ok, of m n _ now uuid d r]
    by (cases "m = n") (fastforce simp: spume_trust_simps)+
  show "m = n \<or> ts_isTrustedController spumeTrustStore m db"
    if "unused_id uuid db" "ts_isTrustedController spumeTrustStore m (ts_trustController spumeTrustStore now uuid n d r db)"
    using that allow_only [OF ok that(1), of m n] by (auto simp: spume_trust_simps)
  show "\<not> ts_isTrustedController spumeTrustStore n (ts_forgetController spumeTrustStore n db)"
    by (simp add: spume_trust_simps find_remove [OF ok])
  show "ts_isTrustedController spumeTrustStore m db"
    if "ts_isTrustedController spumeTrustStore m (ts_forgetController spumeTrustStore n db)"
    using that by (auto simp: spume_trust_simps find_remove [OF ok] split: if_splits)
  show "c \<in> set (ts_listTrustedControllers spumeTrustStore db) \<longleftrightarrow>
      ts_getTrustedController spumeTrustStore (tc_node_id c) db = Some c"
    using ok by (force simp: spume_trust_simps list_users toTrustedController_def dest: find_node_id)
  show "users_ok (ts_trustController spumeTrustStore now uuid n d r db)"
    using allow_writes [OF ok, of now uuid n d r] ok by (auto simp: spume_trust_simps)
  show "users_ok (ts_forgetController spumeTrustStore n db)"
    using users_ok_remove [OF ok] by (simp add: spume_trust_simps)
qed

end
