(* ===== verification/PlayerClaims.thy ===== *)
theory PlayerClaims
  imports PlayerProps PlayerProtocolProps PlayerUsersProps
begin

text \<open>What the player promises its owner, and where it does not.\<close>

section \<open>A player to run\<close>

definition idle_backend :: "(unit, unit) playback_backend" where
  "idle_backend =
     \<lparr>pb_play = \<lambda>_ b. (b, None), pb_replaceQueue = \<lambda>_ b. (b, None), pb_appendQueue = \<lambda>_ b. (b, None),
      pb_pause = \<lambda>b. (b, None), pb_resume = \<lambda>b. (b, None), pb_seek = \<lambda>_ b. (b, None), pb_skip = \<lambda>b. (b, None),
      pb_removeFromQueue = \<lambda>_ b. (b, None), pb_reorderQueue = \<lambda>_ _ b. (b, None), pb_setVolume = \<lambda>_ b. (b, None),
      pb_stop = \<lambda>b. (b, None), pb_startRadio = \<lambda>_ _ b. (b, None), pb_stopRadio = \<lambda>b. (b, None),
      pb_requestSourceAccess = \<lambda>_ _ _ b. (b, None), pb_setAutoDownloadEnabled = \<lambda>_ b. (b, None),
      pb_currentStatus = \<lambda>_. Inr (), pb_listOutputDevices = \<lambda>b. (b, Inr []), pb_setOutputDevice = \<lambda>_ b. (b, None)\<rparr>"

definition idle_env :: "(trusted_controller list, unit, unit) player_env" where
  "idle_env = \<lparr>pe_zod = zod_ref, pe_trust = createIdbTrustStore, pe_backend = idle_backend\<rparr>"

definition pair_line :: "string \<Rightarrow> string \<Rightarrow> jstext" where
  "pair_line code name = json_stringify (VObj [fld ''type'' (VStr (utext ''pair_request'')), fld ''code'' (VStr (utext code)),
     fld ''display_name'' (VStr (utext name))])"

definition status_line :: jstext where
  "status_line = json_stringify (VObj [fld ''type'' (VStr (utext ''control'')), fld ''command'' (VStr (utext ''get_status''))])"

text \<open>A connection's reads and awaits, one after the other.\<close>

definition steps :: "nat list \<Rightarrow> string \<Rightarrow> nat \<Rightarrow> conn_input list \<Rightarrow> (nat list \<times> string \<times> player_event) list" where
  "steps bytes uuid i inps = map (\<lambda>inp. (bytes, uuid, EvResume i inp)) inps"

text \<open>A whole pairing on a connection of its own, and a status request up to its acknowledgement.\<close>

definition pairing :: "nat list \<Rightarrow> string \<Rightarrow> nat \<Rightarrow> string \<Rightarrow> jstext \<Rightarrow> (nat list \<times> string \<times> player_event) list" where
  "pairing bytes uuid i p line = (bytes, uuid, EvAccept p) #
     steps bytes uuid i ([InDone, InLine (Some line)] @ replicate 7 InDone)"

definition status_request :: "nat list \<Rightarrow> string \<Rightarrow> nat \<Rightarrow> string \<Rightarrow> jstext \<Rightarrow> (nat list \<times> string \<times> player_event) list" where
  "status_request bytes uuid i p line = (bytes, uuid, EvAccept p) # steps bytes uuid i [InDone, InLine (Some line), InDone, InDone]"

lemma wf_utext: "wf_text (utext s)"
proof (induction s)
  case (Cons c s)
  have "of_char c < (55296::nat)" by (rule less_trans [of _ 256]) simp_all
  with Cons show ?case by (cases s) (auto simp: utext_def high_surrogate_def low_surrogate_def)
qed (simp add: utext_def)

lemma pair_line_parsed [simp]: "json_parse_text (pair_line c n) = Some (VObj [fld ''type'' (VStr (utext ''pair_request'')),
    fld ''code'' (VStr (utext c)), fld ''display_name'' (VStr (utext n))])"
  unfolding pair_line_def by (rule json_roundtrip) (simp add: wf_utext)

lemma status_line_parsed [simp]: "json_parse_text status_line =
    Some (VObj [fld ''type'' (VStr (utext ''control'')), fld ''command'' (VStr (utext ''get_status''))])"
  unfolding status_line_def by (rule json_roundtrip) (simp add: wf_utext)

lemma run_append: "player_run E (xs @ ys) w = player_run E ys (player_run E xs w)"
  by (induction xs arbitrary: w) auto

lemma run_step:
  assumes "pw_conns w = cs @ (p, c) # ds"
  shows "resume_event E bytes uuid (length cs) inp w =
    (snd (resume_conn E bytes uuid (length cs) p c inp w))
      \<lparr>pw_conns := cs @ (p, fst (resume_conn E bytes uuid (length cs) p c inp w)) # ds\<rparr>"
  using assms by (simp add: resume_event_at [where p = p and c = c])

lemmas session_ops = ensureActiveSession_def loadSession_def saveSession_def

lemma pairing_runs:
  assumes "pw_active w" "pw_session w = Some s" "pw_now w - ps_last_active_at s \<le> SESSION_IDLE_MS"
    "isRateLimited (pw_now w) p (pw_failures w) = (False, fs)"
    "json_parse_text line = Some v" "type_is ''pair_request'' v" "pe_zod E PairRequestSchema (Some v) = Some (Some (VObj ms))"
    "str_at ''code'' ms = ps_pin s" "i = length (pw_conns w)"
    and g: "g = (ts_listTrustedControllers (pe_trust E) (pw_trust w) = [] \<or> ps_admin_grant_pending s)"
    and s': "s' = (if g then regenerateSessionPin (pw_now w) bytes else id) (joinSession (pw_now w) p s)"
    and r: "r = (if g then PAdmin else PViewer)"
  shows "player_run E (pairing bytes uuid i p line) w = w\<lparr>pw_failures := clearPairingFailures p fs,
    pw_trust := ts_trustController (pe_trust E) (pw_now w) uuid p (str_at ''display_name'' ms) r (pw_trust w),
    pw_session := Some s', pw_signal := Some s', pw_conns := pw_conns w @ [(p, PairEof)],
    pw_log := pw_log w @ [Redeemed p, TrustedAs p r, Wrote i (PairResponse PairOk)]\<rparr>"
  using assms(1-9) unfolding s' r
  by (simp add: pairing_def steps_def accept_conn_def run_step numeral_eq_Suc resume_conn_def on_line_def isPairRequestLine_def
      session_ops pair_start_def pair_list_def pair_trust_def pair_join_def g [symmetric])

lemma status_request_runs:
  assumes "pw_active w" "pw_session w = Some s" "pw_now w - ps_last_active_at s \<le> SESSION_IDLE_MS"
    "ts_isTrustedController (pe_trust E) p (pw_trust w)" "pw_subscribers w = []" "\<not> isPairRequestLine line"
    "\<not> isPresenceQuery (pe_zod E) line" "\<not> isSubscribeRequest (pe_zod E) line" "isGetStatusCommand line"
    "json_parse_text line = Some v" "parse_command (pe_zod E) v = Some GetStatus"
    "pb_currentStatus (pe_backend E) (pw_backend w) = Inr st" "i = length (pw_conns w)"
    and c: "c = ts_getTrustedController (pe_trust E) p (pw_trust w)"
  shows "player_run E (status_request bytes uuid i p line) w = (markControllerConnected (connected_info p c) w)
    \<lparr>pw_conns := pw_conns w @ [(p, CtlReply c s \<lparr>ca_ok = True, ca_reason = None, ca_detail = None, ca_status = Some st, ca_devices = None\<rparr>)],
     pw_log := pw_log w @ [Ran i p GetStatus]\<rparr>"
  using assms(1-13)
  by (simp add: status_request_def steps_def accept_conn_def run_step resume_conn_def on_line_def session_ops c [symmetric]
      ctl_branch_def ctl_line_def dispatchCommand_def ctl_settled_def dispatch_settled_def broadcastStatus_def
      markControllerConnected_def)

lemma touch_runs:
  assumes "pw_conns w = cs @ (p, CtlReply c s ack) # ds"
  shows "player_run E (steps bytes uuid (length cs) [InDone, InDone]) w =
    w\<lparr>pw_session := Some (touchSession (pw_now w) s), pw_conns := cs @ (p, CtlRead c (touchSession (pw_now w) s)) # ds,
      pw_log := pw_log w @ [Wrote (length cs) (CommandAck ack)]\<rparr>"
  using assms by (simp add: steps_def run_step resume_conn_def session_ops)

abbreviation pair_members :: "string \<Rightarrow> string \<Rightarrow> (jstext \<times> jsv) list" where
  "pair_members c n \<equiv> [fld ''type'' (VStr (utext ''pair_request'')), fld ''code'' (VStr (utext c)), fld ''display_name'' (VStr (utext n))]"

lemma pair_line_kind [simp]: "type_is ''pair_request'' (VObj (pair_members c n))"
  by (simp add: type_is_def member_def utext_eq_iff)

lemma utf16_utext: "utf16_length (utext n) = length n"
proof -
  have "of_char c < (0x10000::nat)" for c by (rule less_trans [of _ 256]) simp_all
  then show ?thesis by (simp add: utf16_length_def utext_def filter_empty_conv not_le)
qed

lemma pair_line_accepted [simp]: "n \<noteq> [] \<Longrightarrow> length n \<le> 64 \<Longrightarrow>
    zod_ref PairRequestSchema (Some (VObj (pair_members c n))) = Some (Some (VObj (pair_members c n)))"
  by (cases n) (simp_all add: PairRequestSchema_def member_def utext_eq_iff utf16_utext)

lemma pair_line_fields [simp]: "str_at ''code'' (pair_members c n) = utext c" "str_at ''display_name'' (pair_members c n) = utext n"
  by (simp_all add: member_def utext_eq_iff)

lemma status_line_kind [simp]: "\<not> isPairRequestLine status_line" "isGetStatusCommand status_line"
  "\<not> isPresenceQuery zod_ref status_line" "\<not> isSubscribeRequest zod_ref status_line"
  by (simp_all add: isPairRequestLine_def isGetStatusCommand_def isPresenceQuery_def isSubscribeRequest_def PresenceQuerySchema_def
      SubscribeRequestSchema_def type_is_def member_def utext_eq_iff)

lemma status_line_command [simp]:
  "parse_command zod_ref (VObj [fld ''type'' (VStr (utext ''control'')), fld ''command'' (VStr (utext ''get_status''))]) = Some GetStatus"
  by (simp add: parse_command_def PlayerCommandSchema_def disc_branch_def command_schemas_def command_of_def member_def utext_eq_iff)

section \<open>A session saved late\<close>

text \<open>A line that offers a code, one that asks for the status, a node the limiter lets through.\<close>

definition offers :: "('t, 'b, 'st) player_env \<Rightarrow> jstext \<Rightarrow> jstext \<Rightarrow> bool" where
  "offers E line code = (\<exists>v ms. json_parse_text line = Some v \<and> type_is ''pair_request'' v
     \<and> pe_zod E PairRequestSchema (Some v) = Some (Some (VObj ms)) \<and> str_at ''code'' ms = code)"

definition polls :: "('t, 'b, 'st) player_env \<Rightarrow> jstext \<Rightarrow> bool" where
  "polls E line = (\<not> isPairRequestLine line \<and> \<not> isPresenceQuery (pe_zod E) line \<and> \<not> isSubscribeRequest (pe_zod E) line
     \<and> isGetStatusCommand line \<and> (\<exists>v. json_parse_text line = Some v \<and> parse_command (pe_zod E) v = Some GetStatus))"

definition let_through :: "string \<Rightarrow> ('t, 'b, 'st) player_world \<Rightarrow> bool" where
  "let_through p w = (\<not> fst (isRateLimited (pw_now w) p (pw_failures w)))"

lemma let_through_clear: "let_through q w \<Longrightarrow> pw_now v = pw_now w \<Longrightarrow>
    (\<exists>fs. isRateLimited (pw_now w) p (pw_failures w) = (False, fs) \<and> pw_failures v = clearPairingFailures p fs) \<Longrightarrow> p \<noteq> q \<Longrightarrow> let_through q v"
  by (auto simp: let_through_def isRateLimited_def clearPairingFailures_def split: option.splits)

text \<open>What a pairing leaves, with the details of the line gone.\<close>

lemma pairing_leaves:
  assumes "pw_active w" "pw_session w = Some s" "pw_now w - ps_last_active_at s \<le> SESSION_IDLE_MS" "let_through p w"
    "offers E line (ps_pin s)" "i = length (pw_conns w)"
    and g: "g = (ts_listTrustedControllers (pe_trust E) (pw_trust w) = [] \<or> ps_admin_grant_pending s)"
  shows "\<exists>fs d s' w'. player_run E (pairing bytes uuid i p line) w = w'
    \<and> isRateLimited (pw_now w) p (pw_failures w) = (False, fs) \<and> pw_failures w' = clearPairingFailures p fs
    \<and> pw_trust w' = ts_trustController (pe_trust E) (pw_now w) uuid p d (if g then PAdmin else PViewer) (pw_trust w)
    \<and> s' = (if g then regenerateSessionPin (pw_now w) bytes else id) (joinSession (pw_now w) p s)
    \<and> pw_session w' = Some s' \<and> pw_signal w' = Some s' \<and> pw_conns w' = pw_conns w @ [(p, PairEof)]
    \<and> pw_log w' = pw_log w @ [Redeemed p, TrustedAs p (if g then PAdmin else PViewer), Wrote i (PairResponse PairOk)]
    \<and> pw_active w' \<and> pw_now w' = pw_now w \<and> pw_backend w' = pw_backend w \<and> pw_subscribers w' = pw_subscribers w"
proof -
  obtain v ms where o: "json_parse_text line = Some v" "type_is ''pair_request'' v"
    "pe_zod E PairRequestSchema (Some v) = Some (Some (VObj ms))" "str_at ''code'' ms = ps_pin s"
    using assms(5) by (auto simp: offers_def)
  obtain fs where fs: "isRateLimited (pw_now w) p (pw_failures w) = (False, fs)"
    using assms(4) by (cases "isRateLimited (pw_now w) p (pw_failures w)") (auto simp: let_through_def)
  note r = pairing_runs [OF assms(1-3) fs o assms(6) g refl refl, of bytes uuid]
  show ?thesis unfolding r by (intro exI conjI, rule refl, rule fs, simp_all add: assms(1))
qed

section \<open>A controller outside the session\<close>

lemma get_status_only:
  assumes "zod z" "isGetStatusCommand line" "json_parse_text line = Some v" "parse_command z v = Some cmd"
  shows "cmd = GetStatus"
proof -
  obtain y where y: "z PlayerCommandSchema (Some v) = Some y"
    using assms(4) by (auto simp: parse_command_def split: option.splits)
  then obtain ms us fs where o: "v = VObj ms" "y = Some (VObj us)" "ZObj fs \<in> set command_schemas"
    "\<forall>(k, t) \<in> set fs. z t (member k ms) = Some (member k us)"
    using accepted_command [OF assms(1)] by blast
  have lit: "member (utext ''command'') ms = Some (VStr (utext ''get_status''))"
    using assms(2,3) o(1) by (auto simp: isGetStatusCommand_def)
  have "\<exists>t. (utext ''command'', ZLitStr t) \<in> set fs"
    using o(3) by (auto simp: command_schemas_def)
  then obtain t where "(utext ''command'', ZLitStr t) \<in> set fs" by blast
  then have "z (ZLitStr t) (member (utext ''command'') ms) = Some (member (utext ''command'') us)" using o(4) by blast
  then have "member (utext ''command'') us = Some (VStr (utext ''get_status''))"
    using lit by (auto simp: zod.z_lit_str [OF assms(1)] split: if_splits)
  then have "command_of us = Some GetStatus" by (simp add: command_of_def utext_eq_iff)
  then show ?thesis using assms(4) y o(2) by (simp add: parse_command_def)
qed

lemma dispatch_status_backend:
  "pw_backend (snd (dispatch_settled E GetStatus w)) = pw_backend w"
  by (simp add: dispatch_settled_def dispatch_catch_def broadcastStatus_def Let_def split: sum.split backend_exn.split)

section \<open>Every connection ends\<close>

text \<open>How many awaits a connection has left when its peer sends nothing more.\<close>

fun awaits_left :: "'st conn_state \<Rightarrow> nat" where
  "awaits_left AwaitTrusted = 2"
| "awaits_left (AwaitFirstLine _) = 1"
| "awaits_left (PairLoad _) = 9"
| "awaits_left (PairCreate _ _) = 8"
| "awaits_left (PairList _ _) = 7"
| "awaits_left (PairTrust _ _ _ _) = 6"
| "awaits_left (PairJoin _ _) = 5"
| "awaits_left (PairRegen _) = 4"
| "awaits_left (PairReply _) = 3"
| "awaits_left PairReload = 2"
| "awaits_left PairEof = 1"
| "awaits_left (CtlGet _) = 7"
| "awaits_left (CtlLoad _ _) = 6"
| "awaits_left (CtlCreate _ _ _) = 5"
| "awaits_left (PresenceReply _) = 1"
| "awaits_left Subscribed = 1"
| "awaits_left (CtlDenied _ _) = 2"
| "awaits_left (CtlBackend _ _ _) = 4"
| "awaits_left (CtlReply _ _ _) = 3"
| "awaits_left (CtlTouch _ _) = 2"
| "awaits_left (CtlRead _ _) = 1"
| "awaits_left RejectReply = 1"
| "awaits_left Closed = 0"


lemma ctl_settled_left: "awaits_left (fst (ctl_settled E i p c s cmd w)) \<le> 3"
  by (simp add: ctl_settled_def split: prod.split option.split)

lemma line_left: "awaits_left (fst (ctl_line E i p c s line w)) \<le> 4" "awaits_left (fst (ctl_branch E i p c s line w)) \<le> 4"
proof -
  have d: "awaits_left (fst (dispatchCommand E i p c s line v)) \<le> 4" for v
    using le_trans [OF ctl_settled_left, of 4] by (auto simp: dispatchCommand_def Let_def split: option.split)
  then show l: "awaits_left (fst (ctl_line E i p c s line w)) \<le> 4" for w by (simp add: ctl_line_def)
  show "awaits_left (fst (ctl_branch E i p c s line w)) \<le> 4" using l by (simp add: ctl_branch_def)
qed

lemma pair_start_left: "awaits_left (fst (pair_start E i p l s w)) \<le> 7"
proof -
  obtain limited fs where l: "isRateLimited (pw_now w) p (pw_failures w) = (limited, fs)" by fastforce
  show ?thesis by (rule pair_start_outcomes [OF l, of E i l s]) simp_all
qed

lemma left_bounds [simp]:
  "awaits_left (fst (pair_start E i p l s w)) < 8" "awaits_left (fst (pair_start E i p l s w)) < 9"
  "awaits_left (fst (ctl_branch E i p c s l w)) < 5" "awaits_left (fst (ctl_branch E i p c s l w)) < 6"
  "awaits_left (fst (ctl_settled E i p c s cmd w)) < 4"
  using pair_start_left [of E i p l s w] line_left(2) [of E i p c s l w] ctl_settled_left [of E i p c s cmd w] by linarith+





section \<open>Properties\<close>


text \<open>
  C19: However attempts are spread over connections and time, within any minute the player checks at most five wrong
  codes of one node since that node last got in.
\<close>

theorem pl_brake:
  assumes "player_reach E unused (new_player t b) w"
  shows "length (filter (\<lambda>x. start < x \<and> x \<le> start + WINDOW_MS) (failures_since p (pw_log w))) \<le> MAX_ATTEMPTS"
  using limiter_inv_reach [OF assms] by (simp add: limiter_inv_def braked_def)

text \<open>
  Whatever line a controller outside the session sends, even one that passes as a status request, the playback
  backend's state stays as it was and no backend call is left pending.
\<close>

theorem pl_outsider:
  assumes "zod (pe_zod E)" "\<not> isPeerAllowedInSession s p (role_of c)"
  shows "pw_backend (snd (ctl_line E i p c s line w)) = pw_backend w \<and>
    (\<forall>c' s' cmd. fst (ctl_line E i p c s line w) \<noteq> CtlBackend c' s' cmd)"
proof (cases "isGetStatusCommand line")
  case False
  then show ?thesis using assms(2) by (simp add: ctl_line_def)
next
  case True
  show ?thesis
  proof (cases "\<exists>v cmd. json_parse_text line = Some v \<and> parse_command (pe_zod E) v = Some cmd")
    case True
    then obtain v where "json_parse_text line = Some v" "parse_command (pe_zod E) v = Some GetStatus"
      using get_status_only [OF assms(1) \<open>isGetStatusCommand line\<close>] by blast
    then show ?thesis
      using \<open>isGetStatusCommand line\<close> dispatch_status_backend [of E "plog (Ran i p GetStatus) w"]
      by (auto simp: ctl_line_def dispatchCommand_def ctl_settled_def finish_def unwind_def markControllerDisconnected_def
          split: prod.splits option.splits)
  next
    case False
    then show ?thesis using \<open>isGetStatusCommand line\<close>
      by (auto simp: ctl_line_def dispatchCommand_def finish_def unwind_def markControllerDisconnected_def split: option.split)
  qed
qed

text \<open>
  Every line the command schema accepts is dispatched as a command, and the volume and position it carries are in
  the range the schema states.
\<close>

theorem pl_command_typed:
  assumes "zod z"
  shows "(parse_command z v \<noteq> None \<longleftrightarrow> z PlayerCommandSchema (Some v) \<noteq> None) \<and> pred_option in_range (parse_command z v)"
  using accepted_is_command [OF assms, of v] zod_some [OF assms]
  by (cases "z PlayerCommandSchema (Some v)") (auto simp: parse_command_def)

text \<open>
  C20: A pairing that nothing interleaves with: whoever offers the session's code is trusted under the name it gave,
  as admin exactly when nobody was trusted or an admin grant was pending and as viewer otherwise, whatever role it
  had; it joins the session, the grant is used up, and the code changes exactly when the role is admin.
\<close>

theorem pl_pairing:
  assumes "controller_trust (pe_trust E) ok unused" "ok (pw_trust w)" "pw_active w" "pw_session w = Some s"
    "pw_now w - ps_last_active_at s \<le> SESSION_IDLE_MS" "let_through p w" "offers E line (ps_pin s)"
    and "w' = player_run E (pairing bytes uuid (length (pw_conns w)) p line) w"
    and "admin = (ps_admin_grant_pending s \<or> (\<forall>n. \<not> ts_isTrustedController (pe_trust E) n (pw_trust w)))"
  shows "map_option tc_role (ts_getTrustedController (pe_trust E) p (pw_trust w')) = Some (if admin then PAdmin else PViewer)
    \<and> (\<exists>s'. pw_session w' = Some s' \<and> pw_signal w' = Some s' \<and> p \<in> set (ps_allowed_node_ids s') \<and> \<not> ps_admin_grant_pending s'
         \<and> ps_pin s' = (if admin then generatePin bytes else ps_pin s) \<and> ps_mode s' = ps_mode s)
    \<and> let_through p w'"
proof -
  have g: "admin = (ts_listTrustedControllers (pe_trust E) (pw_trust w) = [] \<or> ps_admin_grant_pending s)"
    using controller_trust.list_Nil_iff [OF assms(1,2)] assms(9) by blast
  obtain fs d s' where r: "pw_failures w' = clearPairingFailures p fs" "pw_now w' = pw_now w"
    "pw_trust w' = ts_trustController (pe_trust E) (pw_now w) uuid p d (if admin then PAdmin else PViewer) (pw_trust w)"
    "s' = (if admin then regenerateSessionPin (pw_now w) bytes else id) (joinSession (pw_now w) p s)"
    "pw_session w' = Some s'" "pw_signal w' = Some s'"
    using pairing_leaves [OF assms(3-7) refl g, of bytes uuid] assms(8) by auto
  have "map_option tc_role (ts_getTrustedController (pe_trust E) p (pw_trust w')) = Some (if admin then PAdmin else PViewer)"
    using controller_trust.trust_get [OF assms(1,2), of p "pw_now w" uuid d] r(3) by (metis option.simps(9) trusted_controller.select_convs(3))
  moreover have "let_through p w'"
    by (simp add: let_through_def r(1) isRateLimited_def clearPairingFailures_def)
  moreover have "p \<in> set (ps_allowed_node_ids s') \<and> \<not> ps_admin_grant_pending s'
      \<and> ps_pin s' = (if admin then generatePin bytes else ps_pin s) \<and> ps_mode s' = ps_mode s"
    unfolding r(4) by (simp add: regenerateSessionPin_def joinSession_def)
  ultimately show ?thesis using r(5,6) by blast
qed

text \<open>
  C21: A one-time admin code serves twice. While it is out, a trusted controller's status request is under way; a node
  redeems the code; the request then saves the session it started with, code and grant included; another node
  redeems the same code, and both are admins.
\<close>

theorem pl_stale_session:
  assumes "pw_active w" "pw_session w = Some s" "pw_now w - ps_last_active_at s \<le> SESSION_IDLE_MS" "ps_admin_grant_pending s"
    and "ts_isTrustedController (pe_trust E) a (pw_trust w)" "pw_subscribers w = []" "polls E poll"
    "pb_currentStatus (pe_backend E) (pw_backend w) = Inr st" "n = length (pw_conns w)"
    and "let_through b w" "let_through c w" "b \<noteq> c" "offers E line_b (ps_pin s)" "offers E line_c (ps_pin s)"
  shows "{TrustedAs b PAdmin, TrustedAs c PAdmin} \<subseteq> set (pw_log (player_run E (status_request [] u n a poll
      @ pairing bs u (Suc n) b line_b @ steps [] u n [InDone, InDone] @ pairing cs u (n + 2) c line_c) w))"
proof -
  let ?w1 = "player_run E (status_request [] u n a poll) w"
  obtain v where v: "json_parse_text poll = Some v" "parse_command (pe_zod E) v = Some GetStatus"
    using assms(7) by (auto simp: polls_def)
  have p: "\<not> isPairRequestLine poll" "\<not> isPresenceQuery (pe_zod E) poll" "\<not> isSubscribeRequest (pe_zod E) poll" "isGetStatusCommand poll"
    using assms(7) by (auto simp: polls_def)
  define ctl where "ctl = ts_getTrustedController (pe_trust E) a (pw_trust w)"
  note r1 = status_request_runs [OF assms(1-3,5,6) p v assms(8,9) ctl_def, of "[]" u]
  define ack where "ack = \<lparr>ca_ok = True, ca_reason = None, ca_detail = None, ca_status = Some st, ca_devices = None\<rparr>"
  have w1: "pw_active ?w1" "pw_session ?w1 = Some s" "pw_now ?w1 - ps_last_active_at s \<le> SESSION_IDLE_MS" "let_through b ?w1"
    "let_through c ?w1" "Suc n = length (pw_conns ?w1)" "pw_conns ?w1 = pw_conns w @ (a, CtlReply ctl s ack) # []" "pw_now ?w1 = pw_now w"
    unfolding r1 using assms by (simp_all add: markControllerConnected_def let_through_def ack_def)
  obtain fs d s2 w2 where w2: "player_run E (pairing bs u (Suc n) b line_b) ?w1 = w2"
    "isRateLimited (pw_now ?w1) b (pw_failures ?w1) = (False, fs)" "pw_failures w2 = clearPairingFailures b fs"
    "pw_conns w2 = pw_conns ?w1 @ [(b, PairEof)]" "TrustedAs b PAdmin \<in> set (pw_log w2)" "pw_active w2" "pw_now w2 = pw_now ?w1"
    using pairing_leaves [OF w1(1-4) assms(13) w1(6) refl, of bs u] assms(4) by auto
  let ?w3 = "player_run E (steps [] u n [InDone, InDone]) w2"
  have c2: "pw_conns w2 = pw_conns w @ (a, CtlReply ctl s ack) # [(b, PairEof)]" using w1(7) w2(4) by simp
  note r3 = touch_runs [OF c2, of E "[]" u, folded assms(9)]
  have l3: "let_through c w2"
    using let_through_clear [OF w1(5) w2(7), of b] w2(2,3) assms(12) by blast
  have w3: "pw_active ?w3" "pw_session ?w3 = Some (touchSession (pw_now w) s)" "let_through c ?w3" "n + 2 = length (pw_conns ?w3)"
    "pw_now ?w3 = pw_now w" "TrustedAs b PAdmin \<in> set (pw_log ?w3)"
    unfolding r3 using w2 w1(8) l3 assms(9) by (simp_all add: let_through_def)
  have t: "pw_now ?w3 - ps_last_active_at (touchSession (pw_now w) s) \<le> SESSION_IDLE_MS" "offers E line_c (ps_pin (touchSession (pw_now w) s))"
    using w3(5) assms(14) by (simp_all add: touchSession_def SESSION_IDLE_MS_def)
  obtain w4 where "player_run E (pairing cs u (n + 2) c line_c) ?w3 = w4" "pw_log w4 = pw_log ?w3 @
      [Redeemed c, TrustedAs c PAdmin, Wrote (n + 2) (PairResponse PairOk)]"
    using pairing_leaves [OF w3(1,2) t(1) w3(3) t(2) w3(4) refl, of cs u] assms(4) by (auto simp: touchSession_def)
  then show ?thesis using w2(1) w3(6) by (simp add: run_append)
qed


text \<open>
  In the users store a controller takes over whoever has its name: trusting a new node under the name of a
  controller gives that controller the new node's role too, up or down, and forgetting the new node ends the
  other's trust.
\<close>

theorem us_shared_user:
  assumes "users_ok db" "findUserByNodeId m db = Some j" "getPeerNode n db = None"
    and "getUserByUsername (pu_username j) db = Some e" "us_id e = pu_user_id j"
    and "db' = ts_trustController spumeTrustStore now uuid n (pu_username j) r db"
  shows "map_option tc_role (ts_getTrustedController spumeTrustStore m db') = Some r
    \<and> \<not> ts_isTrustedController spumeTrustStore m (ts_forgetController spumeTrustStore n db')"
proof -
  have link: "linked_user uuid n (pu_username j) db = pu_user_id j"
    using assms(3-5) by (simp add: linked_user_def)
  have ne: "m \<noteq> n" using assms(2,3) by (auto simp: findUserByNodeId_def)
  obtain j' where j': "findUserByNodeId m db' = Some j'" "pu_user_id j' = pu_user_id j" "pu_role j' = r"
    using allow_other [OF assms(1) ne assms(2), of now uuid "pu_username j" r] link assms(6) by (auto simp: spume_trust_simps)
  obtain k where k: "findUserByNodeId n db' = Some k" "pu_user_id k = pu_user_id j"
    using allow_self [OF assms(1), of n now uuid "pu_username j" r] link assms(6) by (auto simp: spume_trust_simps)
  have ok: "users_ok db'" using spume_trust.ok_trust [OF assms(1)] assms(6) by simp
  have "map_option pn_user_id (getPeerNode m db') = map_option pn_user_id (getPeerNode n db')"
    using find_user_id [OF ok j'(1)] find_user_id [OF ok k(1)] j'(2) k(2) by auto
  then show ?thesis using j'(1,3) by (simp add: spume_trust_simps find_remove [OF ok] toTrustedController_def)
qed

section \<open>Witnesses\<close>

lemma run_reach: "player_reach E (\<lambda>_ _. True) w0 w \<Longrightarrow> player_reach E (\<lambda>_ _. True) w0 (player_run E evs w)"
proof (induction evs arbitrary: w)
  case (Cons e evs)
  obtain bytes u ev where e: "e = (bytes, u, ev)" by (cases e) auto
  have "player_reach E (\<lambda>_ _. True) w0 (player_step E bytes u ev w)"
    using player_reach.event [of E "\<lambda>_ _. True" w0 w u bytes ev] Cons.prems by simp
  then show ?case using Cons.IH by (simp add: e)
qed simp

lemma idle_frames [simp]: "pe_zod idle_env = zod_ref" "pe_trust idle_env = createIdbTrustStore" "pe_backend idle_env = idle_backend"
  "pb_currentStatus idle_backend () = Inr ()"
  by (simp_all add: idle_env_def idle_backend_def)

lemma pair_line_offers [simp]: "n \<noteq> [] \<Longrightarrow> length n \<le> 64 \<Longrightarrow> offers idle_env (pair_line c n) (utext c)"
  unfolding offers_def pair_line_parsed idle_frames
  by (intro exI [of _ "VObj (pair_members c n)"] exI [of _ "pair_members c n"]) simp

lemma status_line_polls [simp]: "polls idle_env status_line"
  by (simp add: polls_def)

definition ann :: trusted_controller where
  "ann = \<lparr>tc_node_id = ''a'', tc_display_name = utext ''ann'', tc_role = PAdmin, tc_paired_at = 0\<rparr>"

definition open_session :: player_session where
  "open_session = \<lparr>ps_pin = utext ''333333'', ps_mode = Selected, ps_allowed_node_ids = [], ps_admin_grant_pending = True, ps_last_active_at = 0\<rparr>"

definition owned_player :: "(trusted_controller list, unit, unit) player_world" where
  "owned_player = (new_player [ann] ())\<lparr>pw_session := Some open_session\<rparr>"

lemmas owned_defs = owned_player_def new_player_def open_session_def ann_def let_through_def isRateLimited_def SESSION_IDLE_MS_def
  createIdbTrustStore_def idb_defs

lemma pl_stale_session_witness:
  "{TrustedAs ''b'' PAdmin, TrustedAs ''c'' PAdmin} \<subseteq> set (pw_log (player_run idle_env (status_request [] ''u'' 0 ''a'' status_line
      @ pairing [1, 2, 3, 4, 5, 6] ''u'' 1 ''b'' (pair_line ''333333'' ''bob'') @ steps [] ''u'' 0 [InDone, InDone]
      @ pairing [] ''u'' 2 ''c'' (pair_line ''333333'' ''cat'')) owned_player))"
  using pl_stale_session [of owned_player open_session idle_env "''a''" status_line "()" 0 "''b''" "''c''" "pair_line ''333333'' ''bob''"
      "pair_line ''333333'' ''cat''" "''u''" "[1, 2, 3, 4, 5, 6]" "[]"]
  by (simp add: owned_defs numeral_2_eq_2)

lemma pl_pairing_witness:
  "map_option tc_role (ts_getTrustedController createIdbTrustStore ''a''
      (pw_trust (player_run idle_env (pairing [1] ''u'' 0 ''a'' (pair_line ''333333'' ''ann'')) (owned_player\<lparr>pw_session :=
         Some (open_session\<lparr>ps_admin_grant_pending := False\<rparr>)\<rparr>)))) = Some PViewer"
  using pl_pairing [of idle_env "idb_ok tc_node_id" "\<lambda>_ _. True" "owned_player\<lparr>pw_session := Some (open_session\<lparr>ps_admin_grant_pending := False\<rparr>)\<rparr>"
      "open_session\<lparr>ps_admin_grant_pending := False\<rparr>" "''a''" "pair_line ''333333'' ''ann''" _ "[1]" "''u''" False, OF _ _ _ _ _ _ _ refl]
    idb_trust.controller_trust_axioms
  by (auto simp: owned_defs idb_ok_def)

definition first_run :: "(nat list \<times> string \<times> player_event) list" where
  "first_run = [([1, 1, 1, 1, 1, 1], ''u'', EvInitSession)] @ pairing [] ''u'' 0 ''b'' (pair_line ''111111'' ''bob'')"

lemma first_run_reach: "player_reach idle_env (\<lambda>_ _. True) (new_player [] ()) (player_run idle_env first_run (new_player [] ()))"
  by (rule run_reach) (rule player_reach.start)



lemma pl_brake_witness:
  "length (filter (\<lambda>x. 0 < x \<and> x \<le> 0 + WINDOW_MS) (failures_since ''b'' (pw_log (player_run idle_env first_run (new_player [] ())))))
    \<le> MAX_ATTEMPTS"
  by (rule pl_brake [OF first_run_reach])

lemma pl_outsider_witness:
  "pw_backend (snd (ctl_line idle_env 0 ''z'' None open_session status_line owned_player)) = ()"
  using pl_outsider [of idle_env open_session "''z''" None 0 status_line owned_player] zref.zod_axioms
  by (simp add: isPeerAllowedInSession_def open_session_def)

lemma pl_command_typed_witness:
  "pred_option in_range (parse_command zod_ref (VObj [fld ''type'' (VStr (utext ''control'')), fld ''command'' (VStr (utext ''get_status''))]))"
  using pl_command_typed [OF zref.zod_axioms, of "VObj [fld ''type'' (VStr (utext ''control'')), fld ''command'' (VStr (utext ''get_status''))]"]
  by simp


definition ann_user :: user where
  "ann_user = \<lparr>us_id = ''1'', us_username = utext ''ann'', us_role = PAdmin, us_api_key = None, us_created_at = 0, us_updated_at = 0,
     us_deleted_at = None, us_haruspex_user_id = None, us_metadata = None\<rparr>"

definition ann_node :: user_peer_node where
  "ann_node = \<lparr>pn_node_id = ''a'', pn_user_id = ''1'', pn_instance_name = None, pn_metadata = None, pn_created_at = 0,
     pn_last_seen_at = None, pn_deleted_at = None\<rparr>"

lemma us_shared_user_witness:
  "map_option tc_role (ts_getTrustedController spumeTrustStore ''a''
     (ts_trustController spumeTrustStore 7 ''2'' ''z'' (utext ''ann'') PViewer \<lparr>ud_users = [ann_user], ud_peer_nodes = [ann_node]\<rparr>)) = Some PViewer"
  using us_shared_user [of "\<lparr>ud_users = [ann_user], ud_peer_nodes = [ann_node]\<rparr>" "''a''" "joinUserAndPeerNode ann_user ann_node" "''z''" ann_user, OF _ _ _ _ _ refl,
      of 7 "''2''" PViewer]
  by (simp add: users_ok_def idb_ok_def findUserByNodeId_def getPeerNode_def getUser_def getUserByUsername_def idb_defs
      ann_user_def ann_node_def joinUserAndPeerNode_def)

end
