(* ===== verification/ApiRouter.thy ===== *)
theory ApiRouter
  imports PlayerTrust ZodSchema JsonProps
begin

text \<open>
  The request router a player answers other peers with, \<open>cenotaph/control/apiRouter.ts\<close>: a table of exact routes,
  a list of prefix routes, and one request and response per stream. The handlers are the host app's and so
  arguments of the table; \<open>toUpperCase\<close> (its case tables) and \<open>resolvePeerRole\<close> are parameters. A handler is
  given the parsed body and answers a status and a body, or throws.
\<close>

section \<open>Values as strings and conditions\<close>

text \<open>
  A template literal on a parsed value; numbers keep their literal. An object that carries a member \<open>toString\<close>
  has no string value: the member is no function and \<open>valueOf\<close> answers the object, so the conversion throws.
\<close>

fun js_to_string :: "jsv \<Rightarrow> jstext option" where
  "js_to_string VNull = Some (utext ''null'')"
| "js_to_string (VBool b) = Some (if b then utext ''true'' else utext ''false'')"
| "js_to_string (VNum l) = Some l"
| "js_to_string (VStr s) = Some s"
| "js_to_string (VArr vs) = map_option commas (those (map (\<lambda>v. if v = VNull then Some [] else js_to_string v) vs))"
| "js_to_string (VObj ms) = (if member (utext ''toString'') ms = None then Some (utext ''[object Object]'') else None)"

definition no_primitive :: js_exn where
  "no_primitive = JsError ''Cannot convert object to primitive value''"

definition template :: "jsv option \<Rightarrow> js_exn + jstext" where
  "template x =
     (case x of
        None \<Rightarrow> Inr (utext ''undefined'')
      | Some v \<Rightarrow> (case js_to_string v of None \<Rightarrow> Inl no_primitive | Some t \<Rightarrow> Inr t))"

fun js_truthy :: "jsv option \<Rightarrow> bool" where
  "js_truthy None = False"
| "js_truthy (Some VNull) = False"
| "js_truthy (Some (VBool b)) = b"
| "js_truthy (Some (VNum l)) = (fst (snd (literal_parts l)) \<noteq> 0)"
| "js_truthy (Some (VStr s)) = (s \<noteq> [])"
| "js_truthy (Some _) = True"

section \<open>Routes\<close>

datatype route_auth = PublicRoute | NeedsRole peer_role

type_synonym api_handler = "jsv \<Rightarrow> js_exn + (nat \<times> jsv)"

record api_route =
  rt_handler :: api_handler
  rt_auth :: route_auth

record prefix_route =
  pr_method :: jstext
  pr_prefix :: jstext
  pr_handler :: "jstext \<Rightarrow> api_handler"
  pr_auth :: route_auth

record api_router =
  ar_routes :: "jstext \<rightharpoonup> api_route"
  ar_prefixRoutes :: "prefix_route list"

definition createApiRouter :: api_router where
  "createApiRouter = \<lparr>ar_routes = Map.empty, ar_prefixRoutes = []\<rparr>"

definition routeKey :: "(jstext \<Rightarrow> jstext) \<Rightarrow> jstext \<Rightarrow> jstext \<Rightarrow> jstext" where
  "routeKey upper meth path = upper meth @ [32] @ path"

definition default_auth :: "route_auth option \<Rightarrow> route_auth" where
  "default_auth a = nullish_or a (NeedsRole PViewer)"

definition registerRoute :: "(jstext \<Rightarrow> jstext) \<Rightarrow> jstext \<Rightarrow> jstext \<Rightarrow> api_handler \<Rightarrow> route_auth option \<Rightarrow> api_router \<Rightarrow> api_router" where
  "registerRoute upper meth path h a R =
     R\<lparr>ar_routes := (ar_routes R)(routeKey upper meth path \<mapsto> \<lparr>rt_handler = h, rt_auth = default_auth a\<rparr>)\<rparr>"

definition registerPrefixRoute :: "(jstext \<Rightarrow> jstext) \<Rightarrow> jstext \<Rightarrow> jstext \<Rightarrow> (jstext \<Rightarrow> api_handler) \<Rightarrow> route_auth option \<Rightarrow>
    api_router \<Rightarrow> api_router" where
  "registerPrefixRoute upper meth prefix h a R =
     R\<lparr>ar_prefixRoutes := ar_prefixRoutes R @ [\<lparr>pr_method = upper meth, pr_prefix = prefix, pr_handler = h, pr_auth = default_auth a\<rparr>]\<rparr>"

fun text_prefix :: "jstext \<Rightarrow> jstext \<Rightarrow> bool" where
  "text_prefix [] _ = True"
| "text_prefix (_ # _) [] = False"
| "text_prefix (p # ps) (c # cs) = (p = c \<and> text_prefix ps cs)"

definition not_callable :: js_exn where
  "not_callable = JsError ''is not a function''"

text \<open>The loop over the prefix routes; \<open>startsWith\<close> of what is no string throws.\<close>

fun best_prefix :: "jstext \<Rightarrow> jsv option \<Rightarrow> prefix_route list \<Rightarrow> prefix_route option \<Rightarrow> js_exn + prefix_route option" where
  "best_prefix meth path [] best = Inr best"
| "best_prefix meth path (c # cs) best =
     (if pr_method c \<noteq> meth then best_prefix meth path cs best
      else (case path of
              Some (VStr t) \<Rightarrow>
                if \<not> text_prefix (pr_prefix c) t then best_prefix meth path cs best
                else best_prefix meth path cs
                  (case best of
                     None \<Rightarrow> Some c
                   | Some b \<Rightarrow> if length (pr_prefix c) > length (pr_prefix b) then Some c else Some b)
            | _ \<Rightarrow> Inl not_callable))"

definition path_text :: "jsv option \<Rightarrow> jstext" where
  "path_text path = (case path of Some (VStr t) \<Rightarrow> t | _ \<Rightarrow> [])"

definition resolveRoute :: "(jstext \<Rightarrow> jstext) \<Rightarrow> api_router \<Rightarrow> jsv option \<Rightarrow> jsv option \<Rightarrow> js_exn + api_route option" where
  "resolveRoute upper R meth path =
     (case meth of
        Some (VStr m) \<Rightarrow>
          (case template path of
             Inl e \<Rightarrow> Inl e
           | Inr t \<Rightarrow>
               (case ar_routes R (routeKey upper m t) of
                  Some r \<Rightarrow> Inr (Some r)
                | None \<Rightarrow>
                    (case best_prefix (upper m) path (ar_prefixRoutes R) None of
                       Inl e \<Rightarrow> Inl e
                     | Inr None \<Rightarrow> Inr None
                     | Inr (Some b) \<Rightarrow>
                         Inr (Some \<lparr>rt_handler = pr_handler b (drop (length (pr_prefix b)) (path_text path)), rt_auth = pr_auth b\<rparr>))))
      | _ \<Rightarrow> Inl not_callable)"

section \<open>Answering a request\<close>

datatype router_event = HandlerRun api_route jsv | Response "jsv option" nat jsv | RouterClosed

definition error_body :: "string \<Rightarrow> jsv" where
  "error_body m = VObj [fld ''error'' (VStr (utext m))]"

definition role_name :: "peer_role \<Rightarrow> string" where
  "role_name r = (case r of PAdmin \<Rightarrow> ''admin'' | PMember \<Rightarrow> ''member'' | PViewer \<Rightarrow> ''viewer'')"

record router_host =
  rh_upper :: "jstext \<Rightarrow> jstext"
  rh_role :: "(string \<Rightarrow> js_exn + peer_role option) option"   \<comment> \<open>\<open>options.resolvePeerRole\<close>\<close>
  rh_written :: "nat \<Rightarrow> js_exn option"                          \<comment> \<open>what the n-th write of the stream throws\<close>

definition write_response :: "router_host \<Rightarrow> nat \<Rightarrow> jsv option \<Rightarrow> nat \<Rightarrow> jsv \<Rightarrow> router_event list \<times> js_exn option" where
  "write_response H k i st body = ([Response i st body], rh_written H k)"

definition peer_allowed :: "router_host \<Rightarrow> string \<Rightarrow> route_auth \<Rightarrow> js_exn + (nat \<times> jsv) option" where
  "peer_allowed H n a =
     (case a of
        PublicRoute \<Rightarrow> Inr None
      | NeedsRole need \<Rightarrow>
          (case (case rh_role H of None \<Rightarrow> Inr None | Some f \<Rightarrow> f n) of
             Inl e \<Rightarrow> Inl e
           | Inr None \<Rightarrow> Inr (Some (401, error_body ''unauthorized: peer not registered''))
           | Inr (Some r) \<Rightarrow>
               if ROLE_LEVEL r > ROLE_LEVEL need
               then Inr (Some (403, error_body (''forbidden: route requires role '' @ role_name need @ '' or higher'')))
               else Inr None))"

definition parse_body :: "jsv option \<Rightarrow> js_exn + jsv" where
  "parse_body b =
     (if js_truthy b
      then (case template b of
              Inl e \<Rightarrow> Inl e
            | Inr t \<Rightarrow> (case json_parse_text t of Some v \<Rightarrow> Inr v | None \<Rightarrow> Inl (JsError ''not json'')))
      else Inr VNull)"

definition run_route :: "router_host \<Rightarrow> api_route \<Rightarrow> jsv option \<Rightarrow> jsv option \<Rightarrow> router_event list \<times> js_exn option" where
  "run_route H r i b =
     (case parse_body b of
        Inl e \<Rightarrow> ([], Some e)
      | Inr v \<Rightarrow>
          (case rt_handler r v of
             Inl e \<Rightarrow> ([HandlerRun r v], Some e)
           | Inr (st, out) \<Rightarrow> (case write_response H 0 i st out of (es, x) \<Rightarrow> (HandlerRun r v # es, x))))"

text \<open>The \<open>try\<close> block once a request was read: what happened, and what was thrown.\<close>

definition answer :: "router_host \<Rightarrow> api_router \<Rightarrow> string \<Rightarrow> (jstext \<times> jsv) list \<Rightarrow> router_event list \<times> js_exn option" where
  "answer H R n ms =
     (let i = member (utext ''id'') ms
      in case resolveRoute (rh_upper H) R (member (utext ''method'') ms) (member (utext ''path'') ms) of
           Inl e \<Rightarrow> ([], Some e)
         | Inr None \<Rightarrow> write_response H 0 i 404 (error_body ''not found'')
         | Inr (Some r) \<Rightarrow>
             (case peer_allowed H n (rt_auth r) of
                Inl e \<Rightarrow> ([], Some e)
              | Inr (Some (st, body)) \<Rightarrow> write_response H 0 i st body
              | Inr None \<Rightarrow> run_route H r i (member (utext ''body'') ms)))"

definition isApiRequestMessage :: "jsv \<Rightarrow> bool" where
  "isApiRequestMessage v = (case v of VObj ms \<Rightarrow> member (utext ''type'') ms = Some (VStr (utext ''api_request'')) | _ \<Rightarrow> False)"

definition failure_body :: "js_exn \<Rightarrow> jsv" where
  "failure_body e = VObj [fld ''success'' (VBool False), fld ''error'' (VStr (utext (exn_message e)))]"

text \<open>How many responses were written before the \<open>catch\<close> block writes its own.\<close>

definition responses :: "router_event list \<Rightarrow> (jsv option \<times> nat) list" where
  "responses es = List.map_filter (\<lambda>e. case e of Response i st _ \<Rightarrow> Some (i, st) | _ \<Rightarrow> None) es"

definition dispatch_request :: "router_host \<Rightarrow> api_router \<Rightarrow> string \<Rightarrow> (jstext \<times> jsv) list \<Rightarrow> router_event list" where
  "dispatch_request H R n ms =
     (case answer H R n ms of
        (es, None) \<Rightarrow> es
      | (es, Some e) \<Rightarrow>
          (case member (utext ''id'') ms of
             None \<Rightarrow> es
           | Some i \<Rightarrow> es @ fst (write_response H (length (responses es)) (Some i) 500 (failure_body e))))"

definition api_dispatch :: "router_host \<Rightarrow> api_router \<Rightarrow> string \<Rightarrow> js_exn + nat list option \<Rightarrow> router_event list" where
  "api_dispatch H R n input =
     (case input of
        Inr (Some bytes) \<Rightarrow>
          (case json_parse_text (textDecode bytes) of
             Some (VObj ms) \<Rightarrow> if isApiRequestMessage (VObj ms) then dispatch_request H R n ms else []
           | _ \<Rightarrow> [])
      | _ \<Rightarrow> []) @ [RouterClosed]"

section \<open>Finding the route\<close>

lemma text_prefix_iff: "text_prefix p t \<longleftrightarrow> (\<exists>r. t = p @ r)"
  by (induction p t rule: text_prefix.induct) auto

text \<open>The reference: of the prefix routes that match, the first of the longest.\<close>

definition matching :: "jstext \<Rightarrow> jstext \<Rightarrow> prefix_route list \<Rightarrow> prefix_route list" where
  "matching meth t cs = filter (\<lambda>c. pr_method c = meth \<and> text_prefix (pr_prefix c) t) cs"

definition longest_first :: "prefix_route list \<Rightarrow> prefix_route option" where
  "longest_first cs = List.find (\<lambda>c. \<forall>d \<in> set cs. length (pr_prefix d) \<le> length (pr_prefix c)) cs"

fun keep_longest :: "prefix_route option \<Rightarrow> prefix_route list \<Rightarrow> prefix_route option" where
  "keep_longest best [] = best"
| "keep_longest best (c # cs) =
     keep_longest (case best of None \<Rightarrow> Some c | Some b \<Rightarrow> if length (pr_prefix c) > length (pr_prefix b) then Some c else Some b) cs"

lemma best_prefix_text: "best_prefix meth (Some (VStr t)) cs best = Inr (keep_longest best (matching meth t cs))"
  by (induction cs arbitrary: best) (auto simp: matching_def)

lemma longest_Cons:
  "longest_first (c # cs) = (if \<forall>d \<in> set cs. length (pr_prefix d) \<le> length (pr_prefix c) then Some c else longest_first cs)"
proof (cases "\<forall>d \<in> set cs. length (pr_prefix d) \<le> length (pr_prefix c)")
  case False
  then have "(\<lambda>e. \<forall>d \<in> set (c # cs). length (pr_prefix d) \<le> length (pr_prefix e)) =
      (\<lambda>e. \<forall>d \<in> set cs. length (pr_prefix d) \<le> length (pr_prefix e))"
    by (fastforce simp: fun_eq_iff)
  then have "longest_first (c # cs) = List.find (\<lambda>e. \<forall>d \<in> set cs. length (pr_prefix d) \<le> length (pr_prefix e)) (c # cs)"
    unfolding longest_first_def by (rule arg_cong)
  with False show ?thesis by (auto simp: longest_first_def)
qed (simp add: longest_first_def)

lemma keep_longest_find:
  "keep_longest (Some b) cs = (if \<forall>d \<in> set cs. length (pr_prefix d) \<le> length (pr_prefix b) then Some b else longest_first cs)"
proof (induction cs arbitrary: b)
  case (Cons c cs)
  have "\<forall>d \<in> set cs. length (pr_prefix d) \<le> length (pr_prefix c)"
    if "\<forall>d \<in> set cs. length (pr_prefix d) \<le> length (pr_prefix b)" "length (pr_prefix b) < length (pr_prefix c)"
    using that by fastforce
  moreover have "\<not> (\<forall>d \<in> set cs. length (pr_prefix d) \<le> length (pr_prefix c))"
    if "\<not> (\<forall>d \<in> set cs. length (pr_prefix d) \<le> length (pr_prefix b))" "length (pr_prefix c) \<le> length (pr_prefix b)"
    using that by fastforce
  ultimately show ?case by (auto simp: Cons.IH longest_Cons)
qed simp

lemma keep_longest_first: "keep_longest None cs = longest_first cs"
  by (cases cs) (simp_all add: keep_longest_find longest_Cons, simp add: longest_first_def)

lemma longest_is: "longest_first cs = Some b \<Longrightarrow> b \<in> set cs \<and> (\<forall>d \<in> set cs. length (pr_prefix d) \<le> length (pr_prefix b))"
  unfolding longest_first_def by (rule find_SomeD)

section \<open>Answering\<close>

lemma responses_simps [simp]: "responses [] = []" "responses (HandlerRun r v # es) = responses es"
  "responses (Response i st b # es) = (i, st) # responses es" "responses (RouterClosed # es) = responses es"
  "responses (xs @ ys) = responses xs @ responses ys"
  by (simp_all add: responses_def map_filter_def)

lemma run_route_outcome:
  "\<exists>es x. run_route H r i b = (es, x) \<and> set es \<subseteq> {e. \<exists>v. e = HandlerRun r v} \<union> {e. \<exists>st o'. e = Response i st o'}
    \<and> (x = None \<longrightarrow> (\<exists>st. responses es = [(i, st)])) \<and> ((\<forall>k. rh_written H k = None) \<longrightarrow> x \<noteq> None \<longrightarrow> responses es = [])"
  by (auto simp: run_route_def write_response_def split: sum.split prod.split)

lemma answer_once:
  assumes "\<And>k. rh_written H k = None" "answer H R n ms = (es, x)"
  shows "if x = None then \<exists>st. responses es = [(member (utext ''id'') ms, st)] else responses es = []"
proof -
  have "if snd (run_route H r i b) = None then \<exists>st. responses (fst (run_route H r i b)) = [(i, st)]
      else responses (fst (run_route H r i b)) = []" for r i b
    using run_route_outcome [of H r i b] assms(1) by auto
  then show ?thesis
    using assms unfolding answer_def Let_def write_response_def
    by (auto split: sum.splits option.splits prod.splits) (metis fst_conv snd_conv option.distinct(1))+
qed




section \<open>Properties\<close>


text \<open>
  A request with no exact route goes to the first of the longest registered prefixes of its path, and gets there
  with the rest of the path, as if the loop had compared all of them with each other.
\<close>

theorem ar_longest_prefix:
  assumes "ar_routes R (routeKey upper m t) = None"
  shows "resolveRoute upper R (Some (VStr m)) (Some (VStr t)) =
    Inr (map_option (\<lambda>b. \<lparr>rt_handler = pr_handler b (drop (length (pr_prefix b)) t), rt_auth = pr_auth b\<rparr>)
           (longest_first (matching (upper m) t (ar_prefixRoutes R))))"
  using assms by (simp add: resolveRoute_def template_def best_prefix_text keep_longest_first path_text_def split: option.split)

text \<open>
  Every request that carries an id is answered exactly once and its stream then closed, whatever its method, path
  and body are and whether or not the handler or the role lookup throws, as long as writing works.
\<close>

theorem ar_answers_once:
  assumes "\<And>k. rh_written H k = None" "json_parse_text (textDecode bytes) = Some (VObj ms)" "isApiRequestMessage (VObj ms)"
    and "member (utext ''id'') ms = Some i"
  shows "\<exists>st es. api_dispatch H R n (Inr (Some bytes)) = es @ [RouterClosed] \<and> responses es = [(Some i, st)] \<and> RouterClosed \<notin> set es"
proof -
  obtain es x where a: "answer H R n ms = (es, x)" by fastforce
  have quiet: "RouterClosed \<notin> set es"
  proof -
    have "RouterClosed \<notin> set (fst (run_route H r i b))" for r i b using run_route_outcome [of H r i b] by auto
    then show ?thesis using a by (auto simp: answer_def write_response_def Let_def split: sum.splits option.splits prod.splits)
        (metis fst_conv)+
  qed
  have "\<exists>st. responses (dispatch_request H R n ms) = [(Some i, st)]" "RouterClosed \<notin> set (dispatch_request H R n ms)"
    using answer_once [OF assms(1) a] assms(4) a quiet
    by (auto simp: dispatch_request_def write_response_def split: option.splits if_splits)
  then show ?thesis using assms(2,3) by (simp add: api_dispatch_def)
qed

section \<open>Witnesses\<close>

definition hello_request :: "(jstext \<times> jsv) list" where
  "hello_request = [fld ''type'' (VStr (utext ''api_request'')), fld ''id'' (VNum (utext ''7'')), fld ''method'' (VStr (utext ''GET'')),
     fld ''path'' (VStr (utext ''/api/hello''))]"

definition hello_bytes :: "nat list" where
  "hello_bytes = textEncode (json_stringify (VObj hello_request))"

definition open_host :: router_host where
  "open_host = \<lparr>rh_upper = id, rh_role = None, rh_written = \<lambda>_. None\<rparr>"

definition hello_router :: api_router where
  "hello_router = registerRoute id (utext ''GET'') (utext ''/api/hello'') (\<lambda>_. Inr (200, VNull)) (Some PublicRoute) createApiRouter"

definition hello_route :: api_route where
  "hello_route = \<lparr>rt_handler = \<lambda>_. Inr (200, VNull), rt_auth = PublicRoute\<rparr>"

lemma hello_wf: "wf_json (VObj hello_request)"
  by (simp add: hello_request_def utext_def high_surrogate_def json_number_def json_fraction_def digit_def)

lemma hello_members [simp]: "member (utext ''id'') hello_request = Some (VNum (utext ''7''))"
  "member (utext ''method'') hello_request = Some (VStr (utext ''GET''))" "member (utext ''body'') hello_request = None"
  "member (utext ''path'') hello_request = Some (VStr (utext ''/api/hello''))" "isApiRequestMessage (VObj hello_request)"
  by (simp_all add: hello_request_def member_def utext_def isApiRequestMessage_def)

lemma hello_read [simp]: "json_parse_text (textDecode hello_bytes) = Some (VObj hello_request)"
  unfolding hello_bytes_def by (rule object_bytes [OF hello_wf])

lemma hello_resolved [simp]: "resolveRoute id hello_router (Some (VStr (utext ''GET''))) (Some (VStr (utext ''/api/hello''))) = Inr (Some hello_route)"
  by (simp add: resolveRoute_def template_def hello_router_def registerRoute_def createApiRouter_def hello_route_def default_auth_def)




lemma ar_longest_prefix_witness:
  "resolveRoute id createApiRouter (Some (VStr (utext ''GET''))) (Some (VStr (utext ''/x''))) = Inr None"
  using ar_longest_prefix [of createApiRouter id "utext ''GET''" "utext ''/x''"]
  by (simp add: createApiRouter_def matching_def longest_first_def)

lemma ar_answers_once_witness:
  "\<exists>st es. api_dispatch open_host hello_router ''a'' (Inr (Some hello_bytes)) = es @ [RouterClosed] \<and> responses es = [(Some (VNum (utext ''7'')), st)]"
  using ar_answers_once [of open_host hello_bytes hello_request "VNum (utext ''7'')" hello_router "''a''"] by (auto simp: open_host_def)

end
