(* ===== verification/BlobBytes.thy ===== *)
theory BlobBytes
  imports Prelude "HOL-Library.Sublist"
begin

text \<open>
  Where the bytes of blobs live, \<open>reliquary/ts/src/blobs/bytes-backend.ts\<close> with the file writes of
  \<open>worker/blob-worker-logic.ts\<close> and \<open>worker/blob-worker-client.ts\<close>: a directory of files (OPFS) and a browser cache,
  behind one interface. What the browser offers and refuses during an operation is the record \<open>platform\<close>, an
  argument of each of them; it does not change within one. Two locales are the interface: what a backend keeps
  whatever the platform does, and what it promises on a platform that refuses nothing.
\<close>

section \<open>The platform\<close>

type_synonym bytes = "nat list"

text \<open>
  A write through a synchronous handle is refused the handle, stops after some bytes, or lands. The asynchronous
  stream commits on closing or not at all.
\<close>

datatype handle_write = HandleRefused | Torn nat | Lands

datatype write_api = NoWriteApi | SyncApi handle_write | StreamApi bool

datatype move_api = Moves | MoveThrows | NoMove

record platform =
  pf_supported :: bool      \<comment> \<open>\<open>navigator.storage.getDirectory\<close> exists\<close>
  pf_worker :: bool         \<comment> \<open>the blob worker runs\<close>
  pf_dir :: bool            \<comment> \<open>the directory opens\<close>
  pf_entry :: bool          \<comment> \<open>a valid file name opens\<close>
  pf_api :: write_api
  pf_move :: move_api
  pf_remove :: bool
  pf_cache :: bool          \<comment> \<open>\<open>caches\<close> exists\<close>
  pf_cache_works :: bool
  pf_hashes :: bool         \<comment> \<open>a module with \<open>hash_blake3\<close> is bundled and does not throw\<close>
  pf_db :: bool             \<comment> \<open>the database transaction succeeds\<close>

record bytes_world =
  bw_opfs :: "string \<rightharpoonup> bytes"
  bw_cache :: "string \<rightharpoonup> bytes"

text \<open>The file names a directory takes.\<close>

definition valid_name :: "string \<Rightarrow> bool" where
  "valid_name n = (n \<noteq> [] \<and> n \<noteq> ''.'' \<and> n \<noteq> ''..'' \<and> CHR ''/'' \<notin> set n)"

section \<open>Writing files\<close>

text \<open>\<open>writeBlobToOpfs\<close> of the worker: whether it returns, and the files. No directory and no way to write are no error.\<close>

definition write_file :: "platform \<Rightarrow> string \<Rightarrow> bytes \<Rightarrow> (string \<rightharpoonup> bytes) \<Rightarrow> bool \<times> (string \<rightharpoonup> bytes)" where
  "write_file pf n data fs =
     (if \<not> pf_dir pf then (True, fs)
      else if \<not> pf_entry pf \<or> \<not> valid_name n then (False, fs)
      else let fs1 = fs(n \<mapsto> nullish_or (fs n) []) in
        (case pf_api pf of
           NoWriteApi \<Rightarrow> (True, fs1)
         | SyncApi HandleRefused \<Rightarrow> (False, fs1)
         | SyncApi (Torn k) \<Rightarrow> (False, fs1(n \<mapsto> take k data))
         | SyncApi Lands \<Rightarrow> (True, fs1(n \<mapsto> data))
         | StreamApi committed \<Rightarrow> (committed, if committed then fs1(n \<mapsto> data) else fs1)))"

text \<open>\<open>writeBlobToOpfs\<close> of the client.\<close>

definition writeBlobToOpfs :: "platform \<Rightarrow> string \<Rightarrow> bytes \<Rightarrow> (string \<rightharpoonup> bytes) \<Rightarrow> bool \<times> (string \<rightharpoonup> bytes)" where
  "writeBlobToOpfs pf n data fs = (if pf_worker pf then write_file pf n data fs else (True, fs))"

definition remove_file :: "platform \<Rightarrow> string \<Rightarrow> (string \<rightharpoonup> bytes) \<Rightarrow> (string \<rightharpoonup> bytes)" where
  "remove_file pf n fs = (if pf_dir pf \<and> pf_remove pf \<and> valid_name n then fs(n := None) else fs)"

section \<open>Streaming a file in\<close>

text \<open>
  \<open>streamFileToOpfs\<close> with \<open>uploadBegin\<close>, \<open>uploadPush\<close>, \<open>uploadFinish\<close> and \<open>uploadAbort\<close>: chunks go to a temporary
  file, which is renamed to the content's hash. The loop may be left after some chunks: by the abort signal, or
  because reading the file fails.
\<close>

datatype upload_exn = UploadAborted | UploadFailed

record upload_env =
  ue_suffix :: string     \<comment> \<open>session number and time\<close>
  ue_stops :: "(nat \<times> upload_exn) option"

definition tmpName :: "upload_env \<Rightarrow> string" where
  "tmpName ue = ''.upload-'' @ ue_suffix ue"

definition uploadAbort :: "platform \<Rightarrow> string \<Rightarrow> (string \<rightharpoonup> bytes) \<Rightarrow> (string \<rightharpoonup> bytes)" where
  "uploadAbort pf tmp fs = remove_file pf tmp fs"

text \<open>An opened session's temporary file, or the failure of \<open>uploadBegin\<close>.\<close>

definition uploadBegin :: "platform \<Rightarrow> string \<Rightarrow> (string \<rightharpoonup> bytes) \<Rightarrow> bool \<times> (string \<rightharpoonup> bytes)" where
  "uploadBegin pf tmp fs =
     (if \<not> pf_hashes pf \<or> \<not> pf_dir pf \<or> \<not> pf_entry pf \<or> \<not> valid_name tmp then (False, fs)
      else let fs1 = fs(tmp \<mapsto> nullish_or (fs tmp) []) in
        (case pf_api pf of
           SyncApi HandleRefused \<Rightarrow> (False, fs1)
         | SyncApi _ \<Rightarrow> (True, fs1(tmp \<mapsto> []))
         | _ \<Rightarrow> (False, remove_file pf tmp fs1)))"

text \<open>What the loop wrote, and what it was left with. A write that stops short throws at the chunk it stops in.\<close>

definition uploadPush :: "platform \<Rightarrow> upload_env \<Rightarrow> bytes list \<Rightarrow> bytes \<times> upload_exn option" where
  "uploadPush pf ue chunks =
     (let all = concat chunks in
      case (ue_stops ue, pf_api pf) of
        (Some (n, e), SyncApi (Torn k)) \<Rightarrow>
          if n \<le> length chunks \<and> length (concat (take n chunks)) \<le> k then (concat (take n chunks), Some e)
          else if k < length all then (take k all, Some UploadFailed) else (all, None)
      | (Some (n, e), _) \<Rightarrow> if n \<le> length chunks then (concat (take n chunks), Some e) else (all, None)
      | (None, SyncApi (Torn k)) \<Rightarrow> if k < length all then (take k all, Some UploadFailed) else (all, None)
      | _ \<Rightarrow> (all, None))"

definition uploadFinish :: "platform \<Rightarrow> string \<Rightarrow> string \<Rightarrow> bytes \<Rightarrow> (string \<rightharpoonup> bytes) \<Rightarrow> bool \<times> (string \<rightharpoonup> bytes)" where
  "uploadFinish pf tmp blake3 content fs =
     (if \<not> pf_dir pf \<or> \<not> pf_entry pf then (False, fs)
      else if valid_name blake3 \<and> fs blake3 \<noteq> None then (True, remove_file pf tmp fs)
      else (case pf_move pf of
              Moves \<Rightarrow> if valid_name blake3 then (True, (fs(tmp := None))(blake3 \<mapsto> content)) else (False, fs)
            | MoveThrows \<Rightarrow> (False, fs)
            | NoMove \<Rightarrow> (case write_file pf blake3 content fs of
                          (True, fs') \<Rightarrow> (True, remove_file pf tmp fs')
                        | (False, fs') \<Rightarrow> (False, fs'))))"

definition streamFileToOpfs :: "(bytes \<Rightarrow> string) \<Rightarrow> platform \<Rightarrow> upload_env \<Rightarrow> bytes list \<Rightarrow> (string \<rightharpoonup> bytes) \<Rightarrow>
    (upload_exn + string \<times> nat) \<times> (string \<rightharpoonup> bytes)" where
  "streamFileToOpfs h pf ue chunks fs =
     (if \<not> pf_worker pf then (Inl UploadFailed, fs)
      else case uploadBegin pf (tmpName ue) fs of
        (False, fs1) \<Rightarrow> (Inl UploadFailed, fs1)
      | (True, fs1) \<Rightarrow>
          (case uploadPush pf ue chunks of
             (written, Some e) \<Rightarrow> (Inl e, uploadAbort pf (tmpName ue) (fs1(tmpName ue \<mapsto> written)))
           | (content, None) \<Rightarrow>
               (case uploadFinish pf (tmpName ue) (h content) content (fs1(tmpName ue \<mapsto> content)) of
                  (True, fs2) \<Rightarrow> (Inr (h content, length content), fs2)
                | (False, fs2) \<Rightarrow> (Inl UploadFailed, fs2))))"

section \<open>The backends\<close>

datatype backend_name = Opfs | Cache

record bytes_backend =
  bb_name :: backend_name
  bb_isAvailable :: "platform \<Rightarrow> bool"
  bb_write :: "platform \<Rightarrow> string \<Rightarrow> bytes \<Rightarrow> bytes_world \<Rightarrow> bool \<times> bytes_world"
  bb_read :: "platform \<Rightarrow> string \<Rightarrow> bytes_world \<Rightarrow> bytes option"
  bb_has :: "platform \<Rightarrow> string \<Rightarrow> bytes_world \<Rightarrow> bool"
  bb_remove :: "platform \<Rightarrow> string \<Rightarrow> bytes_world \<Rightarrow> bytes_world"
  bb_clear :: "platform \<Rightarrow> bytes_world \<Rightarrow> bytes_world"

definition opens_file :: "platform \<Rightarrow> string \<Rightarrow> bool" where
  "opens_file pf n = (pf_supported pf \<and> pf_dir pf \<and> pf_entry pf \<and> valid_name n)"

definition createOpfsBackend :: bytes_backend where
  "createOpfsBackend =
     \<lparr>bb_name = Opfs,
      bb_isAvailable = pf_supported,
      bb_write = \<lambda>pf n data w. (case writeBlobToOpfs pf n data (bw_opfs w) of (ok, fs) \<Rightarrow> (ok, w\<lparr>bw_opfs := fs\<rparr>)),
      bb_read = \<lambda>pf n w. (if opens_file pf n then bw_opfs w n else None),
      bb_has = \<lambda>pf n w. (opens_file pf n \<and> bw_opfs w n \<noteq> None),
      bb_remove = \<lambda>pf n w. (if pf_supported pf then w\<lparr>bw_opfs := remove_file pf n (bw_opfs w)\<rparr> else w),
      bb_clear = \<lambda>pf w. (if pf_supported pf \<and> pf_remove pf then w\<lparr>bw_opfs := Map.empty\<rparr> else w)\<rparr>"

definition cache_usable :: "platform \<Rightarrow> bool" where
  "cache_usable pf = (pf_cache pf \<and> pf_cache_works pf)"

definition createCacheBackend :: bytes_backend where
  "createCacheBackend =
     \<lparr>bb_name = Cache,
      bb_isAvailable = pf_cache,
      bb_write = \<lambda>pf n data w. (if cache_usable pf then (True, w\<lparr>bw_cache := (bw_cache w)(n \<mapsto> data)\<rparr>) else (False, w)),
      bb_read = \<lambda>pf n w. (if cache_usable pf then bw_cache w n else None),
      bb_has = \<lambda>pf n w. (cache_usable pf \<and> bw_cache w n \<noteq> None),
      bb_remove = \<lambda>pf n w. (if cache_usable pf then w\<lparr>bw_cache := (bw_cache w)(n := None)\<rparr> else w),
      bb_clear = \<lambda>pf w. (if cache_usable pf then w\<lparr>bw_cache := Map.empty\<rparr> else w)\<rparr>"

definition defaultBytesChain :: "bool \<Rightarrow> bytes_backend list" where
  "defaultBytesChain skipOpfs = (if skipOpfs then [createCacheBackend] else [createOpfsBackend, createCacheBackend])"

section \<open>The chain\<close>

fun writeThroughChain :: "bytes_backend list \<Rightarrow> platform \<Rightarrow> string \<Rightarrow> bytes \<Rightarrow> bytes_world \<Rightarrow> backend_name option \<times> bytes_world" where
  "writeThroughChain [] pf n data w = (None, w)"
| "writeThroughChain (B # Bs) pf n data w =
     (if \<not> bb_isAvailable B pf then writeThroughChain Bs pf n data w
      else case bb_write B pf n data w of
             (True, w') \<Rightarrow> (Some (bb_name B), w')
           | (False, w') \<Rightarrow> writeThroughChain Bs pf n data w')"

fun first_bytes :: "bytes_backend list \<Rightarrow> platform \<Rightarrow> string \<Rightarrow> bytes_world \<Rightarrow> bytes option" where
  "first_bytes [] pf n w = None"
| "first_bytes (B # Bs) pf n w = (case bb_read B pf n w of Some b \<Rightarrow> Some b | None \<Rightarrow> first_bytes Bs pf n w)"

definition known_backend :: "bytes_backend list \<Rightarrow> backend_name option \<Rightarrow> bytes_backend option" where
  "known_backend Bs known = (case known of None \<Rightarrow> None | Some b \<Rightarrow> List.find (\<lambda>B. bb_name B = b) Bs)"

definition readThroughChain :: "bytes_backend list \<Rightarrow> platform \<Rightarrow> string \<Rightarrow> backend_name option \<Rightarrow> bytes_world \<Rightarrow> bytes option" where
  "readThroughChain Bs pf n known w =
     (case known_backend Bs known of
        Some B \<Rightarrow> (case bb_read B pf n w of Some b \<Rightarrow> Some b | None \<Rightarrow> first_bytes Bs pf n w)
      | None \<Rightarrow> first_bytes Bs pf n w)"

definition hasBytesInChain :: "bytes_backend list \<Rightarrow> platform \<Rightarrow> string \<Rightarrow> backend_name option \<Rightarrow> bytes_world \<Rightarrow> bool" where
  "hasBytesInChain Bs pf n known w =
     ((case known_backend Bs known of Some B \<Rightarrow> bb_has B pf n w | None \<Rightarrow> False) \<or> (\<exists>B \<in> set Bs. bb_has B pf n w))"

definition removeFromChain :: "bytes_backend list \<Rightarrow> platform \<Rightarrow> string \<Rightarrow> bytes_world \<Rightarrow> bytes_world" where
  "removeFromChain Bs pf n w = fold (\<lambda>B. bb_remove B pf n) Bs w"

definition clear_chain :: "bytes_backend list \<Rightarrow> platform \<Rightarrow> bytes_world \<Rightarrow> bytes_world" where
  "clear_chain Bs pf w = fold (\<lambda>B. bb_clear B pf) Bs w"

section \<open>The interface\<close>

text \<open>What a backend keeps on any platform: writing touches one file, which then begins like the data or is as it was.\<close>

locale bytes_store =
  fixes B :: bytes_backend and holds :: "bytes_world \<Rightarrow> string \<rightharpoonup> bytes"
  assumes write_other: "bb_write B pf n data w = (r, w') \<Longrightarrow> m \<noteq> n \<Longrightarrow> holds w' m = holds w m"
    and write_same: "bb_write B pf n data w = (r, w') \<Longrightarrow> holds w' n = holds w n \<or> (\<exists>b. holds w' n = Some b \<and> prefix b data)"
    and read_held: "bb_read B pf n w = Some b \<Longrightarrow> holds w n = Some b"
    and has_held: "bb_has B pf n w \<Longrightarrow> holds w n \<noteq> None"
    and remove_only: "holds (bb_remove B pf n w) m = None \<or> holds (bb_remove B pf n w) m = holds w m"
    and clear_only: "holds (bb_clear B pf w) m = None \<or> holds (bb_clear B pf w) m = holds w m"
begin

text \<open>A property of file and content that holds of every beginning of what is written stays true.\<close>

definition all_files :: "(string \<Rightarrow> bytes \<Rightarrow> bool) \<Rightarrow> bytes_world \<Rightarrow> bool" where
  "all_files Q w = (\<forall>n b. holds w n = Some b \<longrightarrow> Q n b)"

lemma all_files_write:
  assumes "all_files Q w" "bb_write B pf n data w = (r, w')" "\<And>b. prefix b data \<Longrightarrow> Q n b"
  shows "all_files Q w'"
  unfolding all_files_def
proof (intro allI impI)
  fix m b assume "holds w' m = Some b"
  then show "Q m b"
    using assms(1,3) write_other [OF assms(2), of m] write_same [OF assms(2)]
    by (cases "m = n") (auto simp: all_files_def)
qed

lemma all_files_remove: "all_files Q w \<Longrightarrow> all_files Q (bb_remove B pf n w)"
  using remove_only unfolding all_files_def by (metis option.distinct(1))

lemma all_files_clear: "all_files Q w \<Longrightarrow> all_files Q (bb_clear B pf w)"
  using clear_only unfolding all_files_def by (metis option.distinct(1))

lemma all_files_read: "all_files Q w \<Longrightarrow> bb_read B pf n w = Some b \<Longrightarrow> Q n b"
  using read_held unfolding all_files_def by blast

end

text \<open>What it promises on a platform that refuses it nothing: it is a map from valid names to contents.\<close>

locale steady_store = bytes_store +
  fixes steady :: "platform \<Rightarrow> bool"
  assumes available: "steady pf \<Longrightarrow> bb_isAvailable B pf"
    and write_lands: "steady pf \<Longrightarrow> valid_name n \<Longrightarrow> bb_write B pf n data w = (r, w') \<Longrightarrow> r \<and> holds w' = (holds w)(n \<mapsto> data)"
    and read_all: "steady pf \<Longrightarrow> valid_name n \<Longrightarrow> bb_read B pf n w = holds w n"
    and has_all: "steady pf \<Longrightarrow> valid_name n \<Longrightarrow> bb_has B pf n w \<longleftrightarrow> holds w n \<noteq> None"
    and remove_lands: "steady pf \<Longrightarrow> valid_name n \<Longrightarrow> holds (bb_remove B pf n w) = (holds w)(n := None)"
begin

lemma read_after_write:
  assumes "steady pf" "valid_name n" "bb_write B pf n data w = (r, w')"
  shows "r" "bb_read B pf n w' = Some data" "bb_has B pf n w'"
  using write_lands [OF assms] read_all [OF assms(1,2)] has_all [OF assms(1,2)] by auto

lemma read_after_remove:
  assumes "steady pf" "valid_name n"
  shows "bb_read B pf n (bb_remove B pf n w) = None" "\<not> bb_has B pf n (bb_remove B pf n w)"
  using remove_lands [OF assms] read_all [OF assms] has_all [OF assms] by auto

end

definition opfs_steady :: "platform \<Rightarrow> bool" where
  "opfs_steady pf = (pf_supported pf \<and> pf_worker pf \<and> pf_dir pf \<and> pf_entry pf \<and> pf_remove pf
     \<and> pf_api pf \<in> {SyncApi Lands, StreamApi True})"

lemma write_file_other: "write_file pf n data fs = (r, fs') \<Longrightarrow> m \<noteq> n \<Longrightarrow> fs' m = fs m"
  by (auto simp: write_file_def Let_def split: if_splits write_api.splits handle_write.splits)

lemma write_file_same: "write_file pf n data fs = (r, fs') \<Longrightarrow> fs' n = fs n \<or> (\<exists>b. fs' n = Some b \<and> prefix b data)"
  by (cases "fs n") (auto simp: write_file_def Let_def take_is_prefix split: if_splits write_api.splits handle_write.splits)

lemma write_file_lands:
  "opfs_steady pf \<Longrightarrow> valid_name n \<Longrightarrow> write_file pf n data fs = (True, fs(n \<mapsto> data))"
  by (auto simp: write_file_def opfs_steady_def Let_def)

lemmas opfs_fields = createOpfsBackend_def writeBlobToOpfs_def opens_file_def remove_file_def

interpretation opfs: steady_store createOpfsBackend bw_opfs opfs_steady
proof unfold_locales
  fix pf n data w r w' m
  assume wr: "bb_write createOpfsBackend pf n data w = (r, w')"
  show "bw_opfs w' m = bw_opfs w m" if "m \<noteq> n"
    using wr that by (auto simp: opfs_fields dest: write_file_other split: if_splits prod.splits)
  show "bw_opfs w' n = bw_opfs w n \<or> (\<exists>b. bw_opfs w' n = Some b \<and> prefix b data)"
    using wr by (auto simp: opfs_fields dest: write_file_same split: if_splits prod.splits)
  show "r \<and> bw_opfs w' = (bw_opfs w)(n \<mapsto> data)" if "opfs_steady pf" "valid_name n"
    using wr that write_file_lands [OF that] by (auto simp: opfs_fields opfs_steady_def)
qed (auto simp: opfs_fields opfs_steady_def split: if_splits)

interpretation cache: steady_store createCacheBackend bw_cache cache_usable
  by unfold_locales (auto simp: createCacheBackend_def cache_usable_def split: if_splits)

end
