(* ===== verification/BlobDb.thy ===== *)
theory BlobDb
  imports BlobBytes ObjectStore Json "HOL-Library.Product_Lexorder" "HOL-Library.Multiset"
begin

text \<open>
  The records of blobs, \<open>reliquary/ts/src/blobs/db.ts\<close> and \<open>types.ts\<close>: one IndexedDB store keyed by \<open>blob_id\<close> with
  the indexes the code reads, one keyed by blob and canvas for the references, and the paginated listing. Every
  operation is one transaction; opening and upgrading the database is not modelled.
\<close>

section \<open>Records\<close>

datatype blob_type = Original | Thumbnail | Waveform | Preview

record blob_record =
  br_blob_id :: string
  br_blake3 :: string
  br_filename :: string
  br_mime :: string
  br_size :: nat
  br_blob_type :: blob_type
  br_parent_blob_id :: "string option"
  br_metadata :: "jsv option"
  br_created_at :: int
  br_storage_backend :: "backend_name option"

record new_blob_meta =
  nm_filename :: string
  nm_mime :: string
  nm_blob_type :: "blob_type option"
  nm_parent_blob_id :: "string option"
  nm_metadata :: "jsv option"

record blob_db =
  bd_records :: "blob_record list"
  bd_refs :: "(string \<times> string) list"

definition empty_db :: blob_db where
  "empty_db = \<lparr>bd_records = [], bd_refs = []\<rparr>"

definition db_ok :: "blob_db \<Rightarrow> bool" where
  "db_ok d = (idb_ok br_blob_id (bd_records d) \<and> idb_ok id (bd_refs d))"

section \<open>Operations\<close>

definition putRecord :: "blob_record \<Rightarrow> blob_db \<Rightarrow> blob_db" where
  "putRecord r d = d\<lparr>bd_records := idb_put br_blob_id r (bd_records d)\<rparr>"

definition getRecord :: "string \<Rightarrow> blob_db \<Rightarrow> blob_record option" where
  "getRecord n d = idb_get br_blob_id n (bd_records d)"

definition getRecordByBlake3 :: "string \<Rightarrow> blob_db \<Rightarrow> blob_record option" where
  "getRecordByBlake3 h d = (if h = [] then None else idb_index_get br_blake3 h (bd_records d))"

definition deleteRecord :: "string \<Rightarrow> blob_db \<Rightarrow> blob_db" where
  "deleteRecord n d = d\<lparr>bd_records := idb_delete br_blob_id n (bd_records d)\<rparr>"

definition clearRecords :: "blob_db \<Rightarrow> blob_db" where
  "clearRecords d = d\<lparr>bd_records := []\<rparr>"

definition addCanvasRef :: "string \<Rightarrow> string \<Rightarrow> blob_db \<Rightarrow> blob_db" where
  "addCanvasRef b c d = d\<lparr>bd_refs := idb_put id (b, c) (bd_refs d)\<rparr>"

definition removeCanvasRef :: "string \<Rightarrow> string \<Rightarrow> blob_db \<Rightarrow> blob_db" where
  "removeCanvasRef b c d = d\<lparr>bd_refs := idb_delete id (b, c) (bd_refs d)\<rparr>"

definition getCanvasRefs :: "string \<Rightarrow> blob_db \<Rightarrow> string list" where
  "getCanvasRefs b d = map snd (idb_index_all fst b (bd_refs d))"

definition removeAllCanvasRefsForCanvas :: "string \<Rightarrow> blob_db \<Rightarrow> blob_db" where
  "removeAllCanvasRefsForCanvas c d = d\<lparr>bd_refs := filter (\<lambda>r. snd r \<noteq> c) (bd_refs d)\<rparr>"

definition clearCanvasRefs :: "blob_db \<Rightarrow> blob_db" where
  "clearCanvasRefs d = d\<lparr>bd_refs := []\<rparr>"

section \<open>Listing\<close>

text \<open>
  \<open>toLowerCase\<close> and the collation of \<open>localeCompare\<close> (as a sort key) are parameters. The cursor of an index walks its
  values in order, equal ones by key; \<open>prev\<close> walks it backwards. \<open>Array.sort\<close> is stable in both directions.
\<close>

datatype blob_sort = BySize | ByFilename | ByCreatedAt

datatype direction = Asc | Desc

record list_options =
  lo_sort :: blob_sort
  lo_direction :: direction
  lo_search :: "string option"
  lo_limit :: nat
  lo_offset :: nat

record list_page =
  lp_items :: "blob_record list"
  lp_totalCount :: nat
  lp_totalSize :: nat

definition matchesSearch :: "(string \<Rightarrow> string) \<Rightarrow> string option \<Rightarrow> blob_record \<Rightarrow> bool" where
  "matchesSearch lower search r =
     (if truthy search then includes_text (lower (nullish_or search [])) (lower (br_filename r)) else True)"

text \<open>The cursor's callback, called with one row after the other until it does not continue.\<close>

fun page_loop :: "(blob_record \<Rightarrow> bool) \<Rightarrow> nat \<Rightarrow> nat \<Rightarrow> nat \<Rightarrow> blob_record list \<Rightarrow> blob_record list \<Rightarrow> blob_record list" where
  "page_loop P limit offset skipped items [] = items"
| "page_loop P limit offset skipped items (r # rs) =
     (if limit \<le> length items then items
      else if P r
      then if skipped < offset then page_loop P limit offset (Suc skipped) items rs
           else page_loop P limit offset skipped (items @ [r]) rs
      else page_loop P limit offset skipped items rs)"

definition cursor_rows :: "(blob_record \<Rightarrow> int) \<Rightarrow> direction \<Rightarrow> blob_record list \<Rightarrow> blob_record list" where
  "cursor_rows f dir rs = (case dir of Asc \<Rightarrow> sort_key f rs | Desc \<Rightarrow> rev (sort_key f rs))"

definition sorted_names :: "(string \<Rightarrow> string) \<Rightarrow> direction \<Rightarrow> blob_record list \<Rightarrow> blob_record list" where
  "sorted_names k dir rs =
     (case dir of Asc \<Rightarrow> sort_key (k \<circ> br_filename) rs | Desc \<Rightarrow> rev (sort_key (k \<circ> br_filename) (rev rs)))"

definition collectPage :: "(string \<Rightarrow> string) \<Rightarrow> (string \<Rightarrow> string) \<Rightarrow> list_options \<Rightarrow> blob_record list \<Rightarrow> blob_record list" where
  "collectPage lower collate opt rs =
     (let P = matchesSearch lower (lo_search opt) in
      case lo_sort opt of
        BySize \<Rightarrow> page_loop P (lo_limit opt) (lo_offset opt) 0 [] (cursor_rows (int \<circ> br_size) (lo_direction opt) rs)
      | ByCreatedAt \<Rightarrow> page_loop P (lo_limit opt) (lo_offset opt) 0 [] (cursor_rows br_created_at (lo_direction opt) rs)
      | ByFilename \<Rightarrow> js_slice (int (lo_offset opt)) (int (lo_offset opt + lo_limit opt))
          (sorted_names (collate \<circ> lower) (lo_direction opt) (filter P rs)))"

definition listBlobs :: "(string \<Rightarrow> string) \<Rightarrow> (string \<Rightarrow> string) \<Rightarrow> list_options \<Rightarrow> blob_db \<Rightarrow> list_page" where
  "listBlobs lower collate opt d =
     (let hits = filter (matchesSearch lower (lo_search opt)) (bd_records d) in
      \<lparr>lp_items = collectPage lower collate opt (bd_records d), lp_totalCount = length hits, lp_totalSize = sum_list (map br_size hits)\<rparr>)"

text \<open>The whole listing: every match, in the order asked for.\<close>

definition listing :: "(string \<Rightarrow> string) \<Rightarrow> (string \<Rightarrow> string) \<Rightarrow> list_options \<Rightarrow> blob_db \<Rightarrow> blob_record list" where
  "listing lower collate opt d =
     (let hits = filter (matchesSearch lower (lo_search opt)) (bd_records d) in
      case lo_sort opt of
        BySize \<Rightarrow> cursor_rows (int \<circ> br_size) (lo_direction opt) hits
      | ByCreatedAt \<Rightarrow> cursor_rows br_created_at (lo_direction opt) hits
      | ByFilename \<Rightarrow> sorted_names (collate \<circ> lower) (lo_direction opt) hits)"

lemma page_loop_slice:
  "length items \<le> limit \<Longrightarrow> (items = [] \<or> skipped = offset) \<Longrightarrow> skipped \<le> offset \<Longrightarrow>
    page_loop P limit offset skipped items rs = items @ take (limit - length items) (drop (offset - skipped) (filter P rs))"
proof (induction rs arbitrary: skipped items)
  case (Cons r rs)
  show ?case
  proof (cases "limit \<le> length items \<or> \<not> P r")
    case True
    with Cons show ?thesis by auto
  next
    case False
    show ?thesis
    proof (cases "skipped < offset")
      case True
      then have "offset - skipped = Suc (offset - Suc skipped)" by simp
      with False True Cons show ?thesis by auto
    next
      case off: False
      then have "limit - length items = Suc (limit - Suc (length items))" "offset - skipped = 0"
        using False by auto
      with off False Cons show ?thesis by auto
    qed
  qed
qed simp

lemma filter_cursor: "filter P (cursor_rows f dir rs) = cursor_rows f dir (filter P rs)"
  by (cases dir) (simp_all add: cursor_rows_def filter_sort rev_filter [symmetric])

lemma mset_cursor: "mset (cursor_rows f dir rs) = mset rs"
  by (cases dir) (simp_all add: cursor_rows_def)

lemma mset_names: "mset (sorted_names k dir rs) = mset rs"
  by (cases dir) (simp_all add: sorted_names_def)

lemma mset_listing: "mset (listing lower collate opt d) = mset (filter (matchesSearch lower (lo_search opt)) (bd_records d))"
  by (cases "lo_sort opt") (simp_all add: listing_def Let_def mset_cursor mset_names)

lemma listing_length: "length (listing lower collate opt d) = lp_totalCount (listBlobs lower collate opt d)"
  by (simp add: listBlobs_def Let_def mset_eq_length [OF mset_listing])

lemma page_is_slice:
  "lp_items (listBlobs lower collate opt d) = take (lo_limit opt) (drop (lo_offset opt) (listing lower collate opt d))"
  by (cases "lo_sort opt")
    (simp_all add: listBlobs_def collectPage_def listing_def Let_def page_loop_slice filter_cursor js_slice_nonneg nat_add_distrib)

section \<open>Laws\<close>

lemma db_ok_keeps [intro]:
  assumes "db_ok d"
  shows "db_ok (putRecord r d)" "db_ok (deleteRecord n d)" "db_ok (clearRecords d)" "db_ok (addCanvasRef b c d)"
    "db_ok (removeCanvasRef b c d)" "db_ok (removeAllCanvasRefsForCanvas c d)" "db_ok (clearCanvasRefs d)"
  using assms by (simp_all add: db_ok_def putRecord_def deleteRecord_def clearRecords_def addCanvasRef_def removeCanvasRef_def
      removeAllCanvasRefsForCanvas_def clearCanvasRefs_def idb.ok_put idb.ok_del, simp add: idb_ok_def sorted_wrt_filter)

lemma records_cleared [simp]: "bd_records (clearRecords d) = []"
  by (simp add: clearRecords_def)

lemma records_refs [simp]: "bd_records (addCanvasRef b c d) = bd_records d" "bd_records (removeCanvasRef b c d) = bd_records d"
  "bd_records (removeAllCanvasRefsForCanvas c d) = bd_records d" "bd_records (clearCanvasRefs d) = bd_records d"
  by (simp_all add: addCanvasRef_def removeCanvasRef_def removeAllCanvasRefsForCanvas_def clearCanvasRefs_def)

lemma getRecord_put: "db_ok d \<Longrightarrow> getRecord n (putRecord r d) = (if n = br_blob_id r then Some r else getRecord n d)"
  by (simp add: getRecord_def putRecord_def db_ok_def idb.get_put)

lemma getRecord_delete: "db_ok d \<Longrightarrow> getRecord n (deleteRecord m d) = (if n = m then None else getRecord n d)"
  by (simp add: getRecord_def deleteRecord_def db_ok_def idb.get_del)

lemma getRecord_row: "db_ok d \<Longrightarrow> getRecord n d = Some r \<longleftrightarrow> r \<in> set (bd_records d) \<and> br_blob_id r = n"
  by (simp add: getRecord_def db_ok_def idb.get_iff_row)

lemma rows_put: "db_ok d \<Longrightarrow> set (bd_records (putRecord r d)) = insert r {x \<in> set (bd_records d). br_blob_id x \<noteq> br_blob_id r}"
  by (simp add: putRecord_def db_ok_def set_idb_put)

lemma rows_delete: "set (bd_records (deleteRecord n d)) = {x \<in> set (bd_records d). br_blob_id x \<noteq> n}"
  by (auto simp: deleteRecord_def idb_delete_def)

lemma refs_of: "db_ok d \<Longrightarrow> set (getCanvasRefs b d) = {c. (b, c) \<in> set (bd_refs d)}"
  by (force simp: getCanvasRefs_def idb_index_all_def)

end
