(* ===== verification/BlobStore.thy ===== *)
theory BlobStore
  imports BlobDb
begin

text \<open>
  The blob store of \<open>reliquary/ts/src/blobs/store.ts\<close>: records and bytes behind one set of operations. The operations
  that change something are tasks cut at their awaits, so that they interleave; an await settles with what the
  platform does at that moment. A walk over the backends takes effect at once. The module's hash function is a
  parameter; object URLs are numbers with the content they were created for.
\<close>

section \<open>State\<close>

definition STREAM_UPLOAD_THRESHOLD :: nat where
  "STREAM_UPLOAD_THRESHOLD = 8 * 1024 * 1024"

record store_options =
  so_allowCacheFallback :: bool
  so_disableOpfs :: bool

definition chain_of :: "store_options \<Rightarrow> bytes_backend list" where
  "chain_of so =
     (if so_disableOpfs so then [createCacheBackend]
      else if so_allowCacheFallback so then defaultBytesChain False else [createOpfsBackend])"

record blob_file =
  fl_name :: string
  fl_type :: string
  fl_chunks :: "bytes list"

abbreviation fl_bytes :: "blob_file \<Rightarrow> bytes" where
  "fl_bytes f \<equiv> concat (fl_chunks f)"

record partial_meta =
  pm_filename :: "string option"
  pm_mime :: "string option"
  pm_blob_type :: "blob_type option"
  pm_parent_blob_id :: "string option"
  pm_metadata :: "jsv option"

definition full_meta :: "blob_file \<Rightarrow> partial_meta \<Rightarrow> new_blob_meta" where
  "full_meta f m =
     \<lparr>nm_filename = nullish_or (pm_filename m) (fl_name f), nm_mime = nullish_or (pm_mime m) (fl_type f),
      nm_blob_type = pm_blob_type m, nm_parent_blob_id = pm_parent_blob_id m, nm_metadata = pm_metadata m\<rparr>"

text \<open>Where a task awaits, with what it goes on with.\<close>

datatype store_task =
    SbHash bytes new_blob_meta
  | SbLookup bytes new_blob_meta string
  | SbWrite bytes new_blob_meta string
  | SbPut blob_record
  | SfStream blob_file partial_meta
  | SfLookup blob_file partial_meta string nat
  | SfPut blob_file partial_meta blob_record
  | SfBuffer blob_file partial_meta
  | UrlResolve string "string option"
  | UrlRead string blob_record
  | DbLookup string | DbRemove string string | DbDelete string
  | ClRecords | ClRefs | ClBytes
  | Stored "js_exn + blob_record"
  | UrlAnswered "nat option"
  | Finished bool

record blob_world =
  ws_bytes :: bytes_world
  ws_db :: blob_db
  ws_urlCache :: "string \<rightharpoonup> nat"
  ws_urls :: "nat \<rightharpoonup> bytes"         \<comment> \<open>the object URLs that are not revoked\<close>
  ws_nextUrl :: nat
  ws_now :: int
  ws_tasks :: "store_task list"

definition new_store :: blob_world where
  "new_store = \<lparr>ws_bytes = \<lparr>bw_opfs = Map.empty, bw_cache = Map.empty\<rparr>, ws_db = empty_db, ws_urlCache = Map.empty,
     ws_urls = Map.empty, ws_nextUrl = 0, ws_now = 0, ws_tasks = []\<rparr>"

section \<open>Reading\<close>

definition hashBlake3 :: "(bytes \<Rightarrow> string) \<Rightarrow> platform \<Rightarrow> bytes \<Rightarrow> string" where
  "hashBlake3 h pf data = (if pf_hashes pf then h data else [])"

definition resolveBlob :: "string \<Rightarrow> string option \<Rightarrow> blob_db \<Rightarrow> blob_record option" where
  "resolveBlob n blake3 d =
     (if n = [] then None
      else nullish_orelse (getRecord n d)
        (nullish_orelse (getRecordByBlake3 n d)
          (case blake3 of None \<Rightarrow> None | Some b \<Rightarrow> getRecordByBlake3 b d)))"

definition getBlobData :: "store_options \<Rightarrow> platform \<Rightarrow> string \<Rightarrow> string option \<Rightarrow> blob_world \<Rightarrow> bytes option" where
  "getBlobData so pf n blake3 w =
     (case resolveBlob n blake3 (ws_db w) of
        None \<Rightarrow> None
      | Some r \<Rightarrow> readThroughChain (chain_of so) pf (br_blob_id r) (br_storage_backend r) (ws_bytes w))"

definition hasBlobBytes :: "store_options \<Rightarrow> platform \<Rightarrow> string \<Rightarrow> blob_world \<Rightarrow> bool" where
  "hasBlobBytes so pf n w =
     (case resolveBlob n None (ws_db w) of
        None \<Rightarrow> False
      | Some r \<Rightarrow> hasBytesInChain (chain_of so) pf (br_blob_id r) (br_storage_backend r) (ws_bytes w))"

definition getBlob :: "store_options \<Rightarrow> platform \<Rightarrow> string \<Rightarrow> string option \<Rightarrow> blob_world \<Rightarrow> (bytes \<times> string) option" where
  "getBlob so pf n blake3 w =
     (case resolveBlob n blake3 (ws_db w) of
        None \<Rightarrow> None
      | Some r \<Rightarrow> map_option (\<lambda>b. (b, str_or (br_mime r) ''application/octet-stream''))
          (readThroughChain (chain_of so) pf (br_blob_id r) (br_storage_backend r) (ws_bytes w)))"

record locality_metadata =
  lm_id :: string
  lm_mime :: "string option"
  lm_filename :: "string option"
  lm_size :: "nat option"
  lm_blake3 :: "string option"

datatype locality = LocalBlob locality_metadata | RemoteBlob | UnknownBlob

definition locality_of :: "blob_record \<Rightarrow> locality_metadata" where
  "locality_of r =
     \<lparr>lm_id = br_blob_id r, lm_mime = nonempty_or_undefined (br_mime r), lm_filename = nonempty_or_undefined (br_filename r),
      lm_size = (if br_size r = 0 then None else Some (br_size r)), lm_blake3 = nonempty_or_undefined (br_blake3 r)\<rparr>"

definition checkBlobLocality :: "store_options \<Rightarrow> platform \<Rightarrow> string \<Rightarrow> string option \<Rightarrow> blob_world \<Rightarrow> locality" where
  "checkBlobLocality so pf n blake3 w =
     (if n = [] then UnknownBlob
      else case resolveBlob n blake3 (ws_db w) of
        None \<Rightarrow> RemoteBlob
      | Some r \<Rightarrow>
          if hasBytesInChain (chain_of so) pf (br_blob_id r) (br_storage_backend r) (ws_bytes w)
          then LocalBlob (locality_of r) else RemoteBlob)"

section \<open>Storing\<close>

definition new_record :: "string \<Rightarrow> new_blob_meta \<Rightarrow> nat \<Rightarrow> int \<Rightarrow> backend_name \<Rightarrow> blob_record" where
  "new_record n m len t b =
     \<lparr>br_blob_id = n, br_blake3 = n, br_filename = nm_filename m, br_mime = nm_mime m, br_size = len,
      br_blob_type = nullish_or (nm_blob_type m) Original, br_parent_blob_id = nm_parent_blob_id m, br_metadata = nm_metadata m,
      br_created_at = t, br_storage_backend = Some b\<rparr>"

lemma new_record_fields [simp]: "br_blob_id (new_record n m len t b) = n" "br_blake3 (new_record n m len t b) = n"
  "br_size (new_record n m len t b) = len" "br_storage_backend (new_record n m len t b) = Some b"
  by (simp_all add: new_record_def)

definition db_error :: js_exn where
  "db_error = JsThrown ''transaction failed''"

definition write_error :: js_exn where
  "write_error = JsError ''no bytes backend accepted it''"

definition read_error :: js_exn where
  "read_error = JsThrown ''file not readable''"

definition abort_error :: js_exn where
  "abort_error = JsError ''upload cancelled''"

section \<open>Object URLs\<close>

definition revoke_all :: "blob_world \<Rightarrow> blob_world" where
  "revoke_all w = w\<lparr>ws_urls := (\<lambda>u. if u \<in> ran (ws_urlCache w) then None else ws_urls w u), ws_urlCache := Map.empty\<rparr>"

definition clearBlobUrlCache :: "blob_world \<Rightarrow> blob_world" where
  "clearBlobUrlCache w = revoke_all w"

definition create_url :: "string \<Rightarrow> bytes \<Rightarrow> blob_world \<Rightarrow> nat \<times> blob_world" where
  "create_url n b w =
     (let u = ws_nextUrl w in
      (u, w\<lparr>ws_nextUrl := Suc u, ws_urls := (ws_urls w)(u \<mapsto> b), ws_urlCache := (ws_urlCache w)(n \<mapsto> u)\<rparr>))"

definition revoke_url :: "string \<Rightarrow> blob_world \<Rightarrow> blob_world" where
  "revoke_url n w =
     (case ws_urlCache w n of
        None \<Rightarrow> w
      | Some u \<Rightarrow> w\<lparr>ws_urls := (ws_urls w)(u := None), ws_urlCache := (ws_urlCache w)(n := None)\<rparr>)"

section \<open>Tasks\<close>

text \<open>The settling of one await. \<open>ue\<close> says how a file upload goes, \<open>aborted\<close> whether its signal is set by then.\<close>

fun task_step :: "(bytes \<Rightarrow> string) \<Rightarrow> store_options \<Rightarrow> platform \<Rightarrow> upload_env \<Rightarrow> bool \<Rightarrow> store_task \<Rightarrow> blob_world \<Rightarrow>
    store_task \<times> blob_world" where
  "task_step h so pf ue aborted (SbHash data m) w = (SbLookup data m (hashBlake3 h pf data), w)"
| "task_step h so pf ue aborted (SbLookup data m n) w =
     (if \<not> pf_db pf then Stored (Inl db_error)
      else case getRecord n (ws_db w) of Some r \<Rightarrow> Stored (Inr r) | None \<Rightarrow> SbWrite data m n, w)"
| "task_step h so pf ue aborted (SbWrite data m n) w =
     (case writeThroughChain (chain_of so) pf n data (ws_bytes w) of
        (Some b, bw) \<Rightarrow> (SbPut (new_record n m (length data) (ws_now w) b), w\<lparr>ws_bytes := bw\<rparr>)
      | (None, bw) \<Rightarrow> (Stored (Inl write_error), w\<lparr>ws_bytes := bw\<rparr>))"
| "task_step h so pf ue aborted (SbPut r) w =
     (if pf_db pf then (Stored (Inr r), w\<lparr>ws_db := putRecord r (ws_db w)\<rparr>) else (Stored (Inl db_error), w))"
| "task_step h so pf ue aborted (SfStream f m) w =
     (if length (fl_bytes f) < STREAM_UPLOAD_THRESHOLD
      then (if aborted then Stored (Inl abort_error) else SfBuffer f m, w)
      else case streamFileToOpfs h pf ue (fl_chunks f) (bw_opfs (ws_bytes w)) of
        (Inr (n, len), fs) \<Rightarrow> (SfLookup f m n len, w\<lparr>ws_bytes := (ws_bytes w)\<lparr>bw_opfs := fs\<rparr>\<rparr>)
      | (Inl UploadAborted, fs) \<Rightarrow> (Stored (Inl abort_error), w\<lparr>ws_bytes := (ws_bytes w)\<lparr>bw_opfs := fs\<rparr>\<rparr>)
      | (Inl UploadFailed, fs) \<Rightarrow>
          (if aborted then Stored (Inl abort_error) else SfBuffer f m, w\<lparr>ws_bytes := (ws_bytes w)\<lparr>bw_opfs := fs\<rparr>\<rparr>))"
| "task_step h so pf ue aborted (SfLookup f m n len) w =
     (if \<not> pf_db pf then if aborted then Stored (Inl abort_error) else SfBuffer f m
      else case getRecord n (ws_db w) of
        Some r \<Rightarrow> Stored (Inr r)
      | None \<Rightarrow> SfPut f m (new_record n (full_meta f m) len (ws_now w) Opfs), w)"
| "task_step h so pf ue aborted (SfPut f m r) w =
     (if pf_db pf then (Stored (Inr r), w\<lparr>ws_db := putRecord r (ws_db w)\<rparr>)
      else (if aborted then Stored (Inl abort_error) else SfBuffer f m, w))"
| "task_step h so pf ue aborted (SfBuffer f m) w =
     (case ue_stops ue of
        Some (_, UploadFailed) \<Rightarrow> Stored (Inl read_error)
      | _ \<Rightarrow> SbHash (fl_bytes f) (full_meta f m), w)"
| "task_step h so pf ue aborted (UrlResolve n blake3) w =
     (if \<not> pf_db pf then Finished False
      else case resolveBlob n blake3 (ws_db w) of None \<Rightarrow> UrlAnswered None | Some r \<Rightarrow> UrlRead n r, w)"
| "task_step h so pf ue aborted (UrlRead n r) w =
     (case readThroughChain (chain_of so) pf (br_blob_id r) (br_storage_backend r) (ws_bytes w) of
        None \<Rightarrow> (UrlAnswered None, w)
      | Some b \<Rightarrow> (case create_url n b w of (u, w') \<Rightarrow> (UrlAnswered (Some u), w')))"
| "task_step h so pf ue aborted (DbLookup n) w =
     (if \<not> pf_db pf then (Finished False, w)
      else case getRecord n (ws_db w) of
        Some r \<Rightarrow> (DbRemove n (br_blob_id r), w)
      | None \<Rightarrow> (DbDelete n, revoke_url n w))"
| "task_step h so pf ue aborted (DbRemove n k) w =
     (DbDelete n, revoke_url n (w\<lparr>ws_bytes := removeFromChain (chain_of so) pf k (ws_bytes w)\<rparr>))"
| "task_step h so pf ue aborted (DbDelete n) w =
     (if pf_db pf then (Finished True, w\<lparr>ws_db := deleteRecord n (ws_db w)\<rparr>) else (Finished False, w))"
| "task_step h so pf ue aborted ClRecords w =
     (if pf_db pf then (ClRefs, w\<lparr>ws_db := clearRecords (ws_db w)\<rparr>) else (Finished False, w))"
| "task_step h so pf ue aborted ClRefs w =
     (if pf_db pf then (ClBytes, w\<lparr>ws_db := clearCanvasRefs (ws_db w)\<rparr>) else (Finished False, w))"
| "task_step h so pf ue aborted ClBytes w = (Finished True, w\<lparr>ws_bytes := clear_chain (chain_of so) pf (ws_bytes w)\<rparr>)"
| "task_step h so pf ue aborted t w = (t, w)"

section \<open>Events\<close>

datatype store_event =
    EvStore bytes new_blob_meta
  | EvStoreFile blob_file partial_meta
  | EvUrl string "string option"
  | EvDelete string
  | EvClear
  | EvClearUrls
  | EvAddRef string string
  | EvRemoveRef string string
  | EvRemoveCanvas string
  | EvTime nat
  | EvSettle nat platform upload_env bool

definition start_task :: "store_task \<Rightarrow> blob_world \<Rightarrow> blob_world" where
  "start_task t w = w\<lparr>ws_tasks := ws_tasks w @ [t]\<rparr>"

text \<open>\<open>getBlobObjectURL\<close> answers a cached URL at once.\<close>

definition getBlobObjectURL :: "string \<Rightarrow> string option \<Rightarrow> blob_world \<Rightarrow> blob_world" where
  "getBlobObjectURL n blake3 w =
     (case ws_urlCache w n of Some u \<Rightarrow> start_task (UrlAnswered (Some u)) w | None \<Rightarrow> start_task (UrlResolve n blake3) w)"

definition settle :: "(bytes \<Rightarrow> string) \<Rightarrow> store_options \<Rightarrow> nat \<Rightarrow> platform \<Rightarrow> upload_env \<Rightarrow> bool \<Rightarrow> blob_world \<Rightarrow> blob_world" where
  "settle h so i pf ue aborted w =
     (if i < length (ws_tasks w)
      then (case task_step h so pf ue aborted (ws_tasks w ! i) w of (t, w') \<Rightarrow> w'\<lparr>ws_tasks := (ws_tasks w')[i := t]\<rparr>)
      else w)"

fun store_step :: "(bytes \<Rightarrow> string) \<Rightarrow> store_options \<Rightarrow> store_event \<Rightarrow> blob_world \<Rightarrow> blob_world" where
  "store_step h so (EvStore data m) w = start_task (SbHash data m) w"
| "store_step h so (EvStoreFile f m) w = start_task (SfStream f m) w"
| "store_step h so (EvUrl n b) w = getBlobObjectURL n b w"
| "store_step h so (EvDelete n) w = start_task (DbLookup n) w"
| "store_step h so EvClear w = start_task ClRecords (clearBlobUrlCache w)"
| "store_step h so EvClearUrls w = clearBlobUrlCache w"
| "store_step h so (EvAddRef b c) w = w\<lparr>ws_db := addCanvasRef b c (ws_db w)\<rparr>"
| "store_step h so (EvRemoveRef b c) w = w\<lparr>ws_db := removeCanvasRef b c (ws_db w)\<rparr>"
| "store_step h so (EvRemoveCanvas c) w = w\<lparr>ws_db := removeAllCanvasRefsForCanvas c (ws_db w)\<rparr>"
| "store_step h so (EvTime d) w = w\<lparr>ws_now := ws_now w + int d\<rparr>"
| "store_step h so (EvSettle i pf ue aborted) w = settle h so i pf ue aborted w"

text \<open>The contents an event brings in; a run is over the contents of a set.\<close>

fun event_contents :: "store_event \<Rightarrow> bytes set" where
  "event_contents (EvStore data _) = {data}"
| "event_contents (EvStoreFile f _) = {fl_bytes f}"
| "event_contents _ = {}"

inductive store_reach :: "(bytes \<Rightarrow> string) \<Rightarrow> store_options \<Rightarrow> bytes set \<Rightarrow> blob_world \<Rightarrow> bool" for h so C where
  start: "store_reach h so C new_store"
| event: "store_reach h so C w \<Longrightarrow> event_contents ev \<subseteq> C \<Longrightarrow> store_reach h so C (store_step h so ev w)"

fun store_run :: "(bytes \<Rightarrow> string) \<Rightarrow> store_options \<Rightarrow> store_event list \<Rightarrow> blob_world \<Rightarrow> blob_world" where
  "store_run h so [] w = w"
| "store_run h so (ev # evs) w = store_run h so evs (store_step h so ev w)"

end
