(* ===== verification/BlobStoreProps.thy ===== *)
theory BlobStoreProps
  imports BlobStore
begin

text \<open>What every run of the blob store keeps: files and cache entries belong to the hash they are named by.\<close>

section \<open>Names and contents\<close>

text \<open>A hash as the module computes it: 64 hexadecimal digits.\<close>

definition hex_hash :: "(bytes \<Rightarrow> string) \<Rightarrow> bool" where
  "hex_hash h = (\<forall>d. length (h d) = 64 \<and> set (h d) \<subseteq> set ''0123456789abcdef'')"

lemma hex_hash_name: "hex_hash h \<Longrightarrow> h d \<noteq> []" "hex_hash h \<Longrightarrow> \<not> starts_with ''.upload-'' (h d)" "hex_hash h \<Longrightarrow> valid_name (h d)"
proof -
  assume "hex_hash h"
  then have l: "length (h d) = 64" and s: "set (h d) \<subseteq> set ''0123456789abcdef''" by (auto simp: hex_hash_def)
  then show "h d \<noteq> []" by auto
  obtain c cs where c: "h d = c # cs" using l by (cases "h d") auto
  then have "c \<noteq> CHR ''.''" using s by auto
  with c show "\<not> starts_with ''.upload-'' (h d)" by auto
  show "valid_name (h d)" using s l c \<open>c \<noteq> CHR ''.''\<close> by (auto simp: valid_name_def)
qed

definition piece_of :: "(bytes \<Rightarrow> string) \<Rightarrow> bytes set \<Rightarrow> string \<Rightarrow> bytes \<Rightarrow> bool" where
  "piece_of h C n b = (\<exists>d \<in> C. h d = n \<and> prefix b d)"

definition file_ok :: "(bytes \<Rightarrow> string) \<Rightarrow> bytes set \<Rightarrow> string \<Rightarrow> bytes \<Rightarrow> bool" where
  "file_ok h C n b = (starts_with ''.upload-'' n \<or> piece_of h C n b)"

definition entry_ok :: "(bytes \<Rightarrow> string) \<Rightarrow> bytes set \<Rightarrow> string \<Rightarrow> bytes \<Rightarrow> bool" where
  "entry_ok h C n b = (n = [] \<or> piece_of h C n b)"

definition files_ok :: "(bytes \<Rightarrow> string) \<Rightarrow> bytes set \<Rightarrow> (string \<rightharpoonup> bytes) \<Rightarrow> bool" where
  "files_ok h C fs = (\<forall>n b. fs n = Some b \<longrightarrow> file_ok h C n b)"

lemma piece_self: "d \<in> C \<Longrightarrow> prefix b d \<Longrightarrow> piece_of h C (h d) b"
  by (auto simp: piece_of_def)

lemma tmp_ok: "file_ok h C (tmpName ue) b"
  by (simp add: file_ok_def tmpName_def)

lemma files_ok_upd [simp]: "files_ok h C fs \<Longrightarrow> file_ok h C n b \<Longrightarrow> files_ok h C (fs(n \<mapsto> b))"
  by (simp add: files_ok_def)

lemma files_ok_del [simp]: "files_ok h C fs \<Longrightarrow> files_ok h C (fs(n := None))"
  by (simp add: files_ok_def)

lemma files_ok_remove [simp]: "files_ok h C fs \<Longrightarrow> files_ok h C (remove_file pf n fs)"
  by (simp add: remove_file_def)

lemma files_ok_write: "files_ok h C fs \<Longrightarrow> write_file pf n data fs = (r, fs') \<Longrightarrow> (\<And>b. prefix b data \<Longrightarrow> file_ok h C n b) \<Longrightarrow> files_ok h C fs'"
  unfolding files_ok_def
proof (intro allI impI)
  fix m b
  assume a: "\<forall>n b. fs n = Some b \<longrightarrow> file_ok h C n b" "write_file pf n data fs = (r, fs')" "\<And>b. prefix b data \<Longrightarrow> file_ok h C n b" "fs' m = Some b"
  show "file_ok h C m b"
    using a write_file_other [OF a(2), of m] write_file_same [OF a(2)] by (cases "m = n") auto
qed

section \<open>Uploads\<close>

lemma uploadPush_all: "uploadPush pf ue chunks = (c, None) \<Longrightarrow> c = concat chunks"
  by (auto simp: uploadPush_def Let_def split: option.splits prod.splits write_api.splits handle_write.splits if_splits)

lemma files_ok_begin:
  assumes "files_ok h C fs" "uploadBegin pf (tmpName ue) fs = (r, fs')"
  shows "files_ok h C fs'"
proof -
  have "files_ok h C (fs(tmpName ue \<mapsto> b))" for b using assms(1) tmp_ok by simp
  then show ?thesis using assms by (auto simp: uploadBegin_def Let_def split: if_splits write_api.splits handle_write.splits)
qed

lemma files_ok_finish:
  assumes "files_ok h C fs" "uploadFinish pf tmp (h content) content fs = (r, fs')" "content \<in> C"
  shows "files_ok h C fs'"
proof -
  have own: "file_ok h C (h content) b" if "prefix b content" for b using piece_self [OF assms(3) that] by (simp add: file_ok_def)
  show ?thesis
    using assms own files_ok_write [OF assms(1) _ own]
    by (auto simp: uploadFinish_def split: if_splits move_api.splits prod.splits bool.splits)
qed

lemma files_ok_stream:
  assumes "files_ok h C fs" "streamFileToOpfs h pf ue chunks fs = (r, fs')" "concat chunks \<in> C"
  shows "files_ok h C fs'"
proof -
  have up: "files_ok h C (fs1(tmpName ue \<mapsto> b))" if "uploadBegin pf (tmpName ue) fs = (x, fs1)" for x fs1 b
    using files_ok_begin [OF assms(1) that] tmp_ok by simp
  show ?thesis
    using assms files_ok_begin [OF assms(1)] up files_ok_finish [OF up]
    by (auto simp: streamFileToOpfs_def uploadAbort_def split: if_splits prod.splits bool.splits option.splits dest: uploadPush_all)
qed

lemma stream_result:
  "streamFileToOpfs h pf ue chunks fs = (Inr (n, len), fs') \<Longrightarrow> n = h (concat chunks) \<and> len = length (concat chunks)"
  by (auto simp: streamFileToOpfs_def split: if_splits prod.splits bool.splits option.splits dest!: uploadPush_all)

section \<open>The invariant\<close>

definition record_ok :: "(bytes \<Rightarrow> string) \<Rightarrow> bytes set \<Rightarrow> blob_record \<Rightarrow> bool" where
  "record_ok h C r = (br_blake3 r = br_blob_id r \<and> (br_blob_id r = [] \<or> (\<exists>d \<in> C. h d = br_blob_id r \<and> br_size r = length d)))"

fun task_ok :: "(bytes \<Rightarrow> string) \<Rightarrow> bytes set \<Rightarrow> store_task \<Rightarrow> bool" where
  "task_ok h C (SbHash data m) = (data \<in> C)"
| "task_ok h C (SbLookup data m n) = (data \<in> C \<and> (n = [] \<or> n = h data))"
| "task_ok h C (SbWrite data m n) = (data \<in> C \<and> (n = [] \<or> n = h data))"
| "task_ok h C (SfStream f m) = (fl_bytes f \<in> C)"
| "task_ok h C (SfBuffer f m) = (fl_bytes f \<in> C)"
| "task_ok h C (SbPut r) = record_ok h C r"
| "task_ok h C (SfLookup f m n len) = (fl_bytes f \<in> C \<and> n = h (fl_bytes f) \<and> len = length (fl_bytes f))"
| "task_ok h C (SfPut f m r) = (fl_bytes f \<in> C \<and> record_ok h C r)"
| "task_ok h C (UrlRead n r) = record_ok h C r"
| "task_ok h C (Stored (Inr r)) = record_ok h C r"
| "task_ok h C _ = True"

definition contents_ok :: "(bytes \<Rightarrow> string) \<Rightarrow> bytes set \<Rightarrow> bytes_world \<Rightarrow> bool" where
  "contents_ok h C bw = (opfs.all_files (file_ok h C) bw \<and> cache.all_files (entry_ok h C) bw)"

definition store_inv :: "(bytes \<Rightarrow> string) \<Rightarrow> bytes set \<Rightarrow> blob_world \<Rightarrow> bool" where
  "store_inv h C w =
     (contents_ok h C (ws_bytes w) \<and> db_ok (ws_db w) \<and> (\<forall>r \<in> set (bd_records (ws_db w)). record_ok h C r)
      \<and> (\<forall>t \<in> set (ws_tasks w). task_ok h C t))"

lemma chain_backends: "set (chain_of so) \<subseteq> {createOpfsBackend, createCacheBackend}"
  by (auto simp: chain_of_def defaultBytesChain_def)

lemma contents_write:
  assumes "contents_ok h C bw" "writeThroughChain (chain_of so) pf n data bw = (r, bw')" "n = [] \<or> n = h data" "data \<in> C"
  shows "contents_ok h C bw'"
proof -
  have inv: "contents_ok h C bw'" if "B = createOpfsBackend \<or> B = createCacheBackend" "contents_ok h C bw" "bb_write B pf n data bw = (q, bw')"
    for B bw bw' q
  proof (cases "B = createOpfsBackend")
    case True
    have "bw_cache bw' = bw_cache bw" using that(3) True by (auto simp: opfs_fields split: if_splits prod.splits)
    moreover have "opfs.all_files (file_ok h C) bw'"
    proof (cases "n = []")
      case True
      then have "bw_opfs bw' = bw_opfs bw"
        using that(3) \<open>B = createOpfsBackend\<close> by (auto simp: opfs_fields write_file_def valid_name_def split: if_splits prod.splits)
      then show ?thesis using that(2) by (simp add: contents_ok_def opfs.all_files_def)
    next
      case False
      then show ?thesis
        using that opfs.all_files_write [of "file_ok h C" bw pf n data q bw'] assms(3,4) True
        by (auto simp: contents_ok_def file_ok_def piece_self)
    qed
    ultimately show ?thesis using that(2) by (simp add: contents_ok_def cache.all_files_def)
  next
    case False
    with that have B: "B = createCacheBackend" by simp
    have "bw_opfs bw' = bw_opfs bw" using that(3) B by (auto simp: createCacheBackend_def split: if_splits)
    moreover have "cache.all_files (entry_ok h C) bw'"
      using that cache.all_files_write [of "entry_ok h C" bw pf n data q bw'] assms(3,4) B
      by (auto simp: contents_ok_def entry_ok_def piece_self)
    ultimately show ?thesis using that(2) by (simp add: contents_ok_def opfs.all_files_def)
  qed
  have "contents_ok h C bw'" if "set Bs \<subseteq> {createOpfsBackend, createCacheBackend}" "contents_ok h C bw"
    "writeThroughChain Bs pf n data bw = (r, bw')" for Bs bw
    using that
  proof (induction Bs arbitrary: bw)
    case (Cons B Bs)
    then show ?case using inv [of B bw] by (auto split: if_splits prod.splits bool.splits)
  qed simp
  then show ?thesis using assms(1,2) chain_backends by blast
qed

lemma backends_apart:
  "bw_cache (bb_remove createOpfsBackend pf n bw) = bw_cache bw" "bw_opfs (bb_remove createCacheBackend pf n bw) = bw_opfs bw"
  "bw_cache (bb_clear createOpfsBackend pf bw) = bw_cache bw" "bw_opfs (bb_clear createCacheBackend pf bw) = bw_opfs bw"
  by (simp_all add: opfs_fields createCacheBackend_def)

lemma contents_fold:
  assumes "\<And>B bw. B \<in> {createOpfsBackend, createCacheBackend} \<Longrightarrow> contents_ok h C bw \<Longrightarrow> contents_ok h C (f B bw)"
  shows "contents_ok h C bw \<Longrightarrow> contents_ok h C (fold f (chain_of so) bw)"
proof -
  have "contents_ok h C (fold f Bs bw)" if "set Bs \<subseteq> {createOpfsBackend, createCacheBackend}" "contents_ok h C bw" for Bs bw
    using that assms by (induction Bs arbitrary: bw) auto
  then show "contents_ok h C bw \<Longrightarrow> contents_ok h C (fold f (chain_of so) bw)" using chain_backends by blast
qed

lemma contents_remove: "contents_ok h C bw \<Longrightarrow> contents_ok h C (removeFromChain (chain_of so) pf n bw)"
  unfolding removeFromChain_def
proof (rule contents_fold)
  fix B bw assume "B \<in> {createOpfsBackend, createCacheBackend}" "contents_ok h C bw"
  then show "contents_ok h C (bb_remove B pf n bw)"
    using opfs.all_files_remove [of "file_ok h C" bw pf n] cache.all_files_remove [of "entry_ok h C" bw pf n]
    by (auto simp: contents_ok_def opfs.all_files_def cache.all_files_def backends_apart)
qed

lemma contents_clear: "contents_ok h C bw \<Longrightarrow> contents_ok h C (clear_chain (chain_of so) pf bw)"
  unfolding clear_chain_def
proof (rule contents_fold)
  fix B bw assume "B \<in> {createOpfsBackend, createCacheBackend}" "contents_ok h C bw"
  then show "contents_ok h C (bb_clear B pf bw)"
    using opfs.all_files_clear [of "file_ok h C" bw pf] cache.all_files_clear [of "entry_ok h C" bw pf]
    by (auto simp: contents_ok_def opfs.all_files_def cache.all_files_def backends_apart)
qed

lemma contents_read:
  assumes "contents_ok h C bw" "readThroughChain (chain_of so) pf n known bw = Some b" "n \<noteq> []" "\<not> starts_with ''.upload-'' n"
  shows "piece_of h C n b"
proof -
  have rd: "piece_of h C n b" if "bb_read B pf n bw = Some b" "B \<in> set (chain_of so)" for B
    using that assms opfs.all_files_read [of "file_ok h C" bw pf n b] cache.all_files_read [of "entry_ok h C" bw pf n b]
    by (auto simp: contents_ok_def file_ok_def entry_ok_def chain_of_def defaultBytesChain_def split: if_splits)
  have "\<exists>B \<in> set Bs. bb_read B pf n bw = Some b" if "first_bytes Bs pf n bw = Some b" for Bs
    using that by (induction Bs) (auto split: option.splits)
  then show ?thesis
    using assms(2) rd by (auto simp: readThroughChain_def known_backend_def split: option.splits dest!: find_SomeD)
qed

lemma record_new: "data \<in> C \<Longrightarrow> n = [] \<or> n = h data \<Longrightarrow> record_ok h C (new_record n m (length data) t b)"
  by (auto simp: record_ok_def new_record_def)

lemma record_found: "store_inv h C w \<Longrightarrow> getRecord n (ws_db w) = Some r \<Longrightarrow> record_ok h C r"
  by (auto simp: store_inv_def getRecord_row)

lemma record_resolved:
  assumes "store_inv h C w" "resolveBlob n k (ws_db w) = Some r"
  shows "record_ok h C r"
proof -
  have "record_ok h C r" if "getRecordByBlake3 m (ws_db w) = Some r" for m
    using that assms(1) by (auto simp: getRecordByBlake3_def idb_index_get_def store_inv_def split: if_splits dest: find_SomeD)
  then show ?thesis
    using assms record_found [OF assms(1), of n r] by (auto simp: resolveBlob_def split: if_splits option.splits)
qed

lemma store_inv_fields [simp]:
  "store_inv h C (w\<lparr>ws_urls := u\<rparr>) = store_inv h C w" "store_inv h C (w\<lparr>ws_urlCache := c\<rparr>) = store_inv h C w"
  "store_inv h C (w\<lparr>ws_nextUrl := x\<rparr>) = store_inv h C w" "store_inv h C (w\<lparr>ws_now := t\<rparr>) = store_inv h C w"
  by (simp_all add: store_inv_def)

lemma store_inv_urls [simp]: "store_inv h C (revoke_url n w) = store_inv h C w" "store_inv h C (clearBlobUrlCache w) = store_inv h C w"
  by (simp_all add: store_inv_def revoke_url_def clearBlobUrlCache_def revoke_all_def split: option.split)

lemma store_inv_bytes: "store_inv h C w \<Longrightarrow> contents_ok h C bw \<Longrightarrow> store_inv h C (w\<lparr>ws_bytes := bw\<rparr>)"
  by (simp add: store_inv_def)

lemma store_inv_db:
  "store_inv h C w \<Longrightarrow> db_ok d \<Longrightarrow> (\<And>r. r \<in> set (bd_records d) \<Longrightarrow> record_ok h C r) \<Longrightarrow> store_inv h C (w\<lparr>ws_db := d\<rparr>)"
  by (simp add: store_inv_def)

lemma store_inv_put: "store_inv h C w \<Longrightarrow> record_ok h C r \<Longrightarrow> store_inv h C (w\<lparr>ws_db := putRecord r (ws_db w)\<rparr>)"
  by (rule store_inv_db) (auto simp: store_inv_def rows_put)

lemma store_inv_delete: "store_inv h C w \<Longrightarrow> store_inv h C (w\<lparr>ws_db := deleteRecord n (ws_db w)\<rparr>)"
  by (rule store_inv_db) (auto simp: store_inv_def rows_delete)

lemma store_inv_refs:
  "store_inv h C w \<Longrightarrow> db_ok d \<Longrightarrow> bd_records d = bd_records (ws_db w) \<Longrightarrow> store_inv h C (w\<lparr>ws_db := d\<rparr>)"
  by (simp add: store_inv_def)

lemma store_inv_opfs: "store_inv h C w \<Longrightarrow> files_ok h C fs \<Longrightarrow> store_inv h C (w\<lparr>ws_bytes := (ws_bytes w)\<lparr>bw_opfs := fs\<rparr>\<rparr>)"
  by (simp add: store_inv_def contents_ok_def opfs.all_files_def cache.all_files_def files_ok_def)

lemma inv_files: "store_inv h C w \<Longrightarrow> files_ok h C (bw_opfs (ws_bytes w))"
  by (simp add: store_inv_def contents_ok_def opfs.all_files_def files_ok_def)

lemma task_step_inv:
  assumes "store_inv h C w" "task_ok h C t" "task_step h so pf ue aborted t w = (t', w')"
  shows "store_inv h C w' \<and> task_ok h C t' \<and> ws_tasks w' = ws_tasks w"
proof (cases t)
  case (SbHash data m)
  then show ?thesis using assms by (auto simp: hashBlake3_def)
next
  case (SbLookup data m n)
  then show ?thesis using assms record_found [OF assms(1)] by (auto split: if_splits option.splits)
next
  case (SbWrite data m n)
  then show ?thesis
    using assms contents_write [of h C "ws_bytes w" so pf n data] record_new [of data C n h] store_inv_bytes [OF assms(1)]
    by (auto simp: store_inv_def split: prod.splits option.splits)
next
  case (SbPut r)
  then show ?thesis using assms store_inv_put [OF assms(1)] by (auto split: if_splits)
next
  case (SfStream f m)
  then show ?thesis
    using assms files_ok_stream [OF inv_files [OF assms(1)]] store_inv_opfs [OF assms(1)] stream_result
    by (auto split: if_splits prod.splits sum.splits upload_exn.splits)
next
  case (SfLookup f m n len)
  then show ?thesis using assms record_found [OF assms(1)] record_new [of "fl_bytes f" C n h] by (auto split: if_splits option.splits)
next
  case (SfPut f m r)
  then show ?thesis using assms store_inv_put [OF assms(1)] by (auto split: if_splits)
next
  case (SfBuffer f m)
  then show ?thesis using assms by (auto split: option.splits prod.splits upload_exn.splits)
next
  case (UrlResolve n k)
  then show ?thesis using assms record_resolved [OF assms(1)] by (auto split: if_splits option.splits)
next
  case (UrlRead n r)
  then show ?thesis using assms by (auto simp: create_url_def Let_def split: option.splits prod.splits)
next
  case (DbLookup n)
  then show ?thesis using assms by (auto simp: revoke_url_def split: if_splits option.splits)
next
  case (DbRemove n k)
  have "store_inv h C (w\<lparr>ws_bytes := removeFromChain (chain_of so) pf k (ws_bytes w)\<rparr>)"
    by (rule store_inv_bytes [OF assms(1)]) (use assms(1) in \<open>auto simp: store_inv_def intro: contents_remove\<close>)
  then show ?thesis using assms DbRemove by (auto simp: revoke_url_def split: option.splits)
next
  case (DbDelete n)
  then show ?thesis using assms store_inv_delete [OF assms(1)] by (auto split: if_splits)
next
  case ClRecords
  have "store_inv h C (w\<lparr>ws_db := clearRecords (ws_db w)\<rparr>)"
    by (rule store_inv_db [OF assms(1)]) (use assms(1) in \<open>auto simp: store_inv_def\<close>)
  then show ?thesis using assms ClRecords by (auto split: if_splits)
next
  case ClRefs
  have "store_inv h C (w\<lparr>ws_db := clearCanvasRefs (ws_db w)\<rparr>)"
    by (rule store_inv_refs [OF assms(1)]) (use assms(1) in \<open>auto simp: store_inv_def\<close>)
  then show ?thesis using assms ClRefs by (auto split: if_splits)
next
  case ClBytes
  have "store_inv h C (w\<lparr>ws_bytes := clear_chain (chain_of so) pf (ws_bytes w)\<rparr>)"
    by (rule store_inv_bytes [OF assms(1)]) (use assms(1) in \<open>auto simp: store_inv_def intro: contents_clear\<close>)
  then show ?thesis using assms ClBytes by auto
qed (use assms in auto)

lemma start_task_inv: "store_inv h C w \<Longrightarrow> task_ok h C t \<Longrightarrow> store_inv h C (start_task t w)"
  by (auto simp: store_inv_def start_task_def)

lemma settle_inv: "store_inv h C w \<Longrightarrow> store_inv h C (settle h so i pf ue aborted w)"
proof (cases "i < length (ws_tasks w)")
  case True
  assume inv: "store_inv h C w"
  obtain t' w' where s: "task_step h so pf ue aborted (ws_tasks w ! i) w = (t', w')" by fastforce
  then have "store_inv h C w' \<and> task_ok h C t' \<and> ws_tasks w' = ws_tasks w"
    using task_step_inv [OF inv _ s] inv True by (auto simp: store_inv_def)
  then show ?thesis using s True by (auto simp: settle_def store_inv_def dest: set_update_subset_insert [THEN subsetD])
qed (simp add: settle_def)

lemma store_inv_reach: "store_reach h so C w \<Longrightarrow> store_inv h C w"
proof (induction rule: store_reach.induct)
  case start
  then show ?case
    by (simp add: store_inv_def new_store_def contents_ok_def opfs.all_files_def cache.all_files_def empty_db_def db_ok_def)
next
  case (event w ev)
  have ok: "db_ok (ws_db w)" using event.IH by (simp add: store_inv_def)
  show ?case
  proof (cases ev)
    case (EvAddRef b c)
    then show ?thesis using store_inv_refs [OF event.IH db_ok_keeps(4) [OF ok]] by simp
  next
    case (EvRemoveRef b c)
    then show ?thesis using store_inv_refs [OF event.IH db_ok_keeps(5) [OF ok]] by simp
  next
    case (EvRemoveCanvas c)
    then show ?thesis using store_inv_refs [OF event.IH db_ok_keeps(6) [OF ok]] by simp
  qed (use event.IH event.hyps(2) in \<open>auto simp: getBlobObjectURL_def intro: start_task_inv settle_inv split: option.split\<close>)
qed

end
