(* ===== verification/BlobClaims.thy ===== *)
theory BlobClaims
  imports BlobStoreProps
begin

text \<open>What the blob store promises, and where it does not.\<close>

section \<open>Undisturbed runs\<close>

text \<open>Storing content as the i-th task with nothing in between.\<close>

definition store_alone :: "(bytes \<Rightarrow> string) \<Rightarrow> store_options \<Rightarrow> platform \<Rightarrow> upload_env \<Rightarrow> bytes \<Rightarrow> new_blob_meta \<Rightarrow> blob_world \<Rightarrow> blob_world" where
  "store_alone h so pf ue data m w =
     store_run h so (EvStore data m # replicate 4 (EvSettle (length (ws_tasks w)) pf ue False)) w"

lemmas run4 = eval_nat_numeral replicate.simps

lemma settle_last:
  "settle h so (length ts) pf ue ab (w\<lparr>ws_tasks := ts @ [t]\<rparr>) =
     (case task_step h so pf ue ab t (w\<lparr>ws_tasks := ts @ [t]\<rparr>) of (t', w') \<Rightarrow> w'\<lparr>ws_tasks := (ws_tasks w')[length ts := t']\<rparr>)"
  by (simp add: settle_def)

lemma store_alone_known:
  assumes "pf_db pf" "getRecord (hashBlake3 h pf data) (ws_db w) = Some r"
  shows "store_alone h so pf ue data m w = w\<lparr>ws_tasks := ws_tasks w @ [Stored (Inr r)]\<rparr>"
  using assms by (simp add: store_alone_def run4 start_task_def settle_last)

lemma store_alone_new:
  assumes "pf_db pf" "getRecord (hashBlake3 h pf data) (ws_db w) = None"
    and "writeThroughChain (chain_of so) pf (hashBlake3 h pf data) data (ws_bytes w) = (Some b, bw)"
    and "r = new_record (hashBlake3 h pf data) m (length data) (ws_now w) b"
  shows "store_alone h so pf ue data m w =
    w\<lparr>ws_bytes := bw, ws_db := putRecord r (ws_db w), ws_tasks := ws_tasks w @ [Stored (Inr r)]\<rparr>"
  using assms by (simp add: store_alone_def run4 start_task_def settle_last)

text \<open>The platform refuses nothing to the backend the store writes to.\<close>

definition head_steady :: "store_options \<Rightarrow> platform \<Rightarrow> bool" where
  "head_steady so pf = (if so_disableOpfs so then cache_usable pf else opfs_steady pf)"

definition head_name :: "store_options \<Rightarrow> backend_name" where
  "head_name so = (if so_disableOpfs so then Cache else Opfs)"

lemma backend_names: "bb_name createOpfsBackend = Opfs" "bb_name createCacheBackend = Cache"
  by (simp_all add: createOpfsBackend_def createCacheBackend_def)

lemma chain_head: "\<exists>B Bs. chain_of so = B # Bs \<and> bb_name B = head_name so \<and>
    (if so_disableOpfs so then B = createCacheBackend else B = createOpfsBackend)"
  by (auto simp: chain_of_def defaultBytesChain_def head_name_def backend_names)

lemma write_head:
  assumes "head_steady so pf" "valid_name n"
  shows "\<exists>bw'. writeThroughChain (chain_of so) pf n data bw = (Some (head_name so), bw')
    \<and> readThroughChain (chain_of so) pf n (Some (head_name so)) bw' = Some data
    \<and> hasBytesInChain (chain_of so) pf n (Some (head_name so)) bw'"
proof -
  obtain B Bs where c: "chain_of so = B # Bs" "bb_name B = head_name so"
    "if so_disableOpfs so then B = createCacheBackend else B = createOpfsBackend"
    using chain_head by blast
  obtain r bw' where wr: "bb_write B pf n data bw = (r, bw')" by fastforce
  have "bb_isAvailable B pf" "r" "bb_read B pf n bw' = Some data" "bb_has B pf n bw'"
    using c(3) assms wr opfs.available opfs.read_after_write [of pf n data bw r bw'] cache.available cache.read_after_write [of pf n data bw r bw']
    by (auto simp: head_steady_def split: if_splits)
  then show ?thesis
    using wr c(2) by (auto simp: c(1) readThroughChain_def hasBytesInChain_def known_backend_def)
qed

lemma resolve_own: "n \<noteq> [] \<Longrightarrow> getRecord n d = Some r \<Longrightarrow> resolveBlob n k d = Some r"
  by (simp add: resolveBlob_def)

section \<open>Properties\<close>


text \<open>
  Content the store did not know, stored on a platform that refuses nothing: the answer is its record, reading it
  back answers the content, it counts as local, and storing it again answers the same record and writes nothing.
\<close>

theorem bs_store_read:
  assumes "hex_hash h" "pf_hashes pf" "pf_db pf" "head_steady so pf"
    and "db_ok (ws_db w)" "getRecord (h data) (ws_db w) = None"
    and "w' = store_alone h so pf ue data m w" "r = new_record (h data) m (length data) (ws_now w) (head_name so)"
  shows "last (ws_tasks w') = Stored (Inr r) \<and> getBlobData so pf (h data) k w' = Some data
    \<and> checkBlobLocality so pf (h data) k w' = LocalBlob (locality_of r)
    \<and> store_alone h so pf ue data m' w' = w'\<lparr>ws_tasks := ws_tasks w' @ [Stored (Inr r)]\<rparr>"
proof (intro conjI)
  have hash: "hashBlake3 h pf data = h data" using assms(2) by (simp add: hashBlake3_def)
  obtain bw where bw: "writeThroughChain (chain_of so) pf (h data) data (ws_bytes w) = (Some (head_name so), bw)"
    "readThroughChain (chain_of so) pf (h data) (Some (head_name so)) bw = Some data"
    "hasBytesInChain (chain_of so) pf (h data) (Some (head_name so)) bw"
    using write_head [OF assms(4) hex_hash_name(3) [OF assms(1)]] by blast
  have w': "w' = w\<lparr>ws_bytes := bw, ws_db := putRecord r (ws_db w), ws_tasks := ws_tasks w @ [Stored (Inr r)]\<rparr>"
    using store_alone_new [of pf h data w so "head_name so" bw r m ue, unfolded hash, OF assms(3,6) bw(1) assms(8)] assms(7) by simp
  have r: "br_blob_id r = h data" "br_storage_backend r = Some (head_name so)" using assms(8) by (simp_all add: new_record_def)
  have found: "getRecord (h data) (ws_db w') = Some r" using assms(5) r by (simp add: w' getRecord_put)
  have res: "resolveBlob (h data) k (ws_db w') = Some r" by (rule resolve_own [OF hex_hash_name(1) [OF assms(1)] found])
  show "last (ws_tasks w') = Stored (Inr r)" by (simp add: w')
  show "getBlobData so pf (h data) k w' = Some data" using bw(2) r by (simp add: getBlobData_def res) (simp add: w')
  show "checkBlobLocality so pf (h data) k w' = LocalBlob (locality_of r)"
    using bw(3) r hex_hash_name(1) [OF assms(1)] by (simp add: checkBlobLocality_def res) (simp add: w')
  show "store_alone h so pf ue data m' w' = w'\<lparr>ws_tasks := ws_tasks w' @ [Stored (Inr r)]\<rparr>"
    by (rule store_alone_known) (use assms(3) found hash in auto)
qed

text \<open>
  Where the blob worker does not run, storing answers a record and stores no bytes, the cache not being tried; and
  the record is in the way for good: on a platform that refuses nothing, storing the content again answers that
  record, still stores nothing, and the blob stays remote.
\<close>

theorem bs_stranded:
  assumes "hex_hash h" "pf_hashes pf" "pf_db pf" "pf_supported pf" "\<not> pf_worker pf" "\<not> so_disableOpfs so"
    and "db_ok (ws_db w)" "getRecord (h data) (ws_db w) = None"
    and "bw_opfs (ws_bytes w) (h data) = None" "bw_cache (ws_bytes w) (h data) = None"
    and "pf_hashes pf2" "pf_db pf2"
    and "w1 = store_alone h so pf ue data m w" "w2 = store_alone h so pf2 ue data m2 w1"
  shows "\<exists>r. last (ws_tasks w1) = Stored (Inr r) \<and> last (ws_tasks w2) = Stored (Inr r) \<and> ws_bytes w2 = ws_bytes w
    \<and> getBlobData so pf2 (h data) None w2 = None \<and> checkBlobLocality so pf2 (h data) None w2 = RemoteBlob"
proof -
  have hash: "hashBlake3 h pf data = h data" "hashBlake3 h pf2 data = h data" using assms(2,11) by (simp_all add: hashBlake3_def)
  define r where "r = new_record (h data) m (length data) (ws_now w) Opfs"
  have "writeThroughChain (chain_of so) pf (h data) data (ws_bytes w) = (Some Opfs, ws_bytes w)"
    using assms(4-6) by (simp add: chain_of_def defaultBytesChain_def opfs_fields)
  then have w1: "w1 = w\<lparr>ws_db := putRecord r (ws_db w), ws_tasks := ws_tasks w @ [Stored (Inr r)]\<rparr>"
    using store_alone_new [of pf h data w so Opfs "ws_bytes w" r m ue] assms(3,8,13) by (simp add: hash r_def)
  have found: "getRecord (h data) (ws_db w1) = Some r" using assms(7) by (simp add: w1 getRecord_put r_def new_record_def)
  have w2: "w2 = w1\<lparr>ws_tasks := ws_tasks w1 @ [Stored (Inr r)]\<rparr>"
    using store_alone_known [of pf2 h data w1 r so ue m2] found assms(12,14) by (simp add: hash)
  have res: "resolveBlob (h data) None (ws_db w2) = Some r"
    by (rule resolve_own [OF hex_hash_name(1) [OF assms(1)]]) (simp add: w2 found)
  have bytes: "ws_bytes w2 = ws_bytes w" by (simp add: w2 w1)
  have none: "bb_read B pf2 (h data) (ws_bytes w) = None \<and> \<not> bb_has B pf2 (h data) (ws_bytes w)" if "B \<in> set (chain_of so)" for B
    using that assms(9,10) chain_backends [of so] by (auto simp: opfs_fields createCacheBackend_def)
  have "first_bytes Bs pf2 (h data) (ws_bytes w) = None" if "set Bs \<subseteq> set (chain_of so)" for Bs
    using that none by (induction Bs) auto
  then have "readThroughChain (chain_of so) pf2 (h data) kn (ws_bytes w) = None" for kn
    using none by (auto simp: readThroughChain_def known_backend_def split: option.split dest!: find_SomeD)
  moreover have "\<not> hasBytesInChain (chain_of so) pf2 (h data) kn (ws_bytes w)" for kn
    using none by (auto simp: hasBytesInChain_def known_backend_def split: option.split dest!: find_SomeD)
  moreover have "br_blob_id r = h data" by (simp add: r_def new_record_def)
  ultimately show ?thesis
    using hex_hash_name(1) [OF assms(1)]
    by (intro exI [of _ r]) (simp add: getBlobData_def checkBlobLocality_def res bytes, simp add: w2 w1)
qed

text \<open>
  With OPFS disabled a large file still goes to OPFS, which the store then never reads: the upload answers a record,
  and on every platform its bytes are gone.
\<close>

theorem bs_disabled_opfs:
  assumes "hex_hash h" "so_disableOpfs so" "STREAM_UPLOAD_THRESHOLD \<le> length (fl_bytes f)" "ue_stops ue = None" "valid_name (tmpName ue)"
    and "pf_hashes pf" "pf_db pf" "opfs_steady pf" "pf_api pf = SyncApi Lands" "pf_move pf = Moves"
    and "db_ok (ws_db w)" "getRecord (h (fl_bytes f)) (ws_db w) = None" "bw_cache (ws_bytes w) (h (fl_bytes f)) = None"
    and "w' = store_run h so (EvStoreFile f m # replicate 3 (EvSettle (length (ws_tasks w)) pf ue False)) w"
  shows "\<exists>r. last (ws_tasks w') = Stored (Inr r) \<and> br_blob_id r = h (fl_bytes f) \<and> br_storage_backend r = Some Opfs
    \<and> (\<forall>pf2. getBlobData so pf2 (h (fl_bytes f)) None w' = None)"
proof -
  let ?n = "h (fl_bytes f)"
  have name: "valid_name ?n" "?n \<noteq> tmpName ue"
    using hex_hash_name(2,3) [OF assms(1), of "fl_bytes f"] by (auto simp: tmpName_def)
  have "\<exists>fs. streamFileToOpfs h pf ue (fl_chunks f) (bw_opfs (ws_bytes w)) = (Inr (?n, length (fl_bytes f)), fs)"
    using assms(4-10) name
    by (cases "bw_opfs (ws_bytes w) ?n")
      (simp_all add: streamFileToOpfs_def uploadBegin_def uploadPush_def uploadFinish_def opfs_steady_def Let_def cong: if_cong)
  then obtain fs where fs: "streamFileToOpfs h pf ue (fl_chunks f) (bw_opfs (ws_bytes w)) = (Inr (?n, length (fl_bytes f)), fs)"
    by blast
  define r where "r = new_record ?n (full_meta f m) (length (fl_bytes f)) (ws_now w) Opfs"
  have w': "w' = w\<lparr>ws_bytes := (ws_bytes w)\<lparr>bw_opfs := fs\<rparr>, ws_db := putRecord r (ws_db w), ws_tasks := ws_tasks w @ [Stored (Inr r)]\<rparr>"
    unfolding assms(14) using assms(3,7,12) by (simp add: run4 start_task_def settle_last fs r_def)
  have r: "br_blob_id r = ?n" "br_storage_backend r = Some Opfs" by (simp_all add: r_def new_record_def)
  have found: "getRecord ?n (ws_db w') = Some r" using assms(11) r by (simp add: w' getRecord_put)
  have "getBlobData so pf2 ?n None w' = None" for pf2
    using assms(2,13) r
    by (simp add: getBlobData_def resolve_own [OF hex_hash_name(1) [OF assms(1)] found], simp add: w' chain_of_def readThroughChain_def
        known_backend_def backend_names, simp add: createCacheBackend_def)
  with r show ?thesis by (intro exI [of _ r]) (simp add: w')
qed


section \<open>Witnesses\<close>

definition demo_hash :: "bytes \<Rightarrow> string" where
  "demo_hash d = replicate 63 (CHR ''a'') @ (if d = [] then ''e'' else ''d'')"

definition good_platform :: platform where
  "good_platform = \<lparr>pf_supported = True, pf_worker = True, pf_dir = True, pf_entry = True, pf_api = SyncApi Lands, pf_move = Moves,
     pf_remove = True, pf_cache = True, pf_cache_works = True, pf_hashes = True, pf_db = True\<rparr>"

definition opfs_only :: store_options where
  "opfs_only = \<lparr>so_allowCacheFallback = False, so_disableOpfs = False\<rparr>"

definition no_stop :: upload_env where
  "no_stop = \<lparr>ue_suffix = ''1-0'', ue_stops = None\<rparr>"

definition plain_meta :: new_blob_meta where
  "plain_meta = \<lparr>nm_filename = ''a.txt'', nm_mime = ''text/plain'', nm_blob_type = None, nm_parent_blob_id = None, nm_metadata = None\<rparr>"

lemma demo_hex: "hex_hash demo_hash"
  by (simp add: hex_hash_def demo_hash_def)

lemma good_facts [simp]: "pf_hashes good_platform" "pf_db good_platform" "head_steady opfs_only good_platform" "opfs_steady good_platform"
  "pf_supported good_platform" "pf_api good_platform = SyncApi Lands" "pf_move good_platform = Moves" "\<not> so_disableOpfs opfs_only"
  by (simp_all add: good_platform_def head_steady_def opfs_only_def opfs_steady_def)

lemma new_store_facts [simp]: "db_ok (ws_db new_store)" "getRecord n (ws_db new_store) = None" "bw_opfs (ws_bytes new_store) n = None"
  "bw_cache (ws_bytes new_store) n = None" "ws_tasks new_store = []" "ws_now new_store = 0"
  by (simp_all add: new_store_def empty_db_def db_ok_def getRecord_def idb_get_def)

lemma bs_store_read_witness:
  "getBlobData opfs_only good_platform (demo_hash [1]) None (store_alone demo_hash opfs_only good_platform no_stop [1] plain_meta new_store) = Some [1]"
  using bs_store_read [OF demo_hex, of good_platform opfs_only new_store "[1]", OF _ _ _ _ _ refl refl] by simp





definition no_worker :: platform where
  "no_worker = good_platform\<lparr>pf_worker := False\<rparr>"

lemma bs_stranded_witness:
  "\<exists>r. last (ws_tasks (store_alone demo_hash opfs_only no_worker no_stop [1] plain_meta new_store)) = Stored (Inr r)"
proof -
  have "pf_hashes no_worker" "pf_db no_worker" "pf_supported no_worker" "\<not> pf_worker no_worker" by (simp_all add: no_worker_def)
  from bs_stranded [OF demo_hex this, where so = opfs_only and w = new_store and data = "[1]" and ?pf2.0 = good_platform
      and ue = no_stop and m = plain_meta and ?m2.0 = plain_meta, OF _ _ _ _ _ _ _ refl refl]
  show ?thesis by auto
qed

definition cache_only :: store_options where
  "cache_only = \<lparr>so_allowCacheFallback = False, so_disableOpfs = True\<rparr>"

definition large_file :: blob_file where
  "large_file = \<lparr>fl_name = ''film.mp4'', fl_type = ''video/mp4'', fl_chunks = [replicate STREAM_UPLOAD_THRESHOLD 0]\<rparr>"

definition no_meta :: partial_meta where
  "no_meta = \<lparr>pm_filename = None, pm_mime = None, pm_blob_type = None, pm_parent_blob_id = None, pm_metadata = None\<rparr>"

lemma bs_disabled_opfs_witness:
  "getBlobData cache_only good_platform (demo_hash (fl_bytes large_file)) None
     (store_run demo_hash cache_only (EvStoreFile large_file no_meta # replicate 3 (EvSettle 0 good_platform no_stop False)) new_store) = None"
proof -
  have "so_disableOpfs cache_only" "STREAM_UPLOAD_THRESHOLD \<le> length (fl_bytes large_file)" "ue_stops no_stop = None"
    "valid_name (tmpName no_stop)"
    by (simp_all add: cache_only_def large_file_def no_stop_def tmpName_def valid_name_def)
  from bs_disabled_opfs [OF demo_hex this, of good_platform new_store, OF _ _ _ _ _ _ _ _ refl] show ?thesis by auto
qed


end
