(* ===== verification/Snatch.thy ===== *)
theory Snatch
  imports BlobBytes Json
begin

text \<open>
  Fetching a blob from peers, \<open>reliquary/ts/src/transfer/snatch.ts\<close> with \<open>types.ts\<close> and \<open>cancellation.ts\<close>: into memory, as
  a function of what the transport node does, and to disk. The node is not part of the library: its methods are
  fields of a record, absent ones \<open>None\<close>. Streaming to disk is a state machine, since a download that was given up
  goes on delivering chunks.
\<close>

section \<open>Failures and timeouts\<close>

datatype transfer_exn = AbortException | Failed js_exn

definition isCancelledError :: "transfer_exn \<Rightarrow> bool" where
  "isCancelledError e = (case e of AbortException \<Rightarrow> True | Failed x \<Rightarrow> includes_text ''download cancelled'' (exn_message x))"

datatype 'a settling = Settles "transfer_exn + 'a" | TimesOut

definition timed_out :: transfer_exn where
  "timed_out = Failed (JsError ''peer download timed out'')"

definition withTimeout :: "'a settling \<Rightarrow> transfer_exn + 'a" where
  "withTimeout s = (case s of Settles r \<Rightarrow> r | TimesOut \<Rightarrow> Inl timed_out)"

section \<open>The node\<close>

type_synonym chunk = "nat \<times> bytes"

text \<open>The chunks delivered before the download's promise settled, and those that arrive while the code waits for more.\<close>

record stream_run =
  sr_chunks :: "chunk list"
  sr_tail :: "chunk list"
  sr_total :: "nat settling"

record blob_node =
  bn_bulk :: "(string \<Rightarrow> bytes settling) option"
  bn_stream :: "(string \<Rightarrow> stream_run) option"
  bn_proxy :: "(string \<Rightarrow> string \<Rightarrow> (nat \<times> jstext) settling) option"
  bn_cancel :: "(string \<Rightarrow> transfer_exn + bool) option"
  bn_cancel_by_blake3 :: "(string \<Rightarrow> transfer_exn + nat) option"
  bn_unprotect :: "(string \<Rightarrow> transfer_exn + unit) option"

record snatch_info =
  si_id :: "string option"
  si_blake3 :: string
  si_size :: nat
  si_mime :: "jsv option"

record snatch_options =
  sn_proxyPath :: "(string \<Rightarrow> string) option"
  sn_parse :: "(jstext \<Rightarrow> transfer_exn + (jstext \<times> jsv option) option) option"

record snatch_result =
  sr_bytes :: bytes
  sr_blake3 :: string
  sr_mime :: "jsv option"

datatype node_call = CallBulk string | CallStream string | CallProxy string | CallUnprotect string

section \<open>Chunks\<close>

definition received :: "chunk list \<Rightarrow> nat" where
  "received cs = sum_list (map (length \<circ> snd) cs)"

definition incomplete :: transfer_exn where
  "incomplete = Failed (JsError ''chunk stream incomplete'')"

text \<open>\<open>waitForBytesReceived\<close>: the chunks there are when it returns.\<close>

definition waitForBytesReceived :: "chunk list \<Rightarrow> chunk list \<Rightarrow> nat \<Rightarrow> transfer_exn + chunk list" where
  "waitForBytesReceived got tail len =
     (let cs = (if len \<le> received got then got else got @ tail)
      in if received cs < len then Inl incomplete else Inr cs)"

text \<open>\<open>Uint8Array.set\<close> throws when the data does not fit.\<close>

fun assemble :: "chunk list \<Rightarrow> bytes \<Rightarrow> transfer_exn + bytes" where
  "assemble [] buf = Inr buf"
| "assemble ((off, data) # cs) buf =
     (if length buf < off + length data then Inl (Failed (JsError ''offset is out of bounds''))
      else assemble cs (take off buf @ data @ drop (off + length data) buf))"

section \<open>The three strategies\<close>

definition bulk_download :: "blob_node \<Rightarrow> snatch_info \<Rightarrow> string \<Rightarrow> (transfer_exn + snatch_result) option" where
  "bulk_download N info p =
     map_option (\<lambda>f. map_sum id (\<lambda>b. \<lparr>sr_bytes = b, sr_blake3 = si_blake3 info, sr_mime = si_mime info\<rparr>) (withTimeout (f p)))
       (bn_bulk N)"

definition streamed_bytes :: "stream_run \<Rightarrow> transfer_exn + bytes" where
  "streamed_bytes s =
     (case withTimeout (sr_total s) of
        Inl e \<Rightarrow> Inl e
      | Inr len \<Rightarrow>
          (case waitForBytesReceived (sr_chunks s) (sr_tail s) len of
             Inl e \<Rightarrow> Inl e
           | Inr cs \<Rightarrow> assemble cs (replicate len 0)))"

definition streamed_download :: "blob_node \<Rightarrow> snatch_info \<Rightarrow> string \<Rightarrow> (transfer_exn + snatch_result) option" where
  "streamed_download N info p =
     map_option (\<lambda>f. map_sum id (\<lambda>b. \<lparr>sr_bytes = b, sr_blake3 = si_blake3 info, sr_mime = si_mime info\<rparr>) (streamed_bytes (f p)))
       (bn_stream N)"

definition parseFlatProxyResponse :: "jstext \<Rightarrow> transfer_exn + (jstext \<times> jsv option) option" where
  "parseFlatProxyResponse body =
     (case json_parse_text body of
        None \<Rightarrow> Inl (Failed (JsError ''not json''))
      | Some VNull \<Rightarrow> Inl (Failed (JsError ''cannot read properties of null''))
      | Some (VObj ms) \<Rightarrow> (case member (utext ''data'') ms of Some (VStr t) \<Rightarrow> Inr (Some (t, member (utext ''mime'') ms)) | _ \<Rightarrow> Inr None)
      | Some _ \<Rightarrow> Inr None)"

definition mime_or :: "jsv option \<Rightarrow> jsv option \<Rightarrow> jsv option" where
  "mime_or m d = (case m of None \<Rightarrow> d | Some VNull \<Rightarrow> d | Some v \<Rightarrow> Some v)"

definition hash_mismatch :: transfer_exn where
  "hash_mismatch = Failed (JsError ''snatch hash mismatch'')"

definition base64ProxyFallback :: "(bytes \<Rightarrow> string) \<Rightarrow> blob_node \<Rightarrow> snatch_options \<Rightarrow> snatch_info \<Rightarrow> string \<Rightarrow>
    transfer_exn + snatch_result option" where
  "base64ProxyFallback hash N opts info p =
     (case (bn_proxy N, sn_proxyPath opts) of
        (Some f, Some path) \<Rightarrow>
          (case withTimeout (f p (path (nullish_or (si_id info) (si_blake3 info)))) of
             Inl e \<Rightarrow> Inl e
           | Inr (status, body) \<Rightarrow>
               if status \<noteq> 200 then Inr None
               else (case nullish_or (sn_parse opts) parseFlatProxyResponse body of
                       Inl e \<Rightarrow> Inl e
                     | Inr None \<Rightarrow> Inr None
                     | Inr (Some (t, mime)) \<Rightarrow>
                         (case atob t of
                            None \<Rightarrow> Inl (Failed (JsError ''the string is not correctly encoded''))
                          | Some b \<Rightarrow>
                              if hash b \<noteq> si_blake3 info then Inl hash_mismatch
                              else Inr (Some \<lparr>sr_bytes = b, sr_blake3 = si_blake3 info, sr_mime = mime_or mime (si_mime info)\<rparr>))))
      | _ \<Rightarrow> Inr None)"

section \<open>One peer\<close>

text \<open>The third strategy, after the last failure of the first two.\<close>

definition last_resort :: "(bytes \<Rightarrow> string) \<Rightarrow> blob_node \<Rightarrow> snatch_options \<Rightarrow> snatch_info \<Rightarrow> string \<Rightarrow> transfer_exn option \<Rightarrow>
    node_call list \<times> (transfer_exn + snatch_result)" where
  "last_resort hash N opts info p lastError =
     (let attempted = (bn_proxy N \<noteq> None \<and> sn_proxyPath opts \<noteq> None) in
      (if attempted then [CallProxy p] else [],
       case base64ProxyFallback hash N opts info p of
         Inl e \<Rightarrow> Inl e
       | Inr (Some r) \<Rightarrow> Inr r
       | Inr None \<Rightarrow>
           Inl (case lastError of
                  Some e \<Rightarrow> e
                | None \<Rightarrow> Failed (JsError (if attempted then ''proxy fallback returned no blob'' else ''peer has no supported download strategy'')))))"

definition after_bulk :: "(bytes \<Rightarrow> string) \<Rightarrow> blob_node \<Rightarrow> snatch_options \<Rightarrow> snatch_info \<Rightarrow> string \<Rightarrow> transfer_exn option \<Rightarrow>
    node_call list \<times> (transfer_exn + snatch_result)" where
  "after_bulk hash N opts info p lastError =
     (case streamed_download N info p of
        None \<Rightarrow> last_resort hash N opts info p lastError
      | Some (Inr r) \<Rightarrow> ([CallStream p], Inr r)
      | Some (Inl e) \<Rightarrow>
          if isCancelledError e then ([CallStream p], Inl e)
          else (case last_resort hash N opts info p (Some e) of (cs, r) \<Rightarrow> (CallStream p # cs, r)))"

definition snatchFromPeer :: "(bytes \<Rightarrow> string) \<Rightarrow> blob_node \<Rightarrow> snatch_options \<Rightarrow> snatch_info \<Rightarrow> string \<Rightarrow>
    node_call list \<times> (transfer_exn + snatch_result)" where
  "snatchFromPeer hash N opts info p =
     (case bulk_download N info p of
        None \<Rightarrow> after_bulk hash N opts info p None
      | Some (Inr r) \<Rightarrow> ([CallBulk p], Inr r)
      | Some (Inl e) \<Rightarrow>
          if isCancelledError e then ([CallBulk p], Inl e)
          else (case after_bulk hash N opts info p (Some e) of (cs, r) \<Rightarrow> (CallBulk p # cs, r)))"

section \<open>All peers\<close>

definition empty_payload :: transfer_exn where
  "empty_payload = Failed (JsError ''snatch returned 0 bytes - refusing empty payload'')"

definition no_peers :: transfer_exn where
  "no_peers = Failed (JsError ''no peers available for snatch'')"

definition exhausted :: transfer_exn where
  "exhausted = Failed (JsError ''snatch failed: all peers exhausted'')"

definition refuse_empty :: "transfer_exn + snatch_result \<Rightarrow> transfer_exn + snatch_result" where
  "refuse_empty r = (case r of Inr x \<Rightarrow> if sr_bytes x = [] then Inl empty_payload else Inr x | Inl e \<Rightarrow> Inl e)"

text \<open>\<open>aborted i\<close>: the caller's signal is set when the loop gets to the i-th peer.\<close>

fun snatch_loop :: "(bytes \<Rightarrow> string) \<Rightarrow> blob_node \<Rightarrow> snatch_options \<Rightarrow> snatch_info \<Rightarrow> (nat \<Rightarrow> bool) \<Rightarrow> nat \<Rightarrow> transfer_exn option \<Rightarrow>
    string list \<Rightarrow> node_call list \<times> (transfer_exn + snatch_result)" where
  "snatch_loop hash N opts info aborted i lastError [] = ([], Inl (nullish_or lastError exhausted))"
| "snatch_loop hash N opts info aborted i lastError (p # ps) =
     (if aborted i then ([], Inl AbortException)
      else case snatchFromPeer hash N opts info p of
        (cs, r) \<Rightarrow>
          (case refuse_empty r of
             Inr x \<Rightarrow> (cs, Inr x)
           | Inl e \<Rightarrow>
               if isCancelledError e then (cs, Inl e)
               else (case snatch_loop hash N opts info aborted (Suc i) (Some e) ps of (cs', r') \<Rightarrow> (cs @ cs', r'))))"

definition snatchBlob :: "(bytes \<Rightarrow> string) \<Rightarrow> blob_node \<Rightarrow> string list \<Rightarrow> snatch_info \<Rightarrow> snatch_options \<Rightarrow> (nat \<Rightarrow> bool) \<Rightarrow>
    node_call list \<times> (transfer_exn + snatch_result)" where
  "snatchBlob hash N peers info opts aborted =
     (if peers = [] then ([], Inl no_peers) else snatch_loop hash N opts info aborted 0 None peers)"

section \<open>Pausing and discarding\<close>

definition pauseSnatchDownload :: "blob_node \<Rightarrow> string \<Rightarrow> transfer_exn + bool" where
  "pauseSnatchDownload N i = (case bn_cancel N of None \<Rightarrow> Inr False | Some f \<Rightarrow> f i)"

definition pauseSnatchDownloadByBlake3 :: "blob_node \<Rightarrow> string \<Rightarrow> transfer_exn + bool" where
  "pauseSnatchDownloadByBlake3 N b = (case bn_cancel_by_blake3 N of None \<Rightarrow> Inr False | Some f \<Rightarrow> map_sum id (\<lambda>n. 0 < n) (f b))"

text \<open>What it throws is logged and dropped; the answer is the calls it makes.\<close>

definition discardPausedDownload :: "blob_node \<Rightarrow> string \<Rightarrow> node_call list" where
  "discardPausedDownload N b = (case bn_unprotect N of None \<Rightarrow> [] | Some _ \<Rightarrow> [CallUnprotect b])"

section \<open>To disk, through memory\<close>

record disk_result =
  dr_size :: nat
  dr_blake3 :: string
  dr_mime :: "jsv option"

text \<open>
  The node has no streaming method. \<open>aborted (2 * i)\<close> is the signal at the i-th peer, \<open>aborted (2 * i + 1)\<close> after its
  download; \<open>wr\<close> and \<open>cl\<close> are what writing and closing throw. The answer holds the file.
\<close>

fun buffered_loop :: "(bytes \<Rightarrow> string) \<Rightarrow> blob_node \<Rightarrow> snatch_options \<Rightarrow> snatch_info \<Rightarrow> (nat \<Rightarrow> bool) \<Rightarrow> transfer_exn option \<Rightarrow>
    transfer_exn option \<Rightarrow> nat \<Rightarrow> transfer_exn option \<Rightarrow> string list \<Rightarrow> bytes \<times> (transfer_exn + disk_result)" where
  "buffered_loop hash N opts info aborted wr cl i lastError [] = ([], Inl (nullish_or lastError exhausted))"
| "buffered_loop hash N opts info aborted wr cl i lastError (p # ps) =
     (if aborted (2 * i) then ([], Inl AbortException)
      else case refuse_empty (snd (snatchFromPeer hash N opts info p)) of
        Inl e \<Rightarrow>
          if isCancelledError e then ([], Inl e)
          else buffered_loop hash N opts info aborted wr cl (Suc i) (Some e) ps
      | Inr x \<Rightarrow>
          if aborted (2 * i + 1) then ([], Inl AbortException)
          else (case (wr, cl) of
                  (Some e, _) \<Rightarrow> ([], Inl e)
                | (None, Some e) \<Rightarrow> (sr_bytes x, Inl e)
                | (None, None) \<Rightarrow>
                    (sr_bytes x, Inr \<lparr>dr_size = length (sr_bytes x), dr_blake3 = sr_blake3 x, dr_mime = sr_mime x\<rparr>)))"

end
