(* ===== verification/SnatchDisk.thy ===== *)
theory SnatchDisk
  imports Snatch
begin

text \<open>
  \<open>snatchBlobToDisk\<close> with a streaming node, and \<open>streamToWritable\<close>: every chunk is queued as a write at its offset.
  An attempt that timed out or failed is not told, so it may deliver chunks while later peers are tried; the model
  keeps every attempt with its queue of writes, and events of all of them interleave. A write takes effect when it
  settles.
\<close>

section \<open>State\<close>

definition TAIL_CHUNK_WAIT_DEADLINE_MS :: int where
  "TAIL_CHUNK_WAIT_DEADLINE_MS = 30000"

record attempt =
  at_received :: nat
  at_chunks :: "chunk list"        \<comment> \<open>queued so far, in order\<close>
  at_done :: nat                   \<comment> \<open>how many of them the chain is through with\<close>
  at_writeError :: "transfer_exn option"

definition new_attempt :: attempt where
  "new_attempt = \<lparr>at_received = 0, at_chunks = [], at_done = 0, at_writeError = None\<rparr>"

datatype disk_phase =
    Downloading
  | AwaitingTail nat int
  | Draining nat nat
  | ClosingDisk nat
  | Truncating
  | DiskDone "transfer_exn + disk_result"

record disk_state =
  dk_peers :: "string list"
  dk_phase :: disk_phase
  dk_attempts :: "attempt list"
  dk_file :: bytes
  dk_closed :: bool
  dk_lastError :: "transfer_exn option"
  dk_aborted :: bool
  dk_now :: int

abbreviation current :: "disk_state \<Rightarrow> attempt" where
  "current s \<equiv> last (dk_attempts s)"

section \<open>Steps\<close>

text \<open>\<open>writable.write\<close> at a position: a gap is filled with zeros.\<close>

definition write_at :: "nat \<Rightarrow> bytes \<Rightarrow> bytes \<Rightarrow> bytes" where
  "write_at off data f = take off f @ replicate (off - length f) 0 @ data @ drop (off + length data) f"

definition next_peer :: "disk_state \<Rightarrow> disk_state" where
  "next_peer s =
     (case dk_peers s of
        [] \<Rightarrow> s\<lparr>dk_phase := DiskDone (Inl (nullish_or (dk_lastError s) exhausted))\<rparr>
      | p # ps \<Rightarrow>
          if dk_aborted s then s\<lparr>dk_phase := DiskDone (Inl AbortException)\<rparr>
          else s\<lparr>dk_peers := ps, dk_attempts := dk_attempts s @ [new_attempt], dk_phase := Downloading\<rparr>)"

definition snatchBlobToDisk :: "string list \<Rightarrow> bytes \<Rightarrow> disk_state" where
  "snatchBlobToDisk peers f =
     (let s = \<lparr>dk_peers = peers, dk_phase = DiskDone (Inl no_peers), dk_attempts = [], dk_file = f, dk_closed = False,
               dk_lastError = None, dk_aborted = False, dk_now = 0\<rparr>
      in if peers = [] then s else next_peer s)"

text \<open>The \<open>catch\<close> block of the loop.\<close>

definition peer_failed :: "transfer_exn \<Rightarrow> disk_state \<Rightarrow> disk_state" where
  "peer_failed e s =
     (if isCancelledError e then s\<lparr>dk_phase := DiskDone (Inl e)\<rparr> else s\<lparr>dk_lastError := Some e, dk_phase := Truncating\<rparr>)"

definition onChunk :: "chunk \<Rightarrow> attempt \<Rightarrow> attempt" where
  "onChunk c a =
     (let a' = a\<lparr>at_received := at_received a + length (snd c)\<rparr>
      in if at_writeError a = None then a'\<lparr>at_chunks := at_chunks a @ [c]\<rparr> else a')"

definition write_closed :: transfer_exn where
  "write_closed = Failed (JsThrown ''TypeError: the stream is closed'')"

text \<open>The next queued write of an attempt settles.\<close>

definition chain_step :: "nat \<Rightarrow> transfer_exn option \<Rightarrow> disk_state \<Rightarrow> disk_state" where
  "chain_step i res s =
     (let a = dk_attempts s ! i; a' = a\<lparr>at_done := Suc (at_done a)\<rparr> in
      if length (dk_attempts s) \<le> i \<or> length (at_chunks a) \<le> at_done a then s
      else if at_writeError a \<noteq> None then s\<lparr>dk_attempts := (dk_attempts s)[i := a']\<rparr>
      else (case (if dk_closed s then Some write_closed else res) of
              Some e \<Rightarrow> s\<lparr>dk_attempts := (dk_attempts s)[i := a'\<lparr>at_writeError := Some e\<rparr>]\<rparr>
            | None \<Rightarrow> (case at_chunks a ! at_done a of (off, data) \<Rightarrow>
                s\<lparr>dk_attempts := (dk_attempts s)[i := a'], dk_file := write_at off data (dk_file s)\<rparr>)))"

definition all_received :: "nat \<Rightarrow> disk_state \<Rightarrow> disk_state" where
  "all_received len s = s\<lparr>dk_phase := Draining len (length (at_chunks (current s)))\<rparr>"

datatype disk_event =
    DkChunk nat chunk
  | DkWrite nat "transfer_exn option"
  | DkRpc "nat settling"
  | DkPoll
  | DkDrained
  | DkClosed "transfer_exn option"
  | DkTruncated "transfer_exn option"
  | DkAbort
  | DkTick nat

fun disk_step :: "snatch_info \<Rightarrow> disk_event \<Rightarrow> disk_state \<Rightarrow> disk_state" where
  "disk_step info (DkChunk i c) s =
     (if i < length (dk_attempts s) then s\<lparr>dk_attempts := (dk_attempts s)[i := onChunk c (dk_attempts s ! i)]\<rparr> else s)"
| "disk_step info (DkWrite i res) s = chain_step i res s"
| "disk_step info (DkRpc r) s =
     (if dk_phase s = Downloading
      then (case withTimeout r of
              Inl e \<Rightarrow> peer_failed e s
            | Inr len \<Rightarrow>
                if len \<le> at_received (current s) then all_received len s
                else s\<lparr>dk_phase := AwaitingTail len (dk_now s + TAIL_CHUNK_WAIT_DEADLINE_MS)\<rparr>)
      else s)"
| "disk_step info DkPoll s =
     (case dk_phase s of
        AwaitingTail len deadline \<Rightarrow>
          if len \<le> at_received (current s) then all_received len s
          else if deadline \<le> dk_now s then peer_failed incomplete s else s
      | _ \<Rightarrow> s)"
| "disk_step info DkDrained s =
     (case dk_phase s of
        Draining len n \<Rightarrow>
          if n \<le> at_done (current s)
          then (case at_writeError (current s) of
                  Some e \<Rightarrow> peer_failed e s
                | None \<Rightarrow> if len = 0 then peer_failed empty_payload s else s\<lparr>dk_phase := ClosingDisk len\<rparr>)
          else s
      | _ \<Rightarrow> s)"
| "disk_step info (DkClosed res) s =
     (case dk_phase s of
        ClosingDisk len \<Rightarrow>
          (case res of
             Some e \<Rightarrow> peer_failed e s
           | None \<Rightarrow> s\<lparr>dk_closed := True,
               dk_phase := DiskDone (Inr \<lparr>dr_size = len, dr_blake3 = si_blake3 info, dr_mime = si_mime info\<rparr>)\<rparr>)
      | _ \<Rightarrow> s)"
| "disk_step info (DkTruncated res) s =
     (case dk_phase s of
        Truncating \<Rightarrow> (case res of Some e \<Rightarrow> s\<lparr>dk_phase := DiskDone (Inl e)\<rparr> | None \<Rightarrow> next_peer (s\<lparr>dk_file := []\<rparr>))
      | _ \<Rightarrow> s)"
| "disk_step info DkAbort s = s\<lparr>dk_aborted := True\<rparr>"
| "disk_step info (DkTick d) s = s\<lparr>dk_now := dk_now s + int d\<rparr>"

section \<open>Chunks of one content\<close>

definition span :: "chunk \<Rightarrow> nat set" where
  "span c = {fst c ..< fst c + length (snd c)}"

lemma span_iff: "j \<in> span (off, data) \<longleftrightarrow> off \<le> j \<and> j < off + length data"
  by (simp add: span_def)

lemma span_finite [simp]: "finite (span c)" "card (span c) = length (snd c)"
  by (simp_all add: span_def)

fun disjoint_chunks :: "chunk list \<Rightarrow> bool" where
  "disjoint_chunks [] = True"
| "disjoint_chunks (c # cs) = ((\<forall>c' \<in> set cs. span c \<inter> span c' = {}) \<and> disjoint_chunks cs)"

definition slice_of :: "bytes \<Rightarrow> chunk \<Rightarrow> bool" where
  "slice_of d c = (fst c + length (snd c) \<le> length d \<and> take (length (snd c)) (drop (fst c) d) = snd c)"

text \<open>
  What the transport promises of a download of content d: every chunk is checked against the hash, so it is a slice of
  d, no byte comes twice in one download, and the promise resolves with the length of d.
\<close>

fun verified_event :: "bytes \<Rightarrow> disk_state \<Rightarrow> disk_event \<Rightarrow> bool" where
  "verified_event d s (DkChunk i c) =
     (slice_of d c \<and> (i < length (dk_attempts s) \<longrightarrow> disjoint_chunks (at_chunks (dk_attempts s ! i) @ [c])))"
| "verified_event d s (DkRpc (Settles (Inr len))) = (len = length d)"
| "verified_event d s _ = True"

inductive disk_reach :: "snatch_info \<Rightarrow> bytes \<Rightarrow> string list \<Rightarrow> disk_state \<Rightarrow> bool" for info d peers where
  start: "disk_reach info d peers (snatchBlobToDisk peers [])"
| event: "disk_reach info d peers s \<Longrightarrow> verified_event d s ev \<Longrightarrow> disk_reach info d peers (disk_step info ev s)"

lemma received_simps [simp]: "received [] = 0" "received (c # cs) = length (snd c) + received cs" "received (xs @ ys) = received xs + received ys"
  by (simp_all add: received_def)

lemma received_card: "disjoint_chunks cs \<Longrightarrow> card (\<Union> (span ` set cs)) = received cs"
proof (induction cs)
  case (Cons c cs)
  have "span c \<inter> \<Union> (span ` set cs) = {}" using Cons.prems by auto
  then have "card (span c \<union> \<Union> (span ` set cs)) = card (span c) + card (\<Union> (span ` set cs))"
    by (intro card_Un_disjoint) simp_all
  with Cons show ?case by simp
qed simp

text \<open>Disjoint slices of d that are as long as d together are all of d.\<close>

lemma slices_cover:
  assumes "disjoint_chunks cs" "\<And>c. c \<in> set cs \<Longrightarrow> slice_of d c" "length d \<le> received cs" "j < length d"
  shows "\<exists>c \<in> set cs. j \<in> span c"
proof -
  have sub: "\<Union> (span ` set cs) \<subseteq> {..< length d}" using assms(2) by (fastforce simp: slice_of_def span_def)
  have "card {..< length d} \<le> card (\<Union> (span ` set cs))" using assms(1,3) by (simp add: received_card)
  then have "\<Union> (span ` set cs) = {..< length d}" using sub by (intro card_seteq) auto
  then have "j \<in> \<Union> (span ` set cs)" using assms(4) by simp
  then show ?thesis by blast
qed

text \<open>A byte of the file is good when it is the content's.\<close>

definition good_at :: "bytes \<Rightarrow> bytes \<Rightarrow> nat \<Rightarrow> bool" where
  "good_at d f j = (j < length f \<and> f ! j = d ! j)"

lemma write_at_nth:
  assumes "j < length (write_at off data f)"
  shows "write_at off data f ! j = (if j \<in> span (off, data) then data ! (j - off) else if j < length f then f ! j else 0)"
proof -
  let ?pre = "take off f @ replicate (off - length f) 0"
  have l: "length ?pre = off" by simp
  have e: "write_at off data f = ?pre @ data @ drop (off + length data) f" by (simp add: write_at_def)
  consider "j < off" | "off \<le> j" "j < off + length data" | "off + length data \<le> j" by linarith
  then show ?thesis
  proof cases
    case 1
    then have "write_at off data f ! j = ?pre ! j" unfolding e by (metis l nth_append)
    with 1 show ?thesis by (auto simp: span_iff nth_append)
  next
    case 2
    then have "write_at off data f ! j = (data @ drop (off + length data) f) ! (j - off)" unfolding e by (metis l nth_append linorder_not_le)
    with 2 show ?thesis by (auto simp: span_iff nth_append)
  next
    case 3
    then have "write_at off data f ! j = (data @ drop (off + length data) f) ! (j - off)" unfolding e by (metis l nth_append linorder_not_le le_add1 order.trans)
    with 3 assms show ?thesis by (auto simp: span_iff nth_append write_at_def)
  qed
qed

lemma write_at_length: "length (write_at off data f) = max (length f) (off + length data)"
  by (auto simp: write_at_def)

lemma slice_nth:
  assumes "slice_of d (off, data)" "j \<in> span (off, data)"
  shows "data ! (j - off) = d ! j"
proof -
  have t: "take (length data) (drop off d) = data" and l: "off + length data \<le> length d" using assms(1) by (auto simp: slice_of_def)
  have "data ! (j - off) = take (length data) (drop off d) ! (j - off)" by (simp add: t)
  also have "\<dots> = drop off d ! (j - off)" using assms(2) by (intro nth_take) (auto simp: span_iff)
  also have "\<dots> = d ! j" using assms(2) l by (simp add: span_iff)
  finally show ?thesis .
qed

lemma write_slice:
  assumes "slice_of d (off, data)"
  shows "good_at d f j \<or> j \<in> span (off, data) \<Longrightarrow> good_at d (write_at off data f) j"
  using slice_nth [OF assms, of j] by (auto simp: good_at_def write_at_length write_at_nth span_iff)

lemma write_slice_length: "slice_of d (off, data) \<Longrightarrow> length f \<le> length d \<Longrightarrow> length (write_at off data f) \<le> length d"
  by (simp add: slice_of_def write_at_length)

lemma all_good: "length f \<le> length d \<Longrightarrow> (\<And>j. j < length d \<Longrightarrow> good_at d f j) \<Longrightarrow> f = d"
  by (rule nth_equalityI) (auto simp: good_at_def not_le [symmetric] intro: le_antisym leI)

section \<open>The invariant\<close>

definition attempt_ok :: "bytes \<Rightarrow> attempt \<Rightarrow> bool" where
  "attempt_ok d a =
     ((\<forall>c \<in> set (at_chunks a). slice_of d c) \<and> at_done a \<le> length (at_chunks a) \<and> disjoint_chunks (at_chunks a)
      \<and> (at_writeError a = None \<longrightarrow> at_received a = received (at_chunks a)))"

definition written :: "bytes \<Rightarrow> bytes \<Rightarrow> attempt \<Rightarrow> bool" where
  "written d f a = (at_writeError a = None \<longrightarrow> (\<forall>c \<in> set (take (at_done a) (at_chunks a)). \<forall>j \<in> span c. good_at d f j))"

text \<open>What the phase says of the file and of the attempt under way.\<close>

fun phase_ok :: "bytes \<Rightarrow> bytes \<Rightarrow> attempt \<Rightarrow> disk_phase \<Rightarrow> bool" where
  "phase_ok d f a Downloading = written d f a"
| "phase_ok d f a (AwaitingTail len _) = (len = length d \<and> written d f a)"
| "phase_ok d f a (Draining len n) =
     (len = length d \<and> written d f a \<and> n \<le> length (at_chunks a) \<and> (at_writeError a = None \<longrightarrow> length d \<le> received (take n (at_chunks a))))"
| "phase_ok d f a (ClosingDisk len) = (len = length d \<and> len \<noteq> 0 \<and> f = d)"
| "phase_ok d f a Truncating = True"
| "phase_ok d f a (DiskDone (Inl e)) = True"
| "phase_ok d f a (DiskDone (Inr r)) = (dr_size r = length d \<and> length d \<noteq> 0 \<and> f = d)"

definition under_way :: "disk_phase \<Rightarrow> bool" where
  "under_way ph = (case ph of Downloading \<Rightarrow> True | AwaitingTail _ _ \<Rightarrow> True | Draining _ _ \<Rightarrow> True | _ \<Rightarrow> False)"

definition disk_inv :: "bytes \<Rightarrow> disk_state \<Rightarrow> bool" where
  "disk_inv d s =
     (length (dk_file s) \<le> length d \<and> (\<forall>a \<in> set (dk_attempts s). attempt_ok d a) \<and> (under_way (dk_phase s) \<longrightarrow> dk_attempts s \<noteq> [])
      \<and> phase_ok d (dk_file s) (current s) (dk_phase s))"

lemma disjoint_snoc_left: "disjoint_chunks (xs @ ys) \<Longrightarrow> disjoint_chunks xs"
  by (induction xs) auto

lemma attempt_chunk:
  assumes "attempt_ok d a" "slice_of d c" "disjoint_chunks (at_chunks a @ [c])"
  shows "attempt_ok d (onChunk c a)"
  using assms by (auto simp: attempt_ok_def onChunk_def Let_def)

lemma phase_chunk:
  assumes "attempt_ok d a" "phase_ok d f a ph"
  shows "phase_ok d f (onChunk c a) ph"
proof -
  have "written d f a \<Longrightarrow> written d f (onChunk c a)"
    using assms(1) by (auto simp: written_def onChunk_def attempt_ok_def Let_def)
  then show ?thesis using assms(2) by (cases "(d, f, onChunk c a, ph)" rule: phase_ok.cases) (auto simp: onChunk_def Let_def)
qed

lemma current_update: "i < length xs \<Longrightarrow> last (xs[i := y]) = (if Suc i = length xs then y else last xs)"
  by (cases xs rule: rev_cases) (auto simp: list_update_append)

text \<open>A write of a slice does no harm to what is there.\<close>

lemma full_file: "slice_of d (off, data) \<Longrightarrow> write_at off data d = d"
  by (rule all_good [symmetric, THEN sym]) (auto intro: write_slice_length write_slice simp: good_at_def [of d d])

lemma phase_write:
  assumes "slice_of d (off, data)" "phase_ok d f a ph"
  shows "phase_ok d (write_at off data f) a ph"
proof -
  have "written d f a \<Longrightarrow> written d (write_at off data f) a"
    using write_slice [OF assms(1)] by (auto simp: written_def)
  then show ?thesis using assms by (cases "(d, f, a, ph)" rule: phase_ok.cases) (auto simp: full_file)
qed

lemma phase_done:
  assumes "slice_of d (off, data)" "at_done a < length (at_chunks a)" "at_chunks a ! at_done a = (off, data)" "phase_ok d f a ph"
  shows "phase_ok d (write_at off data f) (a\<lparr>at_done := Suc (at_done a)\<rparr>) ph"
proof -
  have "written d f a \<Longrightarrow> written d (write_at off data f) (a\<lparr>at_done := Suc (at_done a)\<rparr>)"
    using write_slice [OF assms(1)] assms(2,3) by (auto simp: written_def take_Suc_conv_app_nth)
  then show ?thesis using assms by (cases "(d, f, a, ph)" rule: phase_ok.cases) (auto simp: full_file)
qed

lemma phase_error:
  assumes "at_writeError a' \<noteq> None" "at_chunks a' = at_chunks a" "phase_ok d f a ph"
  shows "phase_ok d f a' ph"
  using assms by (cases "(d, f, a, ph)" rule: phase_ok.cases) (auto simp: written_def)

lemma chain_step_inv:
  assumes "disk_inv d s"
  shows "disk_inv d (chain_step i res s)"
proof (cases "i < length (dk_attempts s) \<and> at_done (dk_attempts s ! i) < length (at_chunks (dk_attempts s ! i))")
  case False
  then show ?thesis using assms by (auto simp: chain_step_def Let_def)
next
  case True
  let ?a = "dk_attempts s ! i"
  let ?a' = "?a\<lparr>at_done := Suc (at_done ?a)\<rparr>"
  have ok: "attempt_ok d ?a" "\<And>a. a \<in> set (dk_attempts s) \<Longrightarrow> attempt_ok d a" using assms True by (auto simp: disk_inv_def)
  have ok': "attempt_ok d (?a'\<lparr>at_writeError := e\<rparr>)" if "e = at_writeError ?a \<or> e \<noteq> None" for e
    using ok(1) True that by (auto simp: attempt_ok_def)
  have okd: "attempt_ok d ?a'" using ok(1) True by (auto simp: attempt_ok_def)
  have upd: "\<forall>a \<in> set ((dk_attempts s)[i := a0]). attempt_ok d a" if "attempt_ok d a0" for a0
    using ok(2) that by (auto dest!: set_update_subset_insert [THEN subsetD])
  have cur: "current s = ?a" if "Suc i = length (dk_attempts s)" using that by (simp add: last_conv_nth [symmetric] flip: that)
      (metis diff_Suc_1 last_conv_nth length_0_conv nat.simps(3) that)
  show ?thesis
  proof (cases "at_writeError ?a = None \<and> \<not> dk_closed s \<and> res = None")
    case written: True
    obtain off data where c: "at_chunks ?a ! at_done ?a = (off, data)" by fastforce
    have sl: "slice_of d (off, data)" using ok(1) True c by (metis attempt_ok_def nth_mem)
    have "phase_ok d (write_at off data (dk_file s)) (if Suc i = length (dk_attempts s) then ?a' else current s) (dk_phase s)"
      using phase_done [OF sl _ c] phase_write [OF sl] True assms cur by (auto simp: disk_inv_def)
    then show ?thesis
      using assms True written c upd [OF okd] write_slice_length [OF sl]
      by (auto simp: chain_step_def Let_def disk_inv_def current_update)
  next
    case False
    have err: "phase_ok d (dk_file s) (if Suc i = length (dk_attempts s) then a0 else current s) (dk_phase s)"
      if "at_writeError a0 \<noteq> None" "at_chunks a0 = at_chunks ?a" for a0
      using phase_error [OF that] assms cur by (auto simp: disk_inv_def)
    show ?thesis
    proof (cases "at_writeError ?a")
      case (Some e)
      with True assms err [of ?a'] upd [OF okd] show ?thesis
        by (auto simp: chain_step_def Let_def disk_inv_def current_update)
    next
      case None
      then obtain e where e: "(if dk_closed s then Some write_closed else res) = Some e" using False by (cases "dk_closed s"; cases res) auto
      with None True assms err [of "?a'\<lparr>at_writeError := Some e\<rparr>"] upd [OF ok' [of "Some e"]] show ?thesis
        by (auto simp: chain_step_def Let_def disk_inv_def current_update)
    qed
  qed
qed

end
