(* ===== verification/SnatchClaims.thy ===== *)
theory SnatchClaims
  imports SnatchDisk
begin

text \<open>What fetching a blob promises, into memory and to disk.\<close>

section \<open>To disk\<close>





section \<open>Into memory\<close>








text \<open>What the loop makes of one peer.\<close>

definition outcome :: "(bytes \<Rightarrow> string) \<Rightarrow> blob_node \<Rightarrow> snatch_options \<Rightarrow> snatch_info \<Rightarrow> string \<Rightarrow> transfer_exn + snatch_result" where
  "outcome hash N opts info p = refuse_empty (snd (snatchFromPeer hash N opts info p))"

lemma loop_succeeds:
  "snatch_loop hash N opts info aborted i e peers = (cs, Inr x) \<longleftrightarrow>
     (\<exists>ps p qs. peers = ps @ p # qs \<and> (\<forall>k \<le> length ps. \<not> aborted (i + k))
        \<and> (\<forall>q \<in> set ps. \<exists>e. outcome hash N opts info q = Inl e \<and> \<not> isCancelledError e)
        \<and> outcome hash N opts info p = Inr x \<and> cs = concat (map (fst \<circ> snatchFromPeer hash N opts info) (ps @ [p])))"
  (is "_ \<longleftrightarrow> ?R i peers cs")
proof (induction peers arbitrary: i e cs)
  case (Cons p ps)
  obtain c r where r: "snatchFromPeer hash N opts info p = (c, r)" by fastforce
  then have o: "outcome hash N opts info p = refuse_empty r" by (simp add: outcome_def)
  show ?case
  proof (cases "aborted i")
    case True
    then have "\<not> ?R i (p # ps) cs" by (metis add.right_neutral zero_le)
    with True show ?thesis by simp
  next
    case False
    show ?thesis
    proof (cases "refuse_empty r")
      case (Inr y)
      have "?R i (p # ps) cs \<longleftrightarrow> y = x \<and> cs = c"
      proof
        assume "?R i (p # ps) cs"
        then obtain ps' p' qs where w: "p # ps = ps' @ p' # qs" "\<forall>q \<in> set ps'. \<exists>e. outcome hash N opts info q = Inl e \<and> \<not> isCancelledError e"
          "outcome hash N opts info p' = Inr x" "cs = concat (map (fst \<circ> snatchFromPeer hash N opts info) (ps' @ [p']))"
          by blast
        then show "y = x \<and> cs = c" using Inr o r by (cases ps') auto
      next
        assume "y = x \<and> cs = c"
        then show "?R i (p # ps) cs" using Inr o r False by - (rule exI [of _ "[]"], rule exI [of _ p], rule exI [of _ ps], simp)
      qed
      then show ?thesis using False Inr r by auto
    next
      case (Inl f)
      show ?thesis
      proof (cases "isCancelledError f")
        case True
        then have "\<not> ?R i (p # ps) cs" using Inl o by (metis Cons_eq_append_conv Inl_Inr_False list.inject list.set_intros(1) sum.inject(1))
        then show ?thesis using False Inl r True by simp
      next
        case nc: False
        have "?R i (p # ps) cs \<longleftrightarrow> (\<exists>cs'. cs = c @ cs' \<and> ?R (Suc i) ps cs')"
        proof
          assume "?R i (p # ps) cs"
          then obtain ps' p' qs where w: "p # ps = ps' @ p' # qs" "\<forall>k \<le> length ps'. \<not> aborted (i + k)"
            "\<forall>q \<in> set ps'. \<exists>e. outcome hash N opts info q = Inl e \<and> \<not> isCancelledError e"
            "outcome hash N opts info p' = Inr x" "cs = concat (map (fst \<circ> snatchFromPeer hash N opts info) (ps' @ [p']))"
            by blast
          then obtain ps'' where "ps' = p # ps''" using Inl o by (cases ps') auto
          moreover have "\<not> aborted (Suc i + k)" if "k \<le> length ps''" for k
            using w(2) \<open>ps' = p # ps''\<close> that by (auto dest: spec [of _ "Suc k"])
          ultimately show "\<exists>cs'. cs = c @ cs' \<and> ?R (Suc i) ps cs'"
            using w(1,3,4,5) r by - (rule exI [of _ "concat (map (fst \<circ> snatchFromPeer hash N opts info) (ps'' @ [p']))"], intro conjI, simp,
               rule exI [of _ ps''], rule exI [of _ p'], rule exI [of _ qs], auto simp: comp_def)
        next
          assume "\<exists>cs'. cs = c @ cs' \<and> ?R (Suc i) ps cs'"
          then obtain ps' p' qs where w: "ps = ps' @ p' # qs" "\<forall>k \<le> length ps'. \<not> aborted (Suc i + k)"
            "\<forall>q \<in> set ps'. \<exists>e. outcome hash N opts info q = Inl e \<and> \<not> isCancelledError e"
            "outcome hash N opts info p' = Inr x" "cs = c @ concat (map (fst \<circ> snatchFromPeer hash N opts info) (ps' @ [p']))"
            by blast
          moreover have "\<not> aborted (i + k)" if "k \<le> Suc (length ps')" for k
            using that w(2) False by (cases k) auto
          ultimately show "?R i (p # ps) cs"
            using r o Inl nc by - (rule exI [of _ "p # ps'"], rule exI [of _ p'], rule exI [of _ qs], auto simp: comp_def)
        qed
        moreover have "snatch_loop hash N opts info aborted i e (p # ps) = (cs, Inr x) \<longleftrightarrow>
            (\<exists>cs'. cs = c @ cs' \<and> snatch_loop hash N opts info aborted (Suc i) (Some f) ps = (cs', Inr x))"
          using False Inl nc r by (auto split: prod.split)
        ultimately show ?thesis unfolding Cons.IH by blast
      qed
    qed
  qed
qed simp



section \<open>Claims\<close>



text \<open>
  Peers are tried in the order given. A fetch succeeds exactly when the signal is not set up to the first peer that
  serves the blob and no peer before it failed by cancellation; peers after it are not called.
\<close>

theorem sn_order:
  "snatchBlob hash N peers info opts aborted = (cs, Inr x) \<longleftrightarrow>
     (\<exists>ps p qs. peers = ps @ p # qs \<and> (\<forall>k \<le> length ps. \<not> aborted k)
        \<and> (\<forall>q \<in> set ps. \<exists>e. outcome hash N opts info q = Inl e \<and> \<not> isCancelledError e)
        \<and> outcome hash N opts info p = Inr x \<and> cs = concat (map (fst \<circ> snatchFromPeer hash N opts info) (ps @ [p])))"
  using loop_succeeds [of hash N opts info aborted 0 None peers cs x] by (cases "peers = []") (simp_all add: snatchBlob_def)

section \<open>Witnesses\<close>

definition demo_info :: snatch_info where
  "demo_info = \<lparr>si_id = None, si_blake3 = ''ab'', si_size = 2, si_mime = None\<rparr>"





text \<open>A node that can only proxy, for a hash that keeps the bytes.\<close>

definition proxy_node :: blob_node where
  "proxy_node = \<lparr>bn_bulk = None, bn_stream = None,
     bn_proxy = Some (\<lambda>p path. if p = ''q'' then Settles (Inr (200, utext ''{ data : aGk= }'')) else TimesOut),
     bn_cancel = None, bn_cancel_by_blake3 = None, bn_unprotect = None\<rparr>"

definition proxy_options :: snatch_options where
  "proxy_options = \<lparr>sn_proxyPath = Some (\<lambda>i. ''/blob/'' @ i), sn_parse = Some (\<lambda>body. Inr (Some (utext ''aGk='', None)))\<rparr>"

definition demo_sum :: "bytes \<Rightarrow> string" where
  "demo_sum b = (if b = [104, 105] then ''ab'' else '''')"

definition demo_fetch :: "node_call list \<times> (transfer_exn + snatch_result)" where
  "demo_fetch = snatchBlob demo_sum proxy_node [''p'', ''q'', ''r''] demo_info proxy_options (\<lambda>i. False)"

lemma demo_fetch_ok: "demo_fetch = ([CallProxy ''p'', CallProxy ''q''], Inr \<lparr>sr_bytes = [104, 105], sr_blake3 = ''ab'', sr_mime = None\<rparr>)"
  unfolding demo_fetch_def by code_simp


lemma sn_order_witness:
  "\<exists>ps p qs. [''p'', ''q'', ''r''] = ps @ p # qs \<and> outcome demo_sum proxy_node proxy_options demo_info p
     = Inr \<lparr>sr_bytes = [104, 105], sr_blake3 = ''ab'', sr_mime = None\<rparr>"
  using sn_order [THEN iffD1, OF demo_fetch_ok [unfolded demo_fetch_def]] by blast

end
