(* ===== verification/IrohAdapter.thy ===== *)
theory IrohAdapter
  imports Prelude "HOL-Library.AList"
begin

text \<open>
  The network adapter under the document sync, \<open>reliquary/ts/src/automerge/iroh-network-adapter.ts\<close> with the shapes
  of \<open>types.ts\<close>: streams to peers, their read loops, the accept loop, dialling and reconnecting. Every method and
  every continuation of an await or a timer is one step; what is waited for is a list of tasks, which settle in any
  order. A reconnect timer is known by its place in that list. Streams and nodes are numbers; messages are what the
  codec makes of them (\<open>'m\<close>). Listeners and the repository's event handlers are logged: they are taken not to call
  back into the adapter and not to throw.
\<close>

section \<open>Constants\<close>

definition RECONNECT_BASE_DELAY_MS :: nat where
  "RECONNECT_BASE_DELAY_MS = 1000"

definition RECONNECT_MAX_DELAY_MS :: nat where
  "RECONNECT_MAX_DELAY_MS = 30000"

definition RECONNECT_MAX_ATTEMPTS :: nat where
  "RECONNECT_MAX_ATTEMPTS = 8"

definition RECONNECT_JITTER_MS :: nat where
  "RECONNECT_JITTER_MS = 1000"

definition SYNC_ALPN :: string where
  "SYNC_ALPN = ''iroh/automerge-repo/1''"

definition DIAL_ATTEMPTS :: nat where
  "DIAL_ATTEMPTS = 4"

section \<open>State\<close>

datatype endpoint_state = EpOff | EpStarting | EpOnline | EpError

text \<open>What the adapter tells the repository, its listeners and the transport.\<close>

datatype 'm iroh_call =
    PeerCandidate string
  | PeerDisconnected string
  | EmitMessage string 'm
  | EmitClose
  | NotifyConnection nat
  | NotifyConnect nat string
  | NotifyDisconnect nat string
  | NotifyEndpoint nat endpoint_state
  | OpenBi string
  | WriteMessage string nat
  | CloseStream nat
  | Dispatch string nat

text \<open>What runs once the node is there.\<close>

datatype node_cont = ForInit bool | ForAccept | ForAdd string | ForReconnect string | ForCaller

datatype dial_kind = AddDial nat | ReconnectDial

datatype iroh_task =
    WaitIdentity
  | WaitNode node_cont
  | HaveNode nat node_cont
  | Dialling string dial_kind nat
  | DialPause string nat nat
  | Accepting nat
  | AcceptPause nat
  | Reading string nat
  | Writing string nat
  | Announcing string nat
  | RetryTimer string nat
  | Settled

record retry_state =
  rt_attempt :: nat
  rt_timer :: "nat option"

record iroh_options =
  io_syncAlpn :: string
  io_identityChanges :: bool     \<comment> \<open>\<open>onIdentityChange\<close> is given\<close>

datatype listener_kind = OnConnection | OnConnect | OnDisconnect | OnEndpoint

record 'm iroh =
  ir_midden :: "nat option"
  ir_streams :: "(string \<times> nat) list"
  ir_readLoops :: "string set"
  ir_ready :: bool
  ir_disconnected :: bool
  ir_acceptRunning :: bool
  ir_identitySub :: bool
  ir_intended :: "string list"
  ir_reconnect :: "(string \<times> retry_state) list"
  ir_listeners :: "(listener_kind \<times> nat) list"
  ir_failed :: "string list"
  ir_alpnHandlers :: "string set"
  ir_stopped :: bool
  ir_endpoint :: endpoint_state
  ir_tasks :: "iroh_task list"
  ir_peers :: "string list"      \<comment> \<open>\<open>peer_node_id()\<close> of every stream there has been\<close>
  ir_log :: "'m iroh_call list"

definition new_adapter :: "'m iroh" where
  "new_adapter = \<lparr>ir_midden = None, ir_streams = [], ir_readLoops = {}, ir_ready = False, ir_disconnected = False,
     ir_acceptRunning = False, ir_identitySub = False, ir_intended = [], ir_reconnect = [], ir_listeners = [], ir_failed = [],
     ir_alpnHandlers = {}, ir_stopped = False, ir_endpoint = EpOff, ir_tasks = [], ir_peers = [], ir_log = []\<rparr>"

abbreviation stream_of :: "'m iroh \<Rightarrow> string \<Rightarrow> nat option" where
  "stream_of s p \<equiv> map_of (ir_streams s) p"

abbreviation retry_of :: "'m iroh \<Rightarrow> string \<Rightarrow> retry_state option" where
  "retry_of s p \<equiv> map_of (ir_reconnect s) p"

abbreviation running :: "'m iroh \<Rightarrow> bool" where
  "running s \<equiv> \<not> ir_disconnected s \<and> \<not> ir_stopped s"

definition log_iroh :: "'m iroh_call \<Rightarrow> 'm iroh \<Rightarrow> 'm iroh" where
  "log_iroh c s = s\<lparr>ir_log := ir_log s @ [c]\<rparr>"

definition wait :: "iroh_task \<Rightarrow> 'm iroh \<Rightarrow> 'm iroh" where
  "wait t s = s\<lparr>ir_tasks := ir_tasks s @ [t]\<rparr>"

definition notify :: "listener_kind \<Rightarrow> (nat \<Rightarrow> 'm iroh_call) \<Rightarrow> 'm iroh \<Rightarrow> 'm iroh" where
  "notify k f s = s\<lparr>ir_log := ir_log s @ map (f \<circ> snd) (filter (\<lambda>l. fst l = k) (ir_listeners s))\<rparr>"

text \<open>\<open>Set.add\<close> and \<open>Set.delete\<close>.\<close>

definition set_add :: "string \<Rightarrow> string list \<Rightarrow> string list" where
  "set_add p ps = (if p \<in> set ps then ps else ps @ [p])"

section \<open>Small steps\<close>

definition emitConnectionStateChange :: "'m iroh \<Rightarrow> 'm iroh" where
  "emitConnectionStateChange s = notify OnConnection NotifyConnection s"

definition setEndpointState :: "endpoint_state \<Rightarrow> 'm iroh \<Rightarrow> 'm iroh" where
  "setEndpointState e s = (if ir_endpoint s = e then s else notify OnEndpoint (\<lambda>h. NotifyEndpoint h e) (s\<lparr>ir_endpoint := e\<rparr>))"

text \<open>\<open>clearTimeout\<close>.\<close>

definition clear_timer :: "nat option \<Rightarrow> iroh_task list \<Rightarrow> iroh_task list" where
  "clear_timer t ts = (case t of None \<Rightarrow> ts | Some i \<Rightarrow> ts[i := Settled])"

definition clearReconnectState :: "string \<Rightarrow> 'm iroh \<Rightarrow> 'm iroh" where
  "clearReconnectState p s =
     (case retry_of s p of
        None \<Rightarrow> s
      | Some st \<Rightarrow> s\<lparr>ir_tasks := clear_timer (rt_timer st) (ir_tasks s), ir_reconnect := AList.delete p (ir_reconnect s)\<rparr>)"

definition ensureMidden :: "node_cont \<Rightarrow> 'm iroh \<Rightarrow> 'm iroh" where
  "ensureMidden k s = wait (case ir_midden s of Some n \<Rightarrow> HaveNode n k | None \<Rightarrow> WaitNode k) s"

section \<open>Reconnecting\<close>

definition reconnect_delay :: "nat \<Rightarrow> nat \<Rightarrow> nat" where
  "reconnect_delay attempt jitter = min (RECONNECT_BASE_DELAY_MS * 2 ^ attempt) RECONNECT_MAX_DELAY_MS + jitter"

text \<open>\<open>jit p\<close> is the random jitter drawn for p.\<close>

definition scheduleReconnect :: "(string \<Rightarrow> nat) \<Rightarrow> string \<Rightarrow> 'm iroh \<Rightarrow> 'm iroh" where
  "scheduleReconnect jit p s =
     (if \<not> running s \<or> stream_of s p \<noteq> None then s
      else let st = nullish_or (retry_of s p) \<lparr>rt_attempt = 0, rt_timer = None\<rparr>; s0 = s\<lparr>ir_reconnect := AList.update p st (ir_reconnect s)\<rparr> in
        if RECONNECT_MAX_ATTEMPTS \<le> rt_attempt st
        then emitConnectionStateChange (clearReconnectState p
               (s0\<lparr>ir_intended := removeAll p (ir_intended s), ir_failed := set_add p (ir_failed s)\<rparr>))
        else wait (RetryTimer p (reconnect_delay (rt_attempt st) (jit p)))
          (s0\<lparr>ir_tasks := clear_timer (rt_timer st) (ir_tasks s0),
              ir_reconnect := AList.update p (st\<lparr>rt_timer := Some (length (ir_tasks s0))\<rparr>) (ir_reconnect s0)\<rparr>))"

definition removePeer :: "(string \<Rightarrow> nat) \<Rightarrow> string \<Rightarrow> 'm iroh \<Rightarrow> 'm iroh" where
  "removePeer jit p s =
     (let s1 = (case stream_of s p of
                  None \<Rightarrow> s
                | Some k \<Rightarrow> notify OnDisconnect (\<lambda>h. NotifyDisconnect h p) (emitConnectionStateChange
                    ((log_iroh (CloseStream k) s)\<lparr>ir_streams := AList.delete p (ir_streams s)\<rparr>)));
          s2 = s1\<lparr>ir_readLoops := ir_readLoops s1 - {p}\<rparr>
      in if \<not> running s2 then s2
         else let s3 = log_iroh (PeerDisconnected p) s2 in
           if p \<in> set (ir_intended s3) then scheduleReconnect jit p s3 else s3)"

section \<open>Streams\<close>

text \<open>A read loop that ends: it takes the peer down only if its stream is still the peer's.\<close>

definition loop_ends :: "(string \<Rightarrow> nat) \<Rightarrow> string \<Rightarrow> nat \<Rightarrow> 'm iroh \<Rightarrow> 'm iroh" where
  "loop_ends jit p k s = (if stream_of s p = Some k then removePeer jit p s else log_iroh (CloseStream k) s)"

definition read_loop :: "(string \<Rightarrow> nat) \<Rightarrow> string \<Rightarrow> nat \<Rightarrow> 'm iroh \<Rightarrow> 'm iroh" where
  "read_loop jit p k s = (if p \<in> ir_readLoops s \<and> running s then wait (Reading p k) s else loop_ends jit p k s)"

definition startReadLoop :: "(string \<Rightarrow> nat) \<Rightarrow> string \<Rightarrow> nat \<Rightarrow> 'm iroh \<Rightarrow> 'm iroh" where
  "startReadLoop jit p k s = read_loop jit p k (s\<lparr>ir_readLoops := insert p (ir_readLoops s)\<rparr>)"

definition announce :: "string \<Rightarrow> nat \<Rightarrow> 'm iroh \<Rightarrow> 'm iroh" where
  "announce p k s = (if \<not> running s \<or> stream_of s p \<noteq> Some k then s else log_iroh (PeerCandidate p) s)"

definition registerStream :: "(string \<Rightarrow> nat) \<Rightarrow> string \<Rightarrow> nat \<Rightarrow> 'm iroh \<Rightarrow> 'm iroh" where
  "registerStream jit p k s =
     (let cycled = (stream_of s p \<noteq> None \<and> running s);
          s1 = (if cycled then log_iroh (PeerDisconnected p) s else s);
          s2 = emitConnectionStateChange (clearReconnectState p (s1\<lparr>ir_streams := AList.update p k (ir_streams s1)\<rparr>));
          s3 = startReadLoop jit p k (notify OnConnect (\<lambda>h. NotifyConnect h p) s2)
      in if cycled then wait (Announcing p k) s3 else announce p k s3)"

text \<open>A stream comes up with the peer it is to.\<close>

definition new_stream :: "string \<Rightarrow> 'm iroh \<Rightarrow> nat \<times> 'm iroh" where
  "new_stream p s = (length (ir_peers s), s\<lparr>ir_peers := ir_peers s @ [p]\<rparr>)"

definition iroh_send :: "string \<Rightarrow> 'm iroh \<Rightarrow> 'm iroh" where
  "iroh_send p s = (case stream_of s p of None \<Rightarrow> s | Some k \<Rightarrow> wait (Writing p k) (log_iroh (WriteMessage p k) s))"

section \<open>Dialling\<close>

definition dial :: "string \<Rightarrow> dial_kind \<Rightarrow> nat \<Rightarrow> 'm iroh \<Rightarrow> 'm iroh" where
  "dial p kind n s = wait (Dialling p kind n) (log_iroh (OpenBi p) s)"

definition addPeer :: "string \<Rightarrow> 'm iroh \<Rightarrow> 'm iroh" where
  "addPeer p s =
     (if ir_disconnected s then s
      else let s1 = clearReconnectState p (emitConnectionStateChange
                      (s\<lparr>ir_intended := set_add p (ir_intended s), ir_failed := removeAll p (ir_failed s)\<rparr>)) in
        if ir_stopped s1 \<or> stream_of s1 p \<noteq> None then s1 else ensureMidden (ForAdd p) s1)"

definition forgetPeer :: "(string \<Rightarrow> nat) \<Rightarrow> string \<Rightarrow> 'm iroh \<Rightarrow> 'm iroh" where
  "forgetPeer jit p s =
     emitConnectionStateChange (removePeer jit p (clearReconnectState p
       (s\<lparr>ir_intended := removeAll p (ir_intended s), ir_failed := removeAll p (ir_failed s)\<rparr>)))"

definition retryFailedPeers :: "(string \<Rightarrow> nat) \<Rightarrow> 'm iroh \<Rightarrow> 'm iroh" where
  "retryFailedPeers jit s =
     (if ir_disconnected s then s
      else emitConnectionStateChange (fold (\<lambda>p s. scheduleReconnect jit p (s\<lparr>ir_intended := set_add p (ir_intended s)\<rparr>)) (ir_failed s)
             (s\<lparr>ir_failed := []\<rparr>)))"

text \<open>The first part of \<open>attemptReconnect\<close>, run by the timer.\<close>

definition attemptReconnect :: "string \<Rightarrow> 'm iroh \<Rightarrow> 'm iroh" where
  "attemptReconnect p s =
     (if \<not> running s then s
      else if stream_of s p \<noteq> None then clearReconnectState p s
      else if p \<notin> set (ir_intended s) then s
      else ensureMidden (ForReconnect p)
        (case retry_of s p of
           None \<Rightarrow> s
         | Some st \<Rightarrow> s\<lparr>ir_reconnect := AList.update p (st\<lparr>rt_attempt := Suc (rt_attempt st)\<rparr>) (ir_reconnect s)\<rparr>))"

definition timer_fires :: "string \<Rightarrow> 'm iroh \<Rightarrow> 'm iroh" where
  "timer_fires p s =
     attemptReconnect p
       (case retry_of s p of
          None \<Rightarrow> s
        | Some st \<Rightarrow> s\<lparr>ir_reconnect := AList.update p (st\<lparr>rt_timer := None\<rparr>) (ir_reconnect s)\<rparr>)"

section \<open>Starting and stopping\<close>

definition startAcceptLoop :: "'m iroh \<Rightarrow> 'm iroh" where
  "startAcceptLoop s = (if ir_acceptRunning s then s else ensureMidden ForAccept (s\<lparr>ir_acceptRunning := True\<rparr>))"

definition accept_loop :: "nat \<Rightarrow> 'm iroh \<Rightarrow> 'm iroh" where
  "accept_loop n s = (if running s then wait (Accepting n) s else s\<lparr>ir_acceptRunning := False\<rparr>)"

text \<open>\<open>initialize\<close> up to its await; the flag says that \<open>restart\<close> goes on with the peers.\<close>

definition initialize :: "bool \<Rightarrow> 'm iroh \<Rightarrow> 'm iroh" where
  "initialize r s = ensureMidden (ForInit r) (setEndpointState EpStarting s)"

definition initialized :: "bool \<Rightarrow> 'm iroh \<Rightarrow> 'm iroh" where
  "initialized r s =
     (let s1 = setEndpointState EpOnline (startAcceptLoop s) in if r then fold addPeer (ir_intended s1) s1 else s1)"

definition connect :: "'m iroh \<Rightarrow> 'm iroh" where
  "connect s = wait WaitIdentity (s\<lparr>ir_ready := True\<rparr>)"

definition close_streams :: "'m iroh \<Rightarrow> 'm iroh" where
  "close_streams s = s\<lparr>ir_log := ir_log s @ concat (map (\<lambda>(p, k). [CloseStream k, PeerDisconnected p]) (ir_streams s))\<rparr>"

text \<open>Every entry's timer is cleared, then the map.\<close>

definition clear_retries :: "'m iroh \<Rightarrow> 'm iroh" where
  "clear_retries s = s\<lparr>ir_tasks := fold clear_timer (map (rt_timer \<circ> snd) (ir_reconnect s)) (ir_tasks s), ir_reconnect := []\<rparr>"

definition disconnect :: "'m iroh \<Rightarrow> 'm iroh" where
  "disconnect s =
     (let s1 = clear_retries ((close_streams (s\<lparr>ir_disconnected := True\<rparr>))\<lparr>ir_streams := [], ir_readLoops := {}, ir_intended := [],
                 ir_failed := [], ir_alpnHandlers := {}\<rparr>)
      in log_iroh EmitClose (setEndpointState EpOff (s1\<lparr>ir_listeners := [], ir_identitySub := False\<rparr>)))"

definition stop :: "'m iroh \<Rightarrow> 'm iroh" where
  "stop s =
     (if \<not> running s then s
      else let s1 = clear_retries ((close_streams (s\<lparr>ir_stopped := True\<rparr>))\<lparr>ir_streams := [], ir_readLoops := {}, ir_failed := []\<rparr>)
        in emitConnectionStateChange (setEndpointState EpOff (s1\<lparr>ir_midden := None\<rparr>)))"

definition restart :: "'m iroh \<Rightarrow> 'm iroh" where
  "restart s = (if \<not> ir_stopped s \<or> ir_disconnected s then s else initialize True (s\<lparr>ir_stopped := False\<rparr>))"

section \<open>Summary\<close>

definition getConnectionSummary :: "'m iroh \<Rightarrow> nat \<times> nat \<times> nat" where
  "getConnectionSummary s =
     (length (filter (\<lambda>p. stream_of s p \<noteq> None) (ir_intended s)),
      length (filter (\<lambda>p. stream_of s p = None \<and> retry_of s p \<noteq> None) (ir_intended s)),
      length (ir_failed s))"

section \<open>Continuations\<close>

datatype 'm iroh_outcome =
    Fires
  | Rejects
  | GotIdentity bool
  | GotNode nat
  | GotStream string string    \<comment> \<open>of an accepted stream its ALPN and its peer, of a dialled one nothing is read\<close>
  | GotNone
  | GotMessage 'm
  | BadMessage

text \<open>\<open>ensureMidden\<close> has returned.\<close>

fun with_node :: "nat \<Rightarrow> node_cont \<Rightarrow> 'm iroh \<Rightarrow> 'm iroh" where
  "with_node n (ForInit r) s = initialized r s"
| "with_node n ForAccept s = accept_loop n s"
| "with_node n (ForAdd p) s = dial p (AddDial 1) n s"
| "with_node n (ForReconnect p) s = dial p ReconnectDial n s"
| "with_node n ForCaller s = s"

text \<open>\<open>getNode\<close> has thrown.\<close>

fun without_node :: "(string \<Rightarrow> nat) \<Rightarrow> node_cont \<Rightarrow> 'm iroh \<Rightarrow> 'm iroh" where
  "without_node jit (ForInit r) s = setEndpointState EpError s"
| "without_node jit ForAccept s = s\<lparr>ir_acceptRunning := False\<rparr>"
| "without_node jit (ForAdd p) s = s"
| "without_node jit (ForReconnect p) s = scheduleReconnect jit p s"
| "without_node jit ForCaller s = s"

definition accepted :: "iroh_options \<Rightarrow> (string \<Rightarrow> nat) \<Rightarrow> string \<Rightarrow> string \<Rightarrow> 'm iroh \<Rightarrow> 'm iroh" where
  "accepted opts jit alpn p s =
     (case new_stream p s of
        (k, s1) \<Rightarrow>
          if alpn = io_syncAlpn opts then registerStream jit p k s1
          else if alpn \<in> ir_alpnHandlers s1 then log_iroh (Dispatch alpn k) s1
          else log_iroh (CloseStream k) s1)"

definition dialled :: "(string \<Rightarrow> nat) \<Rightarrow> string \<Rightarrow> 'm iroh \<Rightarrow> 'm iroh" where
  "dialled jit p s = (case new_stream p s of (k, s1) \<Rightarrow> registerStream jit p k s1)"

text \<open>A dial has failed: \<open>openBiWithRetry\<close> pauses before the next of its attempts, a reconnect is scheduled again.\<close>

definition dial_failed :: "(string \<Rightarrow> nat) \<Rightarrow> string \<Rightarrow> dial_kind \<Rightarrow> nat \<Rightarrow> 'm iroh \<Rightarrow> 'm iroh" where
  "dial_failed jit p kind n s =
     (case kind of
        AddDial a \<Rightarrow> if a < DIAL_ATTEMPTS then wait (DialPause p a n) s else s
      | ReconnectDial \<Rightarrow> scheduleReconnect jit p s)"

definition accept_failed :: "nat \<Rightarrow> 'm iroh \<Rightarrow> 'm iroh" where
  "accept_failed n s = (if \<not> running s then s\<lparr>ir_acceptRunning := False\<rparr> else wait (AcceptPause n) s)"

text \<open>The continuation of a task, \<open>None\<close> when it does not settle that way.\<close>

definition resume :: "iroh_options \<Rightarrow> (string \<Rightarrow> nat) \<Rightarrow> iroh_task \<Rightarrow> 'm iroh_outcome \<Rightarrow> 'm iroh \<Rightarrow> 'm iroh option" where
  "resume opts jit t r s =
     (case t of
        WaitIdentity \<Rightarrow>
          (case r of
             GotIdentity b \<Rightarrow>
               Some (if b then initialize False s else if io_identityChanges opts then s\<lparr>ir_identitySub := True\<rparr> else s)
           | Rejects \<Rightarrow> Some s | _ \<Rightarrow> None)
      | WaitNode k \<Rightarrow>
          (case r of
             GotNode n \<Rightarrow> Some (with_node n k (s\<lparr>ir_midden := Some n\<rparr>))
           | Rejects \<Rightarrow> Some (without_node jit k s) | _ \<Rightarrow> None)
      | HaveNode n k \<Rightarrow> (case r of Fires \<Rightarrow> Some (with_node n k s) | _ \<Rightarrow> None)
      | Dialling p kind n \<Rightarrow>
          (case r of
             GotStream _ _ \<Rightarrow> Some (dialled jit p s)
           | Rejects \<Rightarrow> Some (dial_failed jit p kind n s)
           | _ \<Rightarrow> None)
      | DialPause p a n \<Rightarrow> (case r of Fires \<Rightarrow> Some (dial p (AddDial (Suc a)) n s) | _ \<Rightarrow> None)
      | Accepting n \<Rightarrow>
          (case r of
             GotStream alpn p \<Rightarrow> Some (accept_loop n (accepted opts jit alpn p s))
           | GotNone \<Rightarrow> Some (s\<lparr>ir_acceptRunning := False\<rparr>)
           | Rejects \<Rightarrow> Some (accept_failed n s)
           | _ \<Rightarrow> None)
      | AcceptPause n \<Rightarrow> (case r of Fires \<Rightarrow> Some (accept_loop n s) | _ \<Rightarrow> None)
      | Reading p k \<Rightarrow>
          (case r of
             GotMessage m \<Rightarrow> Some (read_loop jit p k (log_iroh (EmitMessage p m) s))
           | GotNone \<Rightarrow> Some (loop_ends jit p k s)
           | BadMessage \<Rightarrow> Some (loop_ends jit p k s)
           | Rejects \<Rightarrow> Some (loop_ends jit p k s)
           | _ \<Rightarrow> None)
      | Writing p k \<Rightarrow> (case r of Fires \<Rightarrow> Some s | Rejects \<Rightarrow> Some (removePeer jit p s) | _ \<Rightarrow> None)
      | Announcing p k \<Rightarrow> (case r of Fires \<Rightarrow> Some (announce p k s) | _ \<Rightarrow> None)
      | RetryTimer p d \<Rightarrow> (case r of Fires \<Rightarrow> Some (timer_fires p s) | _ \<Rightarrow> None)
      | Settled \<Rightarrow> None)"

lemmas resume_defs = resume_def dial_failed_def accept_failed_def

section \<open>Events\<close>

datatype 'm iroh_event =
    EvConnect
  | EvSend string
  | EvDisconnect
  | EvAddPeer string
  | EvForget string
  | EvRetryFailed
  | EvStop
  | EvRestart
  | EvGetNode
  | EvHandler string
  | EvSubscribe listener_kind nat
  | EvUnsubscribe listener_kind nat
  | EvIdentity bool
  | EvSettle nat "'m iroh_outcome"

text \<open>\<open>settle\<close> takes the task off the list; a task that cannot settle that way stays.\<close>

definition settle_task :: "iroh_options \<Rightarrow> (string \<Rightarrow> nat) \<Rightarrow> nat \<Rightarrow> 'm iroh_outcome \<Rightarrow> 'm iroh \<Rightarrow> 'm iroh" where
  "settle_task opts jit i r s =
     (if i < length (ir_tasks s)
      then nullish_or (resume opts jit (ir_tasks s ! i) r (s\<lparr>ir_tasks := (ir_tasks s)[i := Settled]\<rparr>)) s
      else s)"

fun iroh_step :: "iroh_options \<Rightarrow> (string \<Rightarrow> nat) \<Rightarrow> 'm iroh_event \<Rightarrow> 'm iroh \<Rightarrow> 'm iroh" where
  "iroh_step opts jit EvConnect s = connect s"
| "iroh_step opts jit (EvSend p) s = iroh_send p s"
| "iroh_step opts jit EvDisconnect s = disconnect s"
| "iroh_step opts jit (EvAddPeer p) s = addPeer p s"
| "iroh_step opts jit (EvForget p) s = forgetPeer jit p s"
| "iroh_step opts jit EvRetryFailed s = retryFailedPeers jit s"
| "iroh_step opts jit EvStop s = stop s"
| "iroh_step opts jit EvRestart s = restart s"
| "iroh_step opts jit EvGetNode s = ensureMidden ForCaller s"
| "iroh_step opts jit (EvHandler a) s = s\<lparr>ir_alpnHandlers := insert a (ir_alpnHandlers s)\<rparr>"
| "iroh_step opts jit (EvSubscribe k h) s = s\<lparr>ir_listeners := ir_listeners s @ [(k, h)]\<rparr>"
| "iroh_step opts jit (EvUnsubscribe k h) s = s\<lparr>ir_listeners := remove1 (k, h) (ir_listeners s)\<rparr>"
| "iroh_step opts jit (EvIdentity b) s =
     (if ir_identitySub s \<and> b \<and> ir_midden s = None \<and> \<not> ir_disconnected s then initialize False s else s)"
| "iroh_step opts jit (EvSettle i r) s = settle_task opts jit i r s"

text \<open>The jitter is \<open>Math.floor(Math.random() * RECONNECT_JITTER_MS)\<close>.\<close>

inductive iroh_reach :: "iroh_options \<Rightarrow> 'm iroh \<Rightarrow> bool" for opts where
  start: "iroh_reach opts new_adapter"
| event: "iroh_reach opts s \<Longrightarrow> (\<And>p. jit p < RECONNECT_JITTER_MS) \<Longrightarrow> iroh_reach opts (iroh_step opts jit ev s)"

fun iroh_run :: "iroh_options \<Rightarrow> (string \<Rightarrow> nat) \<Rightarrow> 'm iroh_event list \<Rightarrow> 'm iroh \<Rightarrow> 'm iroh" where
  "iroh_run opts jit [] s = s"
| "iroh_run opts jit (ev # evs) s = iroh_run opts jit evs (iroh_step opts jit ev s)"

end
