(* ===== verification/IrohProps.thy ===== *)
theory IrohProps
  imports IrohAdapter
begin

text \<open>
  Reconnect timers of the network adapter and their entries, and what its operations on streams change of what the
  repository and the transport see.
\<close>

section \<open>Tasks\<close>

definition retry_task :: "iroh_task \<Rightarrow> bool" where
  "retry_task t = (case t of RetryTimer _ _ \<Rightarrow> True | _ \<Rightarrow> False)"

definition stream_task :: "iroh_task \<Rightarrow> bool" where
  "stream_task t = (case t of Reading _ _ \<Rightarrow> True | Announcing _ _ \<Rightarrow> True | _ \<Rightarrow> False)"

text \<open>The tasks that hold a stream.\<close>

definition others :: "iroh_task list \<Rightarrow> iroh_task list" where
  "others ts = filter stream_task ts"

lemma retry_task_simps [simp]: "retry_task (RetryTimer p d)" "\<not> retry_task WaitIdentity" "\<not> retry_task (WaitNode c)"
  "\<not> retry_task (HaveNode n c)" "\<not> retry_task (Dialling p kind n)" "\<not> retry_task (DialPause p a n)" "\<not> retry_task (Accepting n)"
  "\<not> retry_task (AcceptPause n)" "\<not> retry_task (Reading p k)" "\<not> retry_task (Writing p k)" "\<not> retry_task (Announcing p k)"
  "\<not> retry_task Settled"
  by (simp_all add: retry_task_def)

lemma stream_task_simps [simp]: "\<not> stream_task (RetryTimer p d)" "\<not> stream_task WaitIdentity" "\<not> stream_task (WaitNode c)"
  "\<not> stream_task (HaveNode n c)" "\<not> stream_task (Dialling p kind n)" "\<not> stream_task (DialPause p a n)" "\<not> stream_task (Accepting n)"
  "\<not> stream_task (AcceptPause n)" "stream_task (Reading p k)" "\<not> stream_task (Writing p k)" "stream_task (Announcing p k)"
  "\<not> stream_task Settled"
  by (simp_all add: stream_task_def)

lemma retry_task_iff: "retry_task t \<longleftrightarrow> (\<exists>p d. t = RetryTimer p d)"
  by (cases t) simp_all

lemma others_simps [simp]: "others [] = []" "others (xs @ ys) = others xs @ others ys"
  "others (t # ts) = (if stream_task t then t # others ts else others ts)"
  by (simp_all add: others_def)

lemma others_clear: "i < length ts \<Longrightarrow> \<not> stream_task (ts ! i) \<Longrightarrow> others (ts[i := Settled]) = others ts"
  by (metis append_Cons append_Nil id_take_nth_drop others_simps(2,3) stream_task_simps(12) upd_conv_take_nth_drop)

lemma others_settle: "t \<in> set (others ts) \<Longrightarrow> t \<noteq> ts ! i \<Longrightarrow> t \<in> set (others (ts[i := Settled]))"
  by (auto simp: others_def in_set_conv_nth) (metis nth_list_update_neq)

lemma others_settled_sub: "t \<in> set (others (ts[i := Settled])) \<Longrightarrow> t \<in> set (others ts)"
  by (auto simp: others_def dest!: set_update_subset_insert [THEN subsetD])

lemma others_idem [simp]: "others (others ts) = others ts"
  by (simp add: others_def)

section \<open>Reconnect timers\<close>

definition timers :: "(string \<times> retry_state) list \<Rightarrow> iroh_task list \<Rightarrow> bool" where
  "timers R ts =
     (distinct (map fst R) \<and>
      (\<forall>p st i. map_of R p = Some st \<longrightarrow> rt_timer st = Some i \<longrightarrow>
         i < length ts \<and> (\<exists>d. ts ! i = RetryTimer p d) \<and> rt_attempt st < RECONNECT_MAX_ATTEMPTS) \<and>
      (\<forall>i p d. i < length ts \<longrightarrow> ts ! i = RetryTimer p d \<longrightarrow>
         (\<exists>st. map_of R p = Some st \<and> rt_timer st = Some i) \<and> d < RECONNECT_MAX_DELAY_MS + RECONNECT_JITTER_MS) \<and>
      (\<forall>p st. map_of R p = Some st \<longrightarrow> rt_attempt st \<le> RECONNECT_MAX_ATTEMPTS))"

lemma timersD:
  assumes "timers R ts"
  shows "distinct (map fst R)"
    "map_of R p = Some st \<Longrightarrow> rt_timer st = Some i \<Longrightarrow> i < length ts \<and> (\<exists>d. ts ! i = RetryTimer p d) \<and> rt_attempt st < RECONNECT_MAX_ATTEMPTS"
    "i < length ts \<Longrightarrow> ts ! i = RetryTimer p d \<Longrightarrow> (\<exists>st. map_of R p = Some st \<and> rt_timer st = Some i) \<and> d < RECONNECT_MAX_DELAY_MS + RECONNECT_JITTER_MS"
    "map_of R p = Some st \<Longrightarrow> rt_attempt st \<le> RECONNECT_MAX_ATTEMPTS"
  using assms unfolding timers_def by blast+

lemma timersI:
  assumes "distinct (map fst R)"
    "\<And>p st i. map_of R p = Some st \<Longrightarrow> rt_timer st = Some i \<Longrightarrow>
       i < length ts \<and> (\<exists>d. ts ! i = RetryTimer p d) \<and> rt_attempt st < RECONNECT_MAX_ATTEMPTS"
    "\<And>i p d. i < length ts \<Longrightarrow> ts ! i = RetryTimer p d \<Longrightarrow>
       (\<exists>st. map_of R p = Some st \<and> rt_timer st = Some i) \<and> d < RECONNECT_MAX_DELAY_MS + RECONNECT_JITTER_MS"
    "\<And>p st. map_of R p = Some st \<Longrightarrow> rt_attempt st \<le> RECONNECT_MAX_ATTEMPTS"
  shows "timers R ts"
  using assms unfolding timers_def by blast

lemma clear_timer_length [simp]: "length (clear_timer t ts) = length ts"
  by (cases t) (simp_all add: clear_timer_def)

lemma clear_timer_nth: "i < length ts \<Longrightarrow> clear_timer t ts ! i = (if t = Some i then Settled else ts ! i)"
  by (cases t) (simp_all add: clear_timer_def nth_list_update)

lemma clear_timer_None [simp]: "clear_timer None ts = ts"
  by (simp add: clear_timer_def)

lemma others_clear_timer:
  "timers R ts \<Longrightarrow> map_of R p = Some st \<Longrightarrow> others (clear_timer (rt_timer st) ts) = others ts"
  by (cases "rt_timer st") (auto simp: clear_timer_def dest!: timersD(2) intro!: others_clear)

lemma timers_wait:
  assumes "timers R ts" "\<not> retry_task t"
  shows "timers R (ts @ [t])"
proof (rule timersI)
  note T = timersD [OF assms(1)]
  show "distinct (map fst R)" by (rule T(1))
  show "rt_attempt st \<le> RECONNECT_MAX_ATTEMPTS" if "map_of R p = Some st" for p st using that by (rule T(4))
  show "i < length (ts @ [t]) \<and> (\<exists>d. (ts @ [t]) ! i = RetryTimer p d) \<and> rt_attempt st < RECONNECT_MAX_ATTEMPTS"
    if "map_of R p = Some st" "rt_timer st = Some i" for p st i
    using T(2) [OF that] by (simp add: nth_append)
  show "(\<exists>st. map_of R p = Some st \<and> rt_timer st = Some i) \<and> d < RECONNECT_MAX_DELAY_MS + RECONNECT_JITTER_MS"
    if "i < length (ts @ [t])" "(ts @ [t]) ! i = RetryTimer p d" for i p d
    using that assms(2) T(3) [of i p d] by (cases "i = length ts") (simp_all add: nth_append retry_task_iff)
qed

lemma timers_settle:
  assumes "timers R ts" "\<not> retry_task (ts ! i)"
  shows "timers R (ts[i := Settled])"
proof (rule timersI)
  note T = timersD [OF assms(1)]
  show "distinct (map fst R)" by (rule T(1))
  show "rt_attempt st \<le> RECONNECT_MAX_ATTEMPTS" if "map_of R p = Some st" for p st using that by (rule T(4))
  show "j < length (ts[i := Settled]) \<and> (\<exists>d. ts[i := Settled] ! j = RetryTimer p d) \<and> rt_attempt st < RECONNECT_MAX_ATTEMPTS"
    if "map_of R p = Some st" "rt_timer st = Some j" for p st j
    using T(2) [OF that] assms(2) by (cases "j = i") (auto simp: retry_task_iff)
  show "(\<exists>st. map_of R p = Some st \<and> rt_timer st = Some j) \<and> d < RECONNECT_MAX_DELAY_MS + RECONNECT_JITTER_MS"
    if "j < length (ts[i := Settled])" "ts[i := Settled] ! j = RetryTimer p d" for j p d
    using that T(3) [of j p d] by (cases "j = i") simp_all
qed

lemma timers_put:
  assumes "timers R ts" "map_of R p = None \<and> rt_timer old = None \<or> map_of R p = Some old"
    "rt_timer st = Some (length ts)" "rt_attempt st < RECONNECT_MAX_ATTEMPTS" "d < RECONNECT_MAX_DELAY_MS + RECONNECT_JITTER_MS"
  shows "timers (AList.update p st R) (clear_timer (rt_timer old) ts @ [RetryTimer p d])"
proof (rule timersI)
  let ?ts = "clear_timer (rt_timer old) ts @ [RetryTimer p d]"
  note T = timersD [OF assms(1)]
  show "distinct (map fst (AList.update p st R))" using T(1) by (rule distinct_update)
  show "rt_attempt st' \<le> RECONNECT_MAX_ATTEMPTS" if "map_of (AList.update p st R) q = Some st'" for q st'
    using that T(4) [of q st'] assms(4) by (auto simp: update_conv split: if_splits)
  show "i < length ?ts \<and> (\<exists>d. ?ts ! i = RetryTimer q d) \<and> rt_attempt st' < RECONNECT_MAX_ATTEMPTS"
    if q: "map_of (AList.update p st R) q = Some st'" "rt_timer st' = Some i" for q st' i
  proof (cases "q = p")
    case True
    then have "st' = st" using q(1) by (simp add: update_conv)
    then show ?thesis using True q(2) assms(3,4) by (simp add: nth_append)
  next
    case False
    then have R: "map_of R q = Some st'" using q(1) by (simp add: update_conv)
    have "rt_timer old \<noteq> Some i"
    proof
      assume o: "rt_timer old = Some i"
      with assms(2) have "map_of R p = Some old" by auto
      then show False using T(2) [OF R q(2)] T(2) [OF _ o] False by force
    qed
    then show ?thesis using T(2) [OF R q(2)] by (simp add: nth_append clear_timer_nth)
  qed
  show "(\<exists>st'. map_of (AList.update p st R) q = Some st' \<and> rt_timer st' = Some i) \<and> e < RECONNECT_MAX_DELAY_MS + RECONNECT_JITTER_MS"
    if i: "i < length ?ts" "?ts ! i = RetryTimer q e" for i q e
  proof (cases "i = length ts")
    case True
    then have "q = p" "e = d" using i(2) by (simp_all add: nth_append)
    then show ?thesis using True assms(3,5) by (simp add: update_conv)
  next
    case False
    then have l: "i < length ts" using i(1) by simp
    then have t: "ts ! i = RetryTimer q e" "rt_timer old \<noteq> Some i" using i(2) by (auto simp: nth_append clear_timer_nth split: if_splits)
    then have "q \<noteq> p" using T(3) [OF l t(1)] assms(2) by auto
    then show ?thesis using T(3) [OF l t(1)] by (simp add: update_conv)
  qed
qed

lemma timers_drop:
  assumes "timers R ts" "map_of R p = Some st"
  shows "timers (AList.delete p R) (clear_timer (rt_timer st) ts)"
proof (rule timersI)
  note T = timersD [OF assms(1)]
  show "distinct (map fst (AList.delete p R))" using T(1) by (rule distinct_delete)
  have R: "map_of R q = Some st' \<and> q \<noteq> p" if "map_of (AList.delete p R) q = Some st'" for q st'
    using that by (auto simp: delete_conv split: if_splits)
  show "rt_attempt st' \<le> RECONNECT_MAX_ATTEMPTS" if "map_of (AList.delete p R) q = Some st'" for q st'
    using R [OF that] T(4) by blast
  show "i < length (clear_timer (rt_timer st) ts) \<and> (\<exists>d. clear_timer (rt_timer st) ts ! i = RetryTimer q d)
      \<and> rt_attempt st' < RECONNECT_MAX_ATTEMPTS"
    if q: "map_of (AList.delete p R) q = Some st'" "rt_timer st' = Some i" for q st' i
  proof -
    have "rt_timer st \<noteq> Some i" using T(2) [OF _ q(2), of q] T(2) [OF assms(2), of i] R [OF q(1)] by force
    then show ?thesis using T(2) [OF _ q(2), of q] R [OF q(1)] by (simp add: clear_timer_nth)
  qed
  show "(\<exists>st'. map_of (AList.delete p R) q = Some st' \<and> rt_timer st' = Some i) \<and> e < RECONNECT_MAX_DELAY_MS + RECONNECT_JITTER_MS"
    if i: "i < length (clear_timer (rt_timer st) ts)" "clear_timer (rt_timer st) ts ! i = RetryTimer q e" for i q e
  proof -
    have t: "i < length ts" "ts ! i = RetryTimer q e" "rt_timer st \<noteq> Some i" using i by (auto simp: clear_timer_nth split: if_splits)
    then have "q \<noteq> p" using T(3) [OF t(1,2)] assms(2) by auto
    then show ?thesis using T(3) [OF t(1,2)] by (simp add: delete_conv)
  qed
qed

lemma timers_fire:
  assumes "timers R ts" "i < length ts" "ts ! i = RetryTimer p d" "map_of R p = Some st"
  shows "timers (AList.update p (st\<lparr>rt_timer := None\<rparr>) R) (ts[i := Settled])"
proof (rule timersI)
  note T = timersD [OF assms(1)]
  let ?R = "AList.update p (st\<lparr>rt_timer := None\<rparr>) R"
  have t: "rt_timer st = Some i" using T(3) [OF assms(2,3)] assms(4) by auto
  show "distinct (map fst ?R)" using T(1) by (rule distinct_update)
  show "rt_attempt st' \<le> RECONNECT_MAX_ATTEMPTS" if "map_of ?R q = Some st'" for q st'
    using that T(4) [of q st'] T(4) [OF assms(4)] by (auto simp: update_conv split: if_splits)
  show "j < length (ts[i := Settled]) \<and> (\<exists>d. ts[i := Settled] ! j = RetryTimer q d) \<and> rt_attempt st' < RECONNECT_MAX_ATTEMPTS"
    if q: "map_of ?R q = Some st'" "rt_timer st' = Some j" for q st' j
  proof -
    have R: "map_of R q = Some st'" "q \<noteq> p" using q by (auto simp: update_conv split: if_splits)
    then have "j \<noteq> i" using T(2) [OF R(1) q(2)] assms(3) by auto
    then show ?thesis using T(2) [OF R(1) q(2)] by simp
  qed
  show "(\<exists>st'. map_of ?R q = Some st' \<and> rt_timer st' = Some j) \<and> e < RECONNECT_MAX_DELAY_MS + RECONNECT_JITTER_MS"
    if j: "j < length (ts[i := Settled])" "ts[i := Settled] ! j = RetryTimer q e" for j q e
  proof -
    have j': "j < length ts" "ts ! j = RetryTimer q e" "j \<noteq> i" using j by (cases "j = i"; simp)+
    then have "q \<noteq> p" using T(3) [OF j'(1,2)] t assms(4) by auto
    then show ?thesis using T(3) [OF j'(1,2)] by (simp add: update_conv)
  qed
qed

lemma timers_count:
  assumes "timers R ts" "map_of R p = Some st" "rt_timer st = None" "rt_attempt st < RECONNECT_MAX_ATTEMPTS"
  shows "timers (AList.update p (st\<lparr>rt_attempt := Suc (rt_attempt st)\<rparr>) R) ts"
proof (rule timersI)
  note T = timersD [OF assms(1)]
  let ?R = "AList.update p (st\<lparr>rt_attempt := Suc (rt_attempt st)\<rparr>) R"
  show "distinct (map fst ?R)" using T(1) by (rule distinct_update)
  show "rt_attempt st' \<le> RECONNECT_MAX_ATTEMPTS" if "map_of ?R q = Some st'" for q st'
    using that T(4) [of q st'] assms(4) by (auto simp: update_conv split: if_splits)
  show "j < length ts \<and> (\<exists>d. ts ! j = RetryTimer q d) \<and> rt_attempt st' < RECONNECT_MAX_ATTEMPTS"
    if "map_of ?R q = Some st'" "rt_timer st' = Some j" for q st' j
    using that assms(3) T(2) [of q st' j] by (auto simp: update_conv split: if_splits)
  show "(\<exists>st'. map_of ?R q = Some st' \<and> rt_timer st' = Some j) \<and> e < RECONNECT_MAX_DELAY_MS + RECONNECT_JITTER_MS"
    if "j < length ts" "ts ! j = RetryTimer q e" for j q e
    using T(3) [OF that] assms(2,3) by (cases "q = p") (auto simp: update_conv)
qed

text \<open>Clearing the timers of all entries.\<close>

lemma clear_all_length [simp]: "length (fold clear_timer is ts) = length ts"
  by (induction "is" arbitrary: ts) simp_all

lemma clear_all_nth: "i < length ts \<Longrightarrow> fold clear_timer is ts ! i = (if Some i \<in> set is then Settled else ts ! i)"
  by (induction "is" arbitrary: ts) (auto simp: clear_timer_nth)

lemma others_clear_all:
  "(\<And>i. Some i \<in> set is \<Longrightarrow> i < length ts \<and> \<not> stream_task (ts ! i)) \<Longrightarrow> others (fold clear_timer is ts) = others ts"
proof (induction "is" arbitrary: ts)
  case (Cons t "is")
  have "others (clear_timer t ts) = others ts" using Cons.prems by (cases t) (auto simp: clear_timer_def others_clear)
  moreover have "others (fold clear_timer is (clear_timer t ts)) = others (clear_timer t ts)"
    using Cons.prems by (intro Cons.IH) (auto simp: clear_timer_nth)
  ultimately show ?case by simp
qed simp

lemma timers_clear_all:
  assumes "timers R ts"
  shows "timers [] (fold clear_timer (map (rt_timer \<circ> snd) R) ts)" "others (fold clear_timer (map (rt_timer \<circ> snd) R) ts) = others ts"
proof -
  note T = timersD [OF assms]
  let ?is = "map (rt_timer \<circ> snd) R"
  have all: "Some i \<in> set ?is" if "i < length ts" "ts ! i = RetryTimer p d" for i p d
    using T(3) [OF that] by (force dest: map_of_SomeD)
  have none: "fold clear_timer ?is ts ! i \<noteq> RetryTimer p d" if "i < length ts" for i p d
    using all [OF that, of p d] clear_all_nth [OF that, of ?is] by auto
  show "timers [] (fold clear_timer ?is ts)"
  proof (rule timersI)
    show "(\<exists>st. map_of [] p = Some st \<and> rt_timer st = Some i) \<and> d < RECONNECT_MAX_DELAY_MS + RECONNECT_JITTER_MS"
      if "i < length (fold clear_timer ?is ts)" "fold clear_timer ?is ts ! i = RetryTimer p d" for i p d
      using that none [of i p d] by simp
  qed simp_all
  have "i < length ts \<and> \<not> stream_task (ts ! i)" if m: "Some i \<in> set ?is" for i
  proof -
    obtain p st where st: "(p, st) \<in> set R" "rt_timer st = Some i" using m by auto
    then have "map_of R p = Some st" using T(1) by simp
    from T(2) [OF this st(2)] show ?thesis by auto
  qed
  then show "others (fold clear_timer ?is ts) = others ts" by (intro others_clear_all) blast
qed

section \<open>The adapter's view\<close>

text \<open>What the repository and the transport see of a call; the rest are notifications and what is sent.\<close>

definition relevant :: "'m iroh_call \<Rightarrow> bool" where
  "relevant c = (case c of PeerCandidate _ \<Rightarrow> True | PeerDisconnected _ \<Rightarrow> True | CloseStream _ \<Rightarrow> True | Dispatch _ _ \<Rightarrow> True | _ \<Rightarrow> False)"

lemma relevant_simps [simp]: "relevant (PeerCandidate p)" "relevant (PeerDisconnected p)" "relevant (CloseStream k)" "relevant (Dispatch a k)"
  "\<not> relevant (EmitMessage p m)" "\<not> relevant EmitClose" "\<not> relevant (NotifyConnection h)" "\<not> relevant (NotifyConnect h p)"
  "\<not> relevant (NotifyDisconnect h p)" "\<not> relevant (NotifyEndpoint h e)" "\<not> relevant (OpenBi p)" "\<not> relevant (WriteMessage p k)"
  by (simp_all add: relevant_def)

definition seen :: "'m iroh \<Rightarrow> 'm iroh_call list" where
  "seen s = filter relevant (ir_log s)"

definition timer_inv :: "'m iroh \<Rightarrow> bool" where
  "timer_inv s = (timers (ir_reconnect s) (ir_tasks s) \<and> (\<not> running s \<longrightarrow> ir_reconnect s = []))"

text \<open>Two states that differ in nothing the invariants of streams look at.\<close>

definition same_view :: "'m iroh \<Rightarrow> 'm iroh \<Rightarrow> bool" where
  "same_view s s' =
     (ir_streams s' = ir_streams s \<and> ir_readLoops s' = ir_readLoops s \<and> ir_disconnected s' = ir_disconnected s \<and> ir_stopped s' = ir_stopped s
      \<and> others (ir_tasks s') = others (ir_tasks s) \<and> ir_peers s' = ir_peers s \<and> seen s' = seen s)"

lemma same_view_refl [simp]: "same_view s s"
  by (simp add: same_view_def)

lemma same_view_trans: "same_view s s' \<Longrightarrow> same_view s' s'' \<Longrightarrow> same_view s s''"
  by (simp add: same_view_def)

lemma filter_notify [simp]: "(\<And>h. \<not> relevant (f h)) \<Longrightarrow> filter relevant (map (f \<circ> snd) ls) = []"
  by (induction ls) simp_all

lemma notify_view: "(\<And>h. \<not> relevant (f h)) \<Longrightarrow> same_view s (notify k f s) \<and> (timer_inv (notify k f s) \<longleftrightarrow> timer_inv s)
    \<and> ir_intended (notify k f s) = ir_intended s \<and> ir_failed (notify k f s) = ir_failed s"
  by (simp add: same_view_def notify_def seen_def timer_inv_def)

lemma connection_view: "same_view s (emitConnectionStateChange s)" "timer_inv (emitConnectionStateChange s) \<longleftrightarrow> timer_inv s"
  "ir_intended (emitConnectionStateChange s) = ir_intended s" "ir_failed (emitConnectionStateChange s) = ir_failed s"
  using notify_view [of NotifyConnection s OnConnection] by (simp_all add: emitConnectionStateChange_def)

lemma endpoint_view: "same_view s (setEndpointState e s)" "timer_inv (setEndpointState e s) \<longleftrightarrow> timer_inv s"
  "ir_intended (setEndpointState e s) = ir_intended s" "ir_failed (setEndpointState e s) = ir_failed s"
  by (simp_all add: setEndpointState_def notify_def same_view_def seen_def timer_inv_def)

lemma clear_view:
  assumes "timer_inv s"
  shows "same_view s (clearReconnectState p s)" "timer_inv (clearReconnectState p s)" "ir_intended (clearReconnectState p s) = ir_intended s"
    "ir_failed (clearReconnectState p s) = ir_failed s"
  using assms timers_drop [of "ir_reconnect s" "ir_tasks s" p] others_clear_timer [of "ir_reconnect s" "ir_tasks s" p]
  by (auto simp: clearReconnectState_def same_view_def timer_inv_def seen_def split: option.split)

lemma delay_bound: "j < RECONNECT_JITTER_MS \<Longrightarrow> reconnect_delay a j < RECONNECT_MAX_DELAY_MS + RECONNECT_JITTER_MS"
  by (simp add: reconnect_delay_def)

lemma schedule_view:
  assumes "timer_inv s" "jit p < RECONNECT_JITTER_MS"
  shows "same_view s (scheduleReconnect jit p s) \<and> timer_inv (scheduleReconnect jit p s)
    \<and> (ir_intended (scheduleReconnect jit p s) = ir_intended s \<and> ir_failed (scheduleReconnect jit p s) = ir_failed s
       \<or> running s \<and> ir_intended (scheduleReconnect jit p s) = removeAll p (ir_intended s) \<and> ir_failed (scheduleReconnect jit p s) = set_add p (ir_failed s))"
proof (cases "\<not> running s \<or> stream_of s p \<noteq> None")
  case True
  then show ?thesis using assms(1) by (simp add: scheduleReconnect_def)
next
  case False
  define st where "st = nullish_or (retry_of s p) \<lparr>rt_attempt = 0, rt_timer = None\<rparr>"
  have T: "timers (ir_reconnect s) (ir_tasks s)" using assms(1) by (simp add: timer_inv_def)
  have old: "retry_of s p = None \<and> rt_timer st = None \<or> retry_of s p = Some st" by (cases "retry_of s p") (simp_all add: st_def)
  have oth: "others (clear_timer (rt_timer st) (ir_tasks s)) = others (ir_tasks s)"
    using old others_clear_timer [OF T, of p st] by auto
  show ?thesis
  proof (cases "RECONNECT_MAX_ATTEMPTS \<le> rt_attempt st")
    case True
    then have R: "retry_of s p = Some st" using old by (cases "retry_of s p") (auto simp: st_def RECONNECT_MAX_ATTEMPTS_def)
    have upd: "AList.update p st (ir_reconnect s) = ir_reconnect s"
      using R by (rule update_triv)
    show ?thesis
      using False True R upd timers_drop [OF T R] oth
      by (simp add: scheduleReconnect_def Let_def st_def [symmetric] clearReconnectState_def emitConnectionStateChange_def notify_def
          same_view_def timer_inv_def seen_def)
  next
    case att: False
    have "timers (AList.update p (st\<lparr>rt_timer := Some (length (ir_tasks s))\<rparr>) (AList.update p st (ir_reconnect s)))
        (clear_timer (rt_timer st) (ir_tasks s) @ [RetryTimer p (reconnect_delay (rt_attempt st) (jit p))])"
      using timers_put [OF T old, of "st\<lparr>rt_timer := Some (length (ir_tasks s))\<rparr>"] att delay_bound [OF assms(2)]
      by (simp add: update_last)
    then show ?thesis
      using False att oth
      by (simp add: scheduleReconnect_def Let_def st_def [symmetric] wait_def same_view_def timer_inv_def seen_def)
  qed
qed

section \<open>Removing and registering, as seen\<close>

lemma set_set_add [simp]: "set (set_add p ps) = insert p (set ps)"
  by (auto simp: set_add_def)

lemma distinct_set_add: "distinct ps \<Longrightarrow> distinct (set_add p ps)"
  by (simp add: set_add_def)

definition removed :: "string \<Rightarrow> 'm iroh \<Rightarrow> 'm iroh" where
  "removed p s = s\<lparr>ir_streams := AList.delete p (ir_streams s), ir_readLoops := ir_readLoops s - {p},
     ir_log := ir_log s @ (case stream_of s p of Some k \<Rightarrow> [CloseStream k] | None \<Rightarrow> []) @ (if running s then [PeerDisconnected p] else [])\<rparr>"

text \<open>What happens to the sets of peers.\<close>

definition sets_move :: "string \<Rightarrow> 'm iroh \<Rightarrow> 'm iroh \<Rightarrow> bool" where
  "sets_move p s s' =
     (ir_intended s' = ir_intended s \<and> ir_failed s' = ir_failed s
      \<or> running s \<and> ir_intended s' = removeAll p (ir_intended s) \<and> ir_failed s' = set_add p (ir_failed s))"

lemma remove_view:
  assumes "timer_inv s" "jit p < RECONNECT_JITTER_MS"
  shows "same_view (removed p s) (removePeer jit p s) \<and> timer_inv (removePeer jit p s) \<and> sets_move p s (removePeer jit p s)"
proof -
  define s1 where "s1 = (case stream_of s p of
      None \<Rightarrow> s
    | Some k \<Rightarrow> notify OnDisconnect (\<lambda>h. NotifyDisconnect h p) (emitConnectionStateChange
        ((log_iroh (CloseStream k) s)\<lparr>ir_streams := AList.delete p (ir_streams s)\<rparr>)))"
  define s2 where "s2 = s1\<lparr>ir_readLoops := ir_readLoops s1 - {p}\<rparr>"
  define s3 where "s3 = log_iroh (PeerDisconnected p) s2"
  have s1': "ir_streams s1 = AList.delete p (ir_streams s) \<and> ir_readLoops s1 = ir_readLoops s \<and> ir_disconnected s1 = ir_disconnected s
    \<and> ir_stopped s1 = ir_stopped s \<and> ir_tasks s1 = ir_tasks s \<and> ir_reconnect s1 = ir_reconnect s \<and> ir_peers s1 = ir_peers s
    \<and> ir_intended s1 = ir_intended s \<and> ir_failed s1 = ir_failed s
    \<and> seen s1 = seen s @ (case stream_of s p of Some k \<Rightarrow> [CloseStream k] | None \<Rightarrow> [])"
  proof (cases "stream_of s p")
    case None
    then have "AList.delete p (ir_streams s) = ir_streams s" by (simp add: delete_idem map_of_eq_None_iff)
    then show ?thesis using None by (simp add: s1_def)
  next
    case (Some k)
    then show ?thesis by (simp add: s1_def log_iroh_def emitConnectionStateChange_def notify_def seen_def)
  qed
  note s1 = s1' [THEN conjunct1] s1' [THEN conjunct2, THEN conjunct1] s1' [THEN conjunct2, THEN conjunct2, THEN conjunct1]
    s1' [THEN conjunct2, THEN conjunct2, THEN conjunct2]
  have rem: "removePeer jit p s = (if \<not> running s2 then s2 else if p \<in> set (ir_intended s3) then scheduleReconnect jit p s3 else s3)"
    by (simp add: removePeer_def Let_def s1_def s2_def s3_def)
  have s3: "timer_inv s3" using assms(1) s1 by (simp add: s3_def s2_def log_iroh_def timer_inv_def)
  have v3: "same_view (removed p s) s3" if "running s"
    using s1 that by (auto simp: removed_def same_view_def s3_def s2_def log_iroh_def seen_def split: option.splits)
  have v2: "same_view (removed p s) s2" if "\<not> running s"
    using s1 that by (auto simp: removed_def same_view_def s2_def seen_def split: option.splits)
  have i3: "ir_intended s3 = ir_intended s" "ir_failed s3 = ir_failed s" using s1 by (simp_all add: s3_def s2_def log_iroh_def)
  show ?thesis
  proof (cases "running s")
    case True
    then have "running s2" using s1 by (simp add: s2_def)
    then show ?thesis
      using True schedule_view [where jit = jit and p = p, OF s3 assms(2)] same_view_trans [OF v3 [OF True]] v3 [OF True] s3 i3
      unfolding rem sets_move_def by auto
  next
    case False
    then have "\<not> running s2" using s1 by (simp add: s2_def)
    moreover have "timer_inv s2" using s1 assms(1) False by (auto simp: s2_def timer_inv_def)
    ultimately show ?thesis using v2 [OF False] s1 unfolding rem sets_move_def by (simp add: s2_def)
  qed
qed

definition registered :: "string \<Rightarrow> nat \<Rightarrow> 'm iroh \<Rightarrow> 'm iroh" where
  "registered p k s =
     (let cycled = (stream_of s p \<noteq> None) in
      s\<lparr>ir_streams := AList.update p k (ir_streams s), ir_readLoops := insert p (ir_readLoops s),
        ir_tasks := ir_tasks s @ Reading p k # (if cycled then [Announcing p k] else []),
        ir_log := ir_log s @ [if cycled then PeerDisconnected p else PeerCandidate p]\<rparr>)"

lemma register_view:
  assumes "timer_inv s" "running s"
  shows "same_view (registered p k s) (registerStream jit p k s) \<and> timer_inv (registerStream jit p k s)
    \<and> ir_intended (registerStream jit p k s) = ir_intended s \<and> ir_failed (registerStream jit p k s) = ir_failed s"
proof -
  define cycled where "cycled = (stream_of s p \<noteq> None)"
  define s1 where "s1 = (if cycled then log_iroh (PeerDisconnected p) s else s)"
  define u where "u = s1\<lparr>ir_streams := AList.update p k (ir_streams s1)\<rparr>"
  define c where "c = clearReconnectState p u"
  define s2 where "s2 = notify OnConnect (\<lambda>h. NotifyConnect h p) (emitConnectionStateChange c)"
  have u: "timer_inv u" using assms(1) by (auto simp: u_def s1_def log_iroh_def timer_inv_def)
  have us: "ir_streams u = AList.update p k (ir_streams s)" "ir_readLoops u = ir_readLoops s" "ir_disconnected u = ir_disconnected s"
    "ir_stopped u = ir_stopped s" "ir_tasks u = ir_tasks s" "ir_peers u = ir_peers s" "ir_intended u = ir_intended s" "ir_failed u = ir_failed s"
    "seen u = seen s @ (if cycled then [PeerDisconnected p] else [])"
    by (auto simp: u_def s1_def log_iroh_def seen_def)
  have v: "same_view u s2" "timer_inv s2" "ir_intended s2 = ir_intended s" "ir_failed s2 = ir_failed s"
    using clear_view [OF u, of p] connection_view [of c] notify_view [of "\<lambda>h. NotifyConnect h p" "emitConnectionStateChange c" OnConnect] us
    by (auto simp: s2_def c_def intro: same_view_trans)
  have s2: "ir_streams s2 = AList.update p k (ir_streams s)" "ir_readLoops s2 = ir_readLoops s" "running s2"
    "others (ir_tasks s2) = others (ir_tasks s)" "ir_peers s2 = ir_peers s"
    "seen s2 = seen s @ (if cycled then [PeerDisconnected p] else [])"
    "ir_disconnected s2 = ir_disconnected s" "ir_stopped s2 = ir_stopped s"
    using v(1) us assms(2) by (simp_all add: same_view_def)
  have reg: "registerStream jit p k s =
      (let s3 = wait (Reading p k) (s2\<lparr>ir_readLoops := insert p (ir_readLoops s2)\<rparr>)
       in if cycled then wait (Announcing p k) s3 else log_iroh (PeerCandidate p) s3)"
  proof -
    have "registerStream jit p k s = (let s3 = startReadLoop jit p k s2 in if cycled then wait (Announcing p k) s3 else announce p k s3)"
      unfolding registerStream_def Let_def s2_def c_def u_def s1_def cycled_def using assms(2) by simp
    moreover have "startReadLoop jit p k s2 = wait (Reading p k) (s2\<lparr>ir_readLoops := insert p (ir_readLoops s2)\<rparr>)"
      using s2(3) by (simp add: startReadLoop_def read_loop_def)
    ultimately show ?thesis using s2(1,3) by (simp add: Let_def announce_def wait_def update_conv)
  qed
  have t: "timer_inv (registerStream jit p k s)"
    using v(2) timers_wait [of "ir_reconnect s2" "ir_tasks s2" "Reading p k"]
      timers_wait [of "ir_reconnect s2" "ir_tasks s2 @ [Reading p k]" "Announcing p k"] s2(3)
    by (auto simp: reg Let_def timer_inv_def wait_def log_iroh_def)
  have "same_view (registered p k s) (registerStream jit p k s)"
    using s2 assms(2) by (cases cycled) (simp_all add: reg Let_def registered_def cycled_def same_view_def wait_def log_iroh_def seen_def)
  then show ?thesis using t v(3,4) by (simp add: reg Let_def wait_def log_iroh_def)
qed

text \<open>Where the adapter does not run, a stream is closed at once.\<close>

lemma register_closed:
  assumes "timer_inv s" "\<not> running s" "ir_streams s = []" "jit p < RECONNECT_JITTER_MS"
  shows "same_view (s\<lparr>ir_readLoops := ir_readLoops s - {p}, ir_log := ir_log s @ [CloseStream k]\<rparr>) (registerStream jit p k s)
    \<and> timer_inv (registerStream jit p k s) \<and> sets_move p s (registerStream jit p k s)"
proof -
  define u where "u = s\<lparr>ir_streams := AList.update p k (ir_streams s)\<rparr>"
  define c where "c = clearReconnectState p u"
  define s2 where "s2 = notify OnConnect (\<lambda>h. NotifyConnect h p) (emitConnectionStateChange c)"
  define s3 where "s3 = s2\<lparr>ir_readLoops := insert p (ir_readLoops s2)\<rparr>"
  have u: "timer_inv u" using assms(1) by (simp add: u_def timer_inv_def)
  have v: "same_view u s2" "timer_inv s2" "ir_intended s2 = ir_intended s" "ir_failed s2 = ir_failed s"
    using clear_view [OF u, of p] connection_view [of c] notify_view [of "\<lambda>h. NotifyConnect h p" "emitConnectionStateChange c" OnConnect]
    by (auto simp: s2_def c_def u_def intro: same_view_trans)
  have s3: "timer_inv s3" "ir_streams s3 = [(p, k)]" "\<not> running s3" "ir_intended s3 = ir_intended s" "ir_failed s3 = ir_failed s"
    using v assms(2,3) by (auto simp: s3_def timer_inv_def same_view_def u_def)
  note r = remove_view [where jit = jit and p = p, OF s3(1) assms(4)]
  have reg: "registerStream jit p k s = removePeer jit p s3"
  proof -
    have e: "startReadLoop jit p k s2 = removePeer jit p s3"
      using s3(2,3) by (auto simp: startReadLoop_def read_loop_def loop_ends_def s3_def)
    have "\<not> running (removePeer jit p s3)" using r s3(3) by (simp add: same_view_def removed_def)
    then have "announce p k (removePeer jit p s3) = removePeer jit p s3" by (simp add: announce_def)
    then show ?thesis
      using assms(2,3) e unfolding registerStream_def Let_def s2_def c_def u_def by simp
  qed
  have "same_view (s\<lparr>ir_readLoops := ir_readLoops s - {p}, ir_log := ir_log s @ [CloseStream k]\<rparr>) (removed p s3)"
    using s3 v(1) assms(2,3) by (auto simp: removed_def same_view_def s3_def u_def seen_def)
  from same_view_trans [OF this conjunct1 [OF r]] show ?thesis using r s3(3,4,5) by (auto simp: reg sets_move_def)
qed

end
