(* ===== verification/IrohStreams.thy ===== *)
theory IrohStreams
  imports IrohProps
begin

text \<open>
  The invariant of the adapter's streams and of what the repository was told, for every operation.
\<close>

section \<open>Streams and what the repository was told\<close>

text \<open>Whether the last word to the repository about a peer was that it is there.\<close>

definition tell :: "string \<Rightarrow> 'm iroh_call \<Rightarrow> bool \<Rightarrow> bool" where
  "tell p c b = (case c of PeerCandidate q \<Rightarrow> q = p \<or> b | PeerDisconnected q \<Rightarrow> q \<noteq> p \<and> b | _ \<Rightarrow> b)"

definition announced :: "'m iroh_call list \<Rightarrow> string \<Rightarrow> bool" where
  "announced log p = fold (tell p) log False"

lemma tell_simps [simp]: "tell p (PeerCandidate q) b \<longleftrightarrow> q = p \<or> b" "tell p (PeerDisconnected q) b \<longleftrightarrow> q \<noteq> p \<and> b"
  "tell p (CloseStream k) b = b" "tell p (Dispatch a k) b = b"
  by (simp_all add: tell_def)

lemma tell_other [simp]: "\<not> relevant c \<Longrightarrow> tell p c b = b"
  by (cases c) (simp_all add: tell_def)

lemma announced_append [simp]: "announced [] p = False" "announced (xs @ ys) p = fold (tell p) ys (announced xs p)"
  by (simp_all add: announced_def)

lemma announced_seen: "announced (filter relevant log) p = announced log p"
  by (induction log rule: rev_induct) simp_all

definition stream_inv :: "'m iroh \<Rightarrow> bool" where
  "stream_inv s =
     ((\<forall>p k. stream_of s p = Some k \<longrightarrow> k < length (ir_peers s) \<and> ir_peers s ! k = p \<and> Reading p k \<in> set (others (ir_tasks s))
         \<and> p \<in> ir_readLoops s \<and> CloseStream k \<notin> set (seen s) \<and> (announced (seen s) p \<or> Announcing p k \<in> set (others (ir_tasks s)))) \<and>
      (\<forall>p k. Reading p k \<in> set (others (ir_tasks s)) \<longrightarrow> k < length (ir_peers s) \<and> ir_peers s ! k = p) \<and>
      (\<forall>k < length (ir_peers s). CloseStream k \<in> set (seen s) \<or> (\<exists>a. Dispatch a k \<in> set (seen s))
         \<or> Reading (ir_peers s ! k) k \<in> set (others (ir_tasks s))) \<and>
      (\<forall>k. CloseStream k \<in> set (seen s) \<longrightarrow> k < length (ir_peers s)) \<and>
      (\<forall>p. announced (seen s) p \<longrightarrow> stream_of s p \<noteq> None) \<and>
      (\<not> running s \<longrightarrow> ir_streams s = []))"

lemma stream_invD:
  assumes "stream_inv s"
  shows "stream_of s p = Some k \<Longrightarrow> k < length (ir_peers s) \<and> ir_peers s ! k = p \<and> Reading p k \<in> set (others (ir_tasks s))
         \<and> p \<in> ir_readLoops s \<and> CloseStream k \<notin> set (seen s) \<and> (announced (seen s) p \<or> Announcing p k \<in> set (others (ir_tasks s)))"
    "Reading p k \<in> set (others (ir_tasks s)) \<Longrightarrow> k < length (ir_peers s) \<and> ir_peers s ! k = p"
    "k < length (ir_peers s) \<Longrightarrow> CloseStream k \<notin> set (seen s) \<Longrightarrow> Reading (ir_peers s ! k) k \<notin> set (others (ir_tasks s))
       \<Longrightarrow> \<exists>a. Dispatch a k \<in> set (seen s)"
    "CloseStream k \<in> set (seen s) \<Longrightarrow> k < length (ir_peers s)"
    "announced (seen s) p \<Longrightarrow> stream_of s p \<noteq> None"
    "\<not> running s \<Longrightarrow> ir_streams s = []"
  using assms unfolding stream_inv_def by blast+

lemma stream_invI:
  assumes "\<And>p k. stream_of s p = Some k \<Longrightarrow> k < length (ir_peers s) \<and> ir_peers s ! k = p \<and> Reading p k \<in> set (others (ir_tasks s))
         \<and> p \<in> ir_readLoops s \<and> CloseStream k \<notin> set (seen s) \<and> (announced (seen s) p \<or> Announcing p k \<in> set (others (ir_tasks s)))"
    "\<And>p k. Reading p k \<in> set (others (ir_tasks s)) \<Longrightarrow> k < length (ir_peers s) \<and> ir_peers s ! k = p"
    "\<And>k. k < length (ir_peers s) \<Longrightarrow> CloseStream k \<in> set (seen s) \<or> (\<exists>a. Dispatch a k \<in> set (seen s))
         \<or> Reading (ir_peers s ! k) k \<in> set (others (ir_tasks s))"
    "\<And>k. CloseStream k \<in> set (seen s) \<Longrightarrow> k < length (ir_peers s)"
    "\<And>p. announced (seen s) p \<Longrightarrow> stream_of s p \<noteq> None"
    "\<not> running s \<Longrightarrow> ir_streams s = []"
  shows "stream_inv s"
  using assms unfolding stream_inv_def by blast

lemma stream_inv_view: "same_view s s' \<Longrightarrow> stream_inv s \<Longrightarrow> stream_inv s'"
  unfolding same_view_def stream_inv_def by simp

text \<open>
  A stream is loose when its read loop is not waiting: it just came up, or its read has just settled. The invariant
  but for the reading of a loose stream.
\<close>

definition loose_inv :: "string \<Rightarrow> nat \<Rightarrow> 'm iroh \<Rightarrow> bool" where
  "loose_inv p k s =
     (k < length (ir_peers s) \<and> ir_peers s ! k = p \<and>
      (\<forall>q j. stream_of s q = Some j \<longrightarrow> j < length (ir_peers s) \<and> ir_peers s ! j = q \<and> (j \<noteq> k \<longrightarrow> Reading q j \<in> set (others (ir_tasks s)))
         \<and> q \<in> ir_readLoops s \<and> CloseStream j \<notin> set (seen s) \<and> (announced (seen s) q \<or> Announcing q j \<in> set (others (ir_tasks s)))) \<and>
      (\<forall>q j. Reading q j \<in> set (others (ir_tasks s)) \<longrightarrow> j < length (ir_peers s) \<and> ir_peers s ! j = q) \<and>
      (\<forall>j < length (ir_peers s). j \<noteq> k \<longrightarrow> CloseStream j \<in> set (seen s) \<or> (\<exists>a. Dispatch a j \<in> set (seen s))
         \<or> Reading (ir_peers s ! j) j \<in> set (others (ir_tasks s))) \<and>
      (\<forall>j. CloseStream j \<in> set (seen s) \<longrightarrow> j < length (ir_peers s)) \<and>
      (\<forall>q. announced (seen s) q \<longrightarrow> stream_of s q \<noteq> None) \<and>
      (\<not> running s \<longrightarrow> ir_streams s = []))"

lemma loose_invD:
  assumes "loose_inv p k s"
  shows "k < length (ir_peers s)" "ir_peers s ! k = p"
    "stream_of s q = Some j \<Longrightarrow> j < length (ir_peers s) \<and> ir_peers s ! j = q \<and> (j \<noteq> k \<longrightarrow> Reading q j \<in> set (others (ir_tasks s)))
         \<and> q \<in> ir_readLoops s \<and> CloseStream j \<notin> set (seen s) \<and> (announced (seen s) q \<or> Announcing q j \<in> set (others (ir_tasks s)))"
    "Reading q j \<in> set (others (ir_tasks s)) \<Longrightarrow> j < length (ir_peers s) \<and> ir_peers s ! j = q"
    "j < length (ir_peers s) \<Longrightarrow> j \<noteq> k \<Longrightarrow> CloseStream j \<notin> set (seen s)
       \<Longrightarrow> Reading (ir_peers s ! j) j \<notin> set (others (ir_tasks s)) \<Longrightarrow> \<exists>a. Dispatch a j \<in> set (seen s)"
    "CloseStream j \<in> set (seen s) \<Longrightarrow> j < length (ir_peers s)"
    "announced (seen s) q \<Longrightarrow> stream_of s q \<noteq> None"
    "\<not> running s \<Longrightarrow> ir_streams s = []"
  using assms unfolding loose_inv_def by blast+

lemma loose_inv_view: "same_view s s' \<Longrightarrow> loose_inv p k s \<Longrightarrow> loose_inv p k s'"
  unfolding same_view_def loose_inv_def by simp

lemma seen_append: "seen (s\<lparr>ir_log := ir_log s @ ys\<rparr>) = seen s @ filter relevant ys"
  by (simp add: seen_def)

lemma call_fields [simp]: "ir_streams (log_iroh c s) = ir_streams s" "ir_readLoops (log_iroh c s) = ir_readLoops s"
  "ir_disconnected (log_iroh c s) = ir_disconnected s" "ir_stopped (log_iroh c s) = ir_stopped s" "ir_tasks (log_iroh c s) = ir_tasks s"
  "ir_peers (log_iroh c s) = ir_peers s" "seen (log_iroh c s) = (if relevant c then seen s @ [c] else seen s)"
  "ir_reconnect (log_iroh c s) = ir_reconnect s" "ir_intended (log_iroh c s) = ir_intended s" "ir_failed (log_iroh c s) = ir_failed s"
  by (simp_all add: log_iroh_def seen_def)

lemma wait_fields [simp]: "ir_streams (wait t s) = ir_streams s" "ir_readLoops (wait t s) = ir_readLoops s"
  "ir_disconnected (wait t s) = ir_disconnected s" "ir_stopped (wait t s) = ir_stopped s" "ir_tasks (wait t s) = ir_tasks s @ [t]"
  "ir_peers (wait t s) = ir_peers s" "seen (wait t s) = seen s" "ir_reconnect (wait t s) = ir_reconnect s"
  "ir_intended (wait t s) = ir_intended s" "ir_failed (wait t s) = ir_failed s"
  by (simp_all add: wait_def seen_def)

text \<open>It is taken care of by waiting again, by being closed, or by taking the peer down when it is the peer's.\<close>

lemma inv_reads:
  assumes "loose_inv p k s"
  shows "stream_inv (wait (Reading p k) s)"
proof -
  note D = loose_invD [OF assms]
  have "CloseStream j \<in> set (seen s) \<or> (\<exists>a. Dispatch a j \<in> set (seen s)) \<or> Reading (ir_peers s ! j) j \<in> set (others (ir_tasks s))"
    if "j < length (ir_peers s)" "j \<noteq> k" for j
    using D(5) [OF that] by blast
  then show ?thesis using D(1-4,6-8) by (intro stream_invI) auto
qed

lemma inv_closes:
  assumes "loose_inv p k s" "stream_of s p \<noteq> Some k"
  shows "stream_inv (log_iroh (CloseStream k) s)"
proof -
  note D = loose_invD [OF assms(1)]
  have "stream_of s q \<noteq> Some k" for q using D(3) [of q k] D(2) assms(2) by auto
  then show ?thesis using D by (intro stream_invI) auto
qed

lemma delete_nil [simp]: "AList.delete p [] = []"
  by simp

lemma inv_removed_loose:
  assumes "loose_inv p k s" "stream_of s p = Some k"
  shows "stream_inv (removed p s)"
proof -
  note D = loose_invD [OF assms(1)]
  have run: "running s" using D(8) assms(2) by auto
  have other: "stream_of s q \<noteq> Some k" if "q \<noteq> p" for q using D(3) [of q k] D(2) that by auto
  let ?s = "removed p s"
  have f: "ir_peers ?s = ir_peers s" "ir_tasks ?s = ir_tasks s" "ir_readLoops ?s = ir_readLoops s - {p}" "running ?s"
    "\<And>q. stream_of ?s q = (if q = p then None else stream_of s q)" "seen ?s = seen s @ [CloseStream k, PeerDisconnected p]"
    using run assms(2) by (simp_all add: removed_def seen_def delete_conv)
  show ?thesis
  proof (rule stream_invI, unfold f)
    fix q j assume "(if q = p then None else stream_of s q) = Some j"
    then have q: "stream_of s q = Some j" "q \<noteq> p" by (simp_all split: if_splits)
    then have "j \<noteq> k" using other by auto
    with D(3) [OF q(1)] q(2)
    show "j < length (ir_peers s) \<and> ir_peers s ! j = q \<and> Reading q j \<in> set (others (ir_tasks s)) \<and> q \<in> ir_readLoops s - {p}
        \<and> CloseStream j \<notin> set (seen s @ [CloseStream k, PeerDisconnected p])
        \<and> (announced (seen s @ [CloseStream k, PeerDisconnected p]) q \<or> Announcing q j \<in> set (others (ir_tasks s)))"
      by simp
  next
    fix j assume "j < length (ir_peers s)"
    then show "CloseStream j \<in> set (seen s @ [CloseStream k, PeerDisconnected p])
        \<or> (\<exists>a. Dispatch a j \<in> set (seen s @ [CloseStream k, PeerDisconnected p])) \<or> Reading (ir_peers s ! j) j \<in> set (others (ir_tasks s))"
      using D(5) [of j] by (cases "j = k") auto
  next
    fix q assume "announced (seen s @ [CloseStream k, PeerDisconnected p]) q"
    then show "(if q = p then None else stream_of s q) \<noteq> None" using D(7) [of q] by auto
  qed (use D(1,4,6) f(4) in auto)
qed

lemma inv_removed:
  assumes "stream_inv s"
  shows "stream_inv (removed p s)"
proof -
  note D = stream_invD [OF assms]
  show ?thesis
  proof (cases "stream_of s p")
    case None
    have "AList.delete p (ir_streams s) = ir_streams s" using None by (simp add: delete_idem map_of_eq_None_iff)
    moreover have "seen (removed p s) = seen s @ (if running s then [PeerDisconnected p] else [])"
      using None by (simp add: removed_def seen_def)
    ultimately show ?thesis using D None by (intro stream_invI) (auto simp: removed_def split: if_splits)
  next
    case (Some k)
    then have "loose_inv p k s" using D unfolding loose_inv_def by blast
    then show ?thesis using Some by (rule inv_removed_loose)
  qed
qed

text \<open>A stream that comes up while the adapter runs is registered, or else closed.\<close>

lemma inv_registered:
  assumes "stream_inv s" "running s" "k = length (ir_peers s)"
  shows "stream_inv (registered p k (s\<lparr>ir_peers := ir_peers s @ [p]\<rparr>))"
proof -
  note D = stream_invD [OF assms(1)]
  let ?c = "stream_of s p \<noteq> None"
  let ?s = "registered p k (s\<lparr>ir_peers := ir_peers s @ [p]\<rparr>)"
  let ?log = "seen s @ [if ?c then PeerDisconnected p else PeerCandidate p]"
  let ?ts = "others (ir_tasks s) @ Reading p k # (if ?c then [Announcing p k] else [])"
  have f: "ir_peers ?s = ir_peers s @ [p]" "others (ir_tasks ?s) = ?ts" "ir_readLoops ?s = insert p (ir_readLoops s)" "running ?s"
    "\<And>q. stream_of ?s q = (if q = p then Some k else stream_of s q)" "seen ?s = ?log"
    using assms(2) by (simp_all add: registered_def Let_def seen_def update_conv)
  have fresh: "CloseStream k \<notin> set (seen s)" using D(4) [of k] assms(3) by auto
  show ?thesis
  proof (rule stream_invI, unfold f)
    fix q j assume q: "(if q = p then Some k else stream_of s q) = Some j"
    show "j < length (ir_peers s @ [p]) \<and> (ir_peers s @ [p]) ! j = q \<and> Reading q j \<in> set ?ts \<and> q \<in> insert p (ir_readLoops s)
        \<and> CloseStream j \<notin> set ?log \<and> (announced ?log q \<or> Announcing q j \<in> set ?ts)"
    proof (cases "q = p")
      case True
      then show ?thesis using q fresh assms(3) by (auto simp: nth_append)
    next
      case False
      then show ?thesis using q D(1) [of q j] by (auto simp: nth_append)
    qed
  next
    fix q j assume "Reading q j \<in> set ?ts"
    then show "j < length (ir_peers s @ [p]) \<and> (ir_peers s @ [p]) ! j = q"
      using D(2) [of q j] assms(3) by (auto simp: nth_append split: if_splits)
  next
    fix j assume j: "j < length (ir_peers s @ [p])"
    show "CloseStream j \<in> set ?log \<or> (\<exists>a. Dispatch a j \<in> set ?log) \<or> Reading ((ir_peers s @ [p]) ! j) j \<in> set ?ts"
    proof (cases "j = k")
      case True
      then show ?thesis using assms(3) by simp
    next
      case False
      then show ?thesis using j D(3) [of j] assms(3) by (auto simp: nth_append)
    qed
  next
    fix j assume "CloseStream j \<in> set ?log"
    then show "j < length (ir_peers s @ [p])" using D(4) [of j] by (auto split: if_splits)
  next
    fix q assume "announced ?log q"
    then show "(if q = p then Some k else stream_of s q) \<noteq> None" using D(5) [of q] by (auto split: if_splits)
  qed (use f(4) in auto)
qed

lemma inv_fresh_gone:
  assumes "stream_inv s" "c = CloseStream (length (ir_peers s)) \<or> (\<exists>a. c = Dispatch a (length (ir_peers s)))" "seen s' = seen s @ [c]"
    "ir_streams s' = ir_streams s" "ir_readLoops s - D \<subseteq> ir_readLoops s'" "ir_streams s = [] \<or> D = {}" "running s' = running s"
    "others (ir_tasks s') = others (ir_tasks s)" "ir_peers s' = ir_peers s @ [p]"
  shows "stream_inv s'"
proof -
  note I = stream_invD [OF assms(1)]
  have not_closed: "j < length (ir_peers s) \<Longrightarrow> CloseStream j \<in> set (seen s @ [c]) \<longleftrightarrow> CloseStream j \<in> set (seen s)" for j
    using assms(2) by auto
  show ?thesis
  proof (rule stream_invI, unfold assms(3,4,7,8,9))
    fix q j assume "stream_of s q = Some j"
    then show "j < length (ir_peers s @ [p]) \<and> (ir_peers s @ [p]) ! j = q \<and> Reading q j \<in> set (others (ir_tasks s)) \<and> q \<in> ir_readLoops s'
        \<and> CloseStream j \<notin> set (seen s @ [c]) \<and> (announced (seen s @ [c]) q \<or> Announcing q j \<in> set (others (ir_tasks s)))"
      using I(1) [of q j] assms(2,5,6) not_closed [of j] by (auto simp: nth_append)
  next
    fix j assume j: "j < length (ir_peers s @ [p])"
    show "CloseStream j \<in> set (seen s @ [c]) \<or> (\<exists>a. Dispatch a j \<in> set (seen s @ [c])) \<or> Reading ((ir_peers s @ [p]) ! j) j \<in> set (others (ir_tasks s))"
    proof (cases "j < length (ir_peers s)")
      case True
      then show ?thesis using I(3) [of j] by (auto simp: nth_append)
    next
      case False
      then show ?thesis using j assms(2) by auto
    qed
  next
    fix q j assume "Reading q j \<in> set (others (ir_tasks s))"
    then show "j < length (ir_peers s @ [p]) \<and> (ir_peers s @ [p]) ! j = q" using I(2) [of q j] by (auto simp: nth_append)
  next
    fix j assume "CloseStream j \<in> set (seen s @ [c])"
    then show "j < length (ir_peers s @ [p])" using I(4) [of j] assms(2) by auto
  next
    fix q assume "announced (seen s @ [c]) q"
    then show "stream_of s q \<noteq> None" using I(5) [of q] assms(2) by auto
  next
    assume "\<not> running s"
    then show "ir_streams s = []" by (rule I(6))
  qed
qed

section \<open>Settling a task\<close>

definition off_list :: "nat \<Rightarrow> 'm iroh \<Rightarrow> 'm iroh" where
  "off_list i s = s\<lparr>ir_tasks := (ir_tasks s)[i := Settled]\<rparr>"

lemma off_list_fields [simp]: "ir_streams (off_list i s) = ir_streams s" "ir_readLoops (off_list i s) = ir_readLoops s"
  "ir_disconnected (off_list i s) = ir_disconnected s" "ir_stopped (off_list i s) = ir_stopped s"
  "ir_tasks (off_list i s) = (ir_tasks s)[i := Settled]" "ir_peers (off_list i s) = ir_peers s" "seen (off_list i s) = seen s"
  "ir_reconnect (off_list i s) = ir_reconnect s" "ir_intended (off_list i s) = ir_intended s" "ir_failed (off_list i s) = ir_failed s"
  by (simp_all add: off_list_def seen_def)

lemma off_list_loose:
  assumes "stream_inv s" "i < length (ir_tasks s)" "ir_tasks s ! i = Reading p k"
  shows "loose_inv p k (off_list i s)"
proof -
  note D = stream_invD [OF assms(1)]
  have "Reading p k \<in> set (others (ir_tasks s))" using assms(2,3) by (force simp: others_def in_set_conv_nth)
  then have k: "k < length (ir_peers s)" "ir_peers s ! k = p" using D(2) by blast+
  have keep: "t \<in> set (others (ir_tasks s)) \<Longrightarrow> t \<noteq> Reading p k \<Longrightarrow> t \<in> set (others ((ir_tasks s)[i := Settled]))" for t
    using others_settle [of t "ir_tasks s" i] assms(3) by simp
  have r: "Reading q j \<in> set (others ((ir_tasks s)[i := Settled]))" if "Reading q j \<in> set (others (ir_tasks s))" "j \<noteq> k" for q j
    using keep [OF that(1)] that(2) by simp
  have a: "Announcing q j \<in> set (others ((ir_tasks s)[i := Settled]))" if "Announcing q j \<in> set (others (ir_tasks s))" for q j
    using keep [OF that] by simp
  have 3: "CloseStream j \<in> set (seen s) \<or> (\<exists>a. Dispatch a j \<in> set (seen s)) \<or> Reading (ir_peers s ! j) j \<in> set (others ((ir_tasks s)[i := Settled]))"
    if "j < length (ir_peers s)" "j \<noteq> k" for j
    using D(3) [OF that(1)] r [OF _ that(2)] by blast
  let ?ts = "others ((ir_tasks s)[i := Settled])"
  have 1: "j < length (ir_peers s) \<and> ir_peers s ! j = q \<and> (j \<noteq> k \<longrightarrow> Reading q j \<in> set ?ts) \<and> q \<in> ir_readLoops s
      \<and> CloseStream j \<notin> set (seen s) \<and> (announced (seen s) q \<or> Announcing q j \<in> set ?ts)" if "stream_of s q = Some j" for q j
    using D(1) [OF that] r a by blast
  have 2: "j < length (ir_peers s) \<and> ir_peers s ! j = q" if "Reading q j \<in> set ?ts" for q j
    using D(2) [OF others_settled_sub [OF that]] .
  show ?thesis
    unfolding loose_inv_def off_list_fields using k 1 2 3 D(4-6) by blast
qed

lemma off_list_view: "i < length (ir_tasks s) \<Longrightarrow> \<not> stream_task (ir_tasks s ! i) \<Longrightarrow> same_view s (off_list i s)"
  by (simp add: same_view_def others_clear)

lemma off_list_timer: "timer_inv s \<Longrightarrow> \<not> retry_task (ir_tasks s ! i) \<Longrightarrow> timer_inv (off_list i s)"
  by (simp add: timer_inv_def timers_settle)

lemma inv_announced:
  assumes "stream_inv s" "i < length (ir_tasks s)" "ir_tasks s ! i = Announcing p k"
  shows "stream_inv (announce p k (off_list i s))"
proof -
  note D = stream_invD [OF assms(1)]
  have keep: "t \<in> set (others (ir_tasks s)) \<Longrightarrow> t \<noteq> Announcing p k \<Longrightarrow> t \<in> set (others ((ir_tasks s)[i := Settled]))" for t
    using others_settle [of t "ir_tasks s" i] assms(3) by simp
  have r: "Reading q j \<in> set (others ((ir_tasks s)[i := Settled]))" if "Reading q j \<in> set (others (ir_tasks s))" for q j
    using keep [OF that] by simp
  have 3: "CloseStream j \<in> set (seen s) \<or> (\<exists>a. Dispatch a j \<in> set (seen s)) \<or> Reading (ir_peers s ! j) j \<in> set (others ((ir_tasks s)[i := Settled]))"
    if "j < length (ir_peers s)" for j
    using D(3) [OF that] r by blast
  have sub: "j < length (ir_peers s) \<and> ir_peers s ! j = q" if "Reading q j \<in> set (others ((ir_tasks s)[i := Settled]))" for q j
    using D(2) [OF others_settled_sub [OF that]] .
  show ?thesis
  proof (cases "running s \<and> stream_of s p = Some k")
    case True
    have e: "announce p k (off_list i s) = log_iroh (PeerCandidate p) (off_list i s)" using True by (simp add: announce_def)
    have a: "Announcing q j \<in> set (others ((ir_tasks s)[i := Settled]))" if "Announcing q j \<in> set (others (ir_tasks s))" "q \<noteq> p" for q j
      using keep [OF that(1)] that(2) by simp
    let ?s = "log_iroh (PeerCandidate p) (off_list i s)"
    have f: "ir_streams ?s = ir_streams s" "ir_readLoops ?s = ir_readLoops s" "ir_disconnected ?s = ir_disconnected s"
      "ir_stopped ?s = ir_stopped s" "ir_tasks ?s = (ir_tasks s)[i := Settled]" "ir_peers ?s = ir_peers s"
      "seen ?s = seen s @ [PeerCandidate p]"
      by simp_all
    show ?thesis unfolding e
    proof (rule stream_invI, unfold f)
      fix q j assume q: "stream_of s q = Some j"
      show "j < length (ir_peers s) \<and> ir_peers s ! j = q \<and> Reading q j \<in> set (others ((ir_tasks s)[i := Settled])) \<and> q \<in> ir_readLoops s
          \<and> CloseStream j \<notin> set (seen s @ [PeerCandidate p])
          \<and> (announced (seen s @ [PeerCandidate p]) q \<or> Announcing q j \<in> set (others ((ir_tasks s)[i := Settled])))"
        using D(1) [OF q] r a [of q j] by auto
    next
      fix j assume "j < length (ir_peers s)"
      then show "CloseStream j \<in> set (seen s @ [PeerCandidate p]) \<or> (\<exists>a. Dispatch a j \<in> set (seen s @ [PeerCandidate p]))
          \<or> Reading (ir_peers s ! j) j \<in> set (others ((ir_tasks s)[i := Settled]))"
        using 3 by auto
    next
      fix q assume "announced (seen s @ [PeerCandidate p]) q"
      then show "stream_of s q \<noteq> None" using D(5) [of q] True by auto
    qed (use D(4,6) sub in auto)
  next
    case False
    have e: "announce p k (off_list i s) = off_list i s" using False by (auto simp: announce_def)
    have a: "Announcing q j \<in> set (others ((ir_tasks s)[i := Settled]))"
      if "stream_of s q = Some j" "Announcing q j \<in> set (others (ir_tasks s))" for q j
    proof (rule keep [OF that(2)])
      have "running s" using D(6) that(1) by auto
      then show "Announcing q j \<noteq> Announcing p k" using False that(1) by auto
    qed
    show ?thesis unfolding e
    proof (rule stream_invI, unfold off_list_fields)
      fix q j assume q: "stream_of s q = Some j"
      show "j < length (ir_peers s) \<and> ir_peers s ! j = q \<and> Reading q j \<in> set (others ((ir_tasks s)[i := Settled])) \<and> q \<in> ir_readLoops s
          \<and> CloseStream j \<notin> set (seen s) \<and> (announced (seen s) q \<or> Announcing q j \<in> set (others ((ir_tasks s)[i := Settled])))"
        using D(1) [OF q] r a [OF q] by blast
    qed (use D(4,5,6) sub 3 in blast)+
  qed
qed

end
