(* ===== verification/IrohInvariant.thy ===== *)
theory IrohInvariant
  imports IrohStreams
begin

text \<open>
  The invariant of the network adapter: its timers, its streams and its two sets of peers. A calm operation changes
  nothing of the streams; the others are registering, removing, stopping and the read loops.
\<close>

section \<open>The invariant\<close>

definition sets_inv :: "'m iroh \<Rightarrow> bool" where
  "sets_inv s = (set (ir_intended s) \<inter> set (ir_failed s) = {} \<and> (\<not> running s \<longrightarrow> ir_failed s = []) \<and> distinct (ir_failed s) \<and>
     distinct (map fst (ir_streams s)))"

definition adapter_inv :: "'m iroh \<Rightarrow> bool" where
  "adapter_inv s = (timer_inv s \<and> stream_inv s \<and> sets_inv s)"

definition calm :: "'m iroh \<Rightarrow> 'm iroh \<Rightarrow> bool" where
  "calm s s' = (timer_inv s \<longrightarrow> sets_inv s \<longrightarrow> same_view s s' \<and> timer_inv s' \<and> sets_inv s')"

lemma calm_refl: "calm s s"
  by (simp add: calm_def)

lemma calm_trans [trans]: "calm s s' \<Longrightarrow> calm s' s'' \<Longrightarrow> calm s s''"
  unfolding calm_def by (blast intro: same_view_trans)

lemma calm_inv: "calm s s' \<Longrightarrow> adapter_inv s \<Longrightarrow> adapter_inv s'"
  unfolding calm_def adapter_inv_def by (blast intro: stream_inv_view)

lemma calm_if: "(b \<Longrightarrow> calm s x) \<Longrightarrow> (\<not> b \<Longrightarrow> calm s y) \<Longrightarrow> calm s (if b then x else y)"
  by simp

lemma calm_fold: "(\<And>x s. calm s (f x s)) \<Longrightarrow> calm s (fold f xs s)"
  by (induction xs arbitrary: s) (auto intro: calm_refl calm_trans)

text \<open>Fields nothing here depends on.\<close>

lemma calm_fields: "calm s (s\<lparr>ir_midden := a\<rparr>)" "calm s (s\<lparr>ir_ready := b\<rparr>)" "calm s (s\<lparr>ir_acceptRunning := b\<rparr>)"
  "calm s (s\<lparr>ir_identitySub := b\<rparr>)" "calm s (s\<lparr>ir_alpnHandlers := h\<rparr>)" "calm s (s\<lparr>ir_listeners := l\<rparr>)"
  by (simp_all add: calm_def same_view_def timer_inv_def sets_inv_def seen_def)

lemma sets_same: "same_view s s' \<Longrightarrow> ir_intended s' = ir_intended s \<Longrightarrow> ir_failed s' = ir_failed s \<Longrightarrow> sets_inv s \<Longrightarrow> sets_inv s'"
  by (simp add: sets_inv_def same_view_def)

lemma sets_moved:
  assumes "sets_move p s s'" "running s' = running s" "distinct (map fst (ir_streams s'))" "sets_inv s"
  shows "sets_inv s'"
  using assms by (auto simp: sets_inv_def sets_move_def distinct_set_add)

lemma calm_connection: "calm s (emitConnectionStateChange s)"
  using connection_view [of s] sets_same by (auto simp: calm_def)

lemma calm_endpoint: "calm s (setEndpointState e s)"
  using endpoint_view [where s = s and e = e] sets_same by (auto simp: calm_def)

lemma calm_clear: "calm s (clearReconnectState p s)"
  using clear_view [of s p] sets_same by (auto simp: calm_def)

lemma calm_schedule:
  assumes "jit p < RECONNECT_JITTER_MS"
  shows "calm s (scheduleReconnect jit p s)"
  unfolding calm_def
proof (intro impI conjI)
  assume "timer_inv s" "sets_inv s"
  note v = schedule_view [where jit = jit and p = p, OF this(1) assms]
  then show "same_view s (scheduleReconnect jit p s)" "timer_inv (scheduleReconnect jit p s)" by blast+
  show "sets_inv (scheduleReconnect jit p s)"
    by (rule sets_moved [of p s]) (use v \<open>sets_inv s\<close> in \<open>auto simp: same_view_def sets_move_def sets_inv_def\<close>)
qed

lemma calm_wait: "\<not> stream_task t \<Longrightarrow> \<not> retry_task t \<Longrightarrow> calm s (wait t s)"
  by (auto simp: calm_def same_view_def timer_inv_def sets_inv_def timers_wait)

lemma calm_call: "\<not> relevant c \<Longrightarrow> calm s (log_iroh c s)"
  by (simp add: calm_def same_view_def timer_inv_def sets_inv_def)

lemma calm_ensure: "calm s (ensureMidden k s)"
  by (cases "ir_midden s") (simp_all add: ensureMidden_def calm_wait)

lemma calm_dial: "calm s (dial p kind n s)"
  unfolding dial_def by (rule calm_trans [OF calm_call calm_wait]) simp_all

lemma calm_wants: "calm s (s\<lparr>ir_intended := set_add p (ir_intended s), ir_failed := removeAll p (ir_failed s)\<rparr>)"
  by (auto simp: calm_def same_view_def timer_inv_def sets_inv_def seen_def set_add_def distinct_removeAll)

lemma calm_drops: "calm s (s\<lparr>ir_intended := removeAll p (ir_intended s), ir_failed := removeAll p (ir_failed s)\<rparr>)"
  by (auto simp: calm_def same_view_def timer_inv_def sets_inv_def seen_def distinct_removeAll)

lemmas calm_rules = calm_refl calm_fields calm_connection calm_endpoint calm_clear calm_call calm_ensure calm_dial calm_wants calm_drops

lemma calm_addPeer: "calm s (addPeer p s)"
proof -
  let ?s1 = "clearReconnectState p (emitConnectionStateChange (s\<lparr>ir_intended := set_add p (ir_intended s), ir_failed := removeAll p (ir_failed s)\<rparr>))"
  have "calm s ?s1" by (rule calm_trans [OF calm_trans [OF calm_wants calm_connection] calm_clear])
  then have "calm s (ensureMidden (ForAdd p) ?s1)" by (rule calm_trans [OF _ calm_ensure])
  with \<open>calm s ?s1\<close> show ?thesis by (simp add: addPeer_def Let_def calm_refl)
qed

lemma calm_accept_start: "calm s (startAcceptLoop s)"
  unfolding startAcceptLoop_def by (rule calm_if) (rule calm_refl, rule calm_trans [OF calm_fields(3) calm_ensure])

lemma calm_accept_loop: "calm s (accept_loop n s)"
  unfolding accept_loop_def by (rule calm_if) (simp_all add: calm_wait calm_fields)

lemma calm_initialize: "calm s (initialize r s)"
  unfolding initialize_def by (rule calm_trans [OF calm_endpoint calm_ensure])

lemma calm_initialized: "calm s (initialized r s)"
proof -
  have "calm s (setEndpointState EpOnline (startAcceptLoop s))" by (rule calm_trans [OF calm_accept_start calm_endpoint])
  moreover have "calm s1 (fold addPeer ps s1)" for ps and s1 :: "'a iroh" by (rule calm_fold) (rule calm_addPeer)
  ultimately show ?thesis unfolding initialized_def Let_def by (auto intro: calm_trans)
qed

lemma calm_with_node: "calm s (with_node n k s)"
  by (cases k) (simp_all add: calm_initialized calm_accept_loop calm_dial calm_refl)

lemma calm_without_node: "(\<And>p. jit p < RECONNECT_JITTER_MS) \<Longrightarrow> calm s (without_node jit k s)"
  by (cases k) (simp_all add: calm_endpoint calm_fields calm_refl calm_schedule)

section \<open>Streams come and go\<close>

lemma inv_remove:
  assumes "adapter_inv s" "jit p < RECONNECT_JITTER_MS"
  shows "adapter_inv (removePeer jit p s)"
proof -
  have a: "timer_inv s" "stream_inv s" "sets_inv s" using assms(1) by (simp_all add: adapter_inv_def)
  note v = remove_view [where jit = jit and p = p, OF a(1) assms(2)]
  have "sets_inv (removePeer jit p s)"
    by (rule sets_moved [of p s]) (use v a(3) in \<open>auto simp: same_view_def removed_def sets_inv_def intro: distinct_delete\<close>)
  moreover have "stream_inv (removePeer jit p s)" by (rule stream_inv_view [OF conjunct1 [OF v] inv_removed [OF a(2)]])
  ultimately show ?thesis using v by (simp add: adapter_inv_def)
qed

text \<open>The invariant with a loose stream.\<close>

definition loose :: "string \<Rightarrow> nat \<Rightarrow> 'm iroh \<Rightarrow> bool" where
  "loose p k s = (timer_inv s \<and> loose_inv p k s \<and> sets_inv s)"

lemma loose_ends:
  assumes "loose p k s" "jit p < RECONNECT_JITTER_MS"
  shows "adapter_inv (loop_ends jit p k s)"
proof -
  have a: "timer_inv s" "loose_inv p k s" "sets_inv s" using assms(1) by (simp_all add: loose_def)
  show ?thesis
  proof (cases "stream_of s p = Some k")
    case True
    note v = remove_view [where jit = jit and p = p, OF a(1) assms(2)]
    have "sets_inv (removePeer jit p s)"
      by (rule sets_moved [of p s]) (use v a(3) in \<open>auto simp: same_view_def removed_def sets_inv_def intro: distinct_delete\<close>)
    moreover have "stream_inv (removePeer jit p s)" by (rule stream_inv_view [OF conjunct1 [OF v] inv_removed_loose [OF a(2) True]])
    ultimately show ?thesis using True v by (simp add: adapter_inv_def loop_ends_def)
  next
    case False
    have "timer_inv (log_iroh (CloseStream k) s)" "sets_inv (log_iroh (CloseStream k) s)"
      using a by (simp_all add: timer_inv_def sets_inv_def)
    then show ?thesis using False inv_closes [OF a(2) False] by (simp add: adapter_inv_def loop_ends_def)
  qed
qed

lemma loose_loop:
  assumes "loose p k s" "jit p < RECONNECT_JITTER_MS"
  shows "adapter_inv (read_loop jit p k s)"
proof (cases "p \<in> ir_readLoops s \<and> running s")
  case True
  have a: "timer_inv s" "loose_inv p k s" "sets_inv s" using assms(1) by (simp_all add: loose_def)
  then have "timer_inv (wait (Reading p k) s)" "sets_inv (wait (Reading p k) s)"
    by (simp_all add: timer_inv_def sets_inv_def timers_wait)
  then show ?thesis using True inv_reads [OF a(2)] by (simp add: read_loop_def adapter_inv_def)
next
  case False
  then show ?thesis using loose_ends [where jit = jit, OF assms] by (auto simp: read_loop_def)
qed

lemma loose_call: "\<not> relevant c \<Longrightarrow> loose p k s \<Longrightarrow> loose p k (log_iroh c s)"
  by (auto simp: loose_def timer_inv_def sets_inv_def same_view_def intro: loose_inv_view)

lemma inv_comes_up:
  assumes "adapter_inv s" "jit p < RECONNECT_JITTER_MS"
  shows "adapter_inv (dialled jit p s)"
proof -
  have a: "timer_inv s" "stream_inv s" "sets_inv s" using assms(1) by (simp_all add: adapter_inv_def)
  let ?k = "length (ir_peers s)"
  let ?s = "s\<lparr>ir_peers := ir_peers s @ [p]\<rparr>"
  have d: "dialled jit p s = registerStream jit p ?k ?s" by (simp add: dialled_def new_stream_def)
  have t: "timer_inv ?s" "sets_inv ?s" using a by (simp_all add: timer_inv_def sets_inv_def)
  show ?thesis
  proof (cases "running s")
    case True
    then have r: "running ?s" by simp
    note v = register_view [where jit = jit and p = p and k = ?k, OF t(1) r]
    have "sets_inv (registerStream jit p ?k ?s)"
      using v t(2) True by (auto simp: sets_inv_def same_view_def registered_def Let_def intro: distinct_update)
    moreover have "stream_inv (registerStream jit p ?k ?s)"
      by (rule stream_inv_view [OF conjunct1 [OF v] inv_registered [OF a(2) True refl]])
    ultimately show ?thesis using v by (simp add: adapter_inv_def d)
  next
    case False
    then have n: "ir_streams s = []" using stream_invD(6) [OF a(2)] by blast
    then have r: "\<not> running ?s" "ir_streams ?s = []" using False by simp_all
    note v = register_closed [where jit = jit and p = p and k = ?k, OF t(1) r assms(2)]
    have "sets_inv (registerStream jit p ?k ?s)"
      by (rule sets_moved [of p ?s]) (use v t(2) n in \<open>auto simp: same_view_def\<close>)
    moreover have "stream_inv (?s\<lparr>ir_readLoops := ir_readLoops ?s - {p}, ir_log := ir_log ?s @ [CloseStream ?k]\<rparr>)"
      by (rule inv_fresh_gone [OF a(2), where c = "CloseStream ?k" and D = "{p}" and p = p]) (use n in \<open>simp_all add: seen_def\<close>)
    ultimately show ?thesis using v stream_inv_view [OF conjunct1 [OF v]] by (simp add: adapter_inv_def d)
  qed
qed

lemma inv_accepted:
  assumes "adapter_inv s" "jit p < RECONNECT_JITTER_MS"
  shows "adapter_inv (accepted opts jit alpn p s)"
proof -
  have a: "timer_inv s" "stream_inv s" "sets_inv s" using assms(1) by (simp_all add: adapter_inv_def)
  let ?s = "s\<lparr>ir_peers := ir_peers s @ [p]\<rparr>"
  have gone: "adapter_inv (log_iroh c ?s)" if "c = CloseStream (length (ir_peers s)) \<or> (\<exists>a. c = Dispatch a (length (ir_peers s)))" for c
  proof -
    have "relevant c" using that by auto
    moreover have "seen ?s = seen s" by (simp add: seen_def)
    ultimately have "stream_inv (log_iroh c ?s)"
      by (intro inv_fresh_gone [OF a(2) that, where D = "{}" and p = p]) simp_all
    then show ?thesis using a by (simp add: adapter_inv_def timer_inv_def sets_inv_def)
  qed
  show ?thesis
    using inv_comes_up [where jit = jit, OF assms] gone by (auto simp: accepted_def new_stream_def dialled_def)
qed

section \<open>Stopping\<close>

lemma tell_closed: "fold (tell q) (concat (map (\<lambda>(p, k). [CloseStream k, PeerDisconnected p]) S)) b \<longleftrightarrow> b \<and> q \<notin> fst ` set S"
  by (induction S arbitrary: b) auto

lemma announced_closed:
  "announced (log @ concat (map (\<lambda>(p, k). [CloseStream k, PeerDisconnected p]) S)) q \<longleftrightarrow> announced log q \<and> q \<notin> fst ` set S"
  by (simp add: tell_closed)

lemma filter_closed: "filter relevant (concat (map (\<lambda>(p, k). [CloseStream k, PeerDisconnected p]) S)) = concat (map (\<lambda>(p, k). [CloseStream k, PeerDisconnected p]) S)"
  by (induction S) auto

lemma inv_halted:
  assumes "adapter_inv s" "seen s' = seen s @ concat (map (\<lambda>(p, k). [CloseStream k, PeerDisconnected p]) (ir_streams s))"
    "ir_streams s' = []" "ir_reconnect s' = []" "ir_tasks s' = fold clear_timer (map (rt_timer \<circ> snd) (ir_reconnect s)) (ir_tasks s)"
    "ir_peers s' = ir_peers s" "\<not> running s'" "ir_failed s' = []"
  shows "adapter_inv s'"
proof -
  have a: "timer_inv s" "stream_inv s" "sets_inv s" using assms(1) by (simp_all add: adapter_inv_def)
  note D = stream_invD [OF a(2)]
  have T: "timers (ir_reconnect s) (ir_tasks s)" using a(1) by (simp add: timer_inv_def)
  have oth: "others (ir_tasks s') = others (ir_tasks s)" unfolding assms(5) by (rule timers_clear_all(2) [OF T])
  have closed: "k < length (ir_peers s)" if "(p, k) \<in> set (ir_streams s)" for p k
  proof -
    have "stream_of s p = Some k" using that a(3) by (simp add: sets_inv_def)
    then show ?thesis using D(1) by blast
  qed
  have none: "\<not> announced (seen s') q" for q
    unfolding assms(2) announced_closed using D(5) [of q] by (auto simp: map_of_eq_None_iff)
  have "stream_inv s'"
  proof (rule stream_invI, unfold assms(3,6) oth)
    fix j assume "j < length (ir_peers s)"
    then show "CloseStream j \<in> set (seen s') \<or> (\<exists>a. Dispatch a j \<in> set (seen s')) \<or> Reading (ir_peers s ! j) j \<in> set (others (ir_tasks s))"
      using D(3) [of j] unfolding assms(2) by auto
  next
    fix j assume "CloseStream j \<in> set (seen s')"
    then show "j < length (ir_peers s)" using D(4) [of j] closed unfolding assms(2) by auto
  qed (use D(2) none in auto)
  moreover have "timer_inv s'" using timers_clear_all(1) [OF T] assms(4,5) by (simp add: timer_inv_def)
  moreover have "sets_inv s'" using assms(3,8) by (simp add: sets_inv_def)
  ultimately show ?thesis by (simp add: adapter_inv_def)
qed

lemma inv_stop:
  assumes "adapter_inv s"
  shows "adapter_inv (stop s)"
proof (cases "running s")
  case True
  let ?s1 = "(clear_retries ((close_streams (s\<lparr>ir_stopped := True\<rparr>))\<lparr>ir_streams := [], ir_readLoops := {}, ir_failed := []\<rparr>))\<lparr>ir_midden := None\<rparr>"
  have "adapter_inv ?s1"
    by (rule inv_halted [OF assms]) (simp_all add: clear_retries_def close_streams_def seen_def filter_closed)
  then have "adapter_inv (emitConnectionStateChange (setEndpointState EpOff ?s1))"
    using calm_inv [OF calm_trans [OF calm_endpoint calm_connection]] by blast
  then show ?thesis using True by (simp add: stop_def Let_def)
qed (use assms in \<open>simp add: stop_def\<close>)

lemma inv_disconnect:
  assumes "adapter_inv s"
  shows "adapter_inv (disconnect s)"
proof -
  let ?s1 = "(clear_retries ((close_streams (s\<lparr>ir_disconnected := True\<rparr>))\<lparr>ir_streams := [], ir_readLoops := {}, ir_intended := [],
      ir_failed := [], ir_alpnHandlers := {}\<rparr>))\<lparr>ir_listeners := [], ir_identitySub := False\<rparr>"
  have "adapter_inv ?s1"
    by (rule inv_halted [OF assms]) (simp_all add: clear_retries_def close_streams_def seen_def filter_closed)
  then have "adapter_inv (log_iroh EmitClose (setEndpointState EpOff ?s1))"
    using calm_inv [OF calm_trans [OF calm_endpoint calm_call [of EmitClose]]] by simp
  then show ?thesis by (simp add: disconnect_def Let_def)
qed

end
