(* ===== verification/IrohReach.thy ===== *)
theory IrohReach
  imports IrohInvariant
begin

text \<open>
  Every step of the network adapter keeps its invariant: each event, and each way a task can settle.
\<close>

section \<open>Peers wanted, forgotten and tried again\<close>

lemma adapter_same:
  "adapter_inv s \<Longrightarrow> same_view s s' \<Longrightarrow> timer_inv s' \<Longrightarrow> ir_intended s' = ir_intended s \<Longrightarrow> ir_failed s' = ir_failed s \<Longrightarrow> adapter_inv s'"
  unfolding adapter_inv_def by (blast intro: stream_inv_view sets_same)

lemma inv_forget:
  assumes "adapter_inv s" "jit p < RECONNECT_JITTER_MS"
  shows "adapter_inv (forgetPeer jit p s)"
  unfolding forgetPeer_def
  by (rule calm_inv [OF calm_connection inv_remove [where jit = jit, OF calm_inv [OF calm_trans [OF calm_drops calm_clear] assms(1)] assms(2)]])

lemma inv_retry:
  assumes "adapter_inv s" "jit p < RECONNECT_JITTER_MS" "p \<notin> set (ir_failed s)"
  shows "adapter_inv (scheduleReconnect jit p (s\<lparr>ir_intended := set_add p (ir_intended s)\<rparr>))
    \<and> set (ir_failed (scheduleReconnect jit p (s\<lparr>ir_intended := set_add p (ir_intended s)\<rparr>))) \<subseteq> insert p (set (ir_failed s))"
proof -
  let ?s = "s\<lparr>ir_intended := set_add p (ir_intended s)\<rparr>"
  have a: "adapter_inv ?s"
    using assms(1,3) by (auto simp: adapter_inv_def timer_inv_def sets_inv_def intro: stream_inv_view simp: same_view_def seen_def)
  then have "timer_inv ?s" by (simp add: adapter_inv_def)
  from schedule_view [where jit = jit and p = p, OF this assms(2)]
  have "set (ir_failed (scheduleReconnect jit p ?s)) \<subseteq> insert p (set (ir_failed s))" by auto
  then show ?thesis using calm_inv [OF calm_schedule [where jit = jit and p = p, OF assms(2)] a] by blast
qed

lemma inv_retries:
  assumes "adapter_inv s" "\<And>p. jit p < RECONNECT_JITTER_MS" "distinct ps" "set ps \<inter> set (ir_failed s) = {}"
  shows "adapter_inv (fold (\<lambda>p s. scheduleReconnect jit p (s\<lparr>ir_intended := set_add p (ir_intended s)\<rparr>)) ps s)"
  using assms(1,3,4)
proof (induction ps arbitrary: s)
  case (Cons p ps)
  have "p \<notin> set (ir_failed s)" using Cons.prems by auto
  note r = inv_retry [where jit = jit and p = p, OF Cons.prems(1) assms(2) this]
  show ?case using Cons.prems r by (auto intro!: Cons.IH)
qed simp

lemma inv_retryFailed:
  assumes "adapter_inv s" "\<And>p. jit p < RECONNECT_JITTER_MS"
  shows "adapter_inv (retryFailedPeers jit s)"
proof -
  let ?s = "s\<lparr>ir_failed := []\<rparr>"
  have a: "adapter_inv ?s"
    using assms(1) by (auto simp: adapter_inv_def timer_inv_def sets_inv_def intro: stream_inv_view simp: same_view_def seen_def)
  have d: "distinct (ir_failed s)" using assms(1) by (simp add: adapter_inv_def sets_inv_def)
  show ?thesis
    using assms(1) calm_inv [OF calm_connection inv_retries [where jit = jit, OF a assms(2) d]] by (simp add: retryFailedPeers_def)
qed

section \<open>A reconnect timer\<close>

lemma inv_fires:
  assumes "adapter_inv s" "i < length (ir_tasks s)" "ir_tasks s ! i = RetryTimer p d"
  shows "adapter_inv (timer_fires p (off_list i s))"
proof -
  have T: "timers (ir_reconnect s) (ir_tasks s)" and run: "ir_reconnect s \<noteq> [] \<Longrightarrow> running s"
    using assms(1) by (auto simp: adapter_inv_def timer_inv_def)
  obtain st where st: "retry_of s p = Some st" "rt_timer st = Some i" using timersD(3) [OF T assms(2,3)] by auto
  then have "ir_reconnect s \<noteq> []" by auto
  then have r: "running s" using run by blast
  have att: "rt_attempt st < RECONNECT_MAX_ATTEMPTS" using timersD(2) [OF T st] by blast
  define st0 where "st0 = st\<lparr>rt_timer := None\<rparr>"
  define s1 where "s1 = (off_list i s)\<lparr>ir_reconnect := AList.update p st0 (ir_reconnect s)\<rparr>"
  have e: "timer_fires p (off_list i s) = attemptReconnect p s1" using st by (simp add: timer_fires_def s1_def st0_def)
  have T1: "timers (ir_reconnect s1) (ir_tasks s1)" using timers_fire [OF T assms(2,3) st(1)] by (simp add: s1_def st0_def)
  have v: "same_view s s1" using assms(2,3) by (simp add: s1_def same_view_def seen_def others_clear off_list_def)
  have a1: "adapter_inv s1"
    by (rule adapter_same [OF assms(1) v]) (use T1 r in \<open>simp_all add: timer_inv_def s1_def\<close>)
  have st1: "retry_of s1 p = Some st0" "rt_timer st0 = None" "rt_attempt st0 < RECONNECT_MAX_ATTEMPTS"
    using att by (simp_all add: s1_def st0_def update_conv)
  let ?s2 = "s1\<lparr>ir_reconnect := AList.update p (st0\<lparr>rt_attempt := Suc (rt_attempt st0)\<rparr>) (ir_reconnect s1)\<rparr>"
  have "timers (ir_reconnect ?s2) (ir_tasks ?s2)" using timers_count [OF T1 st1] by simp
  then have "adapter_inv ?s2"
    by (intro adapter_same [OF a1]) (use r in \<open>simp_all add: timer_inv_def same_view_def seen_def s1_def\<close>)
  then have "adapter_inv (ensureMidden (ForReconnect p) ?s2)" by (rule calm_inv [OF calm_ensure])
  then show ?thesis
    unfolding e attemptReconnect_def using a1 st1(1) calm_inv [OF calm_clear a1, of p] by simp
qed

section \<open>A task settles\<close>

lemma calm_off:
  assumes "i < length (ir_tasks s)" "\<not> stream_task (ir_tasks s ! i)" "\<not> retry_task (ir_tasks s ! i)"
  shows "calm s (off_list i s)"
  unfolding calm_def
proof (intro impI conjI)
  assume "timer_inv s" "sets_inv s"
  show v: "same_view s (off_list i s)" by (rule off_list_view [OF assms(1,2)])
  show "timer_inv (off_list i s)" by (rule off_list_timer [OF \<open>timer_inv s\<close> assms(3)])
  show "sets_inv (off_list i s)" by (rule sets_same [OF v _ _ \<open>sets_inv s\<close>]) simp_all
qed

lemma inv_resume:
  assumes "adapter_inv s" "\<And>p. jit p < RECONNECT_JITTER_MS" "\<not> stream_task t" "\<not> retry_task t" "resume opts jit t r s = Some s'"
  shows "adapter_inv s'"
proof -
  note c = calm_inv [OF _ assms(1)]
  have mid: "adapter_inv (s\<lparr>ir_midden := n\<rparr>)" for n by (rule c [OF calm_fields(1)])
  have node: "adapter_inv (with_node n k u)" if "adapter_inv u" for n k and u :: "'a iroh" by (rule calm_inv [OF calm_with_node that])
  have nonode: "adapter_inv (without_node jit k s)" for k by (rule c [OF calm_without_node [where jit = jit, OF assms(2)]])
  have acc: "adapter_inv (accept_loop n u)" if "adapter_inv u" for n and u :: "'a iroh" by (rule calm_inv [OF calm_accept_loop that])
  have inb: "adapter_inv (accepted opts jit a p s)" for a p by (rule inv_accepted [where jit = jit, OF assms(1,2)])
  have out: "adapter_inv (dialled jit p s)" for p by (rule inv_comes_up [where jit = jit, OF assms(1,2)])
  have rem: "adapter_inv (removePeer jit p s)" for p by (rule inv_remove [where jit = jit, OF assms(1,2)])
  have sch: "adapter_inv (scheduleReconnect jit p s)" for p by (rule c [OF calm_schedule [where jit = jit, OF assms(2)]])
  have w: "adapter_inv (wait u s)" if "\<not> stream_task u" "\<not> retry_task u" for u by (rule c [OF calm_wait [OF that]])
  have ini: "adapter_inv (initialize b s)" for b by (rule c [OF calm_initialize])
  have dia: "adapter_inv (dial p k n s)" for p k n by (rule c [OF calm_dial])
  have fld: "adapter_inv (s\<lparr>ir_acceptRunning := b\<rparr>)" "adapter_inv (s\<lparr>ir_identitySub := b\<rparr>)" for b
    by (rule c [OF calm_fields(3)], rule c [OF calm_fields(4)])
  show ?thesis
    using assms(1,3,4,5)
    by (cases t; cases r)
      (auto simp: resume_defs split: dial_kind.splits if_splits intro: mid node nonode acc inb out rem sch w ini dia fld)
qed

lemma inv_settle:
  assumes "adapter_inv s" "\<And>p. jit p < RECONNECT_JITTER_MS"
  shows "adapter_inv (settle_task opts jit i r s)"
proof (cases "i < length (ir_tasks s)")
  case True
  have e: "settle_task opts jit i r s = nullish_or (resume opts jit (ir_tasks s ! i) r (off_list i s)) s"
    using True by (simp add: settle_task_def off_list_def)
  have a: "timer_inv s" "stream_inv s" "sets_inv s" using assms(1) by (simp_all add: adapter_inv_def)
  have special: "adapter_inv s'"
    if res: "resume opts jit (ir_tasks s ! i) r (off_list i s) = Some s'" and t: "stream_task (ir_tasks s ! i) \<or> retry_task (ir_tasks s ! i)" for s'
  proof (cases "ir_tasks s ! i")
    case (Reading p k)
    have "timer_inv (off_list i s)" "sets_inv (off_list i s)"
      using a by (simp_all add: off_list_timer Reading sets_inv_def)
    then have l: "loose p k (off_list i s)" using off_list_loose [OF a(2) True Reading] by (simp add: loose_def)
    show ?thesis
      using res loose_ends [where jit = jit, OF l assms(2)] loose_loop [where jit = jit, OF loose_call [OF _ l] assms(2)]
      by (cases r) (auto simp: resume_defs Reading)
  next
    case (Announcing p k)
    have s': "s' = announce p k (off_list i s)" using res by (cases r) (simp_all add: resume_defs Announcing)
    have "timer_inv s'" "sets_inv s'"
      using a by (simp_all add: s' announce_def timer_inv_def sets_inv_def timers_settle Announcing)
    then show ?thesis using inv_announced [OF a(2) True Announcing] by (simp add: adapter_inv_def s')
  next
    case (RetryTimer p d)
    have "s' = timer_fires p (off_list i s)" using res by (cases r) (simp_all add: resume_defs RetryTimer)
    then show ?thesis using inv_fires [OF assms(1) True RetryTimer] by simp
  qed (use t in simp_all)
  have "adapter_inv s'" if res: "resume opts jit (ir_tasks s ! i) r (off_list i s) = Some s'" for s'
  proof (cases "stream_task (ir_tasks s ! i) \<or> retry_task (ir_tasks s ! i)")
    case False
    then show ?thesis
      using inv_resume [where jit = jit and t = "ir_tasks s ! i", OF calm_inv [OF calm_off [OF True] assms(1)] assms(2)] res by blast
  next
    case True
    then show ?thesis by (rule special [OF res])
  qed
  then show ?thesis unfolding e using assms(1) by (cases "resume opts jit (ir_tasks s ! i) r (off_list i s)") simp_all
qed (use assms(1) in \<open>simp add: settle_task_def\<close>)

section \<open>Every step\<close>

lemma inv_step:
  assumes "adapter_inv s" "\<And>p. jit p < RECONNECT_JITTER_MS"
  shows "adapter_inv (iroh_step opts jit ev s)"
proof (cases ev)
  case EvConnect
  have "calm s (connect s)" unfolding connect_def by (rule calm_trans [OF calm_fields(2) calm_wait]) simp_all
  then show ?thesis using calm_inv assms(1) by (auto simp: EvConnect)
next
  case (EvSend p)
  have "calm s (iroh_send p s)"
    by (cases "stream_of s p") (auto simp: iroh_send_def calm_refl intro: calm_trans [OF calm_call calm_wait])
  then show ?thesis using calm_inv assms(1) by (auto simp: EvSend)
next
  case EvRestart
  have "adapter_inv (s\<lparr>ir_stopped := False\<rparr>)" if "ir_stopped s" "\<not> ir_disconnected s"
    using assms(1) that by (auto simp: adapter_inv_def timer_inv_def sets_inv_def stream_inv_def seen_def)
  then show ?thesis using assms(1) calm_inv [OF calm_initialize] by (auto simp: EvRestart restart_def)
qed (use assms(1) inv_disconnect [OF assms(1)] inv_stop [OF assms(1)] inv_forget [where jit = jit, OF assms] inv_retryFailed [where jit = jit, OF assms]
      inv_settle [where jit = jit, OF assms] in
    \<open>auto intro: calm_inv [OF calm_addPeer] calm_inv [OF calm_ensure] calm_inv [OF calm_fields(5)] calm_inv [OF calm_fields(6)] calm_inv [OF calm_initialize]\<close>)

lemma inv_new: "adapter_inv new_adapter"
  by (simp add: adapter_inv_def timer_inv_def timers_def stream_inv_def sets_inv_def new_adapter_def seen_def)

lemma reach_inv: "iroh_reach opts s \<Longrightarrow> adapter_inv s"
proof (induction rule: iroh_reach.induct)
  case start
  show ?case by (rule inv_new)
next
  case (event s jit ev)
  show ?case by (rule inv_step [where jit = jit, OF event.IH event.hyps(2)])
qed

lemmas reach_timers = reach_inv [unfolded adapter_inv_def, THEN conjunct1]
lemmas reach_streams = reach_inv [unfolded adapter_inv_def, THEN conjunct2, THEN conjunct1]
lemmas reach_sets = reach_inv [unfolded adapter_inv_def, THEN conjunct2, THEN conjunct2]

end
