(* ===== verification/IrohClaims.thy ===== *)
theory IrohClaims
  imports IrohReach
begin

text \<open>
  The properties of the network adapter: what the repository is told and what becomes of streams in every reachable
  state, the bounds of reconnecting, and what happens at a failed write, at a restart and when dials keep failing.
\<close>

section \<open>Reachable states\<close>

text \<open>C28: In every reachable state the repository's last word about a peer is "candidate" only if the peer has a stream; a peer with a
  stream is announced, or the announcement of that stream is still to come; and an adapter that is stopped or disconnected has no stream.\<close>

theorem ir_announced:
  assumes "iroh_reach opts s"
  shows "(announced (ir_log s) p \<longrightarrow> stream_of s p \<noteq> None)
    \<and> (\<forall>k. stream_of s p = Some k \<longrightarrow> announced (ir_log s) p \<or> Announcing p k \<in> set (ir_tasks s))
    \<and> (\<not> running s \<longrightarrow> ir_streams s = [])"
  using stream_invD [OF reach_streams [OF assms]] by (auto simp: seen_def announced_seen others_def)

text \<open>C29: In every reachable state each stream there has ever been is closed, was handed to a handler of its protocol, or is being read, also
  when a newer one has taken over its peer's writes; and the stream of a peer is one to that peer, open and being read.\<close>

theorem ir_streams_live:
  assumes "iroh_reach opts s"
  shows "(\<forall>k < length (ir_peers s). CloseStream k \<in> set (ir_log s) \<or> (\<exists>a. Dispatch a k \<in> set (ir_log s)) \<or> Reading (ir_peers s ! k) k \<in> set (ir_tasks s))
    \<and> (\<forall>p k. stream_of s p = Some k \<longrightarrow>
         k < length (ir_peers s) \<and> ir_peers s ! k = p \<and> CloseStream k \<notin> set (ir_log s) \<and> Reading p k \<in> set (ir_tasks s))"
proof (intro conjI allI impI)
  note D = stream_invD [OF reach_streams [OF assms]]
  fix k assume "k < length (ir_peers s)"
  then show "CloseStream k \<in> set (ir_log s) \<or> (\<exists>a. Dispatch a k \<in> set (ir_log s)) \<or> Reading (ir_peers s ! k) k \<in> set (ir_tasks s)"
    using D(3) [of k] by (auto simp: seen_def others_def)
next
  fix p k assume "stream_of s p = Some k"
  from stream_invD(1) [OF reach_streams [OF assms] this]
  show "k < length (ir_peers s)" "ir_peers s ! k = p" "CloseStream k \<notin> set (ir_log s)" "Reading p k \<in> set (ir_tasks s)"
    by (simp_all add: seen_def others_def)
qed

text \<open>C30: In every reachable state a peer has at most one reconnect timer, the one its entry knows, under 31 seconds and before the eighth
  attempt; no attempt count passes eight; no timer is left while the adapter is stopped or disconnected; and no peer is both wanted and
  given up.\<close>

theorem ir_backoff:
  assumes "iroh_reach opts s"
  shows "(\<forall>i < length (ir_tasks s). \<forall>p d. ir_tasks s ! i = RetryTimer p d \<longrightarrow>
         d < 31000 \<and> running s \<and> (\<exists>st. retry_of s p = Some st \<and> rt_timer st = Some i \<and> rt_attempt st < 8))
    \<and> (\<forall>p st. retry_of s p = Some st \<longrightarrow> rt_attempt st \<le> 8)
    \<and> set (ir_intended s) \<inter> set (ir_failed s) = {}"
proof (intro conjI allI impI)
  have T: "timers (ir_reconnect s) (ir_tasks s)" and N: "ir_reconnect s = [] \<or> running s"
    using reach_timers [OF assms] by (auto simp: timer_inv_def)
  show "rt_attempt st \<le> 8" if "retry_of s p = Some st" for p st
    using timersD(4) [OF T that] by (simp add: RECONNECT_MAX_ATTEMPTS_def)
  show "set (ir_intended s) \<inter> set (ir_failed s) = {}" using reach_sets [OF assms] by (simp add: sets_inv_def)
  fix i p d assume i: "i < length (ir_tasks s)" "ir_tasks s ! i = RetryTimer p d"
  obtain st where st: "retry_of s p = Some st" "rt_timer st = Some i" using timersD(3) [OF T i] by auto
  then have "rt_attempt st < RECONNECT_MAX_ATTEMPTS" using timersD(2) [OF T st] by blast
  then show "\<exists>st. retry_of s p = Some st \<and> rt_timer st = Some i \<and> rt_attempt st < 8"
    using st by (auto simp: RECONNECT_MAX_ATTEMPTS_def)
  show "d < 31000" using timersD(3) [OF T i] by (simp add: RECONNECT_MAX_DELAY_MS_def RECONNECT_JITTER_MS_def)
  have "ir_reconnect s \<noteq> []" using st by auto
  then show "\<not> ir_disconnected s" "\<not> ir_stopped s" using N by blast+
qed

section \<open>Giving up\<close>

text \<open>Rounds of a reconnect timer that fires and a dial that fails.\<close>

primrec failing_rounds :: "nat \<Rightarrow> nat \<Rightarrow> nat \<Rightarrow> 'm iroh_event list" where
  "failing_rounds 0 i l = []"
| "failing_rounds (Suc m) i l = [EvSettle i Fires, EvSettle l Fires, EvSettle (Suc l) Rejects] @ failing_rounds m (l + 2) (l + 3)"

definition backing_off :: "string \<Rightarrow> nat \<Rightarrow> nat \<Rightarrow> nat \<Rightarrow> 'm iroh \<Rightarrow> bool" where
  "backing_off p n a i s =
     (running s \<and> ir_midden s = Some n \<and> stream_of s p = None \<and> p \<in> set (ir_intended s)
      \<and> (\<exists>d. i < length (ir_tasks s) \<and> ir_tasks s ! i = RetryTimer p d)
      \<and> retry_of s p = Some \<lparr>rt_attempt = a, rt_timer = Some i\<rparr>)"

definition gave_up :: "string \<Rightarrow> 'm iroh \<Rightarrow> bool" where
  "gave_up p s = (p \<in> set (ir_failed s) \<and> p \<notin> set (ir_intended s) \<and> retry_of s p = None)"

definition opened_to :: "string \<Rightarrow> 'm iroh \<Rightarrow> nat" where
  "opened_to p s = length (filter (\<lambda>c. case c of OpenBi q \<Rightarrow> q = p | _ \<Rightarrow> False) (ir_log s))"

lemma opened_notify [simp]: "opened_to p (emitConnectionStateChange s) = opened_to p s"
proof -
  have "filter (\<lambda>c. case c of OpenBi q \<Rightarrow> q = p | _ \<Rightarrow> False) (map (NotifyConnection \<circ> snd) ls) = ([] :: 'a iroh_call list)" for ls :: "(listener_kind \<times> nat) list"
    by (induction ls) simp_all
  then show ?thesis by (simp add: opened_to_def emitConnectionStateChange_def notify_def)
qed

lemma round_fires:
  assumes "backing_off p n a i s"
  shows "settle_task opts jit i Fires s = s\<lparr>ir_tasks := (ir_tasks s)[i := Settled] @ [HaveNode n (ForReconnect p)],
      ir_reconnect := AList.update p \<lparr>rt_attempt = Suc a, rt_timer = None\<rparr> (ir_reconnect s)\<rparr>"
proof -
  obtain d where d: "i < length (ir_tasks s)" "ir_tasks s ! i = RetryTimer p d" using assms by (auto simp: backing_off_def)
  show ?thesis
    using assms d by (simp add: backing_off_def settle_task_def resume_defs timer_fires_def attemptReconnect_def ensureMidden_def wait_def
        update_conv update_last)
qed

lemma round_dials:
  assumes "ir_tasks s = ts @ [HaveNode n (ForReconnect p)]"
  shows "settle_task opts jit (length ts) Fires s = s\<lparr>ir_tasks := ts @ [Settled, Dialling p ReconnectDial n], ir_log := ir_log s @ [OpenBi p]\<rparr>"
  using assms by (simp add: settle_task_def resume_defs dial_def wait_def log_iroh_def)

lemma round_ends:
  assumes "ir_tasks s = ts @ [Settled, Dialling p ReconnectDial n]"
  shows "settle_task opts jit (Suc (length ts)) Rejects s = scheduleReconnect jit p (s\<lparr>ir_tasks := ts @ [Settled, Settled]\<rparr>)"
  using assms by (simp add: settle_task_def resume_defs nth_append list_update_append)

lemma round_fails:
  assumes "backing_off p n a i s"
    "s' = iroh_run opts jit [EvSettle i Fires, EvSettle (length (ir_tasks s)) Fires, EvSettle (Suc (length (ir_tasks s))) Rejects] s"
  shows "opened_to p s' = Suc (opened_to p s)
    \<and> (if Suc a < RECONNECT_MAX_ATTEMPTS then backing_off p n (Suc a) (length (ir_tasks s) + 2) s' \<and> length (ir_tasks s') = length (ir_tasks s) + 3
       else gave_up p s')"
proof -
  let ?ts = "(ir_tasks s)[i := Settled]"
  let ?R = "AList.update p \<lparr>rt_attempt = Suc a, rt_timer = None\<rparr> (ir_reconnect s)"
  define s1 where "s1 = s\<lparr>ir_tasks := ?ts @ [HaveNode n (ForReconnect p)], ir_reconnect := ?R\<rparr>"
  define s2 where "s2 = s1\<lparr>ir_tasks := ?ts @ [Settled, Dialling p ReconnectDial n], ir_log := ir_log s1 @ [OpenBi p]\<rparr>"
  define s3 where "s3 = s2\<lparr>ir_tasks := ?ts @ [Settled, Settled]\<rparr>"
  have "s' = scheduleReconnect jit p s3"
    using round_fires [OF assms(1), where opts = opts and jit = jit] round_dials [of s1 ?ts n p opts jit] round_ends [of s2 ?ts p n opts jit]
    by (simp add: assms(2) s1_def s2_def s3_def)
  moreover have f: "running s3" "ir_midden s3 = Some n" "stream_of s3 p = None" "p \<in> set (ir_intended s3)" "ir_tasks s3 = ?ts @ [Settled, Settled]"
    "retry_of s3 p = Some \<lparr>rt_attempt = Suc a, rt_timer = None\<rparr>" "opened_to p s3 = Suc (opened_to p s)" "ir_reconnect s3 = ?R"
    using assms(1) by (simp_all add: backing_off_def s3_def s2_def s1_def opened_to_def update_conv)
  ultimately show ?thesis
    by (auto simp: scheduleReconnect_def Let_def backing_off_def gave_up_def wait_def update_conv update_last nth_append opened_to_def
        clearReconnectState_def delete_conv emitConnectionStateChange_def notify_def)
qed

lemma rounds_give_up:
  assumes "backing_off p n a i s" "a + Suc m = RECONNECT_MAX_ATTEMPTS"
  shows "gave_up p (iroh_run opts jit (failing_rounds (Suc m) i (length (ir_tasks s))) s)
    \<and> opened_to p (iroh_run opts jit (failing_rounds (Suc m) i (length (ir_tasks s))) s) = opened_to p s + Suc m"
  using assms
proof (induction m arbitrary: a i s)
  case 0
  then show ?case using round_fails [OF 0(1) refl, of opts jit] by simp
next
  case (Suc m)
  define s' where "s' = iroh_run opts jit [EvSettle i Fires, EvSettle (length (ir_tasks s)) Fires, EvSettle (Suc (length (ir_tasks s))) Rejects] s"
  note r = round_fails [OF Suc.prems(1) s'_def]
  have b: "backing_off p n (Suc a) (length (ir_tasks s) + 2) s'" and l: "length (ir_tasks s') = length (ir_tasks s) + 3"
    using r Suc.prems(2) by auto
  have e: "iroh_run opts jit (failing_rounds (Suc (Suc m)) i (length (ir_tasks s))) s
      = iroh_run opts jit (failing_rounds (Suc m) (length (ir_tasks s) + 2) (length (ir_tasks s'))) s'"
    unfolding failing_rounds.simps(2) [of "Suc m"] l by (simp add: s'_def)
  show ?case unfolding e using Suc.IH [OF b] Suc.prems(2) r by simp
qed

text \<open>C31: A wanted peer that waits for its reconnect timer, the node being there, is dialled once at each of the attempts left of eight and,
  when every dial fails, is given up: it is among the failed peers, no longer wanted, and has no reconnect entry.\<close>

theorem ir_gives_up:
  assumes "iroh_reach opts s" "ir_midden s = Some n" "stream_of s p = None" "p \<in> set (ir_intended s)"
    "retry_of s p = Some st" "rt_timer st = Some i"
    "s' = iroh_run opts jit (failing_rounds (8 - rt_attempt st) i (length (ir_tasks s))) s"
  shows "p \<in> set (ir_failed s') \<and> p \<notin> set (ir_intended s') \<and> retry_of s' p = None \<and> opened_to p s' = opened_to p s + (8 - rt_attempt st)"
proof -
  have T: "timers (ir_reconnect s) (ir_tasks s)" and N: "ir_reconnect s = [] \<or> running s"
    using reach_timers [OF assms(1)] by (auto simp: timer_inv_def)
  note t = timersD(2) [OF T assms(5,6)]
  have "ir_reconnect s \<noteq> []" using assms(5) by auto
  then have "backing_off p n (rt_attempt st) i s" using N t assms(2-6) by (simp add: backing_off_def)
  moreover obtain m where "8 - rt_attempt st = Suc m" "rt_attempt st + Suc m = RECONNECT_MAX_ATTEMPTS"
    using t by (metis RECONNECT_MAX_ATTEMPTS_def Suc_diff_Suc less_imp_le_nat ordered_cancel_comm_monoid_diff_class.add_diff_inverse)
  ultimately show ?thesis using rounds_give_up [of p n "rt_attempt st" i s m opts jit] assms(7) by (simp add: gave_up_def)
qed

section \<open>Runs\<close>

lemma reach_run: "iroh_reach opts s \<Longrightarrow> (\<And>p. jit p < RECONNECT_JITTER_MS) \<Longrightarrow> iroh_reach opts (iroh_run opts jit evs s)"
  by (induction evs arbitrary: s) (auto intro: iroh_reach.event)

definition adapter_options :: iroh_options where
  "adapter_options = \<lparr>io_syncAlpn = SYNC_ALPN, io_identityChanges = True\<rparr>"

text \<open>The node comes up; a peer is added, dialled and connected.\<close>

definition demo_connected :: "nat iroh" where
  "demo_connected = iroh_run adapter_options (\<lambda>_. 5)
     [EvConnect, EvSettle 0 (GotIdentity True), EvSettle 1 (GotNode 7), EvSettle 2 Fires, EvAddPeer ''a'', EvSettle 4 Fires,
      EvSettle 5 (GotStream SYNC_ALPN ''a'')] new_adapter"

definition demo_dropped :: "nat iroh" where
  "demo_dropped = iroh_run adapter_options (\<lambda>_. 5) [EvSettle 6 GotNone] demo_connected"

lemma demo_reach: "iroh_reach adapter_options demo_connected" "iroh_reach adapter_options demo_dropped"
  unfolding demo_dropped_def demo_connected_def by (intro reach_run iroh_reach.start; simp add: RECONNECT_JITTER_MS_def)+

lemma demo_tasks: "ir_tasks demo_connected = [Settled, Settled, Settled, Accepting 7, Settled, Settled, Reading ''a'' 0]"
  by code_simp

lemma demo_fields: "ir_streams demo_connected = [(''a'', 0)]" "ir_reconnect demo_connected = []" "ir_intended demo_connected = [''a'']"
  "ir_midden demo_connected = Some 7" "\<not> ir_disconnected demo_connected" "\<not> ir_stopped demo_connected" "ir_acceptRunning demo_connected"
  by (code_simp, code_simp, code_simp, code_simp, code_simp, code_simp, code_simp)

lemma demo_dropped_fields: "ir_midden demo_dropped = Some 7" "stream_of demo_dropped ''a'' = None" "ir_intended demo_dropped = [''a'']"
  "retry_of demo_dropped ''a'' = Some \<lparr>rt_attempt = 0, rt_timer = Some 7\<rparr>" "length (ir_tasks demo_dropped) = 8"
  "\<not> ir_disconnected demo_dropped" "\<not> ir_stopped demo_dropped"
  by (simp_all add: demo_dropped_def settle_task_def resume_defs loop_ends_def removePeer_def Let_def scheduleReconnect_def log_iroh_def
      emitConnectionStateChange_def notify_def wait_def demo_tasks demo_fields RECONNECT_MAX_ATTEMPTS_def)

lemmas demo_dropped_midden = demo_dropped_fields(1)
lemmas demo_dropped_stream = demo_dropped_fields(2)
lemmas demo_dropped_intended = demo_dropped_fields(3)
lemmas demo_dropped_entry = demo_dropped_fields(4)
lemmas demo_dropped_length = demo_dropped_fields(5)

lemma demo_dropped_task: "\<exists>d. ir_tasks demo_dropped ! 7 = RetryTimer ''a'' d"
  using timersD(2) [OF _ demo_dropped_entry, of "ir_tasks demo_dropped" 7] reach_timers [OF demo_reach(2)] by (simp add: timer_inv_def)

section \<open>Applied\<close>

lemma ir_announced_witness:
  "stream_of demo_connected ''a'' = Some 0
   \<and> (announced (ir_log demo_connected) ''a'' \<or> Announcing ''a'' 0 \<in> set (ir_tasks demo_connected))
   \<and> \<not> announced (ir_log demo_dropped) ''a''"
proof -
  have "stream_of demo_connected ''a'' = Some 0" by (simp add: demo_fields)
  then show ?thesis using ir_announced [OF demo_reach(1), of "''a''"] ir_announced [OF demo_reach(2), of "''a''"] demo_dropped_stream by blast
qed

lemma ir_streams_live_witness:
  "stream_of demo_connected ''a'' = Some 0 \<and> CloseStream 0 \<notin> set (ir_log demo_connected) \<and> Reading ''a'' 0 \<in> set (ir_tasks demo_connected)"
proof -
  have "stream_of demo_connected ''a'' = Some 0" by (simp add: demo_fields)
  then show ?thesis using ir_streams_live [OF demo_reach(1)] by blast
qed

lemma ir_backoff_witness:
  "case ir_tasks demo_dropped ! 7 of RetryTimer p d \<Rightarrow> p = ''a'' \<and> d < 31000 | _ \<Rightarrow> False"
  using conjunct1 [OF ir_backoff [OF demo_reach(2)], rule_format, of 7] demo_dropped_task demo_dropped_length by auto

lemma ir_gives_up_witness:
  "''a'' \<in> set (ir_failed (iroh_run adapter_options (\<lambda>_. 5) (failing_rounds 8 7 8) demo_dropped))"
  using ir_gives_up [OF demo_reach(2) demo_dropped_midden demo_dropped_stream _ demo_dropped_entry _ refl, where jit = "\<lambda>_. 5"]
    demo_dropped_intended demo_dropped_length by simp

section \<open>A write that fails late\<close>

text \<open>C32: A write that fails on a stream a newer one has superseded takes the peer's newer stream down: that one is closed and no longer the
  peer's, while the stream the write failed on is not closed by it.\<close>

theorem ir_stale_write:
  assumes "iroh_reach opts s" "\<And>q. jit q < RECONNECT_JITTER_MS" "i < length (ir_tasks s)" "ir_tasks s ! i = Writing p k"
    "stream_of s p = Some k'" "k' \<noteq> k"
  shows "stream_of (settle_task opts jit i Rejects s) p = None
    \<and> CloseStream k' \<in> set (ir_log (settle_task opts jit i Rejects s))
    \<and> (CloseStream k \<in> set (ir_log (settle_task opts jit i Rejects s)) \<longleftrightarrow> CloseStream k \<in> set (ir_log s))"
proof -
  have e: "settle_task opts jit i Rejects s = removePeer jit p (off_list i s)"
    using assms(3,4) by (simp add: settle_task_def resume_defs off_list_def)
  have "timer_inv (off_list i s)" using reach_timers [OF assms(1)] assms(4) by (simp add: off_list_timer)
  note v = conjunct1 [OF remove_view [where jit = jit and p = p, OF this assms(2)]]
  have r: "running s" using stream_invD(6) [OF reach_streams [OF assms(1)]] assms(5) by auto
  have l: "CloseStream j \<in> set (ir_log u) \<longleftrightarrow> CloseStream j \<in> set (seen u)" for j and u :: "'a iroh"
    by (simp add: seen_def)
  have "seen (removePeer jit p (off_list i s)) = seen s @ [CloseStream k', PeerDisconnected p]"
    "ir_streams (removePeer jit p (off_list i s)) = AList.delete p (ir_streams s)"
    using v assms(5) r by (simp_all add: same_view_def removed_def seen_def off_list_def)
  then show ?thesis unfolding e l using assms(6) by (simp add: delete_conv)
qed

definition demo_superseded :: "nat iroh" where
  "demo_superseded = iroh_run adapter_options (\<lambda>_. 5) [EvSend ''a'', EvSettle 3 (GotStream SYNC_ALPN ''a'')] demo_connected"

lemma demo_superseded_reach: "iroh_reach adapter_options demo_superseded"
  unfolding demo_superseded_def by (rule reach_run [OF demo_reach(1)]) (simp add: RECONNECT_JITTER_MS_def)

lemma demo_superseded_stream: "stream_of demo_superseded ''a'' = Some 1"
  by code_simp

lemma demo_superseded_task: "7 < length (ir_tasks demo_superseded) \<and> ir_tasks demo_superseded ! 7 = Writing ''a'' 0"
  by code_simp

lemma ir_stale_write_witness:
  "CloseStream 1 \<in> set (ir_log (settle_task adapter_options (\<lambda>_. 5) 7 Rejects demo_superseded))"
  using ir_stale_write [where jit = "\<lambda>_. 5", OF demo_superseded_reach _ _ _ demo_superseded_stream, of 7 0] demo_superseded_task
  by (simp add: RECONNECT_JITTER_MS_def)

section \<open>An added peer that cannot be dialled\<close>

text \<open>The node is there at once, and the dials of \<open>openBiWithRetry\<close> fail with the pauses between them.\<close>

definition dials_fail :: "nat \<Rightarrow> 'm iroh_event list" where
  "dials_fail l = [EvSettle l Fires, EvSettle (l + 1) Rejects, EvSettle (l + 2) Fires, EvSettle (l + 3) Rejects, EvSettle (l + 4) Fires,
     EvSettle (l + 5) Rejects, EvSettle (l + 6) Fires, EvSettle (l + 7) Rejects]"

lemma dials_run:
  assumes "ir_tasks s = ts @ [HaveNode n (ForAdd p)]"
  shows "iroh_run opts jit (dials_fail (length ts)) s
    = s\<lparr>ir_tasks := ts @ replicate 8 Settled, ir_log := ir_log s @ replicate 4 (OpenBi p)\<rparr>"
  using assms
  by (simp add: dials_fail_def settle_task_def resume_defs dial_def wait_def log_iroh_def nth_append list_update_append DIAL_ATTEMPTS_def numeral_eq_Suc)

text \<open>A peer that is added again while it waits to be reconnected, the node being there, is dialled four times and, when all four fail,
  stays wanted with no reconnect entry and no timer, and is not among the failed peers: the backoff it had is gone.\<close>

theorem ir_readd_forgets:
  assumes "iroh_reach opts s" "\<And>q. jit q < RECONNECT_JITTER_MS" "running s" "ir_midden s = Some n" "stream_of s p = None"
    "s' = iroh_run opts jit (EvAddPeer p # dials_fail (length (ir_tasks s))) s"
  shows "p \<in> set (ir_intended s') \<and> p \<notin> set (ir_failed s') \<and> retry_of s' p = None \<and> (\<forall>d. RetryTimer p d \<notin> set (ir_tasks s'))
    \<and> opened_to p s' = opened_to p s + 4"
proof -
  let ?t = "emitConnectionStateChange (s\<lparr>ir_intended := set_add p (ir_intended s), ir_failed := removeAll p (ir_failed s)\<rparr>)"
  define s1 where "s1 = clearReconnectState p ?t"
  have l: "length (ir_tasks s1) = length (ir_tasks s)" and f: "running s1" "ir_midden s1 = Some n" "stream_of s1 p = None"
    "p \<in> set (ir_intended s1)" "p \<notin> set (ir_failed s1)" "retry_of s1 p = None" "ir_log s1 = ir_log ?t"
    using assms(3,4,5)
    by (auto simp: s1_def clearReconnectState_def emitConnectionStateChange_def notify_def delete_conv split: option.split)
  define s2 where "s2 = wait (HaveNode n (ForAdd p)) s1"
  have "addPeer p s = s2" using assms(3) f by (simp add: addPeer_def Let_def s1_def [symmetric] ensureMidden_def s2_def)
  then have run: "s' = iroh_run opts jit (dials_fail (length (ir_tasks s1))) s2" by (simp add: assms(6) l)
  have t2: "ir_tasks s2 = ir_tasks s1 @ [HaveNode n (ForAdd p)]" by (simp add: s2_def wait_def)
  have s': "s' = s2\<lparr>ir_tasks := ir_tasks s1 @ replicate 8 Settled, ir_log := ir_log s2 @ replicate 4 (OpenBi p)\<rparr>"
    unfolding run by (rule dials_run [OF t2])
  have "opened_to p s1 = opened_to p s" using f(7) opened_notify [of p "s\<lparr>ir_intended := set_add p (ir_intended s), ir_failed := removeAll p (ir_failed s)\<rparr>"]
    by (simp add: opened_to_def)
  then have o: "opened_to p s' = opened_to p s + 4" by (simp add: s' opened_to_def s2_def wait_def numeral_eq_Suc)
  have g: "p \<in> set (ir_intended s')" "p \<notin> set (ir_failed s')" "retry_of s' p = None" using f by (simp_all add: s' s2_def wait_def)
  have "iroh_reach opts s'" unfolding assms(6) by (rule reach_run [OF assms(1,2)])
  then have T: "timers (ir_reconnect s') (ir_tasks s')" using reach_timers by (auto simp: timer_inv_def)
  have "RetryTimer p d \<notin> set (ir_tasks s')" for d
    using timersD(3) [OF T, of _ p d] g(3) by (auto simp: in_set_conv_nth)
  then show ?thesis using g o by simp
qed

lemma ir_readd_forgets_witness:
  "''a'' \<in> set (ir_intended (iroh_run adapter_options (\<lambda>_. 5) (EvAddPeer ''a'' # dials_fail 8) demo_dropped))
   \<and> retry_of (iroh_run adapter_options (\<lambda>_. 5) (EvAddPeer ''a'' # dials_fail 8) demo_dropped) ''a'' = None"
proof -
  have r: "running demo_dropped" using demo_dropped_fields(6,7) by simp
  have j: "(5 :: nat) < RECONNECT_JITTER_MS" by (simp add: RECONNECT_JITTER_MS_def)
  show ?thesis
    using ir_readd_forgets [where jit = "\<lambda>_. 5", OF demo_reach(2) j r demo_dropped_midden demo_dropped_stream refl]
    unfolding demo_dropped_length by blast
qed

section \<open>Stopping and starting again\<close>

text \<open>The tasks of an accept loop.\<close>

definition accepting :: "iroh_task \<Rightarrow> bool" where
  "accepting t = (case t of Accepting _ \<Rightarrow> True | AcceptPause _ \<Rightarrow> True | WaitNode ForAccept \<Rightarrow> True | HaveNode _ ForAccept \<Rightarrow> True | _ \<Rightarrow> False)"

text \<open>Two states of which the second waits for more, no accept loop among it.\<close>

definition waits_more :: "'m iroh \<Rightarrow> 'm iroh \<Rightarrow> bool" where
  "waits_more s s' =
     (ir_reconnect s = [] \<longrightarrow> (\<exists>ts. ir_tasks s' = ir_tasks s @ ts \<and> (\<forall>t \<in> set ts. \<not> accepting t)) \<and> ir_reconnect s' = []
        \<and> ir_midden s' = ir_midden s \<and> ir_endpoint s' = ir_endpoint s \<and> ir_disconnected s' = ir_disconnected s \<and> ir_stopped s' = ir_stopped s)"

lemma add_waits: "waits_more s (addPeer p s)"
  by (auto simp: waits_more_def addPeer_def Let_def clearReconnectState_def emitConnectionStateChange_def notify_def ensureMidden_def wait_def
      accepting_def split: option.split)

lemma adds_wait: "waits_more s (fold addPeer ps s)"
proof (induction ps arbitrary: s)
  case (Cons p ps)
  show ?case using add_waits [of s p] Cons.IH [of "addPeer p s"] unfolding waits_more_def by fastforce
qed (simp add: waits_more_def)

text \<open>A stop and a restart while the accept loop waits on the old node: the running flag is still up, so no new loop is started; when the
  old node then gives none, the loop ends, and the adapter is online on its new node with no accept loop at all.\<close>

theorem ir_accept_lost:
  assumes "iroh_reach opts s" "running s" "ir_acceptRunning s" "i < length (ir_tasks s)" "ir_tasks s ! i = Accepting n"
    "\<And>j. j < length (ir_tasks s) \<Longrightarrow> accepting (ir_tasks s ! j) \<Longrightarrow> j = i"
    "s' = iroh_run opts jit [EvStop, EvRestart, EvSettle (length (ir_tasks s)) (GotNode n'), EvSettle i GotNone] s"
  shows "ir_endpoint s' = EpOnline \<and> ir_midden s' = Some n' \<and> running s' \<and> \<not> ir_acceptRunning s' \<and> (\<forall>t \<in> set (ir_tasks s'). \<not> accepting t)"
proof -
  let ?ts = "fold clear_timer (map (rt_timer \<circ> snd) (ir_reconnect s)) (ir_tasks s)"
  have T: "timers (ir_reconnect s) (ir_tasks s)" using reach_timers [OF assms(1)] by (simp add: timer_inv_def)
  have "Some i \<notin> set (map (rt_timer \<circ> snd) (ir_reconnect s))"
  proof
    assume "Some i \<in> set (map (rt_timer \<circ> snd) (ir_reconnect s))"
    then obtain p st where "(p, st) \<in> set (ir_reconnect s)" "rt_timer st = Some i" by auto
    then show False using timersD(1,2) [OF T] assms(5) by force
  qed
  then have i: "?ts ! i = Accepting n" using clear_all_nth [OF assms(4)] assms(5) by simp
  have none: "\<not> accepting (?ts ! j)" if "j < length (ir_tasks s)" "j \<noteq> i" for j
    using assms(6) [OF that(1)] that clear_all_nth [OF that(1)] by (auto simp: accepting_def)
  define s1 where "s1 = restart (stop s)"
  have s1: "ir_tasks s1 = ?ts @ [WaitNode (ForInit True)]" "ir_reconnect s1 = []" "running s1" "ir_acceptRunning s1" "ir_endpoint s1 \<noteq> EpOnline"
    using assms(2,3)
    by (simp_all add: s1_def restart_def stop_def Let_def clear_retries_def close_streams_def emitConnectionStateChange_def notify_def
        setEndpointState_def initialize_def ensureMidden_def wait_def)
  define u where "u = setEndpointState EpOnline (s1\<lparr>ir_tasks := ?ts @ [Settled], ir_midden := Some n'\<rparr>)"
  have u: "ir_tasks u = ?ts @ [Settled]" "ir_reconnect u = []" "running u" "ir_midden u = Some n'" "ir_endpoint u = EpOnline" "ir_acceptRunning u"
    using s1 by (simp_all add: u_def setEndpointState_def notify_def)
  define v where "v = fold addPeer (ir_intended u) u"
  have l: "length ?ts = length (ir_tasks s)" by simp
  have "settle_task opts jit (length (ir_tasks s)) (GotNode n') s1 = v"
    using s1(4) unfolding settle_task_def s1(1) l [symmetric] nth_append_length list_update_length
    by (simp add: resume_defs initialized_def Let_def startAcceptLoop_def u_def [symmetric] v_def)
  then have run: "s' = settle_task opts jit i GotNone v" by (simp add: assms(7) s1_def)
  obtain ts where ts: "ir_tasks v = ?ts @ Settled # ts" "\<forall>t \<in> set ts. \<not> accepting t"
    and v: "ir_midden v = Some n'" "ir_endpoint v = EpOnline" "running v"
    using adds_wait [of u "ir_intended u"] u by (auto simp: waits_more_def v_def)
  have s': "s' = v\<lparr>ir_tasks := ?ts[i := Settled] @ Settled # ts, ir_acceptRunning := False\<rparr>"
    using i assms(4) by (simp add: run settle_task_def ts(1) nth_append list_update_append resume_defs)
  have settled: "\<not> accepting Settled" by (simp add: accepting_def)
  have "\<not> accepting t" if "t \<in> set (?ts[i := Settled])" for t
  proof -
    obtain j where j: "j < length (ir_tasks s)" "t = ?ts[i := Settled] ! j" using \<open>t \<in> _\<close> by (auto simp: in_set_conv_nth)
    then show ?thesis using none [of j] settled by (cases "j = i") simp_all
  qed
  then show ?thesis using v ts(2) settled by (auto simp: s')
qed

lemma demo_one_loop: "j < length (ir_tasks demo_connected) \<Longrightarrow> accepting (ir_tasks demo_connected ! j) \<Longrightarrow> j = 3"
  by (auto simp: demo_tasks less_Suc_eq accepting_def numeral_eq_Suc)

lemma demo_loop: "3 < length (ir_tasks demo_connected)" "ir_tasks demo_connected ! 3 = Accepting 7" "length (ir_tasks demo_connected) = 7"
  by (simp_all add: demo_tasks)

lemma ir_accept_lost_witness:
  "\<not> ir_acceptRunning (iroh_run adapter_options (\<lambda>_. 5) [EvStop, EvRestart, EvSettle 7 (GotNode 8), EvSettle 3 GotNone] demo_connected)"
  using ir_accept_lost [OF demo_reach(1) _ demo_fields(7) demo_loop(1,2) demo_one_loop refl, where jit = "\<lambda>_. 5" and n' = 8] demo_fields(5,6)
  unfolding demo_loop(3) by blast

end
