(* ===== verification/Ensure.thy ===== *)
theory Ensure
  imports Protocol JsonProps
begin

text \<open>
  The ensure-blob protocol, \<open>reliquary/ts/src/ensure/\<close>: \<open>types.ts\<close>, the client's \<open>ensureBlobOverAlpn\<close> and the
  responder's stream handler. Both cast what \<open>JSON.parse\<close> gives, so what they do with a message of another shape is
  modelled too. A number is printed as the literal it was read from. Streams are arguments: what a node does when it
  dials, writes and is read from. A promise may settle either way or stay open.
\<close>

section \<open>Messages\<close>

definition DEFAULT_ENSURE_ALPN :: string where
  "DEFAULT_ENSURE_ALPN = ''freqhole/1''"

definition ensure_request :: "jstext \<Rightarrow> jsv" where
  "ensure_request h = VObj [(utext ''type'', VStr (utext ''ensure_blob_request'')), (utext ''id'', VNum (utext ''1'')), (utext ''blake3_hash'', VStr h)]"

text \<open>Members that are undefined are not printed.\<close>

definition ensure_response :: "jsv option \<Rightarrow> bool \<Rightarrow> jstext option \<Rightarrow> jsv" where
  "ensure_response i avail err =
     VObj ([(utext ''type'', VStr (utext ''ensure_blob_response''))] @ (case i of None \<Rightarrow> [] | Some v \<Rightarrow> [(utext ''id'', v)])
       @ [(utext ''available'', VBool avail)] @ (case err of None \<Rightarrow> [] | Some e \<Rightarrow> [(utext ''error'', VStr e)]))"

definition message_bytes :: "jsv \<Rightarrow> nat list" where
  "message_bytes v = textEncode (json_stringify v)"

section \<open>Values of any shape\<close>

datatype ensure_exn = ConnectFailed | WriteFailed | NoReadToEnd | ReadFailed | ParseFailed | UnexpectedType "jsv option" | TypeErr | Refused

text \<open>\<open>v.k\<close> of a parsed value: \<open>null\<close> throws, of other values only objects have the members asked for.\<close>

definition js_prop :: "string \<Rightarrow> jsv \<Rightarrow> ensure_exn + jsv option" where
  "js_prop k v = (case v of VNull \<Rightarrow> Inl TypeErr | VObj ms \<Rightarrow> Inr (member (utext k) ms) | _ \<Rightarrow> Inr None)"

definition js_length :: "jsv option \<Rightarrow> ensure_exn + jsv option" where
  "js_length x =
     (case x of
        None \<Rightarrow> Inl TypeErr
      | Some (VStr s) \<Rightarrow> Inr (Some (VNum (utext (nat_text (utf16_length s)))))
      | Some (VArr vs) \<Rightarrow> Inr (Some (VNum (utext (nat_text (length vs)))))
      | Some v \<Rightarrow> js_prop ''length'' v)"

definition mantissa :: "jstext \<Rightarrow> jstext" where
  "mantissa l = takeWhile (\<lambda>c. c \<noteq> 69 \<and> c \<noteq> 101) l"

definition json_truthy :: "jsv option \<Rightarrow> bool" where
  "json_truthy x =
     (case x of
        None \<Rightarrow> False | Some VNull \<Rightarrow> False | Some (VBool b) \<Rightarrow> b
      | Some (VNum l) \<Rightarrow> list_ex (\<lambda>c. digit c \<and> c \<noteq> 48) (mantissa l)
      | Some (VStr s) \<Rightarrow> s \<noteq> [] | Some _ \<Rightarrow> True)"

text \<open>A value in a template string.\<close>

fun js_text :: "jsv \<Rightarrow> jstext" where
  "js_text VNull = utext ''null''"
| "js_text (VBool b) = utext (if b then ''true'' else ''false'')"
| "js_text (VNum l) = l"
| "js_text (VStr s) = s"
| "js_text (VArr vs) = commas (map (\<lambda>v. if v = VNull then [] else js_text v) vs)"
| "js_text (VObj ms) = utext ''[object Object]''"

section \<open>Streams\<close>

text \<open>The optional methods of a stream, whether its writes resolve, what a read gives.\<close>

record ensure_stream =
  es_raw :: bool           \<comment> \<open>\<open>write_raw_and_finish\<close> is there\<close>
  es_read_to_end :: bool
  es_writes :: bool

datatype ensure_read = ReadBytes "nat list" | ReadRejects | ReadOpen

datatype ensure_call =
    OpenEnsure jstext string
  | WriteRaw "nat list"
  | WriteFramed "nat list"
  | CloseEnsure
  | ReadToEnd nat
  | AskAllow jstext jsv
  | AskBlob jsv

text \<open>\<open>write_raw_and_finish\<close>, or else \<open>write_message\<close> and \<open>close\<close>; with the calls made and whether it resolves.\<close>

definition write_out :: "ensure_stream \<Rightarrow> nat list \<Rightarrow> ensure_call list \<times> bool" where
  "write_out st b =
     (if es_raw st then ([WriteRaw b], es_writes st)
      else if es_writes st then ([WriteFramed b, CloseEnsure], True) else ([WriteFramed b], False))"

text \<open>The bytes of a write on the wire; \<open>write_message\<close> puts their length before them.\<close>

definition on_wire :: "ensure_call list \<Rightarrow> nat list" where
  "on_wire cs = concat (map (\<lambda>c. case c of WriteRaw b \<Rightarrow> b | WriteFramed b \<Rightarrow> put_u32 (length b) @ b | _ \<Rightarrow> []) cs)"

section \<open>The client\<close>

record ensure_node =
  en_open :: "ensure_stream option"       \<comment> \<open>\<open>None\<close> when \<open>open_bi\<close> rejects\<close>
  en_answer :: "nat list \<Rightarrow> ensure_read"  \<comment> \<open>what the peer's side of the stream holds, after these bytes\<close>

definition read_response :: "nat list \<Rightarrow> ensure_exn + jsv option" where
  "read_response b =
     (case json_parse_text (textDecode b) of
        None \<Rightarrow> Inl ParseFailed
      | Some msg \<Rightarrow>
          (case js_prop ''type'' msg of
             Inl e \<Rightarrow> Inl e
           | Inr ty \<Rightarrow>
               if ty \<noteq> Some (VStr (utext ''ensure_blob_response'')) then Inl (UnexpectedType ty)
               else (case js_prop ''error'' msg of
                       Inl e \<Rightarrow> Inl e
                     | Inr err \<Rightarrow> if json_truthy err then Inr (Some (VBool False)) else js_prop ''available'' msg)))"

text \<open>\<open>None\<close> when the promise stays open.\<close>

definition ensureBlobOverAlpn ::
    "ensure_node \<Rightarrow> jstext \<Rightarrow> jstext \<Rightarrow> string option \<Rightarrow> (ensure_exn + jsv option) option \<times> ensure_call list" where
  "ensureBlobOverAlpn node peer h alpn =
     (let calls0 = [OpenEnsure peer (nullish_or alpn DEFAULT_ENSURE_ALPN)] in
      case en_open node of
        None \<Rightarrow> (Some (Inl ConnectFailed), calls0)
      | Some st \<Rightarrow>
          (case write_out st (message_bytes (ensure_request h)) of
             (ws, ok) \<Rightarrow>
               if \<not> ok then (Some (Inl WriteFailed), calls0 @ ws)
               else if \<not> es_read_to_end st then (Some (Inl NoReadToEnd), calls0 @ ws)
               else ((case en_answer node (on_wire ws) of
                        ReadOpen \<Rightarrow> None
                      | ReadRejects \<Rightarrow> Some (Inl ReadFailed)
                      | ReadBytes b \<Rightarrow> Some (read_response b)),
                     calls0 @ ws @ [ReadToEnd 65536])))"

section \<open>The responder\<close>

text \<open>The application's two checks: \<open>None\<close> when the promise rejects.\<close>

record ensure_deps =
  ed_hasBlob :: "jsv \<Rightarrow> bool option"
  ed_allow :: "(jstext \<Rightarrow> jsv \<Rightarrow> bool option) option"

text \<open>The hash is of some value when its length was read.\<close>

definition ask_blob :: "ensure_deps \<Rightarrow> jsv option \<Rightarrow> jsv \<Rightarrow> jsv" where
  "ask_blob deps i h =
     (case ed_hasBlob deps h of
        None \<Rightarrow> ensure_response i False (Some (utext ''hasBlob check failed''))
      | Some avail \<Rightarrow> ensure_response i avail None)"

definition handleEnsureBlobRequest :: "ensure_deps \<Rightarrow> jstext \<Rightarrow> jsv option \<Rightarrow> jsv option \<Rightarrow> (ensure_exn + jsv) \<times> ensure_call list" where
  "handleEnsureBlobRequest deps peer i h =
     (case js_length h of
        Inl e \<Rightarrow> (Inl e, [])
      | Inr len \<Rightarrow>
          if len \<noteq> Some (VNum (utext ''64''))
          then (Inr (ensure_response i False (Some (utext ''expected 64-char blake3 hex, got ''
                  @ (case len of None \<Rightarrow> utext ''undefined'' | Some v \<Rightarrow> js_text v)))), [])
          else let hv = the h in
            (case ed_allow deps of
               None \<Rightarrow> (Inr (ask_blob deps i hv), [AskBlob hv])
             | Some allow \<Rightarrow>
                 (case allow peer hv of
                    None \<Rightarrow> (Inl Refused, [AskAllow peer hv])
                  | Some False \<Rightarrow> (Inr (ensure_response i False (Some (utext ''not authorized''))), [AskAllow peer hv])
                  | Some True \<Rightarrow> (Inr (ask_blob deps i hv), [AskAllow peer hv, AskBlob hv]))))"

definition sendResponse :: "ensure_stream \<Rightarrow> jsv \<Rightarrow> (ensure_exn + unit) \<times> ensure_call list" where
  "sendResponse st r = (case write_out st (message_bytes r) of (ws, ok) \<Rightarrow> (if ok then Inr () else Inl WriteFailed, ws))"

text \<open>\<open>createEnsureBlobHandler\<close> logs what is thrown. \<open>None\<close> when the handler waits for ever.\<close>

definition handle_parsed :: "ensure_stream \<Rightarrow> ensure_deps \<Rightarrow> jstext \<Rightarrow> jsv \<Rightarrow> (ensure_exn + unit) \<times> ensure_call list" where
  "handle_parsed st deps peer msg =
     (case js_prop ''type'' msg of
        Inl e \<Rightarrow> (Inl e, [])
      | Inr ty \<Rightarrow>
          if ty \<noteq> Some (VStr (utext ''ensure_blob_request'')) then (Inr (), [CloseEnsure])
          else (case msg of
                  VObj ms \<Rightarrow>
                    (case handleEnsureBlobRequest deps peer (member (utext ''id'') ms) (member (utext ''blake3_hash'') ms) of
                       (Inl e, cs) \<Rightarrow> (Inl e, cs)
                     | (Inr r, cs) \<Rightarrow> (case sendResponse st r of (res, ws) \<Rightarrow> (res, cs @ ws)))
                | _ \<Rightarrow> (Inl TypeErr, [])))"

definition handleStream :: "ensure_stream \<Rightarrow> ensure_deps \<Rightarrow> jstext \<Rightarrow> ensure_read \<Rightarrow> (ensure_exn + unit) option \<times> ensure_call list" where
  "handleStream st deps peer r =
     (if \<not> es_read_to_end st then (Some (Inr ()), [CloseEnsure])
      else case r of
          ReadOpen \<Rightarrow> (None, [ReadToEnd 65536])
        | ReadRejects \<Rightarrow> (Some (Inl ReadFailed), [ReadToEnd 65536])
        | ReadBytes b \<Rightarrow>
            (case json_parse_text (textDecode b) of
               None \<Rightarrow> (Some (Inr ()), [ReadToEnd 65536, CloseEnsure])
             | Some msg \<Rightarrow> (case handle_parsed st deps peer msg of (res, cs) \<Rightarrow> (Some res, ReadToEnd 65536 # cs))))"

end
