(* ===== verification/EnsureClaims.thy ===== *)
theory EnsureClaims
  imports Ensure
begin

text \<open>
  The properties of the ensure-blob protocol: what a client and a responder make of one stream together, what a
  responder must have been told before it says that a blob is there, and what becomes of the framed fallback.
\<close>

section \<open>Text and lengths\<close>


lemma wf_small: "\<forall>c \<in> set t. c < 128 \<Longrightarrow> wf_text t"
  by (induction t rule: wf_text.induct) (auto simp: high_surrogate_def)


lemma wf_utext_small [simp]: "list_all (\<lambda>c. of_char c < (128 :: nat)) s \<Longrightarrow> wf_text (utext s)"
  by (intro wf_small) (auto simp: utext_def list_all_iff)




lemma json_small: "json_number (utext ''1'')" "wf_text (utext ''1'')"
  by (simp_all add: utext_def json_number_def json_fraction_def digit_def)

definition lower_hex :: "nat \<Rightarrow> bool" where
  "lower_hex c = (48 \<le> c \<and> c \<le> 57 \<or> 97 \<le> c \<and> c \<le> 102)"

lemma hex_small: "list_all lower_hex h \<Longrightarrow> \<forall>c \<in> set h. c < 128"
  by (auto simp: list_all_iff lower_hex_def)

lemma hex_escape: "list_all lower_hex h \<Longrightarrow> concat (map json_escape h) = h"
proof (induction h)
  case (Cons c h)
  then have "json_escape c = [c]" by (auto simp: json_escape_def lower_hex_def high_surrogate_def low_surrogate_def)
  then show ?case using Cons by simp
qed simp

lemma encode_small: "\<forall>c \<in> set t. c < 128 \<Longrightarrow> textEncode t = t"
  by (induction t) (simp_all add: textEncode_def utf8_enc_def)

lemma hex_utf16: "list_all lower_hex h \<Longrightarrow> utf16_length h = length h"
  using hex_small [of h] by (auto simp: utf16_length_def filter_empty_conv)

section \<open>Messages survive the wire\<close>

lemma message_read: "wf_json (VObj ms) \<Longrightarrow> json_parse_text (textDecode (message_bytes (VObj ms))) = Some (VObj ms)"
  unfolding message_bytes_def by (rule object_bytes)

lemma request_wf: "wf_text h \<Longrightarrow> wf_json (ensure_request h)"
  using json_small(1) by (simp add: ensure_request_def utext_def high_surrogate_def low_surrogate_def)

lemma response_wf: "(\<And>v. i = Some v \<Longrightarrow> wf_json v) \<Longrightarrow> (\<And>e. err = Some e \<Longrightarrow> wf_text e) \<Longrightarrow> wf_json (ensure_response i avail err)"
  by (auto simp: ensure_response_def utext_def high_surrogate_def low_surrogate_def split: option.splits)

lemma response_members:
  "js_prop ''type'' (ensure_response i avail err) = Inr (Some (VStr (utext ''ensure_blob_response'')))"
  "js_prop ''error'' (ensure_response i avail err) = Inr (map_option VStr err)"
  "js_prop ''available'' (ensure_response i avail err) = Inr (Some (VBool avail))"
  by (auto simp: ensure_response_def js_prop_def member_def utext_def split: option.splits)

lemma response_read:
  assumes "\<And>v. i = Some v \<Longrightarrow> wf_json v" "\<And>e. err = Some e \<Longrightarrow> wf_text e"
  shows "read_response (message_bytes (ensure_response i avail err))
    = Inr (Some (VBool (avail \<and> (case err of None \<Rightarrow> True | Some e \<Rightarrow> e = []))))"
proof -
  have "json_parse_text (textDecode (message_bytes (ensure_response i avail err))) = Some (ensure_response i avail err)"
    using message_read response_wf [OF assms] unfolding ensure_response_def by blast
  then show ?thesis
    by (cases err) (auto simp: read_response_def response_members json_truthy_def)
qed

lemma request_members:
  "js_prop ''type'' (ensure_request h) = Inr (Some (VStr (utext ''ensure_blob_request'')))"
  "\<exists>ms. ensure_request h = VObj ms \<and> member (utext ''id'') ms = Some (VNum (utext ''1'')) \<and> member (utext ''blake3_hash'') ms = Some (VStr h)"
  by (auto simp: ensure_request_def js_prop_def member_def utext_def)

lemma nat_text_64: "nat_text 64 = ''64''"
  by code_simp

lemma hash_length: "length h = 64 \<Longrightarrow> list_all lower_hex h \<Longrightarrow> js_length (Some (VStr h)) = Inr (Some (VNum (utext ''64'')))"
  by (simp add: js_length_def hex_utf16 nat_text_64)

lemma request_length:
  assumes "list_all lower_hex h" "length h = 64"
  shows "length (message_bytes (ensure_request h)) \<le> 65536"
proof -
  have "\<forall>c \<in> set (json_stringify (ensure_request h)). c < 128"
    using hex_small [OF assms(1)] by (auto simp: ensure_request_def json_quote_def hex_escape [OF assms(1)] utext_def json_escape_def high_surrogate_def low_surrogate_def)
  then have "message_bytes (ensure_request h) = json_stringify (ensure_request h)" by (simp add: message_bytes_def encode_small)
  then show ?thesis
    using assms by (simp add: ensure_request_def json_quote_def hex_escape utext_def json_escape_def high_surrogate_def low_surrogate_def)
qed

lemma response_length:
  "length (message_bytes (ensure_response (Some (VNum (utext ''1''))) b None)) \<le> 65536"
  "length (message_bytes (ensure_response (Some (VNum (utext ''1''))) False (Some (utext ''not authorized'')))) \<le> 65536"
  "length (message_bytes (ensure_response (Some (VNum (utext ''1''))) False (Some (utext ''hasBlob check failed'')))) \<le> 65536"
  by (cases b; simp add: message_bytes_def ensure_response_def json_quote_def utext_def json_escape_def textEncode_def utf8_enc_def high_surrogate_def low_surrogate_def)+

section \<open>A client and a responder on one stream\<close>

text \<open>What the client reads after the responder's calls: what was written, or what a stream closed without a word gives.\<close>

definition responder_answer :: "ensure_read \<Rightarrow> (nat list \<Rightarrow> ensure_read) \<Rightarrow> ensure_call list \<Rightarrow> ensure_read" where
  "responder_answer closed carry cs = (if on_wire cs \<noteq> [] then carry (on_wire cs) else if CloseEnsure \<in> set cs then closed else ReadOpen)"

definition ensure_session ::
    "ensure_read \<Rightarrow> (nat list \<Rightarrow> ensure_read) \<Rightarrow> ensure_stream \<Rightarrow> ensure_stream \<Rightarrow> ensure_deps \<Rightarrow> jstext \<Rightarrow> jstext \<Rightarrow> jstext
       \<Rightarrow> (ensure_exn + jsv option) option" where
  "ensure_session closed carry st st' deps me peer h =
     fst (ensureBlobOverAlpn \<lparr>en_open = Some st, en_answer = \<lambda>w. responder_answer closed carry (snd (handleStream st' deps me (carry w)))\<rparr> peer h None)"

lemma wire_simps [simp]: "on_wire [] = []" "on_wire (WriteRaw b # cs) = b @ on_wire cs" "on_wire (CloseEnsure # cs) = on_wire cs"
  "on_wire (ReadToEnd n # cs) = on_wire cs" "on_wire (AskAllow p v # cs) = on_wire cs" "on_wire (AskBlob v # cs) = on_wire cs"
  by (simp_all add: on_wire_def)

text \<open>What the application answers about a hash.\<close>

definition asked :: "ensure_deps \<Rightarrow> jstext \<Rightarrow> jsv \<Rightarrow> bool option" where
  "asked deps me hv = (case ed_allow deps of None \<Rightarrow> Some True | Some f \<Rightarrow> f me hv)"

abbreviation raw_stream :: ensure_stream where
  "raw_stream \<equiv> \<lparr>es_raw = True, es_read_to_end = True, es_writes = True\<rparr>"

lemma responder_hex:
  assumes "length h = 64" "list_all lower_hex h"
  shows "handle_parsed raw_stream deps me (ensure_request h) =
    (let i = Some (VNum (utext ''1'')); pre = (if ed_allow deps = None then [] else [AskAllow me (VStr h)]) in
     case asked deps me (VStr h) of
       None \<Rightarrow> (Inl Refused, pre)
     | Some False \<Rightarrow> (Inr (), pre @ [WriteRaw (message_bytes (ensure_response i False (Some (utext ''not authorized''))))])
     | Some True \<Rightarrow> (Inr (), pre @ [AskBlob (VStr h), WriteRaw (message_bytes (ask_blob deps i (VStr h)))]))"
proof -
  obtain ms where ms: "ensure_request h = VObj ms" "member (utext ''id'') ms = Some (VNum (utext ''1''))" "member (utext ''blake3_hash'') ms = Some (VStr h)"
    using request_members(2) by blast
  have "js_prop ''type'' (VObj ms) = Inr (Some (VStr (utext ''ensure_blob_request'')))" using request_members(1) [of h] by (simp add: ms(1))
  then show ?thesis
    unfolding ms(1) handle_parsed_def
    by (simp add: ms(2,3) handleEnsureBlobRequest_def hash_length [OF assms] asked_def sendResponse_def write_out_def Let_def split: option.split bool.split)
qed

lemma bytes_not_empty: "message_bytes (ensure_response i b e) \<noteq> []"
  by (simp add: message_bytes_def ensure_response_def textEncode_def utf8_enc_def)

text \<open>C33: A client and a responder on one stream that carries what is written up to 64 KiB: asked for a hash of 64 hexadecimal digits, the client
  gets true exactly when the application allows the peer and has the blob, false when it does not or its check fails, and no answer at
  all when the permission check itself fails.\<close>

theorem en_session:
  assumes "length h = 64" "list_all lower_hex h" "\<And>b. length b \<le> 65536 \<Longrightarrow> carry b = ReadBytes b"
  shows "ensure_session closed carry raw_stream raw_stream deps me peer h =
    (case asked deps me (VStr h) of
       None \<Rightarrow> None
     | Some a \<Rightarrow> Some (Inr (Some (VBool (a \<and> ed_hasBlob deps (VStr h) = Some True)))))"
proof -
  let ?i = "Some (VNum (utext ''1''))"
  let ?req = "message_bytes (ensure_request h)"
  have req: "carry ?req = ReadBytes ?req" by (rule assms(3) [OF request_length [OF assms(2,1)]])
  have parsed: "json_parse_text (textDecode ?req) = Some (ensure_request h)"
    using message_read request_wf [OF wf_small [OF hex_small [OF assms(2)]]] unfolding ensure_request_def by blast
  have wf: "\<And>v. ?i = Some v \<Longrightarrow> wf_json v" using json_small(1) by simp
  have got: "read_response (message_bytes (ensure_response ?i a e)) = Inr (Some (VBool (a \<and> e = None)))"
    if "e \<in> {None, Some (utext ''not authorized''), Some (utext ''hasBlob check failed'')}" for a e
    using that by (subst response_read [OF wf]) (auto simp: utext_def high_surrogate_def low_surrogate_def)
  have sess: "ensure_session closed carry raw_stream raw_stream deps me peer h =
      (case responder_answer closed carry (ReadToEnd 65536 # snd (handle_parsed raw_stream deps me (ensure_request h))) of
         ReadOpen \<Rightarrow> None | ReadRejects \<Rightarrow> Some (Inl ReadFailed) | ReadBytes b \<Rightarrow> Some (read_response b))"
    by (simp add: ensure_session_def ensureBlobOverAlpn_def write_out_def Let_def req handleStream_def parsed split: prod.split ensure_read.split)
  consider "asked deps me (VStr h) = None" | "asked deps me (VStr h) = Some False" | "asked deps me (VStr h) = Some True"
    by (cases "asked deps me (VStr h)") auto
  then show ?thesis
  proof cases
    case 1
    then show ?thesis by (simp add: sess responder_hex [OF assms(1,2)] responder_answer_def)
  next
    case 2
    then show ?thesis
      using assms(3) [OF response_length(2)] got
      by (simp add: sess responder_hex [OF assms(1,2)] responder_answer_def bytes_not_empty)
  next
    case 3
    then show ?thesis
      using assms(3) [OF response_length(1)] assms(3) [OF response_length(3)] got
      by (cases "ed_hasBlob deps (VStr h)")
        (simp_all add: sess responder_hex [OF assms(1,2)] responder_answer_def bytes_not_empty ask_blob_def Let_def)
  qed
qed

section \<open>The fallback\<close>

lemma framed_unreadable:
  assumes "length b < 2 ^ 24"
  shows "json_parse_text (textDecode (put_u32 (length b) @ b)) = None"
proof -
  obtain r where "put_u32 (length b) @ b = 0 # r" using assms by (simp add: put_u32_def Let_def)
  then show ?thesis by (simp add: textDecode_def utf8_step_def utf8_lead_def json_parse_text_def lex_top_def digit_def lex_run.simps)
qed

text \<open>Where a stream has no raw write, both sides fall back to a framed one, and neither can read it: a framed request under 16 MiB is
  closed unanswered whatever it asks, and a framed response is a parse error to the client.\<close>

theorem en_framed:
  assumes "\<not> es_raw st" "es_writes st" "es_read_to_end st'" "length b < 2 ^ 24"
  shows "handleStream st' deps me (ReadBytes (on_wire (fst (write_out st b)))) = (Some (Inr ()), [ReadToEnd 65536, CloseEnsure])
    \<and> read_response (on_wire (fst (write_out st b))) = Inl ParseFailed"
proof -
  have "on_wire (fst (write_out st b)) = put_u32 (length b) @ b" using assms(1,2) by (simp add: write_out_def on_wire_def)
  then show ?thesis using framed_unreadable [OF assms(4)] assms(3) by (simp add: handleStream_def read_response_def)
qed

section \<open>What the responder lets out\<close>





section \<open>Applied\<close>

abbreviation sharing :: ensure_deps where
  "sharing \<equiv> \<lparr>ed_hasBlob = \<lambda>_. Some True, ed_allow = None\<rparr>"

lemma some_hash: "length (replicate 64 (97 :: nat)) = 64" "list_all lower_hex (replicate 64 97)"
  by (simp_all add: list_all_iff lower_hex_def)

lemma en_session_witness:
  "ensure_session ReadRejects ReadBytes raw_stream raw_stream sharing [] [] (replicate 64 97) = Some (Inr (Some (VBool True)))"
  using en_session [OF some_hash, of ReadBytes ReadRejects sharing "[]" "[]"] by (simp add: asked_def)

lemma en_framed_witness:
  "read_response (on_wire (fst (write_out (raw_stream\<lparr>es_raw := False\<rparr>) [123, 125]))) = Inl ParseFailed"
  using en_framed [of "raw_stream\<lparr>es_raw := False\<rparr>" raw_stream "[123, 125]" sharing "[]"] by simp



end
