(* ===== verification/ControlSession.thy ===== *)
theory ControlSession
  imports Json
begin

text \<open>
  The controller's side of a player's protocol, \<open>client/spume/src/app/services/players/playerPairingClient.ts\<close>: one-shot
  dials with their retries, pairing and presence, the persistent session that carries commands, and the subscription
  to a player's status. A session and a subscription stand at one of their awaits, an event settles it. Streams are
  numbered by the dials that succeed; what the transport answers is the event.
\<close>

section \<open>One-shot dials\<close>

definition PLAYER_ALPN :: string where
  "PLAYER_ALPN = ''freqhole-player/1''"

definition DIAL_RETRY_DELAYS_MS :: "nat list" where
  "DIAL_RETRY_DELAYS_MS = [350, 900, 1800]"

text \<open>How one dial can go: \<open>dialLineOnce\<close> throws before the line is on the wire, or after, or returns what it read.\<close>

datatype dial_outcome = DialFails | WriteFails | ReadFails | DialAnswers "jstext option"

definition reached :: "dial_outcome \<Rightarrow> nat" where
  "reached d = (case d of DialFails \<Rightarrow> 0 | WriteFails \<Rightarrow> 0 | _ \<Rightarrow> 1)"

text \<open>The answer (\<open>None\<close> while the outcomes have run out), and how often the line has reached the peer.\<close>

fun dialLine :: "nat \<Rightarrow> dial_outcome list \<Rightarrow> (unit + jstext option) option \<times> nat" where
  "dialLine attempt [] = (None, 0)"
| "dialLine attempt (d # ds) =
     (case d of
        DialAnswers l \<Rightarrow> (Some (Inr l), 1)
      | _ \<Rightarrow> if length DIAL_RETRY_DELAYS_MS \<le> attempt then (Some (Inl ()), reached d)
             else (case dialLine (Suc attempt) ds of (r, n) \<Rightarrow> (r, reached d + n)))"

text \<open>Members of a parsed value; \<open>null\<close> throws.\<close>

definition parsed_member :: "string \<Rightarrow> jsv \<Rightarrow> jsv option option" where
  "parsed_member k v = (case v of VNull \<Rightarrow> None | VObj ms \<Rightarrow> Some (member (utext k) ms) | _ \<Rightarrow> Some None)"

definition pair_request_line :: "jstext \<Rightarrow> jstext \<Rightarrow> jstext" where
  "pair_request_line code name =
     json_stringify (VObj [(utext ''type'', VStr (utext ''pair_request'')), (utext ''code'', VStr code), (utext ''display_name'', VStr name)])"

text \<open>The result of a pairing from the line read: whether it is ok and the reason, \<open>None\<close> when parsing throws.\<close>

definition pairWithPlayer :: "jstext option \<Rightarrow> (bool \<times> jsv option) option" where
  "pairWithPlayer line =
     (case line of
        None \<Rightarrow> Some (False, Some (VStr (utext ''no_response'')))
      | Some [] \<Rightarrow> Some (False, Some (VStr (utext ''no_response'')))
      | Some t \<Rightarrow> Option.bind (json_parse_text t) (\<lambda>v. Option.bind (parsed_member ''ok'' v) (\<lambda>ok.
          map_option (\<lambda>reason. (ok = Some (VBool True), reason)) (parsed_member ''reason'' v))))"

datatype player_access = AccessAdmin | AccessInSession | AccessNotInSession

text \<open>One dial, and whatever throws is a stopped player: \<open>Some\<close> when active.\<close>

definition queryPlayerPresence :: "dial_outcome \<Rightarrow> player_access option option" where
  "queryPlayerPresence d =
     (case d of
        DialAnswers (Some t) \<Rightarrow>
          (case json_parse_text t of
             Some (VObj ms) \<Rightarrow>
               if t = [] \<or> member (utext ''type'') ms \<noteq> Some (VStr (utext ''presence'')) \<or> member (utext ''state'') ms \<noteq> Some (VStr (utext ''active''))
               then None
               else Some (let a = member (utext ''access'') ms in
                 if a = Some (VStr (utext ''admin'')) then Some AccessAdmin
                 else if a = Some (VStr (utext ''in_session'')) then Some AccessInSession
                 else if a = Some (VStr (utext ''not_in_session'')) then Some AccessNotInSession else None)
           | _ \<Rightarrow> None)
      | _ \<Rightarrow> None)"

section \<open>The control session\<close>

datatype ctl_phase =
    CtlIdle
  | CtlDialing nat
  | CtlWriting nat nat
  | CtlReading nat
  | CtlPausing nat

datatype ctl_call =
    CtlDial
  | CtlWrite nat nat
  | CtlWrote nat nat
  | CtlLine nat nat "jstext option"
  | CtlFailed nat
  | CtlClosed nat

text \<open>Commands are numbers; \<open>tail\<close> is the queue behind the command under way.\<close>

record ctl_session =
  cs_stream :: "nat option"
  cs_phase :: ctl_phase
  cs_current :: nat
  cs_queue :: "nat list"
  cs_streams :: nat
  cs_log :: "ctl_call list"

definition new_session :: ctl_session where
  "new_session = \<lparr>cs_stream = None, cs_phase = CtlIdle, cs_current = 0, cs_queue = [], cs_streams = 0, cs_log = []\<rparr>"

definition ctl_log :: "ctl_call \<Rightarrow> ctl_session \<Rightarrow> ctl_session" where
  "ctl_log c s = s\<lparr>cs_log := cs_log s @ [c]\<rparr>"

text \<open>A round of \<open>sendNow\<close>: \<open>getStream\<close>, then the write.\<close>

definition write_on :: "nat \<Rightarrow> nat \<Rightarrow> ctl_session \<Rightarrow> ctl_session" where
  "write_on attempt k s = ctl_log (CtlWrite k (cs_current s)) (s\<lparr>cs_phase := CtlWriting attempt k\<rparr>)"

definition begin_attempt :: "nat \<Rightarrow> ctl_session \<Rightarrow> ctl_session" where
  "begin_attempt attempt s =
     (case cs_stream s of Some k \<Rightarrow> write_on attempt k s | None \<Rightarrow> ctl_log CtlDial (s\<lparr>cs_phase := CtlDialing attempt\<rparr>))"

definition next_command :: "ctl_session \<Rightarrow> ctl_session" where
  "next_command s =
     (case cs_queue s of [] \<Rightarrow> s\<lparr>cs_phase := CtlIdle\<rparr> | c # q \<Rightarrow> begin_attempt 0 (s\<lparr>cs_current := c, cs_queue := q\<rparr>))"

definition attempt_failed :: "nat \<Rightarrow> ctl_session \<Rightarrow> ctl_session" where
  "attempt_failed attempt s =
     (if length DIAL_RETRY_DELAYS_MS \<le> attempt
      then next_command (ctl_log (CtlFailed (cs_current s)) (s\<lparr>cs_stream := None\<rparr>))
      else s\<lparr>cs_stream := None, cs_phase := CtlPausing attempt\<rparr>)"

datatype ctl_event = EvSendLine nat | EvDialOk | EvDialFails | EvWriteOk | EvWriteFails | EvLine "jstext option" | EvReadFails | EvPauseOver | EvClose

definition ctl_send :: "nat \<Rightarrow> ctl_session \<Rightarrow> ctl_session" where
  "ctl_send c s = (if cs_phase s = CtlIdle then next_command (s\<lparr>cs_queue := cs_queue s @ [c]\<rparr>) else s\<lparr>cs_queue := cs_queue s @ [c]\<rparr>)"

definition ctl_close :: "ctl_session \<Rightarrow> ctl_session" where
  "ctl_close s = (case cs_stream s of None \<Rightarrow> s | Some k \<Rightarrow> ctl_log (CtlClosed k) (s\<lparr>cs_stream := None\<rparr>))"

text \<open>\<open>sendNow\<close> from where it waits; an event that does not fit changes nothing.\<close>

definition sendNow :: "ctl_event \<Rightarrow> ctl_session \<Rightarrow> ctl_session" where
  "sendNow ev s =
     (case cs_phase s of
        CtlIdle \<Rightarrow> s
      | CtlDialing n \<Rightarrow>
          (case ev of
             EvDialOk \<Rightarrow> write_on n (cs_streams s) (s\<lparr>cs_stream := Some (cs_streams s), cs_streams := Suc (cs_streams s)\<rparr>)
           | EvDialFails \<Rightarrow> attempt_failed n s
           | _ \<Rightarrow> s)
      | CtlWriting n k \<Rightarrow>
          (case ev of
             EvWriteOk \<Rightarrow> ctl_log (CtlWrote k (cs_current s)) (s\<lparr>cs_phase := CtlReading k\<rparr>)
           | EvWriteFails \<Rightarrow> attempt_failed n s
           | _ \<Rightarrow> s)
      | CtlReading k \<Rightarrow>
          (case ev of
             EvLine l \<Rightarrow> next_command (ctl_log (CtlLine k (cs_current s) l) s)
           | EvReadFails \<Rightarrow> next_command (ctl_log (CtlFailed (cs_current s)) (s\<lparr>cs_stream := None\<rparr>))
           | _ \<Rightarrow> s)
      | CtlPausing n \<Rightarrow> (case ev of EvPauseOver \<Rightarrow> begin_attempt (Suc n) s | _ \<Rightarrow> s))"

definition ctl_step :: "ctl_event \<Rightarrow> ctl_session \<Rightarrow> ctl_session" where
  "ctl_step ev s = (case ev of EvSendLine c \<Rightarrow> ctl_send c s | EvClose \<Rightarrow> ctl_close s | _ \<Rightarrow> sendNow ev s)"

section \<open>Sessions by peer\<close>

record ctl_world =
  cw_sessions :: "ctl_session list"
  cw_open :: "(string \<times> nat) list"    \<comment> \<open>\<open>controlSessions\<close>\<close>
  cw_sent :: nat

definition no_sessions :: ctl_world where
  "no_sessions = \<lparr>cw_sessions = [], cw_open = [], cw_sent = 0\<rparr>"

definition at_session :: "nat \<Rightarrow> ctl_event \<Rightarrow> ctl_world \<Rightarrow> ctl_world" where
  "at_session i ev w = (if i < length (cw_sessions w) then w\<lparr>cw_sessions := (cw_sessions w)[i := ctl_step ev (cw_sessions w ! i)]\<rparr> else w)"

definition sendPlayerCommand :: "string \<Rightarrow> ctl_world \<Rightarrow> ctl_world" where
  "sendPlayerCommand p w =
     (let c = cw_sent w; w' = w\<lparr>cw_sent := Suc c\<rparr> in
      case map_of (cw_open w) p of
        Some i \<Rightarrow> at_session i (EvSendLine c) w'
      | None \<Rightarrow> at_session (length (cw_sessions w)) (EvSendLine c)
          (w\<lparr>cw_sessions := cw_sessions w @ [new_session], cw_open := (p, length (cw_sessions w)) # cw_open w, cw_sent := Suc c\<rparr>))"

definition closePlayerControlSession :: "string \<Rightarrow> ctl_world \<Rightarrow> ctl_world" where
  "closePlayerControlSession p w =
     (case map_of (cw_open w) p of
        None \<Rightarrow> w
      | Some i \<Rightarrow> (at_session i EvClose w)\<lparr>cw_open := filter (\<lambda>e. fst e \<noteq> p) (cw_open w)\<rparr>)"

text \<open>What the caller gets of the line: \<open>None\<close> when parsing throws.\<close>

definition command_result :: "jstext option \<Rightarrow> jsv option" where
  "command_result l = (case l of None \<Rightarrow> Some VNull | Some [] \<Rightarrow> Some VNull | Some t \<Rightarrow> json_parse_text t)"

datatype ctl_world_event = CwSend string | CwClose string | CwAt nat ctl_event

definition fits :: "ctl_event \<Rightarrow> bool" where
  "fits ev = (case ev of EvSendLine _ \<Rightarrow> False | EvClose \<Rightarrow> False | _ \<Rightarrow> True)"

definition ctl_world_step :: "ctl_world_event \<Rightarrow> ctl_world \<Rightarrow> ctl_world" where
  "ctl_world_step ev w =
     (case ev of CwSend p \<Rightarrow> sendPlayerCommand p w | CwClose p \<Rightarrow> closePlayerControlSession p w
      | CwAt i e \<Rightarrow> if fits e then at_session i e w else w)"

inductive ctl_reach :: "ctl_world \<Rightarrow> bool" where
  start: "ctl_reach no_sessions"
| event: "ctl_reach w \<Longrightarrow> ctl_reach (ctl_world_step ev w)"

section \<open>The subscription\<close>

datatype sub_phase = SubNode | SubDialing | SubWriting nat | SubReading nat | SubPausing | SubEnded

datatype sub_call = SubDial | SubStatus jsv | SubClose nat | SubGiveUp

record subscription =
  sb_phase :: sub_phase
  sb_closed :: bool
  sb_stream :: "nat option"
  sb_streams :: nat
  sb_log :: "sub_call list"

definition sub_log :: "sub_call \<Rightarrow> subscription \<Rightarrow> subscription" where
  "sub_log c s = s\<lparr>sb_log := sb_log s @ [c]\<rparr>"

text \<open>The head of the loop; \<open>retry\<close> is what \<open>shouldRetry\<close> says, true when it is not given.\<close>

definition sub_round :: "bool \<Rightarrow> subscription \<Rightarrow> subscription" where
  "sub_round retry s =
     (if sb_closed s then s\<lparr>sb_phase := SubEnded\<rparr>
      else if \<not> retry then sub_log SubGiveUp (s\<lparr>sb_phase := SubEnded\<rparr>)
      else s\<lparr>sb_phase := SubNode\<rparr>)"

definition subscribeToPlayerStatus :: "bool \<Rightarrow> subscription" where
  "subscribeToPlayerStatus retry =
     sub_round retry \<lparr>sb_phase = SubEnded, sb_closed = False, sb_stream = None, sb_streams = 0, sb_log = []\<rparr>"

text \<open>\<open>stream?.close()\<close>\<close>

definition sub_close :: "subscription \<Rightarrow> subscription" where
  "sub_close s = (case sb_stream s of None \<Rightarrow> s | Some k \<Rightarrow> sub_log (SubClose k) s)"

text \<open>The \<open>finally\<close> block, and the end of a round.\<close>

definition sub_finally :: "subscription \<Rightarrow> subscription" where
  "sub_finally s = (sub_close s)\<lparr>sb_stream := None\<rparr>"

definition round_over :: "subscription \<Rightarrow> subscription" where
  "round_over s = (sub_finally s)\<lparr>sb_phase := (if sb_closed s then SubEnded else SubPausing)\<rparr>"

datatype sub_event = SbNode bool | SbDialOk | SbWriteOk | SbLine "jstext option" | SbThrows | SbTimer bool | SbUnsubscribe

definition sub_dialled :: "subscription \<Rightarrow> subscription" where
  "sub_dialled s =
     (let k = sb_streams s; s' = s\<lparr>sb_streams := Suc k\<rparr> in
      if sb_closed s then (sub_finally (sub_log (SubClose k) s'))\<lparr>sb_phase := SubEnded\<rparr>
      else s'\<lparr>sb_stream := Some k, sb_phase := SubWriting k\<rparr>)"

definition sub_line :: "nat \<Rightarrow> jstext option \<Rightarrow> subscription \<Rightarrow> subscription" where
  "sub_line k l s =
     (case l of
        None \<Rightarrow> round_over s
      | Some t \<Rightarrow> (case json_parse_text t of None \<Rightarrow> s | Some v \<Rightarrow> sub_log (SubStatus v) s))"

definition subscription_step :: "sub_event \<Rightarrow> subscription \<Rightarrow> subscription" where
  "subscription_step ev s =
     (case ev of
        SbUnsubscribe \<Rightarrow> sub_close (s\<lparr>sb_closed := True\<rparr>)
      | _ \<Rightarrow>
          (case sb_phase s of
             SubNode \<Rightarrow>
               (case ev of
                  SbNode b \<Rightarrow> if b then sub_log SubDial (s\<lparr>sb_phase := SubDialing\<rparr>) else (sub_finally s)\<lparr>sb_phase := SubEnded\<rparr>
                | SbThrows \<Rightarrow> round_over s | _ \<Rightarrow> s)
           | SubDialing \<Rightarrow> (case ev of SbDialOk \<Rightarrow> sub_dialled s | SbThrows \<Rightarrow> round_over s | _ \<Rightarrow> s)
           | SubWriting k \<Rightarrow> (case ev of SbWriteOk \<Rightarrow> s\<lparr>sb_phase := SubReading k\<rparr> | SbThrows \<Rightarrow> round_over s | _ \<Rightarrow> s)
           | SubReading k \<Rightarrow> (case ev of SbLine l \<Rightarrow> sub_line k l s | SbThrows \<Rightarrow> round_over s | _ \<Rightarrow> s)
           | SubPausing \<Rightarrow> (case ev of SbTimer retry \<Rightarrow> sub_round retry s | _ \<Rightarrow> s)
           | SubEnded \<Rightarrow> s))"

inductive sub_reach :: "subscription \<Rightarrow> bool" where
  start: "sub_reach (subscribeToPlayerStatus retry)"
| event: "sub_reach s \<Longrightarrow> sub_reach (subscription_step ev s)"

end
