(* ===== verification/ControlClaims.thy ===== *)
theory ControlClaims
  imports ControlSession "HOL-Library.Sublist"
begin

text \<open>
  The properties of the controller's side: what a session does with the commands given to it, what a one-shot dial may
  repeat, and that a subscription leaves no stream open.
\<close>

section \<open>What a session has written and read\<close>

definition wrote_on :: "nat \<Rightarrow> ctl_call list \<Rightarrow> nat list" where
  "wrote_on k log = concat (map (\<lambda>c. case c of CtlWrote j n \<Rightarrow> if j = k then [n] else [] | _ \<Rightarrow> []) log)"

definition lines_on :: "nat \<Rightarrow> ctl_call list \<Rightarrow> nat list" where
  "lines_on k log = concat (map (\<lambda>c. case c of CtlLine j n l \<Rightarrow> if j = k then [n] else [] | _ \<Rightarrow> []) log)"

definition wrote :: "ctl_call list \<Rightarrow> nat list" where
  "wrote log = concat (map (\<lambda>c. case c of CtlWrote j n \<Rightarrow> [n] | _ \<Rightarrow> []) log)"

text \<open>Commands whose promise has settled.\<close>

definition ended :: "ctl_call list \<Rightarrow> nat list" where
  "ended log = concat (map (\<lambda>c. case c of CtlLine j n l \<Rightarrow> [n] | CtlFailed n \<Rightarrow> [n] | _ \<Rightarrow> []) log)"

lemma log_simps [simp]:
  "wrote_on k [] = []" "wrote_on k (xs @ ys) = wrote_on k xs @ wrote_on k ys"
  "lines_on k [] = []" "lines_on k (xs @ ys) = lines_on k xs @ lines_on k ys"
  "wrote [] = []" "wrote (xs @ ys) = wrote xs @ wrote ys" "ended [] = []" "ended (xs @ ys) = ended xs @ ended ys"
  by (simp_all add: wrote_on_def lines_on_def wrote_def ended_def)

lemma call_simps [simp]:
  "wrote_on k [CtlWrote j n] = (if j = k then [n] else [])" "lines_on k [CtlLine j n l] = (if j = k then [n] else [])"
  "wrote [CtlWrote j n] = [n]" "ended [CtlLine j n l] = [n]" "ended [CtlFailed n] = [n]"
  "wrote_on k [CtlDial] = []" "wrote_on k [CtlWrite j n] = []" "wrote_on k [CtlLine j n l] = []" "wrote_on k [CtlFailed n] = []" "wrote_on k [CtlClosed j] = []"
  "lines_on k [CtlDial] = []" "lines_on k [CtlWrite j n] = []" "lines_on k [CtlWrote j n] = []" "lines_on k [CtlFailed n] = []" "lines_on k [CtlClosed j] = []"
  "wrote [CtlDial] = []" "wrote [CtlWrite j n] = []" "wrote [CtlLine j n l] = []" "wrote [CtlFailed n] = []" "wrote [CtlClosed j] = []"
  "ended [CtlDial] = []" "ended [CtlWrite j n] = []" "ended [CtlWrote j n] = []" "ended [CtlClosed j] = []"
  by (simp_all add: wrote_on_def lines_on_def wrote_def ended_def)

text \<open>The command under way, if any.\<close>

definition command_under_way :: "ctl_session \<Rightarrow> nat list" where
  "command_under_way s = (if cs_phase s = CtlIdle then [] else [cs_current s])"

text \<open>
  The invariant, for the commands given to the session so far: settled, under way and waiting, in that order; what was
  written is of the settled ones and the one being answered; on each stream the lines read are those of the
  commands written, but for the one being answered and for a stream that is given up.
\<close>

definition session_inv :: "nat list \<Rightarrow> ctl_session \<Rightarrow> bool" where
  "session_inv given s =
     (ended (cs_log s) @ command_under_way s @ cs_queue s = given
      \<and> (\<exists>ws. wrote (cs_log s) = ws @ (case cs_phase s of CtlReading k \<Rightarrow> [cs_current s] | _ \<Rightarrow> []) \<and> subseq ws (ended (cs_log s)))
      \<and> (\<forall>k. lines_on k (cs_log s) = wrote_on k (cs_log s) \<or> (\<exists>n. wrote_on k (cs_log s) = lines_on k (cs_log s) @ [n]))
      \<and> (\<forall>k. cs_stream s = Some k \<longrightarrow> k < cs_streams s \<and>
            (case cs_phase s of CtlReading j \<Rightarrow> j = k | CtlWriting n j \<Rightarrow> j = k | CtlDialing n \<Rightarrow> False | CtlPausing n \<Rightarrow> False | CtlIdle \<Rightarrow> True) \<and>
            ((\<forall>j. cs_phase s \<noteq> CtlReading j) \<longrightarrow> lines_on k (cs_log s) = wrote_on k (cs_log s)))
      \<and> (\<forall>n k. cs_phase s = CtlWriting n k \<longrightarrow> k < cs_streams s \<and> lines_on k (cs_log s) = wrote_on k (cs_log s))
      \<and> (\<forall>k. cs_phase s = CtlReading k \<longrightarrow> k < cs_streams s \<and> wrote_on k (cs_log s) = lines_on k (cs_log s) @ [cs_current s])
      \<and> (\<forall>k. cs_streams s \<le> k \<longrightarrow> wrote_on k (cs_log s) = [] \<and> lines_on k (cs_log s) = []))"

text \<open>The same between two awaits: \<open>rest\<close> are the commands that have not settled.\<close>

definition quiet :: "nat list \<Rightarrow> nat list \<Rightarrow> ctl_session \<Rightarrow> bool" where
  "quiet given rest s =
     (ended (cs_log s) @ rest = given \<and> subseq (wrote (cs_log s)) (ended (cs_log s))
      \<and> (\<forall>k. lines_on k (cs_log s) = wrote_on k (cs_log s) \<or> (\<exists>n. wrote_on k (cs_log s) = lines_on k (cs_log s) @ [n]))
      \<and> (\<forall>k. cs_stream s = Some k \<longrightarrow> k < cs_streams s \<and> lines_on k (cs_log s) = wrote_on k (cs_log s))
      \<and> (\<forall>k. cs_streams s \<le> k \<longrightarrow> wrote_on k (cs_log s) = [] \<and> lines_on k (cs_log s) = []))"

lemma begin_inv: "quiet given (cs_current s # cs_queue s) s \<Longrightarrow> session_inv given (begin_attempt n s)"
  by (cases "cs_stream s") (auto simp: quiet_def session_inv_def begin_attempt_def write_on_def ctl_log_def command_under_way_def)

lemma next_inv: "quiet given (cs_queue s) s \<Longrightarrow> session_inv given (next_command s)"
proof (cases "cs_queue s")
  case Nil
  assume "quiet given (cs_queue s) s"
  then show ?thesis using Nil by (auto simp: quiet_def session_inv_def next_command_def command_under_way_def)
next
  case (Cons c q)
  assume "quiet given (cs_queue s) s"
  then have "quiet given (cs_current (s\<lparr>cs_current := c, cs_queue := q\<rparr>) # cs_queue (s\<lparr>cs_current := c, cs_queue := q\<rparr>)) (s\<lparr>cs_current := c, cs_queue := q\<rparr>)"
    using Cons by (simp add: quiet_def)
  from begin_inv [OF this] show ?thesis using Cons by (simp add: next_command_def)
qed

lemma quiet_settles: "quiet given (c # rest) s \<Longrightarrow> quiet given rest (ctl_log (CtlFailed c) (s\<lparr>cs_stream := None\<rparr>))"
  by (auto simp: quiet_def ctl_log_def intro: subseq_rev_drop_many)

lemma fail_inv:
  assumes "quiet given (cs_current s # cs_queue s) s"
  shows "session_inv given (attempt_failed n s)"
proof (cases "length DIAL_RETRY_DELAYS_MS \<le> n")
  case True
  have "session_inv given (next_command (ctl_log (CtlFailed (cs_current s)) (s\<lparr>cs_stream := None\<rparr>)))"
    by (rule next_inv) (use quiet_settles [OF assms] in \<open>simp add: ctl_log_def\<close>)
  then show ?thesis using True by (simp add: attempt_failed_def)
next
  case False
  then show ?thesis using assms by (auto simp: attempt_failed_def session_inv_def quiet_def command_under_way_def)
qed

lemma quiet_of:
  assumes "session_inv given s" "cs_phase s = CtlDialing n \<or> cs_phase s = CtlWriting n k \<or> cs_phase s = CtlPausing n"
  shows "quiet given (cs_current s # cs_queue s) s"
  using assms by (auto simp: session_inv_def quiet_def command_under_way_def)

lemma dial_ok_inv:
  assumes "session_inv given s" "cs_phase s = CtlDialing n"
  shows "session_inv given (write_on n (cs_streams s) (s\<lparr>cs_stream := Some (cs_streams s), cs_streams := Suc (cs_streams s)\<rparr>))"
  using assms by (auto simp: session_inv_def write_on_def ctl_log_def command_under_way_def)

lemma write_ok_inv:
  assumes "session_inv given s" "cs_phase s = CtlWriting n k"
  shows "session_inv given (ctl_log (CtlWrote k (cs_current s)) (s\<lparr>cs_phase := CtlReading k\<rparr>))"
  using assms by (auto simp: session_inv_def ctl_log_def command_under_way_def)

lemma read_inv:
  assumes "session_inv given s" "cs_phase s = CtlReading k"
  shows "session_inv given (next_command (ctl_log (CtlLine k (cs_current s) l) s))"
    "session_inv given (next_command (ctl_log (CtlFailed (cs_current s)) (s\<lparr>cs_stream := None\<rparr>)))"
proof -
  have "quiet given (cs_queue s) (ctl_log (CtlLine k (cs_current s) l) s)"
    using assms by (auto simp: session_inv_def quiet_def ctl_log_def command_under_way_def)
  from next_inv [of given "ctl_log (CtlLine k (cs_current s) l) s"] this
  show "session_inv given (next_command (ctl_log (CtlLine k (cs_current s) l) s))" by (simp add: ctl_log_def)
  have "quiet given (cs_queue s) (ctl_log (CtlFailed (cs_current s)) (s\<lparr>cs_stream := None\<rparr>))"
    using assms by (auto simp: session_inv_def quiet_def ctl_log_def command_under_way_def)
  from next_inv [of given "ctl_log (CtlFailed (cs_current s)) (s\<lparr>cs_stream := None\<rparr>)"] this
  show "session_inv given (next_command (ctl_log (CtlFailed (cs_current s)) (s\<lparr>cs_stream := None\<rparr>)))" by (simp add: ctl_log_def)
qed

lemma sendNow_inv: "session_inv given s \<Longrightarrow> session_inv given (sendNow ev s)"
  using dial_ok_inv [of given s] write_ok_inv [of given s] read_inv [of given s] fail_inv [OF quiet_of [of given s]] begin_inv [OF quiet_of [of given s]]
  by (cases "cs_phase s"; cases ev) (simp_all add: sendNow_def)

lemma send_inv: "session_inv given s \<Longrightarrow> session_inv (given @ [c]) (ctl_send c s)"
proof (cases "cs_phase s = CtlIdle")
  case True
  assume "session_inv given s"
  then have "quiet (given @ [c]) (cs_queue (s\<lparr>cs_queue := cs_queue s @ [c]\<rparr>)) (s\<lparr>cs_queue := cs_queue s @ [c]\<rparr>)"
    using True by (auto simp: session_inv_def quiet_def command_under_way_def)
  from next_inv [OF this] show ?thesis using True by (simp add: ctl_send_def)
next
  case False
  assume "session_inv given s"
  then show ?thesis using False by (cases "cs_phase s") (auto simp: session_inv_def ctl_send_def command_under_way_def)
qed

lemma close_inv: "session_inv given s \<Longrightarrow> session_inv given (ctl_close s)"
  by (cases "cs_stream s") (auto simp: session_inv_def ctl_close_def ctl_log_def command_under_way_def split: ctl_phase.splits)

lemma new_inv: "session_inv [] new_session"
  by (simp add: session_inv_def new_session_def command_under_way_def)

lemma step_inv: "session_inv given s \<Longrightarrow> fits ev \<Longrightarrow> session_inv given (ctl_step ev s)"
  by (cases ev) (simp_all add: ctl_step_def fits_def sendNow_inv)

section \<open>All sessions\<close>

text \<open>A session was given increasing commands below a number.\<close>

definition session_ok :: "nat \<Rightarrow> ctl_session \<Rightarrow> bool" where
  "session_ok n s = (\<exists>given. session_inv given s \<and> sorted_wrt (<) given \<and> (\<forall>c \<in> set given. c < n))"

definition world_inv :: "ctl_world \<Rightarrow> bool" where
  "world_inv w = ((\<forall>s \<in> set (cw_sessions w). session_ok (cw_sent w) s) \<and> (\<forall>e \<in> set (cw_open w). snd e < length (cw_sessions w)))"

lemma ok_step: "session_ok n s \<Longrightarrow> fits ev \<or> ev = EvClose \<Longrightarrow> session_ok n (ctl_step ev s)"
  unfolding session_ok_def using step_inv close_inv by (fastforce simp: ctl_step_def)

lemma ok_more: "session_ok n s \<Longrightarrow> session_ok (Suc n) s"
  unfolding session_ok_def by (meson less_SucI)

lemma ok_sent: "session_ok n s \<Longrightarrow> session_ok (Suc n) (ctl_step (EvSendLine n) s)"
  unfolding session_ok_def ctl_step_def
proof (elim exE conjE)
  fix given assume g: "session_inv given s" "sorted_wrt (<) given" "\<forall>c \<in> set given. c < n"
  then have "session_inv (given @ [n]) (ctl_send n s) \<and> sorted_wrt (<) (given @ [n]) \<and> (\<forall>c \<in> set (given @ [n]). c < Suc n)"
    using send_inv by (auto simp: sorted_wrt_append)
  then show "\<exists>given. session_inv given (case EvSendLine n of EvSendLine c \<Rightarrow> ctl_send c s | EvClose \<Rightarrow> ctl_close s | _ \<Rightarrow> sendNow (EvSendLine n) s)
      \<and> sorted_wrt (<) given \<and> (\<forall>c \<in> set given. c < Suc n)" by - (rule exI [of _ "given @ [n]"], simp)
qed

lemma ok_new: "session_ok n new_session"
  unfolding session_ok_def by (rule exI [of _ "[]"]) (simp add: new_inv)

lemma open_at: "cw_open (at_session i ev w) = cw_open w"
  by (simp add: at_session_def)

lemma sorted_subseq: "subseq xs ys \<Longrightarrow> sorted_wrt P ys \<Longrightarrow> sorted_wrt P xs"
  by (induction rule: list_emb.induct) (auto dest: list_emb_set)

lemma world_at: "world_inv w \<Longrightarrow> fits ev \<or> ev = EvClose \<Longrightarrow> world_inv (at_session i ev w)"
  using ok_step [of "cw_sent w" "cw_sessions w ! i" ev]
  by (auto simp: world_inv_def at_session_def dest!: set_update_subset_insert [THEN subsetD])

lemma world_sent: "world_inv w \<Longrightarrow> world_inv (at_session i (EvSendLine (cw_sent w)) (w\<lparr>cw_sent := Suc (cw_sent w)\<rparr>))"
  using ok_sent [of "cw_sent w" "cw_sessions w ! i"] ok_more [of "cw_sent w"]
  by (auto simp: world_inv_def at_session_def dest!: set_update_subset_insert [THEN subsetD])

lemma world_step:
  assumes "world_inv w"
  shows "world_inv (ctl_world_step ev w)"
proof (cases ev)
  case (CwSend p)
  let ?w = "w\<lparr>cw_sessions := cw_sessions w @ [new_session], cw_open := (p, length (cw_sessions w)) # cw_open w\<rparr>"
  have "world_inv ?w" using assms by (auto simp: world_inv_def ok_new)
  from world_sent [OF this, of "length (cw_sessions w)"] show ?thesis
    using world_sent [OF assms] by (auto simp: CwSend ctl_world_step_def sendPlayerCommand_def Let_def split: option.split)
next
  case (CwClose p)
  have "world_inv ((at_session i EvClose w)\<lparr>cw_open := filter P (cw_open w)\<rparr>)" for P i
    using world_at [OF assms, of EvClose i] by (auto simp: world_inv_def open_at)
  then show ?thesis
    using assms by (auto simp: CwClose ctl_world_step_def closePlayerControlSession_def split: option.split)
next
  case (CwAt i e)
  then show ?thesis using assms world_at [OF assms] by (auto simp: ctl_world_step_def)
qed

lemma world_reach: "ctl_reach w \<Longrightarrow> world_inv w"
  by (induction rule: ctl_reach.induct) (simp add: world_inv_def no_sessions_def, rule world_step)

lemma session_reach: "ctl_reach w \<Longrightarrow> i < length (cw_sessions w) \<Longrightarrow> \<exists>given. session_inv given (cw_sessions w ! i) \<and> sorted_wrt (<) given"
  using world_reach unfolding world_inv_def session_ok_def by (meson nth_mem)

section \<open>The session's promises\<close>

text \<open>C35: In every reachable state a session has written its commands to the wire in the order they were given to it and each at most once,
  however often dials and writes were tried again; those that have ended, the one under way and those that wait are the
  commands given to it, in order.\<close>

theorem cs_once:
  assumes "ctl_reach w" "i < length (cw_sessions w)" "s = cw_sessions w ! i"
  shows "sorted_wrt (<) (wrote (cs_log s)) \<and> sorted_wrt (<) (ended (cs_log s) @ command_under_way s @ cs_queue s)
    \<and> set (wrote (cs_log s)) \<subseteq> set (ended (cs_log s) @ command_under_way s)"
proof -
  obtain given where g: "session_inv given s" "sorted_wrt (<) given" using session_reach [OF assms(1,2)] assms(3) by blast
  obtain ws where ws: "wrote (cs_log s) = ws @ (case cs_phase s of CtlReading k \<Rightarrow> [cs_current s] | _ \<Rightarrow> [])" "subseq ws (ended (cs_log s))"
    and given: "ended (cs_log s) @ command_under_way s @ cs_queue s = given"
    using g(1) by (auto simp: session_inv_def)
  have "subseq (case cs_phase s of CtlReading k \<Rightarrow> [cs_current s] | _ \<Rightarrow> []) (command_under_way s @ cs_queue s)"
    by (cases "cs_phase s") (simp_all add: command_under_way_def)
  then have "subseq (wrote (cs_log s)) given" unfolding given [symmetric] ws(1) by (rule list_emb_append_mono [OF ws(2)])
  then have "sorted_wrt (<) (wrote (cs_log s))" using g(2) by (rule sorted_subseq)
  moreover have "set (wrote (cs_log s)) \<subseteq> set (ended (cs_log s) @ command_under_way s)"
    using ws subseq_order.order_trans by (cases "cs_phase s") (auto simp: command_under_way_def dest: list_emb_set)
  ultimately show ?thesis using g(2) given by simp
qed

text \<open>On every stream of a session the lines are read for the commands written on it, one for one and in order; at most the last command
  written is without its line, and a stream on which a line failed to come is not written on again.\<close>

theorem cs_paired:
  assumes "ctl_reach w" "i < length (cw_sessions w)" "s = cw_sessions w ! i"
  shows "(lines_on k (cs_log s) = wrote_on k (cs_log s) \<or> (\<exists>n. wrote_on k (cs_log s) = lines_on k (cs_log s) @ [n]))
    \<and> (\<forall>n. cs_phase s = CtlWriting n k \<longrightarrow> lines_on k (cs_log s) = wrote_on k (cs_log s))"
  using session_reach [OF assms(1,2)] unfolding assms(3) session_inv_def by blast

text \<open>C36: A one-shot dial whose reads fail has its line on the wire again each time: after n of at most three failed reads an answer is taken
  for success, and the peer has had the line n + 1 times; it never has it more than four times.\<close>

theorem dl_resends:
  "(n \<le> 3 \<longrightarrow> dialLine 0 (replicate n ReadFails @ DialAnswers l # ds) = (Some (Inr l), Suc n)) \<and> snd (dialLine 0 es) \<le> 4"
proof
  have "dialLine a (replicate m ReadFails @ DialAnswers l # ds) = (Some (Inr l), Suc m)" if "a + m \<le> 3" for a m
    using that by (induction m arbitrary: a) (simp_all add: DIAL_RETRY_DELAYS_MS_def reached_def)
  then show "n \<le> 3 \<longrightarrow> dialLine 0 (replicate n ReadFails @ DialAnswers l # ds) = (Some (Inr l), Suc n)" by simp
  have "a \<le> 3 \<Longrightarrow> a + snd (dialLine a es) \<le> 4" for a
  proof (induction es arbitrary: a)
    case (Cons d es)
    then show ?case using Cons.IH [of "Suc a"]
      by (cases d) (auto simp: DIAL_RETRY_DELAYS_MS_def reached_def split: prod.splits)
  qed simp
  from this [of 0] show "snd (dialLine 0 es) \<le> 4" by simp
qed

section \<open>The subscription leaves nothing open\<close>

definition closed_streams :: "subscription \<Rightarrow> nat set" where
  "closed_streams s = {k. SubClose k \<in> set (sb_log s)}"

definition sub_inv :: "subscription \<Rightarrow> bool" where
  "sub_inv s =
     ((\<forall>k < sb_streams s. SubClose k \<in> set (sb_log s) \<or> sb_stream s = Some k)
      \<and> (case sb_phase s of SubWriting k \<Rightarrow> sb_stream s = Some k | SubReading k \<Rightarrow> sb_stream s = Some k | _ \<Rightarrow> sb_stream s = None)
      \<and> (sb_closed s \<longrightarrow> (case sb_phase s of SubPausing \<Rightarrow> True | _ \<Rightarrow> True))
      \<and> (\<forall>k. sb_closed s \<longrightarrow> sb_stream s = Some k \<longrightarrow> SubClose k \<in> set (sb_log s)))"

lemma subscription_step_inv: "sub_inv s \<Longrightarrow> sub_inv (subscription_step ev s)"
  by (cases "sb_phase s"; cases ev)
    (auto simp: sub_inv_def subscription_step_def sub_round_def sub_log_def sub_close_def sub_finally_def round_over_def sub_dialled_def sub_line_def Let_def
      less_Suc_eq split: option.splits)

lemma sub_reach_inv: "sub_reach s \<Longrightarrow> sub_inv s"
  by (induction rule: sub_reach.induct)
    (simp add: sub_inv_def subscribeToPlayerStatus_def sub_round_def sub_log_def, rule subscription_step_inv)

definition dials :: "subscription \<Rightarrow> nat" where
  "dials s = length (filter (\<lambda>c. c = SubDial) (sb_log s))"

definition may_dial :: "subscription \<Rightarrow> nat" where
  "may_dial s = (if sb_phase s = SubNode then 1 else 0)"

lemma closed_dials: "sb_closed s \<Longrightarrow> sb_closed (subscription_step ev s) \<and> dials (subscription_step ev s) + may_dial (subscription_step ev s) \<le> dials s + may_dial s"
  by (cases "sb_phase s"; cases ev)
    (auto simp: dials_def may_dial_def subscription_step_def sub_round_def sub_log_def sub_close_def sub_finally_def round_over_def sub_dialled_def
      sub_line_def Let_def split: option.splits)

lemma closed_run: "sb_closed s \<Longrightarrow> dials (fold subscription_step evs s) \<le> dials s + may_dial s"
proof (induction evs arbitrary: s)
  case (Cons ev evs)
  have "sb_closed (subscription_step ev s)" "dials (subscription_step ev s) + may_dial (subscription_step ev s) \<le> dials s + may_dial s" using closed_dials [OF Cons.prems] by blast+
  with Cons.IH [of "subscription_step ev s"] show ?case by simp
qed simp

text \<open>C37: Whatever a subscription goes through, every stream it has opened is closed or the one in use, and once it has ended or the caller has
  unsubscribed every one has been closed; after unsubscribing it dials at most once more.\<close>

theorem sb_closes:
  assumes "sub_reach s"
  shows "(\<forall>k < sb_streams s. SubClose k \<in> set (sb_log s) \<or> sb_stream s = Some k)
    \<and> (sb_phase s = SubEnded \<or> sb_closed s \<longrightarrow> (\<forall>k < sb_streams s. SubClose k \<in> set (sb_log s)))
    \<and> (sb_closed s \<longrightarrow> dials (fold subscription_step evs s) \<le> Suc (dials s))"
proof (intro conjI impI)
  have i: "sub_inv s" by (rule sub_reach_inv [OF assms])
  then show "\<forall>k < sb_streams s. SubClose k \<in> set (sb_log s) \<or> sb_stream s = Some k" by (simp add: sub_inv_def)
  show "\<forall>k < sb_streams s. SubClose k \<in> set (sb_log s)" if "sb_phase s = SubEnded \<or> sb_closed s"
    using i that unfolding sub_inv_def by fastforce
  show "dials (fold subscription_step evs s) \<le> Suc (dials s)" if "sb_closed s"
    using closed_run [OF that, of evs] by (simp add: may_dial_def split: if_splits)
qed

text \<open>A line that has arrived is still delivered after unsubscribing.\<close>

theorem sb_late:
  assumes "sb_closed s" "sb_phase s = SubReading k" "json_parse_text t = Some v"
  shows "subscription_step (SbLine (Some t)) s = sub_log (SubStatus v) s"
  using assms by (simp add: subscription_step_def sub_line_def)

section \<open>Closing and sending again\<close>

text \<open>Closing a peer's session leaves the commands that wait in it to run on: a command sent after that goes through a session of its own and
  is written while an older command to the same peer still waits.\<close>

theorem cs_overtakes:
  "let w = fold ctl_world_step [CwSend p, CwSend p, CwClose p, CwSend p, CwAt 1 EvDialOk] no_sessions in
     cs_queue (cw_sessions w ! 0) = [1] \<and> CtlWrite 0 2 \<in> set (cs_log (cw_sessions w ! 1))"
  by (simp add: ctl_world_step_def sendPlayerCommand_def closePlayerControlSession_def at_session_def no_sessions_def new_session_def ctl_step_def
      ctl_send_def ctl_close_def next_command_def begin_attempt_def sendNow_def write_on_def ctl_log_def fits_def Let_def)

section \<open>Applied\<close>

definition demo_world :: ctl_world where
  "demo_world = fold ctl_world_step [CwSend ''a'', CwAt 0 EvDialOk, CwAt 0 EvWriteOk, CwSend ''a'', CwAt 0 (EvLine None)] no_sessions"

lemma demo_world_reach: "ctl_reach demo_world"
  unfolding demo_world_def by (simp add: ctl_reach.intros)

lemma demo_world_length: "0 < length (cw_sessions demo_world)"
  by code_simp

lemma cs_once_witness: "sorted_wrt (<) (wrote (cs_log (cw_sessions demo_world ! 0))) \<and> wrote (cs_log (cw_sessions demo_world ! 0)) = [0]"
proof
  show "wrote (cs_log (cw_sessions demo_world ! 0)) = [0]" by code_simp
qed (use cs_once [OF demo_world_reach demo_world_length refl] in blast)

lemma cs_paired_witness:
  "lines_on 0 (cs_log (cw_sessions demo_world ! 0)) = wrote_on 0 (cs_log (cw_sessions demo_world ! 0)) \<and> cs_phase (cw_sessions demo_world ! 0) = CtlWriting 0 0"
proof -
  have "cs_phase (cw_sessions demo_world ! 0) = CtlWriting 0 0" by code_simp
  then show ?thesis using cs_paired [OF demo_world_reach demo_world_length refl, of 0] by blast
qed

lemma dl_resends_witness: "dialLine 0 (replicate 2 ReadFails @ [DialAnswers None]) = (Some (Inr None), 3)"
  using dl_resends [of 2 None "[]" "[]"] by simp

definition demo_sub :: subscription where
  "demo_sub = fold subscription_step [SbNode True, SbDialOk, SbUnsubscribe] (subscribeToPlayerStatus True)"

lemma sb_closes_witness: "SubClose 0 \<in> set (sb_log demo_sub) \<and> sb_streams demo_sub = 1"
proof -
  have "sub_reach demo_sub" unfolding demo_sub_def by (simp add: sub_reach.intros)
  moreover have "sb_closed demo_sub \<and> sb_streams demo_sub = 1" by code_simp
  ultimately show ?thesis using sb_closes [of demo_sub "[]"] by auto
qed

end
