(* ===== verification/AnalyticsQueue.thy ===== *)
theory AnalyticsQueue
  imports ObjectStore "HOL-Library.List_Lexorder" "HOL-Library.Char_ord"
begin

text \<open>
  The analytics queue, \<open>client/spume/src/music/services/analytics/analyticsQueue.ts\<close>: plays are kept in an object store
  and sent to their server later. A sync waits for its rows, for the lookup of a remote and for the server's answer;
  what happens between two of these is one step, with the clock read once. Writes to the store do not reject. Queueing
  an event, which touches no other row, is one step. The application can be closed at any time: the store stays.
\<close>

section \<open>Events\<close>

datatype an_status = AnPending | AnSending | AnFailed | AnSent

datatype an_type = PlayComplete | VideoPlayComplete | Favorite | Unfavorite | Rate

record an_payload =
  ap_media_blob_id :: "string option"
  ap_song_id :: "string option"
  ap_video_id :: "string option"
  ap_session_id :: "string option"
  ap_target_remote_id :: "string option"
  ap_target_base_url :: "string option"

record analytics_event =
  an_id :: string
  an_type :: an_type
  an_payload :: an_payload
  an_status :: an_status
  an_retry_count :: nat
  an_max_retries :: nat
  an_created_at :: nat
  an_last_attempt_at :: "nat option"
  an_error :: "string option"

definition MAX_RETRIES :: nat where
  "MAX_RETRIES = 5"

definition DAY_MS :: nat where
  "DAY_MS = 24 * 60 * 60 * 1000"

text \<open>An optional string that is not falsy.\<close>

definition present :: "string option \<Rightarrow> bool" where
  "present x = (x \<noteq> None \<and> x \<noteq> Some [])"

section \<open>State\<close>

datatype an_call =
    Queued string an_type an_payload
  | Recorded string
  | Refused string
  | Warned string nat

datatype an_phase =
    AnIdle
  | AnLoading
  | AnResolving analytics_event "analytics_event list" "analytics_event list"
  | AnCalling analytics_event "analytics_event list" "analytics_event list"

record analytics =
  aq_store :: "analytics_event list"
  aq_syncing :: bool
  aq_interval :: bool
  aq_pending :: nat
  aq_phase :: an_phase
  aq_log :: "an_call list"

definition empty_queue :: analytics where
  "empty_queue = \<lparr>aq_store = [], aq_syncing = False, aq_interval = False, aq_pending = 0, aq_phase = AnIdle, aq_log = []\<rparr>"

abbreviation an_row :: "analytics \<Rightarrow> string \<Rightarrow> analytics_event option" where
  "an_row s i \<equiv> idb_get an_id i (aq_store s)"

definition an_put :: "analytics_event \<Rightarrow> analytics \<Rightarrow> analytics" where
  "an_put e s = s\<lparr>aq_store := idb_put an_id e (aq_store s)\<rparr>"

definition an_log :: "an_call \<Rightarrow> analytics \<Rightarrow> analytics" where
  "an_log c s = s\<lparr>aq_log := aq_log s @ [c]\<rparr>"

definition refreshPendingCount :: "analytics \<Rightarrow> analytics" where
  "refreshPendingCount s =
     s\<lparr>aq_pending := length (filter (\<lambda>e. an_status e = AnPending \<or> an_status e = AnFailed) (aq_store s))\<rparr>"

section \<open>Syncing\<close>

definition trigger :: "analytics \<Rightarrow> analytics" where
  "trigger s = (if aq_syncing s then s else s\<lparr>aq_syncing := True, aq_phase := AnLoading\<rparr>)"

text \<open>Sent events of more than a day, and failed ones that are not tried any more.\<close>

definition stale :: "nat \<Rightarrow> analytics_event \<Rightarrow> bool" where
  "stale now e = (an_created_at e + DAY_MS < now \<and>
     (an_status e = AnSent \<or> an_status e = AnFailed \<and> an_max_retries e \<le> an_retry_count e))"

definition finish_sync :: "nat \<Rightarrow> analytics_event list \<Rightarrow> analytics \<Rightarrow> analytics" where
  "finish_sync now allEvents s =
     (refreshPendingCount (s\<lparr>aq_store := fold (\<lambda>e st. idb_delete an_id (an_id e) st) (filter (stale now) allEvents) (aq_store s)\<rparr>))
       \<lparr>aq_syncing := False, aq_phase := AnIdle\<rparr>"

definition callable :: "an_type \<Rightarrow> an_payload \<Rightarrow> bool" where
  "callable t p =
     (case t of
        PlayComplete \<Rightarrow> present (ap_media_blob_id p) \<and> present (ap_song_id p)
      | VideoPlayComplete \<Rightarrow> present (ap_media_blob_id p) \<and> present (ap_video_id p)
      | _ \<Rightarrow> False)"

text \<open>\<open>syncSingleEvent\<close> up to the server call: the event that waits for its answer, if any.\<close>

definition syncSingleEvent :: "nat \<Rightarrow> analytics_event \<Rightarrow> analytics \<Rightarrow> analytics \<times> analytics_event option" where
  "syncSingleEvent now e s =
     (let sending = e\<lparr>an_status := AnSending, an_last_attempt_at := Some now\<rparr>; s1 = an_put sending s in
      if callable (an_type e) (an_payload e) then (s1, Some sending) else (an_put (sending\<lparr>an_status := AnSent\<rparr>) s1, None))"

text \<open>An event without a remote is marked as sent.\<close>

definition route_event :: "nat \<Rightarrow> bool \<Rightarrow> analytics_event \<Rightarrow> analytics \<Rightarrow> analytics \<times> analytics_event option" where
  "route_event now found e s =
     (if \<not> found \<and> \<not> present (ap_target_base_url (an_payload e)) then (an_put (e\<lparr>an_status := AnSent\<rparr>) s, None)
      else syncSingleEvent now e s)"

fun sync_rest :: "nat \<Rightarrow> analytics_event list \<Rightarrow> analytics_event list \<Rightarrow> analytics \<Rightarrow> analytics" where
  "sync_rest now allEvents [] s = finish_sync now allEvents s"
| "sync_rest now allEvents (e # es) s =
     (if present (ap_target_remote_id (an_payload e)) then s\<lparr>aq_phase := AnResolving e es allEvents\<rparr>
      else case route_event now False e s of
          (s', Some sending) \<Rightarrow> s'\<lparr>aq_phase := AnCalling sending es allEvents\<rparr>
        | (s', None) \<Rightarrow> sync_rest now allEvents es s')"

definition an_resolved :: "nat \<Rightarrow> bool \<Rightarrow> analytics_event \<Rightarrow> analytics_event list \<Rightarrow> analytics_event list \<Rightarrow> analytics \<Rightarrow> analytics" where
  "an_resolved now found e es allEvents s =
     (case route_event now found e s of
        (s', Some sending) \<Rightarrow> s'\<lparr>aq_phase := AnCalling sending es allEvents\<rparr>
      | (s', None) \<Rightarrow> sync_rest now allEvents es s')"

definition syncable :: "analytics_event list \<Rightarrow> analytics_event list" where
  "syncable es =
     sort_key an_created_at (filter (\<lambda>e. an_retry_count e < an_max_retries e)
       (filter (\<lambda>e. an_status e = AnPending \<or> an_status e = AnFailed) es))"

definition syncEvents :: "nat \<Rightarrow> analytics \<Rightarrow> analytics" where
  "syncEvents now s = sync_rest now (aq_store s) (syncable (aq_store s)) s"

text \<open>The server took it, refused it or did not answer, or was not reached.\<close>

datatype an_answer = Took | Refusal string | NotReached string

definition sync_failed :: "string \<Rightarrow> analytics_event \<Rightarrow> analytics \<Rightarrow> analytics" where
  "sync_failed msg e s =
     an_log (Warned (an_id e) (Suc (an_retry_count e)))
       (an_put (e\<lparr>an_status := AnFailed, an_retry_count := Suc (an_retry_count e), an_error := Some msg\<rparr>) s)"

definition an_answered :: "an_answer \<Rightarrow> analytics_event \<Rightarrow> analytics \<Rightarrow> analytics" where
  "an_answered a e s =
     (case a of
        Took \<Rightarrow> an_put (e\<lparr>an_status := AnSent\<rparr>) (an_log (Recorded (an_id e)) s)
      | Refusal m \<Rightarrow> sync_failed m e (an_log (Refused (an_id e)) s)
      | NotReached m \<Rightarrow> sync_failed m e s)"

section \<open>Operations\<close>

text \<open>\<open>session\<close> is what \<open>getSessionIdForRemote\<close> answers, \<open>i\<close> the random id.\<close>

definition queueAnalyticsEvent :: "string \<Rightarrow> an_type \<Rightarrow> an_payload \<Rightarrow> string option \<Rightarrow> nat \<Rightarrow> analytics \<Rightarrow> analytics" where
  "queueAnalyticsEvent i t p session now s =
     (let p' = (if present (ap_target_remote_id p) \<and> \<not> present (ap_session_id p) \<and> present session then p\<lparr>ap_session_id := session\<rparr> else p);
          e = \<lparr>an_id = i, an_type = t, an_payload = p', an_status = AnPending, an_retry_count = 0, an_max_retries = MAX_RETRIES,
               an_created_at = now, an_last_attempt_at = None, an_error = None\<rparr>
      in trigger (refreshPendingCount (an_put e (an_log (Queued i t p') s))))"

definition startAnalyticsSync :: "analytics \<Rightarrow> analytics" where
  "startAnalyticsSync s = (if aq_interval s then s else trigger (s\<lparr>aq_interval := True\<rparr>))"

definition stopAnalyticsSync :: "analytics \<Rightarrow> analytics" where
  "stopAnalyticsSync s = s\<lparr>aq_interval := False\<rparr>"

text \<open>Only the store outlives the application.\<close>

definition app_restart :: "analytics \<Rightarrow> analytics" where
  "app_restart s = s\<lparr>aq_syncing := False, aq_interval := False, aq_pending := 0, aq_phase := AnIdle\<rparr>"

datatype an_event =
    AnQueue string an_type an_payload "string option" nat
  | AnStart | AnStop | AnTick
  | AnLoaded nat
  | AnResolved bool nat
  | AnThrows
  | AnAnswer an_answer nat
  | AnRestart

definition an_step :: "an_event \<Rightarrow> analytics \<Rightarrow> analytics" where
  "an_step ev s =
     (case ev of
        AnQueue i t p session now \<Rightarrow> queueAnalyticsEvent i t p session now s
      | AnStart \<Rightarrow> startAnalyticsSync s
      | AnStop \<Rightarrow> stopAnalyticsSync s
      | AnTick \<Rightarrow> if aq_interval s then trigger s else s
      | AnRestart \<Rightarrow> app_restart s
      | AnLoaded now \<Rightarrow> (case aq_phase s of AnLoading \<Rightarrow> syncEvents now s | _ \<Rightarrow> s)
      | AnResolved found now \<Rightarrow> (case aq_phase s of AnResolving e es a \<Rightarrow> an_resolved now found e es a s | _ \<Rightarrow> s)
      | AnThrows \<Rightarrow>
          (case aq_phase s of
             AnLoading \<Rightarrow> s\<lparr>aq_syncing := False, aq_phase := AnIdle\<rparr>
           | AnResolving e es a \<Rightarrow> s\<lparr>aq_syncing := False, aq_phase := AnIdle\<rparr>
           | _ \<Rightarrow> s)
      | AnAnswer a now \<Rightarrow> (case aq_phase s of AnCalling e es alls \<Rightarrow> sync_rest now alls es (an_answered a e s) | _ \<Rightarrow> s))"

text \<open>A random id is new.\<close>

definition fresh_id :: "an_event \<Rightarrow> analytics \<Rightarrow> bool" where
  "fresh_id ev s = (case ev of AnQueue i _ _ _ _ \<Rightarrow> (\<forall>c \<in> set (aq_log s). case c of Queued j _ _ \<Rightarrow> j \<noteq> i | _ \<Rightarrow> True) | _ \<Rightarrow> True)"

inductive an_reach :: "analytics \<Rightarrow> bool" where
  start: "an_reach empty_queue"
| event: "an_reach s \<Longrightarrow> fresh_id ev s \<Longrightarrow> an_reach (an_step ev s)"

end
