(* ===== verification/AnalyticsClaims.thy ===== *)
theory AnalyticsClaims
  imports AnalyticsQueue
begin

text \<open>
  The properties of the analytics queue: how often an event can be sent, what becomes of every event that is queued, and
  what a closed application leaves behind.
\<close>

section \<open>Counting\<close>

definition times_recorded :: "string \<Rightarrow> an_call list \<Rightarrow> nat" where
  "times_recorded i log = count_list log (Recorded i)"

definition refused :: "string \<Rightarrow> an_call list \<Rightarrow> nat" where
  "refused i log = count_list log (Refused i)"

lemma count_simps [simp]: "times_recorded i [] = 0" "refused i [] = 0"
  "times_recorded i (xs @ [c]) = times_recorded i xs + (if c = Recorded i then 1 else 0)" "refused i (xs @ [c]) = refused i xs + (if c = Refused i then 1 else 0)"
  by (simp_all add: times_recorded_def refused_def)

section \<open>The invariant\<close>

definition row_ok :: "an_call list \<Rightarrow> analytics_event \<Rightarrow> bool" where
  "row_ok log e =
     (Queued (an_id e) (an_type e) (an_payload e) \<in> set log \<and> an_max_retries e = MAX_RETRIES
      \<and> an_retry_count e \<le> MAX_RETRIES \<and> refused (an_id e) log \<le> an_retry_count e
      \<and> (an_retry_count e = MAX_RETRIES \<longrightarrow> Warned (an_id e) MAX_RETRIES \<in> set log)
      \<and> (case an_status e of
           AnPending \<Rightarrow> times_recorded (an_id e) log = 0
         | AnFailed \<Rightarrow> times_recorded (an_id e) log = 0
         | AnSending \<Rightarrow> times_recorded (an_id e) log = 0 \<and> an_retry_count e < MAX_RETRIES
         | AnSent \<Rightarrow> an_retry_count e < MAX_RETRIES \<and> times_recorded (an_id e) log \<le> 1 \<and>
             (times_recorded (an_id e) log = 1 \<or> \<not> callable (an_type e) (an_payload e) \<or> \<not> present (ap_target_base_url (an_payload e)))))"

text \<open>What is to be said of an event without looking at the store.\<close>

definition id_ok :: "an_call list \<Rightarrow> analytics_event list \<Rightarrow> string \<Rightarrow> bool" where
  "id_ok log st i =
     (times_recorded i log \<le> 1 \<and> times_recorded i log + refused i log \<le> MAX_RETRIES
      \<and> (\<forall>t p t' p'. Queued i t p \<in> set log \<longrightarrow> Queued i t' p' \<in> set log \<longrightarrow> t = t' \<and> p = p')
      \<and> ((\<forall>t p. Queued i t p \<notin> set log) \<longrightarrow> times_recorded i log = 0 \<and> refused i log = 0)
      \<and> (idb_get an_id i st = None \<longrightarrow> (\<forall>t p. Queued i t p \<in> set log \<longrightarrow>
           times_recorded i log = 1 \<or> \<not> callable t p \<or> \<not> present (ap_target_base_url p) \<or> Warned i MAX_RETRIES \<in> set log)))"

definition rows_inv :: "analytics \<Rightarrow> bool" where
  "rows_inv s = (idb_ok an_id (aq_store s) \<and> (\<forall>i e. an_row s i = Some e \<longrightarrow> row_ok (aq_log s) e) \<and> (\<forall>i. id_ok (aq_log s) (aq_store s) i))"

definition open_event :: "analytics_event \<Rightarrow> bool" where
  "open_event e = ((an_status e = AnPending \<or> an_status e = AnFailed) \<and> an_retry_count e < an_max_retries e)"

text \<open>The events a sync still has to do are rows as they were read, those over and done with cannot have changed.\<close>

definition rest_inv :: "analytics \<Rightarrow> analytics_event list \<Rightarrow> bool" where
  "rest_inv s es = (distinct (map an_id es) \<and> (\<forall>e \<in> set es. an_row s (an_id e) = Some e \<and> open_event e))"

definition over :: "analytics_event \<Rightarrow> bool" where
  "over e = (an_status e = AnSent \<or> an_status e = AnFailed \<and> an_max_retries e \<le> an_retry_count e)"

definition snapshot_inv :: "analytics \<Rightarrow> analytics_event list \<Rightarrow> bool" where
  "snapshot_inv s alls =
     (\<forall>e \<in> set alls. over e \<longrightarrow> (an_row s (an_id e) = Some e \<or> an_row s (an_id e) = None) \<and> (\<exists>t p. Queued (an_id e) t p \<in> set (aq_log s)))"

definition an_inv :: "analytics \<Rightarrow> bool" where
  "an_inv s =
     (rows_inv s \<and> (aq_syncing s \<longleftrightarrow> aq_phase s \<noteq> AnIdle)
      \<and> (case aq_phase s of
           AnIdle \<Rightarrow> True | AnLoading \<Rightarrow> True
         | AnResolving e es alls \<Rightarrow> rest_inv s (e # es) \<and> snapshot_inv s alls
         | AnCalling e es alls \<Rightarrow> an_row s (an_id e) = Some e \<and> an_status e = AnSending \<and> callable (an_type e) (an_payload e)
             \<and> rest_inv s es \<and> an_id e \<notin> an_id ` set es \<and> snapshot_inv s alls))"

lemma rows_invD:
  assumes "rows_inv s"
  shows "idb_ok an_id (aq_store s)" "an_row s i = Some e \<Longrightarrow> row_ok (aq_log s) e" "id_ok (aq_log s) (aq_store s) i"
    "an_row s i = Some e \<Longrightarrow> an_id e = i"
  using assms idb.get_iff_row [of an_id "aq_store s" i e] unfolding rows_inv_def by blast+

lemma an_row_put: "idb_ok an_id (aq_store s) \<Longrightarrow> an_row (an_put e s) i = (if i = an_id e then Some e else an_row s i)"
  by (simp add: an_put_def idb_get_put)

text \<open>Changing a row: the new one must be all right, what the log says of the others stays.\<close>

lemma store_put:
  assumes "rows_inv s" "an_row s (an_id e) \<noteq> None" "row_ok (aq_log s) e"
  shows "rows_inv (an_put e s)"
proof -
  note D = rows_invD [OF assms(1)]
  have ok: "idb_ok an_id (aq_store (an_put e s))" using D(1) by (simp add: an_put_def idb_ok_put)
  have "id_ok (aq_log s) (aq_store (an_put e s)) i" for i
    using D(3) [of i] an_row_put [OF D(1), where e = e and i = i] assms(2) by (auto simp: id_ok_def split: if_splits)
  moreover have "row_ok (aq_log s) f" if "an_row (an_put e s) i = Some f" for i f
    using that an_row_put [OF D(1), where e = e and i = i] D(2) [of i f] assms(3) by (auto split: if_splits)
  ultimately show ?thesis using ok by (simp add: rows_inv_def an_put_def)
qed

lemma put_rest:
  "idb_ok an_id (aq_store s) \<Longrightarrow> rest_inv s es \<Longrightarrow> an_id e \<notin> an_id ` set es \<Longrightarrow> rest_inv (an_put e s) es"
  by (auto simp: rest_inv_def an_row_put image_iff)

lemma put_snapshot:
  assumes "idb_ok an_id (aq_store s)" "snapshot_inv s alls" "an_row s (an_id e) = Some f" "\<not> over f"
  shows "snapshot_inv (an_put e s) alls"
  using assms by (auto simp: snapshot_inv_def an_row_put) (auto simp: an_put_def)

section \<open>The steps of a sync\<close>

lemma open_row_ok:
  "row_ok log e \<Longrightarrow> open_event e \<Longrightarrow> times_recorded (an_id e) log = 0 \<and> an_retry_count e < MAX_RETRIES"
  by (auto simp: row_ok_def open_event_def)

lemma open_not_over: "open_event e \<Longrightarrow> \<not> over e"
  by (auto simp: open_event_def over_def)

text \<open>Routing an event marks it as sending or as sent.\<close>

lemma route_inv:
  assumes "rows_inv s" "rest_inv s (e # es)" "snapshot_inv s alls" "route_event now found e s = (s', r)"
  shows "rows_inv s' \<and> rest_inv s' es \<and> snapshot_inv s' alls
    \<and> (\<forall>e'. r = Some e' \<longrightarrow> an_row s' (an_id e') = Some e' \<and> an_status e' = AnSending \<and> callable (an_type e') (an_payload e') \<and> an_id e' \<notin> an_id ` set es)"
proof -
  note D = rows_invD [OF assms(1)]
  have e: "an_row s (an_id e) = Some e" "open_event e" "an_id e \<notin> an_id ` set es" "rest_inv s es"
    using assms(2) by (auto simp: rest_inv_def)
  have re: "row_ok (aq_log s) e" by (rule D(2) [OF e(1)])
  have upd: "rows_inv (an_put e' s) \<and> rest_inv (an_put e' s) es \<and> snapshot_inv (an_put e' s) alls \<and> an_row (an_put e' s) (an_id e) = Some e'"
    if "an_id e' = an_id e" "row_ok (aq_log s) e'" for e'
    using that store_put [OF assms(1), of e'] put_rest [OF D(1) e(4), of e'] put_snapshot [OF D(1) assms(3), of e'] e open_not_over [OF e(2)]
    by (auto simp: an_row_put [OF D(1)])
  let ?sending = "e\<lparr>an_status := AnSending, an_last_attempt_at := Some now\<rparr>"
  show ?thesis
  proof (cases "\<not> found \<and> \<not> present (ap_target_base_url (an_payload e))")
    case True
    then have "row_ok (aq_log s) (e\<lparr>an_status := AnSent\<rparr>)" using re open_row_ok [OF re e(2)] by (simp add: row_ok_def)
    then show ?thesis using upd [of "e\<lparr>an_status := AnSent\<rparr>"] True assms(4) by (auto simp: route_event_def)
  next
    case False
    then have r: "syncSingleEvent now e s = (s', r)" using assms(4) by (auto simp: route_event_def)
    have ok: "row_ok (aq_log s) ?sending" using re open_row_ok [OF re e(2)] by (simp add: row_ok_def)
    note d = upd [of ?sending, OF _ ok]
    show ?thesis
    proof (cases "callable (an_type e) (an_payload e)")
      case True
      then show ?thesis using d r e(3) by (auto simp: syncSingleEvent_def Let_def)
    next
      case nc: False
      have ok2: "row_ok (aq_log (an_put ?sending s)) (?sending\<lparr>an_status := AnSent\<rparr>)"
        using re open_row_ok [OF re e(2)] nc by (simp add: row_ok_def an_put_def)
      have s1: "rows_inv (an_put ?sending s)" "rest_inv (an_put ?sending s) es" "snapshot_inv (an_put ?sending s) alls"
        "an_row (an_put ?sending s) (an_id e) = Some ?sending" using d by simp_all
      have "idb_ok an_id (aq_store (an_put ?sending s))" by (rule rows_invD(1) [OF s1(1)])
      then show ?thesis
        using r nc store_put [OF s1(1), of "?sending\<lparr>an_status := AnSent\<rparr>"] put_rest [OF _ s1(2), of "?sending\<lparr>an_status := AnSent\<rparr>"]
          put_snapshot [OF _ s1(3), of "?sending\<lparr>an_status := AnSent\<rparr>" ?sending] s1(4) ok2 e(3)
        by (auto simp: syncSingleEvent_def Let_def over_def)
    qed
  qed
qed

text \<open>Deleting what is over and done with.\<close>

lemma an_row_del: "idb_ok an_id st \<Longrightarrow> idb_get an_id i (idb_delete an_id k st) = (if i = k then None else idb_get an_id i st)"
  by (rule idb.get_del)

lemma delete_inv:
  assumes "rows_inv s" "snapshot_inv s alls" "e \<in> set alls" "over e"
  shows "rows_inv (s\<lparr>aq_store := idb_delete an_id (an_id e) (aq_store s)\<rparr>) \<and> snapshot_inv (s\<lparr>aq_store := idb_delete an_id (an_id e) (aq_store s)\<rparr>) alls"
proof -
  note D = rows_invD [OF assms(1)]
  let ?st = "idb_delete an_id (an_id e) (aq_store s)"
  have gone: "times_recorded (an_id e) (aq_log s) = 1 \<or> \<not> callable t p \<or> \<not> present (ap_target_base_url p) \<or> Warned (an_id e) MAX_RETRIES \<in> set (aq_log s)"
    if q: "Queued (an_id e) t p \<in> set (aq_log s)" for t p
  proof (cases "an_row s (an_id e)")
    case None
    then show ?thesis using D(3) [of "an_id e"] q unfolding id_ok_def by blast
  next
    case (Some f)
    then have "an_row s (an_id e) = Some e" using assms(2-4) by (auto simp: snapshot_inv_def)
    then have r: "row_ok (aq_log s) e" by (rule D(2))
    then have "Queued (an_id e) (an_type e) (an_payload e) \<in> set (aq_log s)" by (simp add: row_ok_def)
    then have "t = an_type e" "p = an_payload e" using D(3) [of "an_id e"] q unfolding id_ok_def by blast+
    then show ?thesis using r assms(4) by (auto simp: row_ok_def over_def)
  qed
  have "id_ok (aq_log s) ?st i" for i
    using D(3) [of i] gone by (cases "i = an_id e") (auto simp: id_ok_def an_row_del [OF D(1)])
  moreover have "idb_ok an_id ?st" by (rule idb.ok_del [OF D(1)])
  moreover have "row_ok (aq_log s) f" if "idb_get an_id i ?st = Some f" for i f
    using that D(2) [of i f] by (simp add: an_row_del [OF D(1)] split: if_splits)
  ultimately show ?thesis
    using assms(2) by (auto simp: rows_inv_def snapshot_inv_def an_row_del [OF D(1)])
qed

lemma deletes_inv:
  assumes "rows_inv s" "snapshot_inv s alls" "set ds \<subseteq> set alls" "\<forall>e \<in> set ds. over e"
  shows "rows_inv (s\<lparr>aq_store := fold (\<lambda>e st. idb_delete an_id (an_id e) st) ds (aq_store s)\<rparr>)"
  using assms
proof (induction ds arbitrary: s)
  case (Cons d ds)
  have "d \<in> set alls" "over d" using Cons.prems by auto
  note d = delete_inv [OF Cons.prems(1,2) this]
  show ?case using Cons.IH [OF conjunct1 [OF d] conjunct2 [OF d]] Cons.prems by simp
qed simp

lemma finish_inv:
  assumes "rows_inv s" "snapshot_inv s alls"
  shows "an_inv (finish_sync now alls s)"
proof -
  have "rows_inv (s\<lparr>aq_store := fold (\<lambda>e st. idb_delete an_id (an_id e) st) (filter (stale now) alls) (aq_store s)\<rparr>)"
    by (rule deletes_inv [OF assms]) (auto simp: stale_def over_def)
  then show ?thesis by (simp add: an_inv_def finish_sync_def refreshPendingCount_def rows_inv_def)
qed

lemma phase_inv [simp]: "rows_inv (s\<lparr>aq_phase := x\<rparr>) = rows_inv s" "rest_inv (s\<lparr>aq_phase := x\<rparr>) es = rest_inv s es"
  "snapshot_inv (s\<lparr>aq_phase := x\<rparr>) es = snapshot_inv s es"
  by (simp_all add: rows_inv_def rest_inv_def snapshot_inv_def)

lemma route_syncing: "route_event now found e s = (s', r) \<Longrightarrow> aq_syncing s' = aq_syncing s"
  by (auto simp: route_event_def syncSingleEvent_def Let_def an_put_def split: if_splits)

lemma rest_sync_inv:
  assumes "rows_inv s" "rest_inv s es" "snapshot_inv s alls" "aq_syncing s"
  shows "an_inv (sync_rest now alls es s)"
  using assms
proof (induction es arbitrary: s)
  case Nil
  then show ?case by (simp add: finish_inv)
next
  case (Cons e es)
  obtain s' r where r: "route_event now False e s = (s', r)" by force
  note i = route_inv [OF Cons.prems(1,2,3) r] and y = route_syncing [OF r]
  show ?case
  proof (cases "present (ap_target_remote_id (an_payload e))")
    case True
    then show ?thesis using Cons.prems by (simp add: an_inv_def)
  next
    case False
    then show ?thesis using i y r Cons.prems(4) Cons.IH [of s'] by (cases r) (auto simp: an_inv_def)
  qed
qed

lemma an_resolved_inv:
  assumes "rows_inv s" "rest_inv s (e # es)" "snapshot_inv s alls" "aq_syncing s"
  shows "an_inv (an_resolved now found e es alls s)"
proof -
  obtain s' r where r: "route_event now found e s = (s', r)" by force
  note i = route_inv [OF assms(1,2,3) r] and y = route_syncing [OF r]
  show ?thesis using i y assms(4) rest_sync_inv [of s' es alls] by (cases r) (auto simp: an_resolved_def r an_inv_def)
qed

lemma syncable_open: "set (syncable es) = {e \<in> set es. open_event e}"
  by (auto simp: syncable_def open_event_def)

lemma load_inv:
  assumes "rows_inv s" "aq_syncing s"
  shows "an_inv (syncEvents now s)"
proof -
  note D = rows_invD [OF assms(1)]
  have row: "an_row s (an_id e) = Some e" if "e \<in> set (aq_store s)" for e
    using that idb.get_iff_row [OF D(1)] by blast
  have "distinct (map an_id (aq_store s))" using D(1) by (rule idb.distinct_keys)
  then have "distinct (map an_id (syncable (aq_store s)))"
    by (auto simp: syncable_def distinct_map intro: inj_on_subset)
  then have "rest_inv s (syncable (aq_store s))" using row by (simp add: rest_inv_def syncable_open)
  moreover have "snapshot_inv s (aq_store s)"
    using row D(2) by (fastforce simp: snapshot_inv_def row_ok_def)
  ultimately show ?thesis unfolding syncEvents_def using assms by (intro rest_sync_inv)
qed

section \<open>Answers, new events, closing\<close>

text \<open>A row that changes together with what the log says of it.\<close>

lemma store_put_log:
  assumes "rows_inv s" "an_row s (an_id e) \<noteq> None" "log' = aq_log s @ cs" "row_ok log' e" "\<forall>i t p. Queued i t p \<notin> set cs"
    "\<And>j. j \<noteq> an_id e \<Longrightarrow> times_recorded j log' = times_recorded j (aq_log s) \<and> refused j log' = refused j (aq_log s)"
    "times_recorded (an_id e) log' \<le> 1" "times_recorded (an_id e) log' + refused (an_id e) log' \<le> MAX_RETRIES"
  shows "rows_inv ((an_put e s)\<lparr>aq_log := log'\<rparr>)"
proof -
  note D = rows_invD [OF assms(1)]
  have q: "Queued i t p \<in> set log' \<longleftrightarrow> Queued i t p \<in> set (aq_log s)" for i t p using assms(3,5) by auto
  have "row_ok log' f" if "an_row (an_put e s) i = Some f" for i f
  proof (cases "i = an_id e")
    case True
    then show ?thesis using that assms(4) by (simp add: an_row_put [OF D(1)])
  next
    case False
    then have "row_ok (aq_log s) f" "an_id f = i" using that D(2) D(4) by (simp_all add: an_row_put [OF D(1)])
    then show ?thesis using assms(3) assms(6) [OF False] by (cases "an_status f") (auto simp: row_ok_def)
  qed
  moreover have "id_ok log' (aq_store (an_put e s)) i" for i
  proof (cases "i = an_id e")
    case True
    then show ?thesis
      using D(3) [of i] assms(4,7,8) q by (auto simp: id_ok_def an_row_put [OF D(1)] row_ok_def)
  next
    case False
    then show ?thesis
      using D(3) [of i] assms(3) assms(6) [OF False] q by (auto simp: id_ok_def an_row_put [OF D(1)])
  qed
  ultimately show ?thesis using D(1) by (simp add: rows_inv_def an_put_def idb_ok_put)
qed

lemma log_inv: "rest_inv (s\<lparr>aq_log := l\<rparr>) es = rest_inv s es"
  "set (aq_log s) \<subseteq> set l \<Longrightarrow> snapshot_inv s alls \<Longrightarrow> snapshot_inv (s\<lparr>aq_log := l\<rparr>) alls"
proof -
  show "rest_inv (s\<lparr>aq_log := l\<rparr>) es = rest_inv s es" by (simp add: rest_inv_def)
  show "snapshot_inv (s\<lparr>aq_log := l\<rparr>) alls" if "set (aq_log s) \<subseteq> set l" "snapshot_inv s alls"
    using that unfolding snapshot_inv_def by (simp, blast)
qed

lemma an_answered_inv:
  assumes "rows_inv s" "an_row s (an_id e) = Some e" "an_status e = AnSending" "callable (an_type e) (an_payload e)"
    "rest_inv s es" "an_id e \<notin> an_id ` set es" "snapshot_inv s alls"
  shows "rows_inv (an_answered a e s) \<and> rest_inv (an_answered a e s) es \<and> snapshot_inv (an_answered a e s) alls"
proof -
  note D = rows_invD [OF assms(1)]
  have r: "row_ok (aq_log s) e" by (rule D(2) [OF assms(2)])
  have n: "times_recorded (an_id e) (aq_log s) = 0" "an_retry_count e < MAX_RETRIES" "refused (an_id e) (aq_log s) \<le> an_retry_count e"
    using r assms(3) by (simp_all add: row_ok_def)
  have no: "\<not> over e" using assms(3) by (simp add: over_def)
  have upd: "rows_inv ((an_put e' s)\<lparr>aq_log := aq_log s @ cs\<rparr>) \<and> rest_inv ((an_put e' s)\<lparr>aq_log := aq_log s @ cs\<rparr>) es
      \<and> snapshot_inv ((an_put e' s)\<lparr>aq_log := aq_log s @ cs\<rparr>) alls"
    if "an_id e' = an_id e" "row_ok (aq_log s @ cs) e'" "\<forall>i t p. Queued i t p \<notin> set cs"
      "\<And>j. j \<noteq> an_id e \<Longrightarrow> times_recorded j (aq_log s @ cs) = times_recorded j (aq_log s) \<and> refused j (aq_log s @ cs) = refused j (aq_log s)"
      "times_recorded (an_id e) (aq_log s @ cs) + refused (an_id e) (aq_log s @ cs) \<le> MAX_RETRIES" "times_recorded (an_id e) (aq_log s @ cs) \<le> 1" for e' cs
  proof -
    have "rows_inv ((an_put e' s)\<lparr>aq_log := aq_log s @ cs\<rparr>)"
      by (rule store_put_log [OF assms(1)]) (use that assms(2) in simp_all)
    moreover have "rest_inv (an_put e' s) es" using put_rest [OF D(1) assms(5), of e'] that(1) assms(6) by simp
    moreover have "snapshot_inv (an_put e' s) alls" using put_snapshot [OF D(1) assms(7), of e' e] that(1) assms(2) no by simp
    ultimately show ?thesis by (auto simp: log_inv an_put_def)
  qed
  show ?thesis
  proof (cases a)
    case Took
    have "an_answered a e s = (an_put (e\<lparr>an_status := AnSent\<rparr>) s)\<lparr>aq_log := aq_log s @ [Recorded (an_id e)]\<rparr>"
      by (simp add: an_answered_def Took an_put_def an_log_def)
    then show ?thesis using upd [of "e\<lparr>an_status := AnSent\<rparr>" "[Recorded (an_id e)]"] r n by (simp add: row_ok_def)
  next
    case (Refusal m)
    let ?e = "e\<lparr>an_status := AnFailed, an_retry_count := Suc (an_retry_count e), an_error := Some m\<rparr>"
    let ?cs = "[Refused (an_id e), Warned (an_id e) (Suc (an_retry_count e))]"
    have c: "times_recorded j (aq_log s @ ?cs) = times_recorded j (aq_log s)" "refused j (aq_log s @ ?cs) = refused j (aq_log s) + (if j = an_id e then 1 else 0)" for j
      by (simp_all add: times_recorded_def refused_def)
    have "an_answered a e s = (an_put ?e s)\<lparr>aq_log := aq_log s @ ?cs\<rparr>"
      by (simp add: an_answered_def Refusal sync_failed_def an_put_def an_log_def)
    then show ?thesis using upd [of ?e ?cs] r n by (simp add: row_ok_def c)
  next
    case (NotReached m)
    let ?e = "e\<lparr>an_status := AnFailed, an_retry_count := Suc (an_retry_count e), an_error := Some m\<rparr>"
    have "an_answered a e s = (an_put ?e s)\<lparr>aq_log := aq_log s @ [Warned (an_id e) (Suc (an_retry_count e))]\<rparr>"
      by (simp add: an_answered_def NotReached sync_failed_def an_put_def an_log_def)
    then show ?thesis using upd [of ?e "[Warned (an_id e) (Suc (an_retry_count e))]"] r n by (simp add: row_ok_def)
  qed
qed

text \<open>A new event touches no row a sync has in hand.\<close>

lemma queued_put:
  assumes "rows_inv s" "\<forall>t p. Queued (an_id e) t p \<notin> set (aq_log s)" "an_status e = AnPending" "an_retry_count e = 0" "an_max_retries e = MAX_RETRIES"
    "s' = an_put e (an_log (Queued (an_id e) (an_type e) (an_payload e)) s)"
  shows "rows_inv s'" "rest_inv s es \<Longrightarrow> rest_inv s' es" "snapshot_inv s alls \<Longrightarrow> snapshot_inv s' alls" "an_row s i = Some f \<Longrightarrow> an_row s' i = Some f"
proof -
  let ?s = "an_put e (an_log (Queued (an_id e) (an_type e) (an_payload e)) s)"
  note D = rows_invD [OF assms(1)]
  let ?log = "aq_log s @ [Queued (an_id e) (an_type e) (an_payload e)]"
  have fresh: "an_row s i = Some f \<Longrightarrow> i \<noteq> an_id e" for i f
    using D(2) [of i f] D(4) [of i f] assms(2) by (auto simp: row_ok_def)
  have row: "an_row ?s i = (if i = an_id e then Some e else an_row s i)" for i using D(1) by (simp add: an_put_def an_log_def idb_get_put)
  have zero: "times_recorded (an_id e) (aq_log s) = 0" "refused (an_id e) (aq_log s) = 0" using D(3) [of "an_id e"] assms(2) by (simp_all add: id_ok_def)
  have "row_ok ?log f" if "an_row ?s i = Some f" for i f
  proof (cases "i = an_id e")
    case True
    then show ?thesis using that zero assms(3-5) by (simp add: row row_ok_def MAX_RETRIES_def)
  next
    case False
    then have "row_ok (aq_log s) f" using that D(2) by (simp add: row)
    then show ?thesis by (auto simp: row_ok_def split: an_status.splits)
  qed
  moreover have "id_ok ?log (aq_store ?s) i" for i
    using D(3) [of i] zero assms(2) row [of i] by (cases "i = an_id e") (auto simp: id_ok_def)
  ultimately show "rows_inv s'" using D(1) by (simp add: assms(6) rows_inv_def an_put_def an_log_def idb_ok_put)
  show "rest_inv s' es" if "rest_inv s es" using that fresh by (auto simp: assms(6) rest_inv_def row)
  show "snapshot_inv s' alls" if "snapshot_inv s alls"
    using that assms(2) by (auto simp: assms(6) snapshot_inv_def row) (auto simp: an_put_def an_log_def)
  show "an_row s' i = Some f" if "an_row s i = Some f" using that fresh by (auto simp: assms(6) row)
qed

lemma trigger_inv: "an_inv s \<Longrightarrow> an_inv (trigger s)"
  by (auto simp: an_inv_def trigger_def rows_inv_def)

lemma fields_inv [simp]: "an_inv (s\<lparr>aq_interval := b\<rparr>) = an_inv s" "an_inv (s\<lparr>aq_pending := n\<rparr>) = an_inv s"
  by (simp_all add: an_inv_def rows_inv_def rest_inv_def snapshot_inv_def split: an_phase.split)

lemma queue_inv:
  assumes "an_inv s" "\<forall>t p. Queued i t p \<notin> set (aq_log s)"
  shows "an_inv (queueAnalyticsEvent i t p session now s)"
proof -
  define p' where "p' = (if present (ap_target_remote_id p) \<and> \<not> present (ap_session_id p) \<and> present session then p\<lparr>ap_session_id := session\<rparr> else p)"
  define e where "e = \<lparr>an_id = i, an_type = t, an_payload = p', an_status = AnPending, an_retry_count = 0, an_max_retries = MAX_RETRIES,
               an_created_at = now, an_last_attempt_at = None, an_error = None\<rparr>"
  let ?s = "an_put e (an_log (Queued (an_id e) (an_type e) (an_payload e)) s)"
  have st: "rows_inv s" using assms(1) by (simp add: an_inv_def)
  have h: "\<forall>t p. Queued (an_id e) t p \<notin> set (aq_log s)" "an_status e = AnPending" "an_retry_count e = 0" "an_max_retries e = MAX_RETRIES"
    using assms(2) by (simp_all add: e_def)
  note q = queued_put [OF st h refl]
  have "an_inv ?s"
    using assms(1) q by (auto simp: an_inv_def split: an_phase.split) (simp_all add: an_put_def an_log_def)
  moreover have "queueAnalyticsEvent i t p session now s = trigger (refreshPendingCount ?s)"
    by (simp add: queueAnalyticsEvent_def Let_def p'_def e_def)
  ultimately show ?thesis using trigger_inv by (simp add: refreshPendingCount_def)
qed

lemma an_step_inv:
  assumes "an_inv s" "fresh_id ev s"
  shows "an_inv (an_step ev s)"
proof (cases ev)
  case (AnQueue i t p session now)
  have "\<forall>t p. Queued i t p \<notin> set (aq_log s)" using assms(2) by (auto simp: AnQueue fresh_id_def)
  then show ?thesis using queue_inv [OF assms(1)] by (simp add: AnQueue an_step_def)
next
  case (AnLoaded now)
  then show ?thesis using assms(1) load_inv [of s now] by (cases "aq_phase s") (simp_all add: an_step_def an_inv_def)
next
  case (AnResolved found now)
  then show ?thesis using assms(1) an_resolved_inv [of s] by (cases "aq_phase s") (simp_all add: an_step_def an_inv_def)
next
  case (AnAnswer a now)
  have y: "aq_syncing (an_answered a e s) = aq_syncing s" for e by (cases a) (simp_all add: an_answered_def sync_failed_def an_put_def an_log_def)
  show ?thesis
  proof (cases "aq_phase s")
    case (AnCalling e es alls)
    then have "an_inv (sync_rest now alls es (an_answered a e s))"
      using assms(1) an_answered_inv [of s e es alls a] by (intro rest_sync_inv) (simp_all add: an_inv_def y)
    then show ?thesis by (simp add: AnAnswer an_step_def AnCalling)
  qed (use assms(1) in \<open>simp_all add: AnAnswer an_step_def\<close>)
next
  case AnStart
  then show ?thesis using assms(1) trigger_inv [of "s\<lparr>aq_interval := True\<rparr>"] by (simp add: an_step_def startAnalyticsSync_def)
next
  case AnStop
  then show ?thesis using assms(1) by (simp add: an_step_def stopAnalyticsSync_def)
next
  case AnTick
  then show ?thesis using assms(1) trigger_inv [OF assms(1)] by (simp add: an_step_def)
next
  case AnThrows
  have "an_inv (s\<lparr>aq_syncing := False, aq_phase := AnIdle\<rparr>)" using assms(1) by (simp add: an_inv_def rows_inv_def)
  then show ?thesis using assms(1) by (cases "aq_phase s") (simp_all add: AnThrows an_step_def)
next
  case AnRestart
  then show ?thesis using assms(1) by (simp add: an_step_def app_restart_def an_inv_def rows_inv_def)
qed

lemma an_reach_inv: "an_reach s \<Longrightarrow> an_inv s"
proof (induction rule: an_reach.induct)
  case start
  show ?case by (simp add: an_inv_def rows_inv_def empty_queue_def idb_get_def id_ok_def)
next
  case (event s ev)
  then show ?case by (simp add: an_step_inv)
qed

section \<open>A row left behind\<close>

definition left_behind :: "string \<Rightarrow> analytics_event \<Rightarrow> analytics \<Rightarrow> bool" where
  "left_behind i e s = (an_row s i = Some e \<and> an_status e = AnSending \<and> (\<forall>f es alls. aq_phase s = AnCalling f es alls \<longrightarrow> an_id f \<noteq> i))"

lemma route_other:
  assumes "idb_ok an_id (aq_store s)" "route_event now found x s = (s', r)" "an_id x \<noteq> i"
  shows "an_row s' i = an_row s i \<and> (\<forall>f. r = Some f \<longrightarrow> an_id f = an_id x) \<and> aq_phase s' = aq_phase s"
  using assms by (auto simp: route_event_def syncSingleEvent_def Let_def an_put_def idb_get_put idb_ok_put split: if_splits)

lemma deletes_other:
  "idb_ok an_id st \<Longrightarrow> \<forall>d \<in> set ds. an_id d \<noteq> i \<Longrightarrow> idb_get an_id i (fold (\<lambda>e st. idb_delete an_id (an_id e) st) ds st) = idb_get an_id i st"
  by (induction ds arbitrary: st) (auto simp: an_row_del idb.ok_del)

lemma rest_left:
  assumes "rows_inv s" "rest_inv s es" "snapshot_inv s alls" "an_row s i = Some e" "an_status e = AnSending"
  shows "left_behind i e (sync_rest now alls es s)"
  using assms
proof (induction es arbitrary: s)
  case Nil
  have "\<forall>d \<in> set (filter (stale now) alls). an_id d \<noteq> i"
    using Nil.prems(3-5) by (auto simp: snapshot_inv_def stale_def over_def)
  from deletes_other [OF rows_invD(1) [OF Nil.prems(1)] this] show ?case
    using Nil.prems(4,5) by (simp add: left_behind_def finish_sync_def refreshPendingCount_def)
next
  case (Cons x es)
  obtain s' r where r: "route_event now False x s = (s', r)" by force
  have "an_row s (an_id x) = Some x" "open_event x" using Cons.prems(2) by (auto simp: rest_inv_def)
  then have x: "an_id x \<noteq> i" using Cons.prems(4,5) by (auto simp: open_event_def)
  note o = route_other [OF rows_invD(1) [OF Cons.prems(1)] r x] and v = route_inv [OF Cons.prems(1,2,3) r]
  have row: "an_row s' i = Some e" using o Cons.prems(4) by simp
  show ?case
  proof (cases "present (ap_target_remote_id (an_payload x))")
    case True
    then show ?thesis using Cons.prems(4,5) by (simp add: left_behind_def)
  next
    case remote: False
    show ?thesis
    proof (cases r)
      case None
      then show ?thesis using Cons.IH [of s'] v row Cons.prems(5) remote r by simp
    next
      case (Some f)
      then show ?thesis using row Cons.prems(5) o x remote by (auto simp: left_behind_def r)
    qed
  qed
qed

lemma an_resolved_left:
  assumes "rows_inv s" "rest_inv s (x # es)" "snapshot_inv s alls" "an_row s i = Some e" "an_status e = AnSending"
  shows "left_behind i e (an_resolved now found x es alls s)"
proof -
  obtain s' r where r: "route_event now found x s = (s', r)" by force
  have "an_row s (an_id x) = Some x" "open_event x" using assms(2) by (auto simp: rest_inv_def)
  then have x: "an_id x \<noteq> i" using assms(4,5) by (auto simp: open_event_def)
  note o = route_other [OF rows_invD(1) [OF assms(1)] r x] and v = route_inv [OF assms(1,2,3) r]
  have row: "an_row s' i = Some e" using o assms(4) by simp
  show ?thesis
  proof (cases r)
    case None
    then show ?thesis using rest_left [of s' es alls i e now] v row assms(5) by (simp add: an_resolved_def r)
  next
    case (Some f)
    then show ?thesis using row assms(5) o x by (auto simp: left_behind_def an_resolved_def r)
  qed
qed

lemma left_step:
  assumes "an_inv s" "fresh_id ev s" "left_behind i e s"
  shows "left_behind i e (an_step ev s)"
proof -
  have st: "rows_inv s" and l: "an_row s i = Some e" "an_status e = AnSending" using assms(1,3) by (simp_all add: an_inv_def left_behind_def)
  have phase: "left_behind i e (s\<lparr>aq_syncing := b, aq_phase := x\<rparr>)" if "\<forall>f es alls. x \<noteq> AnCalling f es alls" for b x
    using l that by (simp add: left_behind_def)
  have fields: "left_behind i e (u\<lparr>aq_interval := b\<rparr>) = left_behind i e u" "left_behind i e (u\<lparr>aq_pending := n\<rparr>) = left_behind i e u" for u b n
    by (simp_all add: left_behind_def)
  have trig: "left_behind i e (trigger u)" if "left_behind i e u" for u
    using that by (simp add: left_behind_def trigger_def)
  show ?thesis
  proof (cases ev)
    case (AnQueue j t p session now)
    have "i \<noteq> j"
    proof
      assume "i = j"
      have "row_ok (aq_log s) e" "an_id e = i" using rows_invD(2,4) [OF st l(1)] by blast+
      then have "Queued i (an_type e) (an_payload e) \<in> set (aq_log s)" by (simp add: row_ok_def)
      then show False using assms(2) \<open>i = j\<close> by (auto simp: AnQueue fresh_id_def)
    qed
    then have "left_behind i e (an_put f (an_log c s))" if "an_id f = j" for f c
      using assms(3) that rows_invD(1) [OF st] by (simp add: left_behind_def an_put_def an_log_def idb_get_put)
    then show ?thesis
      using trig fields(2) by (simp add: AnQueue an_step_def queueAnalyticsEvent_def Let_def refreshPendingCount_def)
  next
    case AnStart
    then show ?thesis using assms(3) trig [of "s\<lparr>aq_interval := True\<rparr>"] fields(1) by (simp add: an_step_def startAnalyticsSync_def)
  next
    case AnStop
    then show ?thesis using assms(3) fields(1) by (simp add: an_step_def stopAnalyticsSync_def)
  next
    case AnTick
    then show ?thesis using assms(3) trig by (simp add: an_step_def)
  next
    case (AnLoaded now)
    have row: "an_row s (an_id f) = Some f" if "f \<in> set (aq_store s)" for f
      using that idb.get_iff_row [OF rows_invD(1) [OF st]] by blast
    have "distinct (map an_id (syncable (aq_store s)))"
      using idb.distinct_keys [OF rows_invD(1) [OF st]] by (auto simp: syncable_def distinct_map intro: inj_on_subset)
    then have "rest_inv s (syncable (aq_store s))" using row by (simp add: rest_inv_def syncable_open)
    moreover have "snapshot_inv s (aq_store s)" using row rows_invD(2) [OF st] by (fastforce simp: snapshot_inv_def row_ok_def)
    ultimately have "left_behind i e (syncEvents now s)" unfolding syncEvents_def using st l by (intro rest_left)
    then show ?thesis using assms(3) by (cases "aq_phase s") (simp_all add: AnLoaded an_step_def)
  next
    case (AnResolved found now)
    then show ?thesis
      using assms(1,3) an_resolved_left [OF st _ _ l] by (cases "aq_phase s") (simp_all add: an_step_def an_inv_def)
  next
    case AnThrows
    then show ?thesis using assms(3) phase by (cases "aq_phase s") (simp_all add: an_step_def)
  next
    case (AnAnswer a now)
    show ?thesis
    proof (cases "aq_phase s")
      case (AnCalling f es alls)
      have f: "an_id f \<noteq> i" using assms(3) AnCalling by (simp add: left_behind_def)
      have "an_row (an_answered a f s) i = Some e"
        using l(1) f rows_invD(1) [OF st] by (cases a) (simp_all add: an_answered_def sync_failed_def an_put_def an_log_def idb_get_put)
      moreover have "rows_inv (an_answered a f s) \<and> rest_inv (an_answered a f s) es \<and> snapshot_inv (an_answered a f s) alls"
        using assms(1) AnCalling by (intro an_answered_inv) (simp_all add: an_inv_def)
      ultimately have "left_behind i e (sync_rest now alls es (an_answered a f s))" using l(2) by (intro rest_left) simp_all
      then show ?thesis by (simp add: AnAnswer an_step_def AnCalling)
    qed (use assms(3) in \<open>simp_all add: AnAnswer an_step_def\<close>)
  next
    case AnRestart
    then show ?thesis using l by (simp add: an_step_def app_restart_def left_behind_def)
  qed
qed

section \<open>What the queue promises\<close>


text \<open>C39: A play that was queued with its ids and the url of its server is in the store and not marked as sent, or the server has taken it, or
  five attempts have failed; nothing else makes it disappear.\<close>

theorem an_kept:
  assumes "an_reach s" "Queued i t p \<in> set (aq_log s)" "callable t p" "present (ap_target_base_url p)"
  shows "(\<exists>e. an_row s i = Some e \<and> an_status e \<noteq> AnSent) \<or> times_recorded i (aq_log s) = 1 \<or> Warned i 5 \<in> set (aq_log s)"
proof -
  have st: "rows_inv s" using an_reach_inv [OF assms(1)] by (simp add: an_inv_def)
  note D = rows_invD [OF st]
  have five: "MAX_RETRIES = 5" by (simp add: MAX_RETRIES_def)
  show ?thesis
  proof (cases "an_row s i")
    case None
    then show ?thesis using D(3) [of i] assms(2-4) five unfolding id_ok_def by auto
  next
    case (Some e)
    have r: "row_ok (aq_log s) e" "an_id e = i" using D(2,4) [OF Some] by blast+
    then have "Queued i (an_type e) (an_payload e) \<in> set (aq_log s)" by (simp add: row_ok_def)
    then have "an_type e = t" "an_payload e = p" using D(3) [of i] assms(2) unfolding id_ok_def by blast+
    then have "times_recorded i (aq_log s) = 1" if "an_status e = AnSent" using r that assms(3,4) by (simp add: row_ok_def)
    then show ?thesis using Some by blast
  qed
qed

inductive an_later :: "analytics \<Rightarrow> analytics \<Rightarrow> bool" for s where
  now: "an_later s s"
| later: "an_later s s' \<Longrightarrow> fresh_id ev s' \<Longrightarrow> an_later s (an_step ev s')"

text \<open>C40: An event whose sending was cut off by the application being closed is lost to every later sync: whatever happens from then on it
  stays in the store as sending, neither sent again nor removed.\<close>

theorem an_stuck:
  assumes "an_reach s" "an_row s i = Some e" "an_status e = AnSending" "an_later (an_step AnRestart s) s'"
  shows "an_row s' i = Some e"
proof -
  have r: "an_reach (an_step AnRestart s)" using assms(1) by (rule an_reach.event) (simp add: fresh_id_def)
  have l: "left_behind i e (an_step AnRestart s)" using assms(2,3) by (simp add: an_step_def app_restart_def left_behind_def)
  from assms(4) have "an_reach s' \<and> left_behind i e s'"
  proof (induction rule: an_later.induct)
    case now
    then show ?case using r l by blast
  next
    case (later u ev)
    then show ?case using left_step [OF an_reach_inv] an_reach.event by blast
  qed
  then show ?thesis by (simp add: left_behind_def)
qed

section \<open>Applied\<close>

definition demo_play :: an_payload where
  "demo_play = \<lparr>ap_media_blob_id = Some ''b'', ap_song_id = Some ''s'', ap_video_id = None, ap_session_id = None, ap_target_remote_id = None,
     ap_target_base_url = Some ''u''\<rparr>"

text \<open>A play is queued and on its way to the server.\<close>

definition demo_sending :: analytics where
  "demo_sending = an_step (AnLoaded 2) (an_step (AnQueue ''e'' PlayComplete demo_play None 1) empty_queue)"

lemma demo_sending_reach: "an_reach demo_sending"
  unfolding demo_sending_def by (intro an_reach.intros) (simp_all add: fresh_id_def empty_queue_def)

lemma demo_sending_log: "aq_log demo_sending = [Queued ''e'' PlayComplete demo_play]"
  by (simp add: demo_sending_def an_step_def queueAnalyticsEvent_def Let_def trigger_def refreshPendingCount_def an_put_def an_log_def empty_queue_def
      syncEvents_def syncable_def route_event_def syncSingleEvent_def callable_def present_def demo_play_def MAX_RETRIES_def)

lemma demo_sending_row: "case an_row demo_sending ''e'' of Some e \<Rightarrow> an_status e = AnSending | None \<Rightarrow> False"
  by (simp add: demo_sending_def an_step_def queueAnalyticsEvent_def Let_def trigger_def refreshPendingCount_def an_put_def an_log_def empty_queue_def
      syncEvents_def syncable_def route_event_def syncSingleEvent_def callable_def present_def demo_play_def MAX_RETRIES_def idb_get_def)


lemma an_kept_witness:
  "(\<exists>e. an_row demo_sending ''e'' = Some e \<and> an_status e \<noteq> AnSent) \<or> times_recorded ''e'' (aq_log demo_sending) = 1 \<or> Warned ''e'' 5 \<in> set (aq_log demo_sending)"
  by (rule an_kept [OF demo_sending_reach, of _ PlayComplete demo_play])
    (simp_all add: demo_sending_log callable_def present_def demo_play_def)

lemma an_stuck_witness:
  "case an_row (an_step (AnLoaded 9) (an_step AnStart (an_step AnRestart demo_sending))) ''e'' of Some e \<Rightarrow> an_status e = AnSending | None \<Rightarrow> False"
proof -
  obtain e where e: "an_row demo_sending ''e'' = Some e" "an_status e = AnSending"
    using demo_sending_row by (cases "an_row demo_sending ''e''") auto
  have "an_later (an_step AnRestart demo_sending) (an_step (AnLoaded 9) (an_step AnStart (an_step AnRestart demo_sending)))"
    by (intro an_later.intros) (simp_all add: fresh_id_def)
  from an_stuck [OF demo_sending_reach e this] show ?thesis using e(2) by simp
qed

end
