(* ===== verification/Spec2Isabelle.thy ===== *)
theory Spec2Isabelle
  imports AddPeerFlow QueueClaims TransferClaims KnockClaims Access ShareClaims PresenceClaims PlayerClaims ApiRouter
    BlobClaims SnatchClaims IrohClaims EnsureClaims ControlClaims AnalyticsClaims
begin

text \<open>
  A verification development for the TypeScript client of the freqhole music and video player. It
  models the subsystems that carry state and decide what the user keeps or loses, or who may do what,
  as functions and step relations over explicit state, and proves what they promise.

  \<^bold>\<open>Foundations.\<close>

  \<^item> \<open>Prelude\<close>: truthiness, \<open>??\<close>, \<open>trim\<close>, \<open>findIndex\<close>, \<open>slice\<close>, thrown values.
  \<^item> \<open>ObjectStore\<close>: an IndexedDB object store as rows in key order; the locale \<open>keyed_store\<close> is its
    contract, interpreted on the model for every key path.
  \<^item> \<open>JsText\<close>, \<open>Json\<close>, \<open>JsonProps\<close>: JavaScript strings as UTF-16 code units, UTF-8 and base64, \<open>JSON.parse\<close> and
    \<open>JSON.stringify\<close> with their round trip.
  \<^item> \<open>ZodSchema\<close>, \<open>ZodProps\<close>: the schemas the code builds as data. The zod library is not part of the repository: a
    parser is a parameter, its documented behaviour the locale \<open>zod\<close>, and \<open>zod_ref\<close> an interpretation of it. The laws
    on numbers are stated for literals of at most 15 characters.

  \<^bold>\<open>Parts and theories.\<close>

  \<^item> Adding a peer (\<open>lib/haruspex/ts/src/flows/add-peer/\<close>): \<open>PeerAddr\<close> (\<open>share/peer-addr.ts\<close>),
    \<open>AddPeerTypes\<close> (\<open>types.ts\<close>), \<open>AddPeerMachine\<close> (the pure transition function of \<open>machine.ts\<close>, one
    definition per event handler), \<open>AddPeerRunner\<close> (\<open>runner.ts\<close>: effects, generation counter, timers
    and the probe work that settles later), \<open>PendingStore\<close> (the pending remotes of
    \<open>spume/src/app/services/storage/db.ts\<close>), \<open>AddPeerRepository\<close> (the interface between runner and
    store as the locale \<open>pending_repository\<close>, interpreted on the web build's adapter). Invariants of
    the machine are in \<open>AddPeerProps\<close>, of the runner in \<open>AddPeerRunnerProps\<close>, the interleaving of user
    events with settling work in \<open>AddPeerFlow\<close>.
  \<^item> The play queue (\<open>client/spume/src/music/services/queue/\<close> and
    \<open>client/spume/src/app/services/\<close>): \<open>MediaItem\<close> (\<open>mediaItem.ts\<close>, \<open>queueDeparture.ts\<close>),
    \<open>QueueWorld\<close> (the application state and the log of calls to other services), \<open>PurgeMedia\<close>,
    \<open>QueueState\<close> (\<open>setQueue\<close> of \<open>db.ts\<close>, position, limit and progress), \<open>QueueHistory\<close>,
    \<open>ListenProgress\<close>, \<open>QueueOps\<close> (\<open>playQueue\<close>, \<open>addToQueue\<close>) and \<open>QueueEdit\<close> (remove, clear, reorder,
    resume) of \<open>queue.ts\<close>. Their properties are in \<open>QueueHistoryProps\<close>, \<open>QueueProps\<close>, \<open>QueueClaims\<close>.
  \<^item> Transfer queues (\<open>client/spume/src/app/services/transfers/transferQueue.ts\<close>): \<open>TransferQueue\<close>
    holds the registry, its operations and the worker pool as a step relation cut at the awaits;
    \<open>TransferQueueProps\<close> its invariants and rank, \<open>TransferClaims\<close> the properties.
  \<^item> Knocks, the requests for access to a peer (\<open>lib/haruspex/ts/src/knock/\<close>): \<open>KnockStore\<close> the store and its
    operations, \<open>KnockFlow\<close> sending and the sweep that re-checks what is pending, \<open>KnockClaims\<close> the properties.
  \<^item> \<open>Access\<close>: the permission tables and the network adapter that filters sync messages by role.
  \<^item> Share links: \<open>ShareCodec\<close>, \<open>ShareProps\<close>, \<open>ShareClaims\<close>.
  \<^item> Presence between friends (\<open>lib/haruspex/ts/src/protocol/\<close>): \<open>Protocol\<close> (messages, extensions, codec, framing),
    \<open>ProtocolClaims\<close>, \<open>PresenceClient\<close> (\<open>client.ts\<close>, cut at its awaits), \<open>PresenceProps\<close>, \<open>PresenceClaims\<close>.
  \<^item> The player that other devices control (\<open>client/spume/src/cenotaph/\<close>): \<open>PlayerTrust\<close> (the trust store as the locale
    \<open>controller_trust\<close>, \<open>pairing/trustStore.ts\<close> as its interpretation), \<open>PlayerUsers\<close> and \<open>PlayerUsersProps\<close> (the users
    store of \<open>app/services/users/usersStore.ts\<close> behind \<open>adapters/trustStoreAdapter.ts\<close>, the second interpretation),
    \<open>PlayerSession\<close> (\<open>pairing/playerSession.ts\<close>, \<open>pin.ts\<close>, \<open>rateLimiter.ts\<close>), \<open>PlayerProtocol\<close> and
    \<open>PlayerProtocolProps\<close> (\<open>control/schema.ts\<close>, \<open>pairing/protocol.ts\<close>), \<open>PlayerMachine\<close> (the pairing handshake, the
    dispatcher, the registries, the connection handler and the actions of the settings panel: every connection a state
    at one of its awaits, an event resuming one of them), \<open>PlayerProps\<close> (what all runs keep), \<open>PlayerClaims\<close>.
  \<^item> \<open>ApiRouter\<close>: the request router of \<open>cenotaph/control/apiRouter.ts\<close>.
  \<^item> Blobs (\<open>lib/reliquary/ts/src/\<close>): \<open>BlobBytes\<close> (\<open>blobs/bytes-backend.ts\<close> and the file writes of \<open>worker/\<close>; what a
    backend keeps and promises are the locales \<open>bytes_store\<close> and \<open>steady_store\<close>, interpreted on both backends),
    \<open>BlobDb\<close> (\<open>blobs/db.ts\<close> with its paginated listing), \<open>BlobStore\<close> (\<open>blobs/store.ts\<close>, every operation a task cut at
    its awaits), \<open>BlobStoreProps\<close>, \<open>BlobClaims\<close>; downloads from peers in \<open>Snatch\<close> (\<open>transfer/snatch.ts\<close> into memory) and
    \<open>SnatchDisk\<close> (to disk, with the chunks of downloads that were given up), \<open>SnatchClaims\<close>.
  \<^item> The network adapter of the document sync (\<open>lib/reliquary/ts/src/automerge/iroh-network-adapter.ts\<close>): \<open>IrohAdapter\<close>
    (streams, read and accept loops, dialling, reconnecting, stop and restart, every continuation of an await or a timer
    one step over a list of waiting tasks), \<open>IrohProps\<close> (timers and what is seen of each operation), \<open>IrohStreams\<close> and
    \<open>IrohInvariant\<close> (the invariants), \<open>IrohReach\<close> (every step keeps them), \<open>IrohClaims\<close>.
  \<^item> The ensure-blob protocol (\<open>lib/reliquary/ts/src/ensure/\<close>): \<open>Ensure\<close> (client and responder, on any bytes), \<open>EnsureClaims\<close>
    (the two on one stream).
  \<^item> The controller's side of a player (\<open>client/spume/src/app/services/players/playerPairingClient.ts\<close>): \<open>ControlSession\<close>
    (one-shot dials, command sessions, the status subscription), \<open>ControlClaims\<close>.
  \<^item> The analytics queue (\<open>client/spume/src/music/services/analytics/analyticsQueue.ts\<close>): \<open>AnalyticsQueue\<close> (over an object
    store, with the application closed at any await), \<open>AnalyticsClaims\<close>.

  \<^bold>\<open>Correspondence.\<close> Interfaces are records, unions are datatypes, module-level state is a record
  passed along, a promise that rejects is \<open>Inl\<close>. Code outside the repository (network, the zod library,
  \<open>crypto.randomUUID\<close>, random bytes, the clock, cache services, the tables of \<open>toUpperCase\<close>, the hash function, what
  the browser's storage accepts and refuses) is a parameter or a logged call. So are the interfaces the code itself leaves open: the playback backend and the trust store of a
  player, the route handlers and the role lookup of the router.
  Time stamps and counts are unbounded; JavaScript numbers stay below \<open>2 ^ 53\<close> there.

  \<^bold>\<open>Bounds and fuel.\<close> \<open>dispatch\<close> of the add-peer runner feeds the events an effect produces back into
  the machine; it runs with fuel 8, and \<open>ap_dispatch_settles\<close> shows no dispatch ever runs out of it.
  Every other recursion is structural or has a proved measure: a frame reader's buffer shrinks with each frame, a
  frame is shorter than \<open>2 ^ 32\<close>. The worker pool's rank gives the bound of \<open>tq_terminates\<close>; a player connection has
  at most nine awaits before it closes once its peer is silent. A peer whose dials fail is given up after eight attempts.

  \<^bold>\<open>Not modelled.\<close> Queue operations are taken one at a time: their internal awaits do not interleave
  with each other; the same holds inside one method of the playback backend and inside \<open>allowPeer\<close>. Listeners of the
  presence client and of the signals are taken not to throw and not to call back. IndexedDB failures of the queue
  stores, the desktop build's Rust storage and native accept loop, the user interface's rendering, the audio player
  and radio playback, the controller's mirror of a remote player's queue, the generated API client and
  the Rust server are not modelled.
\<close>

end
